(* ===== verification/TG_Prelude.thy ===== *)
theory TG_Prelude
  imports Main "HOL-Library.Word" "HOL-Library.Multiset"
begin

text \<open>
  Shared vocabulary of the development: the machine integers of the firmware, the outcome
  of a C function that may fail or run into behaviour the C standard leaves undefined, the
  search loops over fixed arrays (first matching index), the two idioms the C code uses to
  keep tables in static arrays (a counted prefix with swap-with-last removal, and slots with
  an \<open>active\<close> flag), and the contract of a bounded registry of IPv4 addresses that the
  DNS authentication list and the firewall client table both provide.
\<close>

named_theorems inv_intros \<open>preservation facts of the component invariants\<close>

section \<open>Machine integers and outcomes\<close>

type_synonym u8 = "8 word"
type_synonym u16 = "16 word"
type_synonym u32 = "32 word"
type_synonym u64 = "64 word"

text \<open>
  Signed C integers are the same words read with \<^const>\<open>sint\<close>; the type names say
  which reading the code uses.
\<close>

type_synonym i8 = "8 word"
type_synonym i32 = "32 word"
type_synonym i64 = "64 word"

definition INT64_MAX :: u64 where
  "INT64_MAX = 0x7FFFFFFFFFFFFFFF"

definition UINT64_MAX :: u64 where
  "UINT64_MAX = 0xFFFFFFFFFFFFFFFF"

definition UINT32_MAX :: u32 where
  "UINT32_MAX = 0xFFFFFFFF"

lemma sint_small:
  fixes x :: "64 word"
  assumes "uint x < 2 ^ 63"
  shows "sint x = uint x"
proof -
  have "- (2 ^ 63) \<le> uint x" by (rule order_trans[OF _ uint_ge_0]) simp
  then show ?thesis using assms by (simp add: sint_uint signed_take_bit_int_eq_self)
qed

lemma sint_big:
  fixes x :: "64 word"
  assumes "2 ^ 63 \<le> uint x"
  shows "sint x < 0"
proof -
  have "uint x < 2 ^ 64" using uint_lt2p[of x] by simp
  then have "(uint x - 2 ^ 63) mod 2 ^ 64 = uint x - 2 ^ 63"
    using assms by (intro mod_pos_pos_trivial) auto
  moreover have "(uint x + 2 ^ 63) mod 2 ^ 64 = (uint x - 2 ^ 63) mod 2 ^ 64"
    using mod_add_self2[of "uint x - 2 ^ 63" "2 ^ 64"] by (simp add: add.commute)
  ultimately show ?thesis
    using \<open>uint x < 2 ^ 64\<close> by (simp add: sint_uint signed_take_bit_eq_take_bit_shift take_bit_eq_mod)
qed

lemma unat_Suc_less:
  fixes n e :: "'a :: len word"
  assumes "n < e"
  shows "unat (n + 1) = unat n + 1"
proof -
  have "unat n + 1 \<le> unat e" using assms by (simp add: word_less_nat_alt)
  also have "unat e < 2 ^ LENGTH('a)" by (rule unsigned_less)
  finally show ?thesis by (simp add: unat_word_ariths)
qed

lemma sint_diff_time:
  fixes now start :: "64 word"
  assumes "0 \<le> sint start" "sint start \<le> sint now"
  shows "sint (now - start) = sint now - sint start"
proof -
  have "sint now - sint start < 2 ^ 63" using sint_lt[of now] assms by simp
  moreover have "- (2 ^ 63) \<le> sint now - sint start" using assms by simp
  ultimately show ?thesis by (simp add: sint_word_ariths signed_take_bit_int_eq_self)
qed

text \<open>
  A fallible C function: \<open>Ok\<close> is \<open>ESP_OK\<close> (or \<open>true\<close>) with the value of its out
  parameter, \<open>Fail\<close> the error return, \<open>Undef\<close> an execution that reaches an operation
  whose behaviour C leaves undefined.
\<close>

datatype 'a cres = Ok 'a | Fail | Undef

primrec cbind :: "'a cres \<Rightarrow> ('a \<Rightarrow> 'b cres) \<Rightarrow> 'b cres" where
  "cbind (Ok x) f = f x"
| "cbind Fail f = Fail"
| "cbind Undef f = Undef"

lemma cbind_Ok_iff: "cbind m f = Ok y \<longleftrightarrow> (\<exists>x. m = Ok x \<and> f x = Ok y)"
  by (cases m) auto

section \<open>Search loops over arrays\<close>

text \<open>The loop \<open>for (i = 0; i < n; i++) if (P(a[i])) return i;\<close>\<close>

primrec first_idx :: "('a \<Rightarrow> bool) \<Rightarrow> 'a list \<Rightarrow> nat option" where
  "first_idx P [] = None"
| "first_idx P (x # xs) = (if P x then Some 0 else map_option Suc (first_idx P xs))"

lemma first_idx_None_iff: "first_idx P xs = None \<longleftrightarrow> (\<forall>x\<in>set xs. \<not> P x)"
  by (induction xs) auto

lemma first_idx_Some_iff:
  "first_idx P xs = Some i \<longleftrightarrow> i < length xs \<and> P (xs ! i) \<and> (\<forall>j<i. \<not> P (xs ! j))"
proof (induction xs arbitrary: i)
  case Nil
  then show ?case by simp
next
  case (Cons x xs)
  show ?case
  proof (cases i)
    case 0
    then show ?thesis by (auto simp: Cons.IH)
  next
    case (Suc k)
    then show ?thesis by (auto simp: Cons.IH less_Suc_eq_0_disj)
  qed
qed

lemma first_idx_SomeD:
  assumes "first_idx P xs = Some i"
  shows "i < length xs" "P (xs ! i)"
  using assms by (auto simp: first_idx_Some_iff)

lemma first_idx_exists: "(\<exists>i. first_idx P xs = Some i) \<longleftrightarrow> (\<exists>x\<in>set xs. P x)"
  using first_idx_None_iff[of P xs] by (cases "first_idx P xs") auto

lemma first_idx_cong_map: "first_idx P (map f xs) = first_idx (P \<circ> f) xs"
  by (induction xs) auto

text \<open>The slot such a search finds, and what an update of the array does to it.\<close>

lemma find_first_idx: "find P xs = map_option (\<lambda>i. xs ! i) (first_idx P xs)"
  by (induction xs) (auto simp: option.map_comp comp_def)

lemma find_update_other: "\<not> P (xs ! i) \<Longrightarrow> \<not> P y \<Longrightarrow> find P (xs[i := y]) = find P xs"
  by (induction xs arbitrary: i) (auto split: nat.splits)

lemma find_update_first: "first_idx P xs = Some i \<Longrightarrow> P y \<Longrightarrow> find P (xs[i := y]) = Some y"
  by (induction xs arbitrary: i) (auto split: if_splits)

lemma find_update_fill: "find P xs = None \<Longrightarrow> i < length xs \<Longrightarrow> P y \<Longrightarrow> find P (xs[i := y]) = Some y"
  by (induction xs arbitrary: i) (auto split: nat.splits if_splits)

section \<open>Counted arrays: a prefix in use, removal by moving the last entry\<close>

definition swap_remove :: "nat \<Rightarrow> nat \<Rightarrow> 'a list \<Rightarrow> 'a list" where
  "swap_remove i n arr = arr[i := arr ! (n - 1)]"

lemma length_swap_remove [simp]: "length (swap_remove i n arr) = length arr"
  by (simp add: swap_remove_def)

lemma take_Suc_nth: "n < length xs \<Longrightarrow> take (Suc n) xs = take n xs @ [xs ! n]"
  by (rule take_Suc_conv_app_nth)

lemma mset_swap_remove:
  assumes "i < n" "n \<le> length arr"
  shows "mset (take (n - 1) (swap_remove i n arr)) = mset (take n arr) - {#arr ! i#}"
proof -
  obtain m where n: "n = Suc m" using assms by (cases n) auto
  have m: "m < length arr" using assms n by simp
  have t: "take n arr = take m arr @ [arr ! m]" using m n by (simp add: take_Suc_nth)
  show ?thesis
  proof (cases "i = m")
    case True
    then show ?thesis using t n m by (simp add: swap_remove_def)
  next
    case False
    then have im: "i < m" using assms n by simp
    have "take m (arr[i := arr ! m]) = (take m arr)[i := arr ! m]"
      by (simp add: take_update_swap)
    moreover have "mset ((take m arr)[i := arr ! m]) = add_mset (arr ! m) (mset (take m arr) - {#arr ! i#})"
      using im m by (subst mset_update) auto
    moreover have "arr ! i \<in># mset (take m arr)"
      using im m by (auto simp: in_set_conv_nth)
    ultimately show ?thesis using t n im
      by (simp add: swap_remove_def multiset_eq_iff)
  qed
qed

lemma distinct_swap_remove:
  assumes "i < n" "n \<le> length arr" "distinct (take n arr)"
  shows "distinct (take (n - 1) (swap_remove i n arr))"
    and "set (take (n - 1) (swap_remove i n arr)) = set (take n arr) - {arr ! i}"
proof -
  let ?l = "take (n - 1) (swap_remove i n arr)"
  have "mset ?l = mset (remove1 (arr ! i) (take n arr))"
    using mset_swap_remove[OF assms(1,2)] by simp
  then have "distinct ?l = distinct (remove1 (arr ! i) (take n arr))"
    and "set ?l = set (remove1 (arr ! i) (take n arr))"
    by (rule mset_eq_imp_distinct_iff, rule mset_eq_setD)
  then show "distinct ?l" "set ?l = set (take n arr) - {arr ! i}"
    using assms(3) by simp_all
qed

lemma set_take_append:
  assumes "n < length arr"
  shows "set (take (Suc n) (arr[n := x])) = insert x (set (take n arr))"
    and "distinct (take n arr) \<Longrightarrow> x \<notin> set (take n arr) \<Longrightarrow> distinct (take (Suc n) (arr[n := x]))"
proof -
  have "take (Suc n) (arr[n := x]) = take n arr @ [x]"
    using assms by (simp add: take_Suc_nth)
  then show "set (take (Suc n) (arr[n := x])) = insert x (set (take n arr))"
    and "distinct (take n arr) \<Longrightarrow> x \<notin> set (take n arr) \<Longrightarrow> distinct (take (Suc n) (arr[n := x]))"
    by simp_all
qed

lemma map_swap_remove:
  assumes "i < n" "n \<le> length arr"
  shows "map f (swap_remove i n arr) = swap_remove i n (map f arr)"
  using assms by (simp add: swap_remove_def map_update)

section \<open>Slot arrays: counting the entries in use\<close>

definition count_if :: "('a \<Rightarrow> bool) \<Rightarrow> 'a list \<Rightarrow> nat" where
  "count_if P xs = length (filter P xs)"

lemma count_if_simps [simp]:
  "count_if P [] = 0"
  "count_if P (x # xs) = (if P x then Suc (count_if P xs) else count_if P xs)"
  by (simp_all add: count_if_def)

lemma count_if_le: "count_if P xs \<le> length xs"
  by (simp add: count_if_def)

lemma count_if_update:
  assumes "i < length xs"
  shows "count_if P (xs[i := y]) + (if P (xs ! i) then 1 else 0)
       = count_if P xs + (if P y then 1 else 0)"
  using assms
proof (induction xs arbitrary: i)
  case (Cons x xs)
  then show ?case by (cases i) auto
qed simp

lemma count_if_all: "count_if P xs = length xs \<longleftrightarrow> (\<forall>x\<in>set xs. P x)"
  unfolding count_if_def
  by (metis filter_True length_filter_less less_irrefl)

lemma count_if_pos: "0 < count_if P xs \<longleftrightarrow> (\<exists>x\<in>set xs. P x)"
  by (induction xs) auto

lemma count_if_replicate [simp]: "\<not> P x \<Longrightarrow> count_if P (replicate n x) = 0"
  by (induction n) auto

text \<open>The keys of the slots in use, in slot order.\<close>

definition used :: "('a \<Rightarrow> bool) \<Rightarrow> ('a \<Rightarrow> 'k) \<Rightarrow> 'a list \<Rightarrow> 'k list" where
  "used P f xs = map f (filter P xs)"

lemma length_used: "length (used P f xs) = count_if P xs"
  by (simp add: used_def count_if_def)

lemma used_replicate [simp]: "\<not> P x \<Longrightarrow> used P f (replicate n x) = []"
  by (simp add: used_def)

lemma in_used_iff: "k \<in> set (used P f xs) \<longleftrightarrow> (\<exists>i < length xs. P (xs ! i) \<and> f (xs ! i) = k)"
  by (auto simp: used_def in_set_conv_nth)

lemma used_split:
  assumes "i < length xs"
  shows "used P f xs = used P f (take i xs) @ (if P (xs ! i) then [f (xs ! i)] else []) @ used P f (drop (Suc i) xs)"
    and "used P f (xs[i := y]) = used P f (take i xs) @ (if P y then [f y] else []) @ used P f (drop (Suc i) xs)"
proof -
  have "xs = take i xs @ xs ! i # drop (Suc i) xs" using assms by (rule id_take_nth_drop)
  then have "used P f xs = used P f (take i xs @ xs ! i # drop (Suc i) xs)" by simp
  then show "used P f xs = used P f (take i xs) @ (if P (xs ! i) then [f (xs ! i)] else []) @ used P f (drop (Suc i) xs)"
    by (simp add: used_def)
  show "used P f (xs[i := y]) = used P f (take i xs) @ (if P y then [f y] else []) @ used P f (drop (Suc i) xs)"
    using assms by (simp add: used_def upd_conv_take_nth_drop)
qed

lemma used_free:
  assumes "i < length xs" "P (xs ! i)" "\<not> P y" "distinct (used P f xs)"
  shows "distinct (used P f (xs[i := y]))" "set (used P f (xs[i := y])) = set (used P f xs) - {f (xs ! i)}"
  using assms used_split[OF assms(1), of P f] by auto

lemma used_fill:
  assumes "i < length xs" "\<not> P (xs ! i)" "P y" "f y \<notin> set (used P f xs)" "distinct (used P f xs)"
  shows "distinct (used P f (xs[i := y]))" "set (used P f (xs[i := y])) = insert (f y) (set (used P f xs))"
  using assms used_split[OF assms(1), of P f] by auto

lemma used_keep:
  assumes "i < length xs" "P y = P (xs ! i)" "P y \<Longrightarrow> f y = f (xs ! i)"
  shows "used P f (xs[i := y]) = used P f xs"
  using assms used_split[OF assms(1), of P f] by auto

lemma used_distinct_index:
  assumes "distinct (used P f xs)" "i < length xs" "j < length xs" "P (xs ! i)" "P (xs ! j)"
    and "f (xs ! i) = f (xs ! j)"
  shows "i = j"
proof (rule ccontr)
  assume ne: "i \<noteq> j"
  have "f (xs ! j) \<in> set (used P f (take i xs)) \<union> set (used P f (drop (Suc i) xs))"
  proof (cases "j < i")
    case True
    then show ?thesis using assms(3,5) by (auto simp: in_used_iff intro!: exI[of _ j])
  next
    case False
    then show ?thesis
      using assms(3,5) ne by (auto simp: in_used_iff intro!: exI[of _ "j - Suc i"])
  qed
  then show False using used_split(1)[OF assms(2), of P f] assms by auto
qed

lemma count_if_keep: "i < length xs \<Longrightarrow> P y = P (xs ! i) \<Longrightarrow> count_if P (xs[i := y]) = count_if P xs"
  using count_if_update[of i xs P y] by simp

text \<open>A sweep that empties every slot satisfying \<open>Q\<close>.\<close>

lemma count_if_sweep:
  assumes "\<not> P e"
  shows "count_if P (map (\<lambda>x. if Q x then e else x) xs) = count_if (\<lambda>x. P x \<and> \<not> Q x) xs"
  using assms by (induction xs) auto

lemma used_sweep:
  assumes "\<not> P e"
  shows "used P f (map (\<lambda>x. if Q x then e else x) xs) = used (\<lambda>x. P x \<and> \<not> Q x) f xs"
  using assms by (induction xs) (auto simp: used_def)

lemma used_sub:
  assumes "distinct (used P f xs)"
  shows "distinct (used (\<lambda>x. P x \<and> Q x) f xs)"
  using distinct_map_filter[OF assms[unfolded used_def], of Q] by (simp add: used_def conj_commute)

lemma count_if_split: "count_if P xs = count_if (\<lambda>x. P x \<and> Q x) xs + count_if (\<lambda>x. P x \<and> \<not> Q x) xs"
  by (induction xs) auto

section \<open>The contract of a bounded registry of client addresses\<close>

text \<open>
  \<open>ips\<close> is the abstract value: the set of addresses registered. An add beyond the
  capacity is silently ignored, as the C code does.
\<close>

locale ip_registry =
  fixes inv :: "'s \<Rightarrow> bool"
    and ips :: "'s \<Rightarrow> u32 set"
    and member :: "'s \<Rightarrow> u32 \<Rightarrow> bool"
    and add :: "u32 \<Rightarrow> 's \<Rightarrow> 's"
    and remove :: "u32 \<Rightarrow> 's \<Rightarrow> 's"
    and cap :: nat
  assumes member_ips: "inv s \<Longrightarrow> member s ip \<longleftrightarrow> ip \<in> ips s"
    and ips_finite: "inv s \<Longrightarrow> finite (ips s)"
    and ips_card: "inv s \<Longrightarrow> card (ips s) \<le> cap"
    and ips_add: "inv s \<Longrightarrow> ips (add ip s) =
        (if ip \<in> ips s \<or> card (ips s) < cap then insert ip (ips s) else ips s)"
    and ips_remove: "inv s \<Longrightarrow> ips (remove ip s) = ips s - {ip}"
    and inv_add: "inv s \<Longrightarrow> inv (add ip s)"
    and inv_remove: "inv s \<Longrightarrow> inv (remove ip s)"
begin

lemma add_member:
  assumes "inv s" "ip \<in> ips s \<or> card (ips s) < cap"
  shows "member (add ip s) ip"
  using assms by (simp add: member_ips inv_add ips_add)

lemma remove_member: "inv s \<Longrightarrow> \<not> member (remove ip s) ip"
  by (simp add: member_ips inv_remove ips_remove)

lemma others_unchanged:
  assumes "inv s" "ip' \<noteq> ip"
  shows "member (add ip s) ip' \<longleftrightarrow> member s ip'"
    and "member (remove ip s) ip' \<longleftrightarrow> member s ip'"
  using assms by (auto simp: member_ips inv_add inv_remove ips_add ips_remove)

lemma inv_fold_remove: "inv s \<Longrightarrow> inv (fold remove xs s)"
  by (induction xs arbitrary: s) (auto simp: inv_remove)

lemma ips_fold_remove: "inv s \<Longrightarrow> ips (fold remove xs s) = ips s - set xs"
  by (induction xs arbitrary: s) (auto simp: inv_remove ips_remove)

lemma add_full_ignored:
  assumes "inv s" "card (ips s) = cap" "ip \<notin> ips s"
  shows "\<not> member (add ip s) ip"
  using assms by (simp add: member_ips inv_add ips_add)

end

section \<open>Encodings\<close>

text \<open>An encoding whose decoder finds the end of the value by itself.\<close>

locale codec =
  fixes wf :: "'a \<Rightarrow> bool" and enc :: "'a \<Rightarrow> 'b list" and dec :: "'b list \<Rightarrow> 'a option"
  assumes dec_enc: "wf x \<Longrightarrow> dec (enc x @ rest) = Some x"
begin

lemma dec_enc_exact: "wf x \<Longrightarrow> dec (enc x) = Some x"
  using dec_enc[of x "[]"] by simp

lemma prefix_free: "wf x \<Longrightarrow> wf y \<Longrightarrow> enc x @ r = enc y @ s \<Longrightarrow> x = y \<and> r = s"
  by (metis dec_enc option.inject same_append_eq)

lemma enc_inject: "wf x \<Longrightarrow> wf y \<Longrightarrow> enc x = enc y \<longleftrightarrow> x = y"
  using prefix_free[of x y "[]" "[]"] by auto

lemma concat_inject:
  assumes "\<forall>x \<in> set xs. wf x" "\<forall>y \<in> set ys. wf y" "length xs = length ys" "concat (map enc xs) = concat (map enc ys)"
  shows "xs = ys"
  using assms(3,1,2,4)
proof (induction xs ys rule: list_induct2)
  case (Cons x xs y ys)
  then show ?case using prefix_free[of x y "concat (map enc xs)" "concat (map enc ys)"] by simp
qed simp

end

end
