(* ===== verification/TG_Bytes.thy ===== *)
theory TG_Bytes
  imports TG_Prelude
begin

text \<open>
  Bytes in memory and on the wire: big- and little-endian layouts of the 16-, 32- and 64-bit
  integers, writes into fixed buffers, and hexadecimal digits. The DNS server, the beacon
  information element, the E-Hash packets and the Stratum header all use these layouts.
\<close>

unbundle bit_operations_syntax

section \<open>Integer layouts\<close>

definition be16 :: "u16 \<Rightarrow> u8 list" where
  "be16 v = [ucast (drop_bit 8 v), ucast v]"

definition of_be16 :: "u8 \<Rightarrow> u8 \<Rightarrow> u16" where
  "of_be16 a b = push_bit 8 (ucast a) OR ucast b"

definition be32 :: "u32 \<Rightarrow> u8 list" where
  "be32 v = [ucast (drop_bit 24 v), ucast (drop_bit 16 v), ucast (drop_bit 8 v), ucast v]"

definition of_be32 :: "u8 \<Rightarrow> u8 \<Rightarrow> u8 \<Rightarrow> u8 \<Rightarrow> u32" where
  "of_be32 a b c d =
     push_bit 24 (ucast a) OR push_bit 16 (ucast b) OR push_bit 8 (ucast c) OR ucast d"

definition le16 :: "u16 \<Rightarrow> u8 list" where
  "le16 v = [ucast v, ucast (drop_bit 8 v)]"

definition le32 :: "u32 \<Rightarrow> u8 list" where
  "le32 v = [ucast v, ucast (drop_bit 8 v), ucast (drop_bit 16 v), ucast (drop_bit 24 v)]"

definition of_le32 :: "u8 \<Rightarrow> u8 \<Rightarrow> u8 \<Rightarrow> u8 \<Rightarrow> u32" where
  "of_le32 a b c d = of_be32 d c b a"

definition of_le16 :: "u8 \<Rightarrow> u8 \<Rightarrow> u16" where
  "of_le16 a b = of_be16 b a"

lemma length_be16 [simp]: "length (be16 v) = 2"
  by (simp add: be16_def)

lemma length_be32 [simp]: "length (be32 v) = 4"
  by (simp add: be32_def)

lemma length_le16 [simp]: "length (le16 v) = 2"
  by (simp add: le16_def)

lemma length_le32 [simp]: "length (le32 v) = 4"
  by (simp add: le32_def)

lemma u8_bit_high [simp]: "8 \<le> n \<Longrightarrow> \<not> bit (b :: u8) n"
  by (simp add: bit_word.rep_eq)

lemma of_be16_be16 [simp]: "of_be16 (ucast (drop_bit 8 v)) (ucast v) = v"
  unfolding of_be16_def
  by (rule bit_word_eqI) (auto simp: bit_simps)

lemma of_be16_nth [simp]: "of_be16 (be16 v ! 0) (be16 v ! Suc 0) = v"
  by (simp add: be16_def)

lemma be16_of_be16 [simp]: "be16 (of_be16 a b) = [a, b]"
  unfolding be16_def of_be16_def
  by (auto intro!: bit_word_eqI simp: bit_simps)

lemma of_be32_be32 [simp]:
  "of_be32 (ucast (drop_bit 24 v)) (ucast (drop_bit 16 v)) (ucast (drop_bit 8 v)) (ucast v) = v"
proof (rule bit_word_eqI)
  fix n
  assume n: "n < LENGTH(32)"
  consider "n < 8" | "8 \<le> n" "n < 16" | "16 \<le> n" "n < 24" | "24 \<le> n" by linarith
  then show "bit (of_be32 (ucast (drop_bit 24 v)) (ucast (drop_bit 16 v)) (ucast (drop_bit 8 v)) (ucast v)) n
    = bit v n"
    using n by cases (auto simp: of_be32_def bit_simps)
qed

lemma be32_of_be32 [simp]: "be32 (of_be32 a b c d) = [a, b, c, d]"
  unfolding be32_def of_be32_def
  by (auto intro!: bit_word_eqI simp: bit_simps)

lemma be16_inject [simp]: "be16 a = be16 b \<longleftrightarrow> a = b"
  using of_be16_be16 by (metis be16_def list.inject)

section \<open>Writes into a buffer\<close>

text \<open>\<open>memcpy(buf + off, bs, length bs)\<close>; the callers guard that the write stays inside.\<close>

definition buf_write :: "nat \<Rightarrow> 'a list \<Rightarrow> 'a list \<Rightarrow> 'a list" where
  "buf_write off bs buf = take off buf @ bs @ drop (off + length bs) buf"

lemma length_buf_write [simp]:
  "off + length bs \<le> length buf \<Longrightarrow> length (buf_write off bs buf) = length buf"
  by (simp add: buf_write_def)

lemma nth_buf_write:
  "off + length bs \<le> length buf \<Longrightarrow> i < length buf \<Longrightarrow>
   buf_write off bs buf ! i = (if off \<le> i \<and> i < off + length bs then bs ! (i - off) else buf ! i)"
  by (auto simp: buf_write_def nth_append)

lemma take_buf_write_before [simp]:
  "k \<le> off \<Longrightarrow> off + length bs \<le> length buf \<Longrightarrow> take k (buf_write off bs buf) = take k buf"
  by (simp add: buf_write_def min_def)

section \<open>Hexadecimal digits\<close>

definition hex_digit :: "nat \<Rightarrow> char" where
  "hex_digit n = (if n < 10 then char_of (48 + n) else char_of (87 + n))"

definition hex2 :: "u8 \<Rightarrow> string" where
  "hex2 b = [hex_digit (unat b div 16), hex_digit (unat b mod 16)]"

definition hex_of_bytes :: "u8 list \<Rightarrow> string" where
  "hex_of_bytes bs = concat (map hex2 bs)"

lemma length_hex2 [simp]: "length (hex2 b) = 2"
  by (simp add: hex2_def)

lemma length_hex_of_bytes [simp]: "length (hex_of_bytes bs) = 2 * length bs"
  by (induction bs) (simp_all add: hex_of_bytes_def)

text \<open>The value of a hexadecimal digit, as \<open>strtoul\<close> and \<open>sscanf\<close> read it.\<close>

definition hex_val :: "char \<Rightarrow> nat option" where
  "hex_val c = (let n = of_char c :: nat in
     if 48 \<le> n \<and> n \<le> 57 then Some (n - 48)
     else if 97 \<le> n \<and> n \<le> 102 then Some (n - 87)
     else if 65 \<le> n \<and> n \<le> 70 then Some (n - 55)
     else None)"

lemma hex_val_digit [simp]: "n < 16 \<Longrightarrow> hex_val (hex_digit n) = Some n"
  by (auto simp: hex_val_def hex_digit_def Let_def)

lemma hex_digit_nonzero [simp]: "n < 16 \<Longrightarrow> hex_digit n \<noteq> CHR 0x00"
  using hex_val_digit[of n] by (auto simp: hex_val_def)

end
