(* ===== verification/TG_CString.thy ===== *)
theory TG_CString
  imports TG_Bytes
begin

text \<open>
  The parts of the C library that the firmware's text handling uses. A C string is the list of
  its characters before the terminating NUL. The number readers follow newlib on a 32-bit
  target: \<open>long\<close> has 32 bits, \<open>long long\<close> 64, out-of-range values are clamped, \<open>atoi\<close> and
  \<open>atoll\<close> are the clamping \<open>strtol\<close> and \<open>strtoll\<close>.
\<close>

section \<open>Copying and searching\<close>

text \<open>\<open>strncpy(dst, src, sizeof dst - 1)\<close> into a zeroed buffer of \<open>n\<close> bytes.\<close>

definition c_strncpy :: "nat \<Rightarrow> string \<Rightarrow> string" where
  "c_strncpy n src = take (n - 1) src"

text \<open>The C string at the start of a byte buffer.\<close>

definition c_str :: "string \<Rightarrow> string" where
  "c_str buf = takeWhile (\<lambda>c. c \<noteq> CHR 0x00) buf"

definition c_strchr :: "char \<Rightarrow> string \<Rightarrow> nat option" where
  "c_strchr c s = first_idx (\<lambda>d. d = c) s"

definition starts_with :: "string \<Rightarrow> string \<Rightarrow> bool" where
  "starts_with p s \<longleftrightarrow> take (length p) s = p"

text \<open>\<open>strstr(s, key)\<close>: the offset of the first occurrence; an empty key is found at 0.\<close>

fun c_strstr :: "string \<Rightarrow> string \<Rightarrow> nat option" where
  "c_strstr [] key = (if key = [] then Some 0 else None)"
| "c_strstr (c # s) key =
     (if starts_with key (c # s) then Some 0 else map_option Suc (c_strstr s key))"

lemma c_strstr_Some:
  "c_strstr s key = Some i \<Longrightarrow> i + length key \<le> length s \<and> take (length key) (drop i s) = key"
proof (induction s arbitrary: i)
  case Nil
  then show ?case by (auto split: if_splits)
next
  case (Cons c s)
  show ?case
  proof (cases "starts_with key (c # s)")
    case True
    then have "length key \<le> length (c # s)"
      unfolding starts_with_def by (metis length_take min.cobounded1 nle_le)
    with True Cons.prems show ?thesis by (simp add: starts_with_def)
  next
    case False
    then show ?thesis using Cons by (auto simp: numeral_eq_Suc)
  qed
qed

lemma c_strstr_bound: "c_strstr s key = Some i \<Longrightarrow> i + length key \<le> length s"
  using c_strstr_Some by blast

section \<open>Reading numbers\<close>

definition is_space :: "char \<Rightarrow> bool" where
  "is_space c = (let n = of_char c :: nat in n = 32 \<or> (9 \<le> n \<and> n \<le> 13))"

definition digit_in :: "nat \<Rightarrow> char \<Rightarrow> nat option" where
  "digit_in base c =
     (case hex_val c of Some v \<Rightarrow> if v < base then Some v else None | None \<Rightarrow> None)"

definition digits_value :: "nat \<Rightarrow> string \<Rightarrow> nat" where
  "digits_value base s =
     foldl (\<lambda>acc c. acc * base + (case digit_in base c of Some v \<Rightarrow> v | None \<Rightarrow> 0)) 0 s"

definition skip_sign :: "string \<Rightarrow> bool \<times> string" where
  "skip_sign s = (case s of
       c # r \<Rightarrow> if c = CHR ''-'' then (True, r) else if c = CHR ''+'' then (False, r) else (False, s)
     | [] \<Rightarrow> (False, []))"

definition skip_0x :: "nat \<Rightarrow> string \<Rightarrow> string" where
  "skip_0x base s =
     (if base = 16 \<and> 3 \<le> length s \<and> s ! 0 = CHR ''0'' \<and> (s ! 1 = CHR ''x'' \<or> s ! 1 = CHR ''X'')
         \<and> digit_in 16 (s ! 2) \<noteq> None
      then drop 2 s else s)"

definition number_prefix :: "nat \<Rightarrow> string \<Rightarrow> bool \<times> nat" where
  "number_prefix base s =
     (case skip_sign (dropWhile is_space s) of (neg, r) \<Rightarrow>
        (neg, digits_value base (takeWhile (\<lambda>c. digit_in base c \<noteq> None) (skip_0x base r))))"

definition c_strtoul :: "nat \<Rightarrow> string \<Rightarrow> u32" where
  "c_strtoul base s =
     (case number_prefix base s of (neg, v) \<Rightarrow>
        if 2 ^ 32 \<le> v then - 1 else if neg then - of_nat v else of_nat v)"

definition c_strtoull :: "nat \<Rightarrow> string \<Rightarrow> u64" where
  "c_strtoull base s =
     (case number_prefix base s of (neg, v) \<Rightarrow>
        if 2 ^ 64 \<le> v then - 1 else if neg then - of_nat v else of_nat v)"

definition clamp_signed :: "nat \<Rightarrow> int \<Rightarrow> int" where
  "clamp_signed n v = (if v < - (2 ^ (n - 1)) then - (2 ^ (n - 1))
     else if 2 ^ (n - 1) \<le> v then 2 ^ (n - 1) - 1 else v)"

definition c_atoi :: "string \<Rightarrow> int" where
  "c_atoi s = (case number_prefix 10 s of (neg, v) \<Rightarrow>
     clamp_signed 32 (if neg then - int v else int v))"

definition c_atoll :: "string \<Rightarrow> int" where
  "c_atoll s = (case number_prefix 10 s of (neg, v) \<Rightarrow>
     clamp_signed 64 (if neg then - int v else int v))"

section \<open>Printing numbers\<close>

fun dec_of_nat :: "nat \<Rightarrow> string" where
  "dec_of_nat n = (if n < 10 then [hex_digit n] else dec_of_nat (n div 10) @ [hex_digit (n mod 10)])"

declare dec_of_nat.simps [simp del]

definition dec_of_int :: "int \<Rightarrow> string" where
  "dec_of_int i = (if i < 0 then ''-'' @ dec_of_nat (nat (- i)) else dec_of_nat (nat i))"

definition hex8 :: "u32 \<Rightarrow> string" where
  "hex8 v = hex_of_bytes (be32 v)"

lemma digit_in_hex_digit [simp]: "n < base \<Longrightarrow> base \<le> 16 \<Longrightarrow> digit_in base (hex_digit n) = Some n"
  by (simp add: digit_in_def)

lemma dec_of_nat_digits: "c \<in> set (dec_of_nat n) \<Longrightarrow> \<exists>d < 10. c = hex_digit d"
proof (induction n rule: dec_of_nat.induct)
  case (1 n)
  show ?case
  proof (cases "n < 10")
    case True
    then show ?thesis using 1 by (auto simp: dec_of_nat.simps[of n])
  next
    case False
    then have "c \<in> set (dec_of_nat (n div 10)) \<or> c = hex_digit (n mod 10)"
      using 1 by (auto simp: dec_of_nat.simps[of n])
    then show ?thesis using 1 False by (auto intro: exI[of _ "n mod 10"])
  qed
qed

lemma digits_value_snoc:
  "digits_value base (s @ [c]) = digits_value base s * base + (case digit_in base c of Some v \<Rightarrow> v | None \<Rightarrow> 0)"
  by (simp add: digits_value_def)

lemma digits_value_dec: "digits_value 10 (dec_of_nat n) = n"
proof (induction n rule: dec_of_nat.induct)
  case (1 n)
  show ?case
  proof (cases "n < 10")
    case True
    then show ?thesis by (simp add: dec_of_nat.simps[of n] digits_value_def)
  next
    case False
    then show ?thesis using 1 by (simp add: dec_of_nat.simps[of n] digits_value_snoc)
  qed
qed

lemma dec_of_nat_nonempty [simp]: "dec_of_nat n \<noteq> []"
  by (simp add: dec_of_nat.simps[of n])

lemma hex_digit_props:
  assumes "d < 16"
  shows "\<not> is_space (hex_digit d)" "hex_digit d \<noteq> CHR ''-''" "hex_digit d \<noteq> CHR ''+''" "hex_digit d \<noteq> CHR ''/''"
proof -
  have v: "hex_val (hex_digit d) \<noteq> None" using assms by simp
  have "is_space c \<Longrightarrow> hex_val c = None" for c
    by (auto simp: is_space_def hex_val_def Let_def)
  then show "\<not> is_space (hex_digit d)" using v by metis
  have "hex_val CHR ''-'' = None" "hex_val CHR ''+'' = None" "hex_val CHR ''/'' = None"
    by (simp_all add: hex_val_def Let_def)
  then show "hex_digit d \<noteq> CHR ''-''" "hex_digit d \<noteq> CHR ''+''" "hex_digit d \<noteq> CHR ''/''"
    using v by metis+
qed

lemma number_prefix_dec:
  assumes "r = [] \<or> digit_in 10 (hd r) = None"
  shows "number_prefix 10 (dec_of_nat n @ r) = (False, n)"
proof -
  have dg: "\<exists>d < 10. c = hex_digit d" if "c \<in> set (dec_of_nat n)" for c
    using dec_of_nat_digits that by blast
  obtain c cs where cs: "dec_of_nat n = c # cs" by (cases "dec_of_nat n") auto
  obtain d where d: "d < 10" "c = hex_digit d" using dg cs by force
  have sp: "dropWhile is_space (dec_of_nat n @ r) = dec_of_nat n @ r"
    using cs d hex_digit_props(1)[of d] by simp
  have sg: "skip_sign (dec_of_nat n @ r) = (False, dec_of_nat n @ r)"
    using cs d hex_digit_props[of d] by (simp add: skip_sign_def)
  have "\<forall>c \<in> set (dec_of_nat n). digit_in 10 c \<noteq> None" using dg by fastforce
  then have "takeWhile (\<lambda>c. digit_in 10 c \<noteq> None) (dec_of_nat n @ r) = dec_of_nat n"
    using assms by (cases r) (auto simp: takeWhile_append2)
  then show ?thesis using sp sg by (simp add: number_prefix_def skip_0x_def digits_value_dec)
qed

end
