(* ===== verification/TG_HexText.thy ===== *)
theory TG_HexText
  imports TG_CString
begin

text \<open>
  Facts on text that several components read and write: byte strings as big-endian numbers, the text
  from the first occurrence of a key on, and that the readers of the C library invert the printers on
  decimal and hexadecimal numerals.
\<close>

unbundle bit_operations_syntax

section \<open>Big-endian values\<close>

fun be_val :: "u8 list \<Rightarrow> nat" where
  "be_val [] = 0"
| "be_val (b # bs) = unat b * 256 ^ length bs + be_val bs"

lemma unat_u8_lt: "unat (b :: u8) < 256"
  by (rule order.strict_trans2[OF unsigned_less]) simp

lemma be_val_bound: "be_val bs < 256 ^ length bs"
proof (induction bs)
  case (Cons b bs)
  have "unat b * 256 ^ length bs + be_val bs < (unat b + 1) * 256 ^ length bs" using Cons.IH by simp
  also have "\<dots> \<le> 256 * 256 ^ length bs" using unat_u8_lt[of b] by (intro mult_right_mono) simp_all
  finally show ?case by simp
qed simp

lemma be_val_append: "be_val (xs @ ys) = be_val xs * 256 ^ length ys + be_val ys"
  by (induction xs) (simp_all add: power_add algebra_simps)

lemma be_val_zeros [simp]: "be_val (replicate n 0) = 0"
  by (induction n) simp_all

lemma be_val_ones: "be_val (replicate n 0xFF) + 1 = 256 ^ n"
  by (induction n) simp_all

section \<open>Reading text fields\<close>

text \<open>The text from the first occurrence of a key on.\<close>

fun from_strstr :: "string \<Rightarrow> string \<Rightarrow> string option" where
  "from_strstr [] key = (if key = [] then Some [] else None)"
| "from_strstr (c # s) key = (if starts_with key (c # s) then Some (c # s) else from_strstr s key)"

lemma from_strstr: "map_option (\<lambda>i. drop i s) (c_strstr s key) = from_strstr s key"
  by (induction s key rule: from_strstr.induct) (auto simp: option.map_comp comp_def)

lemma from_strstr_skip: "\<forall>c \<in> set p. c \<noteq> k \<Longrightarrow> from_strstr (p @ s) (k # ks) = from_strstr s (k # ks)"
  by (induction p) (auto simp: starts_with_def)

lemma c_strchr_drop: "map_option (\<lambda>k. drop (k + 1) s) (c_strchr c s) =
    (case dropWhile (\<lambda>d. d \<noteq> c) s of [] \<Rightarrow> None | _ # r \<Rightarrow> Some r)"
  by (induction s) (auto simp: c_strchr_def option.map_comp comp_def split: list.split)

lemma digits_value_hex: "digits_value 16 (hex_of_bytes bs) = be_val bs"
proof -
  have "foldl (\<lambda>acc c. acc * 16 + (case digit_in 16 c of Some v \<Rightarrow> v | None \<Rightarrow> 0)) a (hex_of_bytes bs) =
      a * 256 ^ length bs + be_val bs" for a
  proof (induction bs arbitrary: a)
    case (Cons b bs)
    have "unat b div 16 < 16" "unat b mod 16 < 16" using unat_u8_lt[of b] by simp_all
    moreover have "(a * 16 + unat b div 16) * 16 + unat b mod 16 = a * 256 + unat b"
      using div_mult_mod_eq[of "unat b" 16] by (simp add: algebra_simps)
    ultimately show ?case using Cons.IH[of "a * 256 + unat b"]
      by (simp add: hex_of_bytes_def hex2_def algebra_simps)
  qed (simp add: hex_of_bytes_def)
  then show ?thesis by (simp add: digits_value_def)
qed

lemma hex_val_None:
  "hex_val CHR ''-'' = None" "hex_val CHR ''+'' = None" "hex_val CHR ''x'' = None" "hex_val CHR ''X'' = None"
  "hex_val CHR '','' = None" "hex_val CHR '']'' = None" "hex_val CHR '' '' = None" "hex_val CHR 0x22 = None"
  "hex_val CHR 0x0A = None" "hex_val CHR 0x0D = None" "hex_val CHR 0x00 = None"
  by (simp_all add: hex_val_def)

lemma hex_val_space: "is_space c \<Longrightarrow> hex_val c = None"
  by (auto simp: is_space_def hex_val_def Let_def)

definition blank_or_quote :: "char \<Rightarrow> bool" where
  "blank_or_quote c \<longleftrightarrow> c = CHR '' '' \<or> c = CHR 0x22"

lemma hex_char_props:
  assumes "hex_val c \<noteq> None"
  shows "\<not> is_space c" "c \<noteq> CHR ''-''" "c \<noteq> CHR ''+''" "c \<noteq> CHR ''x''" "c \<noteq> CHR ''X''" "c \<noteq> CHR '',''"
    "\<not> blank_or_quote c" "c \<noteq> CHR '']''" "c \<noteq> CHR 0x0A" "c \<noteq> CHR 0x0D" "c \<noteq> CHR 0x00" "c \<noteq> CHR 0x22"
  using assms hex_val_space[of c] hex_val_None unfolding blank_or_quote_def by metis+

lemma number_prefix_hex:
  assumes "s \<noteq> []" "\<forall>c \<in> set s. hex_val c \<noteq> None" "r = [] \<or> hd r = CHR 0x22"
  shows "number_prefix 16 (s @ r) = (False, digits_value 16 s)"
proof -
  obtain a as where s: "s = a # as" using assms(1) by (cases s) auto
  have a: "\<not> is_space a" "a \<noteq> CHR ''-''" "a \<noteq> CHR ''+''" using hex_char_props[of a] assms(2) s by auto
  have x: "\<not> (1 < length (s @ r) \<and> ((s @ r) ! 1 = CHR ''x'' \<or> (s @ r) ! 1 = CHR ''X''))"
    using assms(2,3) hex_char_props(4,5) by (cases as; cases r) (auto simp: s)
  have d: "digit_in 16 c = hex_val c" for c by (auto simp: digit_in_def hex_val_def Let_def split: option.split)
  have "hex_val CHR 0x22 = None" by (simp add: hex_val_def)
  then have "takeWhile (\<lambda>c. digit_in 16 c \<noteq> None) (s @ r) = s"
    using assms(2,3) d by (cases r) (auto simp: takeWhile_append2)
  then show ?thesis using a x by (auto simp: number_prefix_def skip_sign_def skip_0x_def s)
qed

lemma unat_byte: "unat (ucast (drop_bit k v) :: u8) = unat v div 2 ^ k mod 256" for v :: u32
proof -
  have "take_bit 32 (unat v) = unat v"
    by (rule take_bit_nat_eq_self) (rule order.strict_trans2[OF unsigned_less], simp)
  then show ?thesis
    unfolding unsigned_ucast_eq unsigned_drop_bit_eq by (simp add: drop_bit_eq_div take_bit_eq_mod[of 8])
qed

lemma be_val_be32: "be_val (be32 v) = unat v"
proof -
  define n where "n = unat v"
  have "n < 2 ^ 32" unfolding n_def by (rule order.strict_trans2[OF unsigned_less]) simp
  then have c: "n div 256 div 256 div 256 mod 256 = n div 256 div 256 div 256" by (simp add: div_mult2_eq[symmetric])
  have "n = n div 256 * 256 + n mod 256" "n div 256 = n div 256 div 256 * 256 + n div 256 mod 256"
    "n div 256 div 256 = n div 256 div 256 div 256 * 256 + n div 256 div 256 mod 256" by simp_all
  with c have "n div 256 div 256 div 256 mod 256 * 16777216 + (n div 256 div 256 mod 256 * 65536 +
      (n div 256 mod 256 * 256 + n mod 256)) = n" by linarith
  then show ?thesis using unat_byte[of 0 v] unat_byte[of 8 v] unat_byte[of 16 v] unat_byte[of 24 v]
    by (simp add: be32_def n_def div_mult2_eq[symmetric])
qed

lemma hex_of_bytes_hex: "c \<in> set (hex_of_bytes bs) \<Longrightarrow> hex_val c \<noteq> None"
  using unat_u8_lt by (auto simp: hex_of_bytes_def hex2_def less_mult_imp_div_less)

lemma strtoul_hex8:
  assumes "r = [] \<or> hd r = CHR 0x22"
  shows "c_strtoul 16 (hex8 v @ r) = v"
proof -
  have "hex8 v \<noteq> []" using length_hex_of_bytes[of "be32 v"] by (auto simp: hex8_def simp del: length_hex_of_bytes)
  then have "number_prefix 16 (hex8 v @ r) = (False, unat v)"
    using number_prefix_hex[of "hex8 v" r] assms hex_of_bytes_hex
    by (simp add: hex8_def digits_value_hex be_val_be32)
  moreover have "unat v < 2 ^ 32" by (rule order.strict_trans2[OF unsigned_less]) simp
  ultimately show ?thesis by (simp add: c_strtoul_def)
qed

lemma strtoul_dec: "c_strtoul 10 (dec_of_nat (unat v)) = v"
proof -
  have "unat v < 2 ^ 32" by (rule order.strict_trans2[OF unsigned_less]) simp
  then show ?thesis using number_prefix_dec[of "[]" "unat v"] by (simp add: c_strtoul_def)
qed

lemma dec_chars: "c \<in> set (dec_of_nat n) \<Longrightarrow> hex_val c \<noteq> None"
  using dec_of_nat_digits[of c n] by auto

lemma from_strstr_dec: "from_strstr (dec_of_nat n @ s) (CHR 0x22 # ks) = from_strstr s (CHR 0x22 # ks)"
  using dec_chars hex_char_props(12) by (intro from_strstr_skip) blast

text \<open>
  \<open>sscanf(hex, "%2x")\<close> skips white space and then reads at most two characters, a sign included, as a
  hexadecimal number; \<open>None\<close> if there is no digit.
\<close>

definition scan_2x :: "string \<Rightarrow> u32 option" where
  "scan_2x s =
     (case skip_sign (take 2 (dropWhile is_space s)) of (neg, r) \<Rightarrow>
        (let ds = takeWhile (\<lambda>c. hex_val c \<noteq> None) r in
         if ds = [] then None
         else Some (if neg then - of_nat (digits_value 16 ds) else of_nat (digits_value 16 ds))))"

lemma scan_2x_hex2: "scan_2x (hex2 b @ rest) = Some (ucast b)"
proof -
  let ?a = "hex_digit (unat b div 16)" and ?c = "hex_digit (unat b mod 16)"
  have h: "hex_val ?a \<noteq> None" "hex_val ?c \<noteq> None" using hex_of_bytes_hex[of _ "[b]"] by (auto simp: hex_of_bytes_def hex2_def)
  have "digits_value 16 [?a, ?c] = unat b" using digits_value_hex[of "[b]"] by (simp add: hex_of_bytes_def hex2_def)
  then show ?thesis using h hex_char_props(1-3)[OF h(1)] by (simp add: scan_2x_def hex2_def skip_sign_def)
qed

end
