(* ===== verification/TG_Json.thy ===== *)
theory TG_Json
  imports TG_CString Complex_Main
begin

text \<open>
  JSON values as the firmware sees them through cJSON: trees of values with the documented
  accessors. Parsing and printing are code outside the repository and stay parameters of the
  definitions that use them. A number carries the C \<open>double\<close> that cJSON stores, which is a
  rational or an infinity (cJSON reads no NaN); \<open>valueint\<close> is the saturating conversion that
  cJSON documents.
\<close>

section \<open>Values and accessors\<close>

datatype jnumber = Fin rat | PInf | NInf

datatype json =
    JNull
  | JBool bool
  | JNum jnumber
  | JStr string
  | JArr "json list"
  | JObj "(string \<times> json) list"

definition json_int :: "int \<Rightarrow> json" where
  "json_int i = JNum (Fin (of_int i))"

text \<open>\<open>cJSON_GetObjectItemCaseSensitive\<close>: the first member of that name, or \<open>NULL\<close>.\<close>

definition json_get :: "json \<Rightarrow> string \<Rightarrow> json option" where
  "json_get j k = (case j of JObj ms \<Rightarrow> map_of ms k | _ \<Rightarrow> None)"

text \<open>ASCII lower case, and the case-insensitive \<open>cJSON_GetObjectItem\<close>.\<close>

definition to_lower :: "char \<Rightarrow> char" where
  "to_lower c = (let n = of_char c :: nat in if 65 \<le> n \<and> n \<le> 90 then char_of (n + 32) else c)"

definition json_get_ci :: "json \<Rightarrow> string \<Rightarrow> json option" where
  "json_get_ci j k = (case j of
       JObj ms \<Rightarrow> map_of (map (\<lambda>(n, v). (map to_lower n, v)) ms) (map to_lower k)
     | _ \<Rightarrow> None)"

definition json_arr :: "json option \<Rightarrow> json list option" where
  "json_arr j = (case j of Some (JArr xs) \<Rightarrow> Some xs | _ \<Rightarrow> None)"

definition json_str :: "json option \<Rightarrow> string option" where
  "json_str j = (case j of Some (JStr s) \<Rightarrow> Some s | _ \<Rightarrow> None)"

definition json_num :: "json option \<Rightarrow> jnumber option" where
  "json_num j = (case j of Some (JNum n) \<Rightarrow> Some n | _ \<Rightarrow> None)"

definition json_true :: "json option \<Rightarrow> bool" where
  "json_true j \<longleftrightarrow> j = Some (JBool True)"

lemmas json_acc_defs = json_get_def json_arr_def json_str_def json_num_def json_true_def

section \<open>Conversions of numbers\<close>

definition trunc_rat :: "rat \<Rightarrow> int" where
  "trunc_rat x = (if 0 \<le> x then \<lfloor>x\<rfloor> else - \<lfloor>- x\<rfloor>)"

text \<open>\<open>(uint64_t)d\<close>: truncation; outside the range of the type C leaves it undefined.\<close>

definition d2u64 :: "jnumber \<Rightarrow> u64 cres" where
  "d2u64 n = (case n of
       Fin x \<Rightarrow> if 0 \<le> trunc_rat x \<and> trunc_rat x < 2 ^ 64 then Ok (of_int (trunc_rat x)) else Undef
     | _ \<Rightarrow> Undef)"

definition d2i64 :: "jnumber \<Rightarrow> int cres" where
  "d2i64 n = (case n of
       Fin x \<Rightarrow> if - (2 ^ 63) \<le> trunc_rat x \<and> trunc_rat x < 2 ^ 63 then Ok (trunc_rat x) else Undef
     | _ \<Rightarrow> Undef)"

text \<open>\<open>item->valueint\<close>.\<close>

definition valueint :: "jnumber \<Rightarrow> int" where
  "valueint n = (case n of Fin x \<Rightarrow> clamp_signed 32 (trunc_rat x) | PInf \<Rightarrow> 2 ^ 31 - 1 | NInf \<Rightarrow> - (2 ^ 31))"

text \<open>\<open>valuedouble\<close> of an item that need not be a number: cJSON leaves it 0; \<open>valueint\<close> of \<open>true\<close> is 1.\<close>

definition valuedouble :: "json \<Rightarrow> jnumber" where
  "valuedouble j = (case j of JNum n \<Rightarrow> n | _ \<Rightarrow> Fin 0)"

definition json_valueint :: "json \<Rightarrow> int" where
  "json_valueint j = (case j of JNum n \<Rightarrow> valueint n | JBool True \<Rightarrow> 1 | _ \<Rightarrow> 0)"

lemma trunc_rat_of_int [simp]: "trunc_rat (of_int i) = i"
  by (simp add: trunc_rat_def)

lemma trunc_rat_numeral [simp]: "trunc_rat (numeral k) = numeral k" "trunc_rat 0 = 0" "trunc_rat 1 = 1"
  by (simp_all add: trunc_rat_def)

lemma d2u64_of_nat [simp]: "n < 2 ^ 64 \<Longrightarrow> d2u64 (Fin (of_nat n)) = Ok (of_nat n)"
  by (simp add: d2u64_def trunc_rat_def)

lemma d2u64_uint: "d2u64 (Fin (of_int (uint (w :: u64)))) = Ok w"
proof -
  have "trunc_rat (of_int (uint w)) = uint w" by (rule trunc_rat_of_int)
  then show ?thesis using uint_lt2p[of w] by (simp add: d2u64_def)
qed

lemma d2u64_Ok_uint: "d2u64 (Fin x) = Ok w \<Longrightarrow> uint w = trunc_rat x"
  by (auto simp: d2u64_def take_bit_int_eq_self uint_word_of_int_eq split: if_splits)

lemma valueint_range: "- (2 ^ 31) \<le> valueint n \<and> valueint n < 2 ^ 31"
  by (simp add: valueint_def clamp_signed_def split: jnumber.split)

end
