(* ===== verification/TG_Double.thy ===== *)
theory TG_Double
  imports TG_Json "HOL-Library.Log_Nat"
begin

text \<open>
  C \<open>double\<close> arithmetic for the mining code. A finite double is a rational; every operation is
  the exact operation followed by \<open>fl\<close>, rounding to the nearest value with 53 significant
  bits, ties to even. The quantities of the mining code stay far inside the exponent range
  (they are products and quotients of a few 64-bit integers), so neither overflow to infinity
  nor subnormal results occur and the exponent of \<open>fl\<close> is not bounded.
\<close>

section \<open>Rounding\<close>

definition expo2 :: "rat \<Rightarrow> int" where
  "expo2 x = (case quotient_of x of (n, d) \<Rightarrow>
     let k = bitlen n - bitlen d in if 2 powi k \<le> x then k else k - 1)"

definition round_even :: "rat \<Rightarrow> int" where
  "round_even y = (let f = \<lfloor>y\<rfloor>; r = y - of_int f in
     if r < 1 / 2 \<or> (r = 1 / 2 \<and> even f) then f else f + 1)"

definition fl :: "rat \<Rightarrow> rat" where
  "fl x = (if x = 0 then 0
     else let e = expo2 \<bar>x\<bar> - 52 in of_int (round_even (x / 2 powi e)) * 2 powi e)"

definition u2d :: "u64 \<Rightarrow> rat" where
  "u2d w = fl (of_int (uint w))"

definition i2d :: "int \<Rightarrow> rat" where
  "i2d i = fl (of_int i)"

definition d_mul :: "rat \<Rightarrow> rat \<Rightarrow> rat" where
  "d_mul a b = fl (a * b)"

definition d_div :: "rat \<Rightarrow> rat \<Rightarrow> rat" where
  "d_div a b = fl (a / b)"

section \<open>Accuracy\<close>

lemma bitlen_rat:
  assumes "0 < n"
  shows "(2 :: rat) powi (bitlen n - 1) \<le> of_int n" "of_int n < (2 :: rat) powi (bitlen n)"
proof -
  have p: "0 < bitlen n" using assms bitlen_nonneg[of n] bitlen_eq_zero_iff[of n] by linarith
  have b: "2 ^ nat (bitlen n - 1) \<le> n" "n < 2 ^ nat (bitlen n)"
    using bitlen_bounds[of n] assms by auto
  have "(of_int (2 ^ nat (bitlen n - 1)) :: rat) \<le> of_int n" using b(1) by (rule of_int_le_iff[THEN iffD2])
  then show "(2 :: rat) powi (bitlen n - 1) \<le> of_int n" using p by (simp add: power_int_def)
  have "(of_int n :: rat) < of_int (2 ^ nat (bitlen n))" using b(2) by (rule of_int_less_iff[THEN iffD2])
  then show "of_int n < (2 :: rat) powi (bitlen n)" using p by (simp add: power_int_def)
qed

lemma expo2_bounds:
  assumes "0 < x"
  shows "2 powi (expo2 x) \<le> x" "x < 2 powi (expo2 x + 1)"
proof -
  obtain n d where q: "quotient_of x = (n, d)" by (cases "quotient_of x")
  have d: "0 < d" and x: "x = of_int n / of_int d"
    using quotient_of_denom_pos[OF q] quotient_of_div[OF q] by auto
  have n: "0 < n" using assms d x by (simp add: zero_less_divide_iff)
  let ?k = "bitlen n - bitlen d"
  have dp: "0 < (of_int d :: rat)" using d by simp
  have "x < 2 powi (bitlen n) / 2 powi (bitlen d - 1)"
    unfolding x by (rule frac_less) (use bitlen_rat[OF n] bitlen_rat[OF d] n in auto)
  also have "\<dots> = 2 powi (?k + 1)" by (subst power_int_diff[symmetric]) (auto simp: algebra_simps)
  finally have up: "x < 2 powi (?k + 1)" .
  have "2 powi (bitlen n - 1) / 2 powi (bitlen d) < x"
    unfolding x by (rule frac_less2) (use bitlen_rat[OF n] bitlen_rat[OF d] n dp in auto)
  moreover have "(2 :: rat) powi (bitlen n - 1) / 2 powi (bitlen d) = 2 powi (?k - 1)"
    by (subst power_int_diff[symmetric]) (auto simp: algebra_simps)
  ultimately have lo: "2 powi (?k - 1) < x" by simp
  show "2 powi (expo2 x) \<le> x" "x < 2 powi (expo2 x + 1)"
    using up lo by (auto simp: expo2_def q Let_def)
qed

lemma round_even_error: "\<bar>of_int (round_even y) - y\<bar> \<le> 1 / 2"
proof -
  define f where "f = \<lfloor>y\<rfloor>"
  have "of_int f \<le> y" "y < of_int f + 1" using floor_correct[of y] by (simp_all add: f_def)
  then show ?thesis unfolding round_even_def Let_def abs_le_iff f_def[symmetric] by auto
qed

lemma round_even_int [simp]: "round_even (of_int i) = i"
  by (simp add: round_even_def)

lemma fl_error: "\<bar>fl x - x\<bar> \<le> \<bar>x\<bar> / 2 ^ 53"
proof (cases "x = 0")
  case True
  then show ?thesis by (simp add: fl_def)
next
  case False
  let ?e = "expo2 \<bar>x\<bar> - 52" and ?u = "(2 :: rat) powi (expo2 \<bar>x\<bar> - 52)"
  have u: "0 < ?u" by simp
  have "2 powi (expo2 \<bar>x\<bar>) \<le> \<bar>x\<bar>" using expo2_bounds(1)[of "\<bar>x\<bar>"] False by simp
  moreover have "(2 :: rat) powi (expo2 \<bar>x\<bar>) = ?u * 2 ^ 52"
    using power_int_add[of "2 :: rat" ?e 52] by simp
  ultimately have xu: "?u * 2 ^ 52 \<le> \<bar>x\<bar>" by simp
  have "fl x - x = (of_int (round_even (x / ?u)) - x / ?u) * ?u"
    using False u by (simp add: fl_def Let_def left_diff_distrib)
  then have "\<bar>fl x - x\<bar> = \<bar>of_int (round_even (x / ?u)) - x / ?u\<bar> * ?u"
    using u by (simp add: abs_mult)
  also have "\<dots> \<le> (1 / 2) * ?u" using round_even_error u by (intro mult_right_mono) auto
  also have "\<dots> \<le> \<bar>x\<bar> / 2 ^ 53" using xu by (simp add: field_simps)
  finally show ?thesis .
qed

lemma fl_pos [simp]: "0 < fl x \<longleftrightarrow> 0 < x" and fl_neg [simp]: "fl x < 0 \<longleftrightarrow> x < 0" and fl_0 [simp]: "fl 0 = 0"
proof -
  have b: "\<bar>fl y - y\<bar> < \<bar>y\<bar>" if "y \<noteq> 0" for y
  proof -
    have "\<bar>y\<bar> / 2 ^ 53 < \<bar>y\<bar>" using that by (simp add: field_simps)
    then show ?thesis using fl_error[of y] by (rule le_less_trans[rotated])
  qed
  have p: "0 < fl y" if "0 < y" for y
    using b[of y] that by (auto simp: abs_less_iff)
  have n: "fl y < 0" if "y < 0" for y
    using b[of y] that by (auto simp: abs_less_iff)
  show z: "fl 0 = 0" by (simp add: fl_def)
  show "0 < fl x \<longleftrightarrow> 0 < x" using p[of x] n[of x] z by (cases x "0 :: rat" rule: linorder_cases) auto
  show "fl x < 0 \<longleftrightarrow> x < 0" using p[of x] n[of x] z by (cases x "0 :: rat" rule: linorder_cases) auto
qed

lemma fl_int:
  assumes "\<bar>i\<bar> < 2 ^ 53"
  shows "fl (of_int i) = of_int i"
proof (cases "i = 0")
  case False
  let ?k = "expo2 \<bar>of_int i\<bar>" and ?u = "(2 :: rat) powi (expo2 \<bar>of_int i\<bar> - 52)"
  have "2 powi ?k \<le> (\<bar>of_int i\<bar> :: rat)" using expo2_bounds(1)[of "\<bar>of_int i\<bar>"] False by simp
  also have "\<dots> < 2 powi 53" using assms by (simp flip: of_int_abs)
  finally have lt: "(2 :: rat) powi ?k < 2 powi 53" .
  have k: "?k < 53"
  proof (rule ccontr)
    assume "\<not> ?k < 53"
    then have "(2 :: rat) powi 53 \<le> 2 powi ?k" by (intro power_int_increasing) auto
    then show False using lt by simp
  qed
  have "?u * 2 ^ nat (52 - ?k) = 1"
  proof -
    have "(2 :: rat) ^ nat (52 - ?k) = 2 powi (52 - ?k)" using k by (simp add: power_int_def)
    then show ?thesis by (simp flip: power_int_add)
  qed
  then have "of_int i / ?u = (of_int (i * 2 ^ nat (52 - ?k)) :: rat)"
    by (simp add: divide_eq_eq mult.assoc mult.commute[of "2 ^ nat (52 - ?k)"])
  then have "fl (of_int i) = of_int (i * 2 ^ nat (52 - ?k)) * ?u"
    unfolding fl_def Let_def using False by (simp del: of_int_mult of_int_power)
  then show ?thesis using \<open>?u * 2 ^ nat (52 - ?k) = 1\<close> by (simp add: mult.assoc mult.commute[of _ ?u])
qed simp

text \<open>\<open>near k a b\<close>: \<open>a\<close> is \<open>b\<close> after \<open>k\<close> roundings.\<close>

definition near :: "nat \<Rightarrow> rat \<Rightarrow> rat \<Rightarrow> bool" where
  "near k a b \<longleftrightarrow> 0 < b \<and> b * (1 - 1 / 2 ^ 53) ^ k \<le> a \<and> a \<le> b * (1 + 1 / 2 ^ 53) ^ k"

lemma near_pos: "near k a b \<Longrightarrow> 0 < a"
  unfolding near_def by (rule less_le_trans[of _ "b * (1 - 1 / 2 ^ 53) ^ k"]) auto

lemma near_refl: "0 < b \<Longrightarrow> near 0 b b"
  by (simp add: near_def)

lemma near_fl:
  assumes "near k a b"
  shows "near (Suc k) (fl a) b"
proof -
  have a: "0 < a" using near_pos[OF assms] .
  have "a - a / 2 ^ 53 \<le> fl a" "fl a \<le> a + a / 2 ^ 53"
    using fl_error[of a, unfolded abs_le_iff] abs_of_pos[OF a] by linarith+
  then have "a * (1 - 1 / 2 ^ 53) \<le> fl a" "fl a \<le> a * (1 + 1 / 2 ^ 53)"
    by (simp_all add: right_diff_distrib distrib_left)
  moreover have "b * (1 - 1 / 2 ^ 53) ^ k * (1 - 1 / 2 ^ 53) \<le> a * (1 - 1 / 2 ^ 53)"
    "a * (1 + 1 / 2 ^ 53) \<le> b * (1 + 1 / 2 ^ 53) ^ k * (1 + 1 / 2 ^ 53)"
    using assms by (auto simp: near_def intro!: mult_right_mono)
  ultimately show ?thesis using assms by (auto simp: near_def mult.commute mult.left_commute)
qed

lemma near_scale: "near k a b \<Longrightarrow> 0 < c \<Longrightarrow> near k (a * c) (b * c)"
  by (auto simp: near_def mult.commute mult.left_commute intro: mult_right_mono)

lemma near_mul: "near k a b \<Longrightarrow> 0 < c \<Longrightarrow> near (Suc k) (d_mul a c) (b * c)"
  by (simp add: d_mul_def near_fl near_scale)

lemma near_div: "near k a b \<Longrightarrow> 0 < c \<Longrightarrow> near (Suc k) (d_div a c) (b / c)"
  using near_scale[of k a b "1 / c"] by (simp add: d_div_def near_fl)

end
