(* ===== verification/TG_Identity.thy ===== *)
theory TG_Identity
  imports TG_HexText TG_Double TG_Bytes
begin

text \<open>
  The identity of the gate (\<^verbatim>\<open>main/identity.c\<close>): the secret key as text, the values derived from it
  by HMAC-SHA512 (hardware addresses, network name, address of the access point, key that locks
  tokens), and the Nostr events signed with it (\<^verbatim>\<open>main/nostr_event.c\<close>). The hash functions, the curve
  operations and cJSON are parameters.
\<close>

unbundle bit_operations_syntax

section \<open>Keys as text\<close>

text \<open>\<open>hex_to_bytes\<close>: byte \<open>i\<close> is scanned at position \<open>2 i\<close> of a text of exactly twice the length.\<close>

fun hex_bytes_at :: "string \<Rightarrow> nat \<Rightarrow> u8 list option" where
  "hex_bytes_at hex 0 = Some []"
| "hex_bytes_at hex (Suc n) =
     (case scan_2x hex of
        None \<Rightarrow> None
      | Some v \<Rightarrow> map_option (\<lambda>bs. ucast v # bs) (hex_bytes_at (drop 2 hex) n))"

definition id_hex_to_bytes :: "string \<Rightarrow> nat \<Rightarrow> u8 list option" where
  "id_hex_to_bytes hex out_len = (if length hex \<noteq> out_len * 2 then None else hex_bytes_at hex out_len)"

definition id_bytes_to_hex :: "u8 list \<Rightarrow> string" where
  "id_bytes_to_hex bs = concat (map hex2 bs)"

definition hex_digit_upper :: "nat \<Rightarrow> char" where
  "hex_digit_upper n = (if n < 10 then char_of (48 + n) else char_of (55 + n))"

definition hex2_upper :: "u8 \<Rightarrow> string" where
  "hex2_upper b = [hex_digit_upper (unat b div 16), hex_digit_upper (unat b mod 16)]"

section \<open>Derivation\<close>

text \<open>
  \<open>ie_pubkey\<close> is \<open>secp256k1_ec_pubkey_create\<close>: \<open>None\<close> for a number that is not a key, otherwise the
  x-only and the compressed form of the point.
\<close>

record identity_env =
  ie_hmac_sha512 :: "u8 list \<Rightarrow> u8 list \<Rightarrow> u8 list"
  ie_context_ok :: bool
  ie_pubkey :: "u8 list \<Rightarrow> (u8 list \<times> u8 list) option"

record tollgate_identity =
  id_nsec :: "u8 list"
  id_nsec_hex :: string
  id_npub_hex :: string
  id_sta_mac :: "u8 list"
  id_ap_mac :: "u8 list"
  id_ap_ssid :: string
  id_ap_ip :: u32
  id_ap_ip_str :: string
  id_locking_privkey :: "u8 list"
  id_locking_pubkey :: "u8 list"
  id_locking_pubkey_hex :: string
  id_initialized :: bool

definition tollgate_derive :: "identity_env \<Rightarrow> u8 list \<Rightarrow> string \<Rightarrow> u32 \<Rightarrow> nat \<Rightarrow> u8 list" where
  "tollgate_derive e nsec label index out_len =
     take out_len (ie_hmac_sha512 e nsec (map of_char label @
       [ucast (index AND 0xff), ucast (drop_bit 8 index AND 0xff),
        ucast (drop_bit 16 index AND 0xff), ucast (drop_bit 24 index AND 0xff)]))"

text \<open>The first byte of a hardware address: locally administered, not multicast.\<close>

definition local_mac :: "u8 list \<Rightarrow> u8 list" where
  "local_mac m = m[0 := (m ! 0 OR 0x02) AND 0xFE]"

text \<open>\<open>IP4_ADDR\<close> stores the address in network order, first byte first in memory.\<close>

definition ip4_addr :: "u8 \<Rightarrow> u8 \<Rightarrow> u8 \<Rightarrow> u8 \<Rightarrow> u32" where
  "ip4_addr a b c d = of_le32 a b c d"

definition ip4_text :: "u8 \<Rightarrow> u8 \<Rightarrow> u8 \<Rightarrow> u8 \<Rightarrow> string" where
  "ip4_text a b c d = dec_of_nat (unat a) @ ''.'' @ dec_of_nat (unat b) @ ''.'' @
     dec_of_nat (unat c) @ ''.'' @ dec_of_nat (unat d)"

definition ap_subnet :: "u8 \<Rightarrow> u8 \<Rightarrow> u8" where
  "ap_subnet b4 b5 = (b4 XOR b5) mod 200 + 10"

text \<open>An error return stands for the abort that \<open>ESP_ERROR_CHECK\<close> makes of it.\<close>

definition identity_init :: "identity_env \<Rightarrow> string option \<Rightarrow> tollgate_identity cres" where
  "identity_init e nsec_hex =
     (case nsec_hex of None \<Rightarrow> Fail | Some hex \<Rightarrow>
      if length hex \<noteq> 64 then Fail else
      (case id_hex_to_bytes hex 32 of None \<Rightarrow> Fail | Some nsec \<Rightarrow>
       if \<not> ie_context_ok e then Fail else
       (case ie_pubkey e nsec of None \<Rightarrow> Fail | Some (xonly, _) \<Rightarrow>
        let sta = local_mac (tollgate_derive e nsec ''sta-mac'' 0 6);
            ap = local_mac (tollgate_derive e nsec ''ap-mac'' 0 6);
            subnet = ap_subnet (ap ! 4) (ap ! 5);
            priv = tollgate_derive e nsec ''tollgate-cashu-locking-key'' 0 32;
            (lpub, lhex) = (case ie_pubkey e priv of
                Some (_, cpub) \<Rightarrow> (cpub, id_bytes_to_hex cpub)
              | None \<Rightarrow> (replicate 33 0, [])) in
        Ok \<lparr>id_nsec = nsec, id_nsec_hex = c_strncpy 65 hex, id_npub_hex = id_bytes_to_hex xonly,
            id_sta_mac = sta, id_ap_mac = ap,
            id_ap_ssid = c_strncpy 32 (''TollGate-'' @ hex2_upper (ap ! 3) @ hex2_upper (ap ! 4) @ hex2_upper (ap ! 5)),
            id_ap_ip = ip4_addr 10 (ap ! 3) subnet 1,
            id_ap_ip_str = c_strncpy 16 (ip4_text 10 (ap ! 3) subnet 1),
            id_locking_privkey = priv, id_locking_pubkey = lpub, id_locking_pubkey_hex = lhex,
            id_initialized = True\<rparr>)))"

section \<open>Events\<close>

record nostr_event =
  ne_pubkey :: string
  ne_created_at :: u64
  ne_kind :: int
  ne_tags_json :: string
  ne_content :: string
  ne_id :: string
  ne_sig :: string

record event_env =
  ev_parse :: "string \<Rightarrow> json option"
  ev_print :: "json \<Rightarrow> string"
  ev_sha256 :: "string \<Rightarrow> u8 list"
  ev_context_ok :: bool
  ev_sign :: "u8 list \<Rightarrow> u8 list \<Rightarrow> u8 list option"

text \<open>
  \<open>cJSON_AddItemToArray(serial, cJSON_Parse(tags))\<close> adds nothing when the text does not parse. The
  array that is printed and hashed is the one NIP-01 prescribes when it does.
\<close>

definition event_serial :: "event_env \<Rightarrow> string \<Rightarrow> u64 \<Rightarrow> int \<Rightarrow> string \<Rightarrow> string \<Rightarrow> json" where
  "event_serial e pubkey created kind tags content = JArr
     ([json_int 0, JStr pubkey, JNum (Fin (u2d created)), json_int kind] @
      (case ev_parse e tags of Some t \<Rightarrow> [t] | None \<Rightarrow> []) @ [JStr content])"

definition nostr_event_init ::
  "event_env \<Rightarrow> u64 \<Rightarrow> string \<Rightarrow> int \<Rightarrow> string option \<Rightarrow> string option \<Rightarrow> nostr_event" where
  "nostr_event_init e now npub_hex kind tags_json content =
     (let pk = c_strncpy 65 npub_hex;
          tags = (case tags_json of Some t \<Rightarrow> t | None \<Rightarrow> ''[]'');
          cont = (case content of Some t \<Rightarrow> t | None \<Rightarrow> []) in
      \<lparr>ne_pubkey = pk, ne_created_at = now, ne_kind = kind, ne_tags_json = tags, ne_content = cont,
       ne_id = concat (map hex2 (ev_sha256 e (ev_print e (event_serial e pk now kind tags cont)))),
       ne_sig = []\<rparr>)"

text \<open>Signing scans the id back; a pair that is not hexadecimal would leave \<open>byte\<close> unset.\<close>

definition nostr_event_sign :: "event_env \<Rightarrow> nostr_event \<Rightarrow> u8 list \<Rightarrow> nostr_event cres" where
  "nostr_event_sign e ev nsec =
     (case hex_bytes_at (ne_id ev) 32 of
        None \<Rightarrow> Undef
      | Some msg \<Rightarrow>
          if \<not> ev_context_ok e then Fail
          else (case ev_sign e nsec msg of
             None \<Rightarrow> Fail
           | Some sig \<Rightarrow> Ok (ev\<lparr>ne_sig := concat (map hex2 sig)\<rparr>)))"

definition event_object :: "event_env \<Rightarrow> nostr_event \<Rightarrow> json" where
  "event_object e ev = JObj
     ([(''id'', JStr (ne_id ev)), (''pubkey'', JStr (ne_pubkey ev)),
       (''created_at'', JNum (Fin (u2d (ne_created_at ev)))), (''kind'', json_int (ne_kind ev))] @
      (case ev_parse e (ne_tags_json ev) of Some t \<Rightarrow> [(''tags'', t)] | None \<Rightarrow> []) @
      [(''content'', JStr (ne_content ev)), (''sig'', JStr (ne_sig ev))])"

definition nostr_event_to_json :: "event_env \<Rightarrow> nostr_event \<Rightarrow> nat \<Rightarrow> string cres" where
  "nostr_event_to_json e ev buf_len =
     (let json = ev_print e (event_object e ev) in if length json \<ge> buf_len then Fail else Ok json)"

section \<open>Facts\<close>

lemma hex_bytes_at_hex: "hex_bytes_at (concat (map hex2 bs) @ r) (length bs) = Some bs"
proof (induction bs)
  case (Cons b bs)
  have "scan_2x (concat (map hex2 (b # bs)) @ r) = Some (ucast b)" using scan_2x_hex2 by simp
  moreover have "drop 2 (concat (map hex2 (b # bs)) @ r) = concat (map hex2 bs) @ r" by simp
  ultimately show ?case using Cons.IH by (simp add: ucast_up_ucast_id is_up)
qed simp

lemma hex_bytes_at_length: "hex_bytes_at hex n = Some bs \<Longrightarrow> length bs = n"
  by (induction hex n arbitrary: bs rule: hex_bytes_at.induct) (auto split: option.splits)

lemma length_concat_hex2 [simp]: "length (concat (map hex2 bs)) = 2 * length bs"
  using length_hex_of_bytes[of bs] by (simp add: hex_of_bytes_def)

lemma local_mac_bits:
  assumes "m \<noteq> []"
  shows "(local_mac m ! 0) AND 3 = 2"
proof -
  have "(0xFE :: u8) AND 3 = 2" by simp
  then have "((m ! 0 OR 2) AND 0xFE) AND 3 = (m ! 0 OR 2) AND 2" by (metis and.assoc)
  also have "\<dots> = 2" by (simp add: word_ao_absorbs)
  finally show ?thesis using assms by (simp add: local_mac_def)
qed

lemma ap_subnet_range: "10 \<le> unat (ap_subnet b4 b5) \<and> unat (ap_subnet b4 b5) < 210"
proof -
  let ?x = "(b4 XOR b5) mod 200"
  have "unat ?x < 200" using unat_mod[of "b4 XOR b5" 200] by simp
  then have "unat (?x + 10) = unat ?x + 10" by (subst unat_add_lem[THEN iffD1]) simp_all
  then show ?thesis using \<open>unat ?x < 200\<close> by (simp add: ap_subnet_def)
qed

lemma dec_of_byte_length: "length (dec_of_nat (unat (b :: u8))) \<le> 3"
proof -
  have "unat b < 256" by (rule unat_u8_lt)
  then show ?thesis by (simp add: dec_of_nat.simps)
qed

text \<open>What a successful \<open>identity_init\<close> has gone through.\<close>

lemma identity_init_Ok:
  assumes "identity_init e nsec_hex = Ok i"
  obtains hex nsec x c where "nsec_hex = Some hex" "length hex = 64" "id_hex_to_bytes hex 32 = Some nsec"
    "ie_pubkey e nsec = Some (x, c)" "id_nsec i = nsec" "id_nsec_hex i = c_strncpy 65 hex"
    "id_npub_hex i = id_bytes_to_hex x" "id_initialized i"
    "id_sta_mac i = local_mac (tollgate_derive e nsec ''sta-mac'' 0 6)"
    "id_ap_mac i = local_mac (tollgate_derive e nsec ''ap-mac'' 0 6)"
    "id_ap_ssid i = c_strncpy 32 (''TollGate-'' @ hex2_upper (id_ap_mac i ! 3) @ hex2_upper (id_ap_mac i ! 4) @ hex2_upper (id_ap_mac i ! 5))"
    "id_ap_ip i = ip4_addr 10 (id_ap_mac i ! 3) (ap_subnet (id_ap_mac i ! 4) (id_ap_mac i ! 5)) 1"
    "id_ap_ip_str i = c_strncpy 16 (ip4_text 10 (id_ap_mac i ! 3) (ap_subnet (id_ap_mac i ! 4) (id_ap_mac i ! 5)) 1)"
  using assms unfolding identity_init_def
  by (auto simp: Let_def split: option.splits if_splits prod.splits)

lemma ip4_text_length: "length (ip4_text 10 b s 1) \<le> 12"
  using dec_of_byte_length[of b] dec_of_byte_length[of s] by (simp add: ip4_text_def dec_of_nat.simps)

text \<open>
  The addresses of a gate: both hardware addresses have six bytes, are locally administered and not
  multicast; the name of the network is \<open>TollGate-\<close> and six digits, and the address of the access point
  is \<open>10.x.s.1\<close> with \<open>s\<close> between 10 and 209; both texts fit their buffers and the public key is 64 digits.
\<close>

theorem identity_init_addresses:
  assumes "identity_init e (Some hex) = Ok i"
    and "\<And>k m. length (ie_hmac_sha512 e k m) = 64"
    and "\<And>k x c. ie_pubkey e k = Some (x, c) \<Longrightarrow> length x = 32 \<and> length c = 33"
  shows "length (id_sta_mac i) = 6 \<and> length (id_ap_mac i) = 6 \<and>
    (id_sta_mac i ! 0) AND 3 = 2 \<and> (id_ap_mac i ! 0) AND 3 = 2 \<and>
    id_ap_ssid i = ''TollGate-'' @ hex2_upper (id_ap_mac i ! 3) @ hex2_upper (id_ap_mac i ! 4) @ hex2_upper (id_ap_mac i ! 5) \<and>
    (\<exists>s. 10 \<le> unat s \<and> unat s < 210 \<and> id_ap_ip i = ip4_addr 10 (id_ap_mac i ! 3) s 1 \<and>
         id_ap_ip_str i = ip4_text 10 (id_ap_mac i ! 3) s 1) \<and>
    length (id_npub_hex i) = 64 \<and> id_nsec_hex i = hex"
proof -
  obtain nsec x c where i: "length hex = 64" "ie_pubkey e nsec = Some (x, c)" "id_nsec_hex i = c_strncpy 65 hex"
    "id_npub_hex i = id_bytes_to_hex x"
    "id_sta_mac i = local_mac (tollgate_derive e nsec ''sta-mac'' 0 6)"
    "id_ap_mac i = local_mac (tollgate_derive e nsec ''ap-mac'' 0 6)"
    "id_ap_ssid i = c_strncpy 32 (''TollGate-'' @ hex2_upper (id_ap_mac i ! 3) @ hex2_upper (id_ap_mac i ! 4) @ hex2_upper (id_ap_mac i ! 5))"
    "id_ap_ip i = ip4_addr 10 (id_ap_mac i ! 3) (ap_subnet (id_ap_mac i ! 4) (id_ap_mac i ! 5)) 1"
    "id_ap_ip_str i = c_strncpy 16 (ip4_text 10 (id_ap_mac i ! 3) (ap_subnet (id_ap_mac i ! 4) (id_ap_mac i ! 5)) 1)"
    using assms(1) by (elim identity_init_Ok) auto
  have d: "length (tollgate_derive e nsec l 0 6) = 6" for l using assms(2) by (simp add: tollgate_derive_def)
  then have ne: "tollgate_derive e nsec l 0 6 \<noteq> []" for l by (metis list.size(3) zero_neq_numeral)
  have len: "length (local_mac m) = length m" for m by (simp add: local_mac_def)
  have t: "id_ap_ip_str i = ip4_text 10 (id_ap_mac i ! 3) (ap_subnet (id_ap_mac i ! 4) (id_ap_mac i ! 5)) 1"
    using i(9) ip4_text_length[of "id_ap_mac i ! 3" "ap_subnet (id_ap_mac i ! 4) (id_ap_mac i ! 5)"]
    by (simp add: c_strncpy_def)
  have s: "id_ap_ssid i = ''TollGate-'' @ hex2_upper (id_ap_mac i ! 3) @ hex2_upper (id_ap_mac i ! 4) @ hex2_upper (id_ap_mac i ! 5)"
    unfolding i(7) by (simp add: c_strncpy_def hex2_upper_def)
  have p: "length (id_npub_hex i) = 64" "id_nsec_hex i = hex"
    using i(1-4) assms(3)[OF i(2)] by (simp_all add: id_bytes_to_hex_def c_strncpy_def)
  have m: "length (id_sta_mac i) = 6" "length (id_ap_mac i) = 6" "(id_sta_mac i ! 0) AND 3 = 2" "(id_ap_mac i ! 0) AND 3 = 2"
    unfolding i(5,6) len d by (simp_all add: local_mac_bits[OF ne])
  show ?thesis
    using m s p t i(8) ap_subnet_range[of "id_ap_mac i ! 4" "id_ap_mac i ! 5"] by metis
qed

definition demo_identity_env :: identity_env where
  "demo_identity_env = \<lparr>ie_hmac_sha512 = (\<lambda>k m. replicate 64 0x5B), ie_context_ok = True,
     ie_pubkey = (\<lambda>k. Some (replicate 32 7, replicate 33 2))\<rparr>"

lemma demo_identity: "\<exists>i. identity_init demo_identity_env (Some (replicate 64 CHR ''1'')) = Ok i"
proof -
  have "id_hex_to_bytes (replicate 64 CHR ''1'') 32 \<noteq> None" by code_simp
  then show ?thesis by (auto simp: identity_init_def demo_identity_env_def Let_def)
qed

theorem identity_init_addresses_witness:
  "\<exists>i. identity_init demo_identity_env (Some (replicate 64 CHR ''1'')) = Ok i \<and> length (id_ap_mac i) = 6 \<and>
     (id_ap_mac i ! 0) AND 3 = 2 \<and> length (id_npub_hex i) = 64"
proof -
  obtain i where i: "identity_init demo_identity_env (Some (replicate 64 CHR ''1'')) = Ok i" using demo_identity by blast
  then show ?thesis using identity_init_addresses[OF i] by (auto simp: demo_identity_env_def)
qed

text \<open>
  The length of the key is checked, its digits are not: \<open>sscanf\<close> takes a sign for a digit, so 32
  times \<open>+1\<close> is a key.
\<close>

theorem identity_key_not_hex:
  "id_hex_to_bytes (concat (replicate 32 ''+1'')) 32 = Some (replicate 32 1)"
  by code_simp

end
