(* ===== verification/TG_Config.thy ===== *)
theory TG_Config
  imports TG_Identity
begin

text \<open>
  The configuration of the gate, \<^verbatim>\<open>main/config.h\<close> and \<^verbatim>\<open>main/config.c\<close>: the record of all
  settings, the defaults, the reading of \<^verbatim>\<open>/spiffs/config.json\<close> member by member, the choice of
  the next wireless network, the values derived from the identity, and the writing of the file
  when a network is added. The cJSON parser and printer and the file system are parameters.
\<close>

section \<open>Settings\<close>

record payout_recipient =
  pr_lightning_address :: string
  pr_factor :: jnumber

record payout_mint_config =
  pm_url :: string
  pm_min_balance :: u64
  pm_min_payout_amount :: u64

record payout_config =
  po_enabled :: bool
  po_mints :: "payout_mint_config list"
  po_mint_count :: nat
  po_recipients :: "payout_recipient list"
  po_recipient_count :: nat
  po_fee_tolerance_pct :: u64
  po_check_interval_s :: int

datatype mining_payout_mode =
    MINING_PAYOUT_AUTO | MINING_PAYOUT_POOL | MINING_PAYOUT_UPSTREAM | MINING_PAYOUT_PROXY_ONLY

record wifi_network =
  wn_ssid :: string
  wn_password :: string

record tollgate_config =
  cfg_networks :: "wifi_network list"
  cfg_network_count :: nat
  cfg_current_network :: nat
  cfg_max_retry :: int
  cfg_nsec :: string
  cfg_npub :: string
  cfg_ap_ssid :: string
  cfg_ap_password :: string
  cfg_ap_channel :: u8
  cfg_ap_max_conn :: u8
  cfg_sta_mac :: "u8 list"
  cfg_ap_mac :: "u8 list"
  cfg_ap_ip :: u32
  cfg_ap_ip_str :: string
  cfg_mint_url :: string
  cfg_accepted_mints :: "string list"
  cfg_accepted_mint_count :: nat
  cfg_lnurl_url :: string
  cfg_price_per_step :: int
  cfg_step_size_ms :: int
  cfg_step_size_bytes :: int
  cfg_metric :: string
  cfg_persist_threshold_sats :: u64
  cfg_nostr_geohash :: string
  cfg_nostr_relays :: "string list"
  cfg_nostr_relay_count :: nat
  cfg_nostr_publish_interval_s :: int
  cfg_nostr_sync_interval_s :: int
  cfg_nostr_fallback_sync_interval_s :: int
  cfg_identity_initialized :: bool
  cfg_client_enabled :: bool
  cfg_client_steps_to_buy :: int
  cfg_client_renewal_threshold_pct :: int
  cfg_client_retry_interval_ms :: int
  cfg_payout :: payout_config
  cfg_cvm_enabled :: bool
  cfg_cvm_relays :: string
  cfg_wifi_auth_mode :: string
  cfg_display_enabled :: bool
  cfg_nostr_seed_relays :: "string list"
  cfg_nostr_seed_relay_count :: nat
  cfg_market_enabled :: bool
  cfg_market_scan_interval_s :: int
  cfg_client_auto_switch :: bool
  cfg_sync_enabled :: bool
  cfg_wifistr_enabled :: bool
  cfg_local_relay_enabled :: bool
  cfg_mint_health_enabled :: bool
  cfg_mining_enabled :: bool
  cfg_mining_payout_mode :: mining_payout_mode
  cfg_stratum_host :: string
  cfg_stratum_port :: u16
  cfg_stratum_user :: string
  cfg_stratum_pass :: string
  cfg_stratum_fallback_host :: string
  cfg_stratum_fallback_port :: u16
  cfg_mining_port :: u16
  cfg_hashprice_sats_per_ghs_day :: u64
  cfg_mining_sandbox_mint_access :: bool
  cfg_proxy_self_test :: bool
  cfg_faucet_url :: string
  cfg_faucet_poll_interval_s :: int

definition PAYOUT_MAX_RECIPIENTS :: nat where
  "PAYOUT_MAX_RECIPIENTS = 4"

definition PAYOUT_MAX_MINTS :: nat where
  "PAYOUT_MAX_MINTS = 3"

definition TOLLGATE_MAX_WIFI_NETWORKS :: nat where
  "TOLLGATE_MAX_WIFI_NETWORKS = 5"

definition TOLLGATE_MAX_MINT_URLS :: nat where
  "TOLLGATE_MAX_MINT_URLS = 8"

definition TOLLGATE_MAX_RELAYS :: nat where
  "TOLLGATE_MAX_RELAYS = 4"

definition TOLLGATE_MAX_SEED_RELAYS :: nat where
  "TOLLGATE_MAX_SEED_RELAYS = 8"

lemmas config_limits = PAYOUT_MAX_RECIPIENTS_def PAYOUT_MAX_MINTS_def TOLLGATE_MAX_WIFI_NETWORKS_def
  TOLLGATE_MAX_MINT_URLS_def TOLLGATE_MAX_RELAYS_def TOLLGATE_MAX_SEED_RELAYS_def

text \<open>The zeroed structure and the values \<open>tollgate_config_init\<close> sets before it reads the file.\<close>

definition no_network :: wifi_network where
  "no_network = \<lparr>wn_ssid = [], wn_password = []\<rparr>"

definition payout_defaults :: payout_config where
  "payout_defaults = \<lparr>po_enabled = True,
     po_mints = replicate PAYOUT_MAX_MINTS \<lparr>pm_url = [], pm_min_balance = 0, pm_min_payout_amount = 0\<rparr>,
     po_mint_count = 0,
     po_recipients = replicate PAYOUT_MAX_RECIPIENTS \<lparr>pr_lightning_address = [], pr_factor = Fin 0\<rparr>,
     po_recipient_count = 0, po_fee_tolerance_pct = 10, po_check_interval_s = 60\<rparr>"

definition config_defaults :: tollgate_config where
  "config_defaults = \<lparr>
     cfg_networks = replicate TOLLGATE_MAX_WIFI_NETWORKS no_network,
     cfg_network_count = 0, cfg_current_network = 0, cfg_max_retry = 5,
     cfg_nsec = [], cfg_npub = [], cfg_ap_ssid = [], cfg_ap_password = [],
     cfg_ap_channel = 1, cfg_ap_max_conn = 4,
     cfg_sta_mac = replicate 6 0, cfg_ap_mac = replicate 6 0, cfg_ap_ip = 0, cfg_ap_ip_str = [],
     cfg_mint_url = [], cfg_accepted_mints = replicate TOLLGATE_MAX_MINT_URLS [],
     cfg_accepted_mint_count = 0, cfg_lnurl_url = [],
     cfg_price_per_step = 21, cfg_step_size_ms = 60000, cfg_step_size_bytes = 22020096,
     cfg_metric = ''milliseconds'', cfg_persist_threshold_sats = 1,
     cfg_nostr_geohash = [], cfg_nostr_relays = replicate TOLLGATE_MAX_RELAYS [],
     cfg_nostr_relay_count = 0, cfg_nostr_publish_interval_s = 21600,
     cfg_nostr_sync_interval_s = 1800, cfg_nostr_fallback_sync_interval_s = 21600,
     cfg_identity_initialized = False,
     cfg_client_enabled = False, cfg_client_steps_to_buy = 1,
     cfg_client_renewal_threshold_pct = 20, cfg_client_retry_interval_ms = 30000,
     cfg_payout = payout_defaults,
     cfg_cvm_enabled = True, cfg_cvm_relays = ''wss://nos.lol'',
     cfg_wifi_auth_mode = ''WPA2'', cfg_display_enabled = True,
     cfg_nostr_seed_relays = replicate TOLLGATE_MAX_SEED_RELAYS [], cfg_nostr_seed_relay_count = 0,
     cfg_market_enabled = True, cfg_market_scan_interval_s = 30, cfg_client_auto_switch = False,
     cfg_sync_enabled = True, cfg_wifistr_enabled = True, cfg_local_relay_enabled = True,
     cfg_mint_health_enabled = True,
     cfg_mining_enabled = False, cfg_mining_payout_mode = MINING_PAYOUT_AUTO,
     cfg_stratum_host = [], cfg_stratum_port = 3333, cfg_stratum_user = [], cfg_stratum_pass = [],
     cfg_stratum_fallback_host = [], cfg_stratum_fallback_port = 0, cfg_mining_port = 3334,
     cfg_hashprice_sats_per_ghs_day = 0, cfg_mining_sandbox_mint_access = False,
     cfg_proxy_self_test = True, cfg_faucet_url = [], cfg_faucet_poll_interval_s = 120\<rparr>"

section \<open>Reading members of the file\<close>

text \<open>
  The four idioms of the reader: a string member that is checked to be a string, one that is not
  (\<open>strncpy\<close> from the null \<open>valuestring\<close> of any other value is undefined), a number through \<open>valueint\<close>
  or \<open>valuedouble\<close> of whatever value is there, and a flag.
\<close>

definition read_str :: "nat \<Rightarrow> json \<Rightarrow> string \<Rightarrow> string \<Rightarrow> string" where
  "read_str n j k d = (case json_str (json_get_ci j k) of Some s \<Rightarrow> c_strncpy n s | None \<Rightarrow> d)"

definition valuestring :: "json \<Rightarrow> string cres" where
  "valuestring v = (case v of JStr s \<Rightarrow> Ok s | _ \<Rightarrow> Undef)"

definition read_any_str :: "nat \<Rightarrow> json \<Rightarrow> string \<Rightarrow> string \<Rightarrow> string cres" where
  "read_any_str n j k d = (case json_get_ci j k of
       Some v \<Rightarrow> cbind (valuestring v) (\<lambda>s. Ok (c_strncpy n s))
     | None \<Rightarrow> Ok d)"

definition read_int :: "json \<Rightarrow> string \<Rightarrow> int \<Rightarrow> int" where
  "read_int j k d = (case json_get_ci j k of Some v \<Rightarrow> json_valueint v | None \<Rightarrow> d)"

definition read_u16 :: "json \<Rightarrow> string \<Rightarrow> u16 \<Rightarrow> u16" where
  "read_u16 j k d = (case json_get_ci j k of Some v \<Rightarrow> of_int (json_valueint v) | None \<Rightarrow> d)"

definition read_u64 :: "json \<Rightarrow> string \<Rightarrow> u64 \<Rightarrow> u64 cres" where
  "read_u64 j k d = (case json_get_ci j k of Some v \<Rightarrow> d2u64 (valuedouble v) | None \<Rightarrow> Ok d)"

definition read_bool :: "json \<Rightarrow> string \<Rightarrow> bool \<Rightarrow> bool" where
  "read_bool j k d = (case json_get_ci j k of Some (JBool b) \<Rightarrow> b | _ \<Rightarrow> d)"

text \<open>
  The loops over arrays. The position written is the position in the file, the count grows only
  for entries that are accepted.
\<close>

fun read_strings :: "nat \<Rightarrow> nat \<Rightarrow> json list \<Rightarrow> string list \<times> nat \<Rightarrow> string list \<times> nat" where
  "read_strings n i [] st = st"
| "read_strings n i (JStr s # js) (arr, c) = read_strings n (Suc i) js (arr[i := c_strncpy n s], Suc c)"
| "read_strings n i (j # js) st = read_strings n (Suc i) js st"

definition texts_from :: "nat \<Rightarrow> nat \<Rightarrow> json option \<Rightarrow> string list \<times> nat \<Rightarrow> string list \<times> nat" where
  "texts_from n m j st = (case json_arr j of Some js \<Rightarrow> read_strings n 0 (take m js) st | None \<Rightarrow> st)"

fun read_networks :: "nat \<Rightarrow> json list \<Rightarrow> wifi_network list \<times> nat \<Rightarrow> (wifi_network list \<times> nat) cres" where
  "read_networks i [] st = Ok st"
| "read_networks i (net # js) (arr, c) =
     (case json_get_ci net ''ssid'' of
        None \<Rightarrow> read_networks (Suc i) js (arr, c)
      | Some vs \<Rightarrow> (case json_get_ci net ''password'' of
          None \<Rightarrow> read_networks (Suc i) js (arr, c)
        | Some vp \<Rightarrow> cbind (valuestring vs) (\<lambda>s. cbind (valuestring vp) (\<lambda>p.
            read_networks (Suc i) js
              (arr[i := \<lparr>wn_ssid = c_strncpy 32 s, wn_password = c_strncpy 64 p\<rparr>], Suc c)))))"

definition load_nsec :: "json \<Rightarrow> tollgate_config \<Rightarrow> tollgate_config cres" where
  "load_nsec j c = (case json_str (json_get_ci j ''nsec'') of
       Some s \<Rightarrow> Ok (c\<lparr>cfg_nsec := c_strncpy 65 s\<rparr>)
     | None \<Rightarrow> Fail)"

definition wifi_fallback :: "json \<Rightarrow> wifi_network list \<times> nat \<Rightarrow> wifi_network list \<times> nat" where
  "wifi_fallback j st =
     (if snd st = 0 then
        (case (json_str (json_get_ci j ''wifi_ssid''), json_str (json_get_ci j ''wifi_password'')) of
           (Some s, Some p) \<Rightarrow> ((fst st)[0 := \<lparr>wn_ssid = c_strncpy 32 s, wn_password = c_strncpy 64 p\<rparr>], 1)
         | _ \<Rightarrow> st)
      else st)"

definition read_network_list :: "json \<Rightarrow> wifi_network list \<times> nat \<Rightarrow> (wifi_network list \<times> nat) cres" where
  "read_network_list j st = (case json_arr (json_get_ci j ''wifi_networks'') of
       Some js \<Rightarrow> read_networks 0 (take TOLLGATE_MAX_WIFI_NETWORKS js) st
     | None \<Rightarrow> Ok st)"

definition load_networks :: "json \<Rightarrow> tollgate_config \<Rightarrow> tollgate_config cres" where
  "load_networks j c =
     cbind (read_network_list j (cfg_networks c, cfg_network_count c)) (\<lambda>st.
     Ok (c\<lparr>cfg_networks := fst (wifi_fallback j st), cfg_network_count := snd (wifi_fallback j st)\<rparr>))"

definition load_mints :: "json \<Rightarrow> tollgate_config \<Rightarrow> tollgate_config cres" where
  "load_mints j c =
     cbind (read_any_str 64 j ''ap_password'' (cfg_ap_password c)) (\<lambda>ap.
     cbind (read_any_str 256 j ''mint_url'' (cfg_mint_url c)) (\<lambda>mu.
     let ms = texts_from 256 TOLLGATE_MAX_MINT_URLS (json_get_ci j ''accepted_mints'')
                (cfg_accepted_mints c, cfg_accepted_mint_count c) in
     cbind (read_any_str 256 j ''lnurl_url'' (cfg_lnurl_url c)) (\<lambda>ln.
     Ok (c\<lparr>cfg_ap_password := ap, cfg_mint_url := mu, cfg_accepted_mints := fst ms,
           cfg_accepted_mint_count := snd ms, cfg_lnurl_url := ln\<rparr>))))"

definition load_price :: "json \<Rightarrow> tollgate_config \<Rightarrow> tollgate_config cres" where
  "load_price j c =
     cbind (read_u64 j ''persist_threshold_sats'' (cfg_persist_threshold_sats c)) (\<lambda>pt.
     cbind (read_any_str 16 j ''nostr_geohash'' ''u281w0dfz'') (\<lambda>gh.
     Ok (c\<lparr>cfg_price_per_step := read_int j ''price_per_step'' (cfg_price_per_step c),
           cfg_step_size_ms := read_int j ''step_size_ms'' (cfg_step_size_ms c),
           cfg_step_size_bytes := read_int j ''step_size_bytes'' (cfg_step_size_bytes c),
           cfg_metric := read_str 16 j ''metric'' (cfg_metric c),
           cfg_persist_threshold_sats := pt,
           cfg_nostr_geohash := gh\<rparr>)))"

definition load_relays :: "json \<Rightarrow> tollgate_config \<Rightarrow> tollgate_config" where
  "load_relays j c =
     (let rs = texts_from 128 TOLLGATE_MAX_RELAYS (json_get_ci j ''nostr_relays'')
                 (cfg_nostr_relays c, cfg_nostr_relay_count c);
          ss = texts_from 128 TOLLGATE_MAX_SEED_RELAYS (json_get_ci j ''nostr_seed_relays'')
                 (cfg_nostr_seed_relays c, cfg_nostr_seed_relay_count c) in
      c\<lparr>cfg_nostr_relays := fst rs, cfg_nostr_relay_count := snd rs,
        cfg_nostr_publish_interval_s := read_int j ''nostr_publish_interval_s'' (cfg_nostr_publish_interval_s c),
        cfg_nostr_sync_interval_s := read_int j ''nostr_sync_interval_s'' (cfg_nostr_sync_interval_s c),
        cfg_nostr_fallback_sync_interval_s :=
          read_int j ''nostr_fallback_sync_interval_s'' (cfg_nostr_fallback_sync_interval_s c),
        cfg_nostr_seed_relays := fst ss, cfg_nostr_seed_relay_count := snd ss\<rparr>)"

definition load_client :: "json \<Rightarrow> tollgate_config \<Rightarrow> tollgate_config" where
  "load_client j c = c\<lparr>
     cfg_client_enabled := read_bool j ''client_enabled'' (cfg_client_enabled c),
     cfg_client_steps_to_buy := read_int j ''client_steps_to_buy'' (cfg_client_steps_to_buy c),
     cfg_client_renewal_threshold_pct := read_int j ''client_renewal_threshold_pct'' (cfg_client_renewal_threshold_pct c),
     cfg_client_retry_interval_ms := read_int j ''client_retry_interval_ms'' (cfg_client_retry_interval_ms c)\<rparr>"

text \<open>The payout section.\<close>

fun read_recipients :: "nat \<Rightarrow> json list \<Rightarrow> payout_recipient list \<Rightarrow> payout_recipient list" where
  "read_recipients i [] arr = arr"
| "read_recipients i (r # js) arr = read_recipients (Suc i) js
     (arr[i := \<lparr>pr_lightning_address = read_str 128 r ''lightning_address'' (pr_lightning_address (arr ! i)),
               pr_factor = (case json_num (json_get_ci r ''factor'') of Some d \<Rightarrow> d | None \<Rightarrow> pr_factor (arr ! i))\<rparr>])"

definition read_num_u64 :: "json \<Rightarrow> string \<Rightarrow> u64 \<Rightarrow> u64 cres" where
  "read_num_u64 j k d = (case json_num (json_get_ci j k) of Some x \<Rightarrow> d2u64 x | None \<Rightarrow> Ok d)"

fun read_payout_mints :: "nat \<Rightarrow> json list \<Rightarrow> payout_mint_config list \<Rightarrow> payout_mint_config list cres" where
  "read_payout_mints i [] arr = Ok arr"
| "read_payout_mints i (m # js) arr =
     cbind (read_num_u64 m ''min_balance'' (pm_min_balance (arr ! i))) (\<lambda>mb.
     cbind (read_num_u64 m ''min_payout_amount'' (pm_min_payout_amount (arr ! i))) (\<lambda>mp.
     read_payout_mints (Suc i) js
       (arr[i := \<lparr>pm_url = read_str 256 m ''url'' (pm_url (arr ! i)),
                 pm_min_balance = mb, pm_min_payout_amount = mp\<rparr>])))"

definition recipients_from :: "json option \<Rightarrow> payout_recipient list \<times> nat \<Rightarrow> payout_recipient list \<times> nat" where
  "recipients_from j st = (case json_arr j of
       Some js \<Rightarrow> (read_recipients 0 (take PAYOUT_MAX_RECIPIENTS js) (fst st), length (take PAYOUT_MAX_RECIPIENTS js))
     | None \<Rightarrow> st)"

definition payout_mints_from :: "json option \<Rightarrow> payout_mint_config list \<times> nat \<Rightarrow> (payout_mint_config list \<times> nat) cres" where
  "payout_mints_from j st = (case json_arr j of
       Some js \<Rightarrow> cbind (read_payout_mints 0 (take PAYOUT_MAX_MINTS js) (fst st))
                    (\<lambda>ms. Ok (ms, length (take PAYOUT_MAX_MINTS js)))
     | None \<Rightarrow> Ok st)"

definition load_payout_section :: "json \<Rightarrow> payout_config \<Rightarrow> payout_config cres" where
  "load_payout_section p po =
     cbind (read_u64 p ''fee_tolerance_pct'' (po_fee_tolerance_pct po)) (\<lambda>fee.
     let rs = recipients_from (json_get_ci p ''recipients'') (po_recipients po, po_recipient_count po) in
     cbind (payout_mints_from (json_get_ci p ''mints'') (po_mints po, po_mint_count po)) (\<lambda>ms.
     Ok (po\<lparr>po_enabled := read_bool p ''enabled'' (po_enabled po),
            po_fee_tolerance_pct := fee,
            po_check_interval_s := read_int p ''check_interval_s'' (po_check_interval_s po),
            po_recipients := fst rs, po_recipient_count := snd rs,
            po_mints := fst ms, po_mint_count := snd ms\<rparr>)))"

definition json_obj :: "json option \<Rightarrow> json option" where
  "json_obj j = (case j of Some (JObj ms) \<Rightarrow> j | _ \<Rightarrow> None)"

definition load_payout :: "json \<Rightarrow> tollgate_config \<Rightarrow> tollgate_config cres" where
  "load_payout j c = (case json_obj (json_get_ci j ''payout'') of
       None \<Rightarrow> Ok c
     | Some p \<Rightarrow> cbind (load_payout_section p (cfg_payout c)) (\<lambda>po. Ok (c\<lparr>cfg_payout := po\<rparr>)))"

text \<open>Remote control, display and the payout mint that stands in for an empty list.\<close>

definition load_cvm :: "json \<Rightarrow> tollgate_config \<Rightarrow> tollgate_config" where
  "load_cvm j c =
     (let c1 = (case json_obj (json_get_ci j ''cvm'') of
            None \<Rightarrow> c
          | Some v \<Rightarrow> c\<lparr>cfg_cvm_enabled := read_bool v ''enabled'' (cfg_cvm_enabled c),
                       cfg_cvm_relays := read_str 256 v ''relays'' (cfg_cvm_relays c)\<rparr>) in
      c1\<lparr>cfg_cvm_enabled := read_bool j ''cvm_enabled'' (cfg_cvm_enabled c1),
         cfg_wifi_auth_mode := read_str 16 j ''wifi_auth_mode'' (cfg_wifi_auth_mode c1),
         cfg_display_enabled := read_bool j ''display_enabled'' (cfg_display_enabled c1)\<rparr>)"

definition default_payout_mint :: "tollgate_config \<Rightarrow> tollgate_config" where
  "default_payout_mint c =
     (if po_mint_count (cfg_payout c) = 0 \<and> cfg_mint_url c \<noteq> [] then
        c\<lparr>cfg_payout := (cfg_payout c)\<lparr>
            po_mints := (po_mints (cfg_payout c))[0 := \<lparr>pm_url = c_strncpy 256 (cfg_mint_url c),
              pm_min_balance = 64, pm_min_payout_amount = 128\<rparr>],
            po_mint_count := 1\<rparr>\<rparr>
      else c)"

definition read_payout_mode :: "json \<Rightarrow> mining_payout_mode \<Rightarrow> mining_payout_mode" where
  "read_payout_mode m d = (case json_str (json_get_ci m ''payout_mode'') of
       None \<Rightarrow> d
     | Some s \<Rightarrow> if s = ''pool'' then MINING_PAYOUT_POOL
        else if s = ''upstream'' then MINING_PAYOUT_UPSTREAM
        else if s = ''proxy_only'' then MINING_PAYOUT_PROXY_ONLY else d)"

definition load_mining :: "json \<Rightarrow> tollgate_config \<Rightarrow> tollgate_config cres" where
  "load_mining j c = (case json_obj (json_get_ci j ''mining'') of
       None \<Rightarrow> Ok c
     | Some m \<Rightarrow>
         cbind (read_u64 m ''hashprice_sats_per_ghs_day'' (cfg_hashprice_sats_per_ghs_day c)) (\<lambda>hp.
         Ok (c\<lparr>cfg_mining_enabled := read_bool m ''enabled'' (cfg_mining_enabled c),
               cfg_mining_payout_mode := read_payout_mode m (cfg_mining_payout_mode c),
               cfg_stratum_host := read_str 128 m ''stratum_host'' (cfg_stratum_host c),
               cfg_stratum_port := read_u16 m ''stratum_port'' (cfg_stratum_port c),
               cfg_stratum_user := read_str 128 m ''stratum_user'' (cfg_stratum_user c),
               cfg_stratum_pass := read_str 64 m ''stratum_pass'' (cfg_stratum_pass c),
               cfg_stratum_fallback_host := read_str 128 m ''stratum_fallback_host'' (cfg_stratum_fallback_host c),
               cfg_stratum_fallback_port := read_u16 m ''stratum_fallback_port'' (cfg_stratum_fallback_port c),
               cfg_mining_port := read_u16 m ''mining_port'' (cfg_mining_port c),
               cfg_hashprice_sats_per_ghs_day := hp,
               cfg_mining_sandbox_mint_access := read_bool m ''sandbox_mint_access'' (cfg_mining_sandbox_mint_access c),
               cfg_proxy_self_test := read_bool m ''proxy_self_test'' (cfg_proxy_self_test c),
               cfg_faucet_url := read_str 256 m ''faucet_url'' (cfg_faucet_url c),
               cfg_faucet_poll_interval_s := read_int m ''faucet_poll_interval_s'' (cfg_faucet_poll_interval_s c)\<rparr>)))"

definition load_flags :: "json \<Rightarrow> tollgate_config \<Rightarrow> tollgate_config" where
  "load_flags j c = c\<lparr>
     cfg_market_enabled := read_bool j ''market_enabled'' (cfg_market_enabled c),
     cfg_market_scan_interval_s := read_int j ''market_scan_interval_s'' (cfg_market_scan_interval_s c),
     cfg_client_auto_switch := read_bool j ''client_auto_switch'' (cfg_client_auto_switch c),
     cfg_sync_enabled := read_bool j ''sync_enabled'' (cfg_sync_enabled c),
     cfg_wifistr_enabled := read_bool j ''wifistr_enabled'' (cfg_wifistr_enabled c),
     cfg_local_relay_enabled := read_bool j ''local_relay_enabled'' (cfg_local_relay_enabled c),
     cfg_mint_health_enabled := read_bool j ''mint_health_enabled'' (cfg_mint_health_enabled c)\<rparr>"

text \<open>What is filled in when the file leaves a list empty.\<close>

definition default_relays :: "string list" where
  "default_relays = [''wss://relay.damus.io'', ''wss://nos.lol'', ''wss://relay.anzenkodo.workers.dev'',
     ''wss://nostr.koning-degraaf.nl'']"

definition default_seed_relays :: "string list" where
  "default_seed_relays = [''wss://relay.orangesync.tech'', ''wss://relay.damus.io'', ''wss://nos.lol'',
     ''wss://relay.nostr.band'', ''wss://relay.anzenkodo.workers.dev'', ''wss://nostr.koning-degraaf.nl'',
     ''wss://knostr.neutrine.com'', ''wss://nostr.einundzwanzig.space'']"

definition default_recipient :: payout_recipient where
  "default_recipient = \<lparr>pr_lightning_address = ''TollGate@coinos.io'', pr_factor = Fin 1\<rparr>"

definition fill_defaults :: "tollgate_config \<Rightarrow> tollgate_config" where
  "fill_defaults c =
     (let c1 = (if po_recipient_count (cfg_payout c) = 0 then
            c\<lparr>cfg_payout := (cfg_payout c)\<lparr>po_recipients := (po_recipients (cfg_payout c))[0 := default_recipient],
                                           po_recipient_count := 1\<rparr>\<rparr> else c);
          c2 = (if cfg_accepted_mint_count c1 = 0 \<and> cfg_mint_url c1 \<noteq> [] then
            c1\<lparr>cfg_accepted_mints := (cfg_accepted_mints c1)[0 := c_strncpy 256 (cfg_mint_url c1)],
               cfg_accepted_mint_count := 1\<rparr> else c1);
          c3 = (if cfg_nostr_relay_count c2 = 0 then
            c2\<lparr>cfg_nostr_relays := default_relays, cfg_nostr_relay_count := 4\<rparr> else c2) in
      if cfg_nostr_seed_relay_count c3 = 0 then
        c3\<lparr>cfg_nostr_seed_relays := default_seed_relays, cfg_nostr_seed_relay_count := 8\<rparr> else c3)"

text \<open>\<open>tollgate_config_init\<close> from the parsed file on.\<close>

definition config_load :: "json \<Rightarrow> tollgate_config cres" where
  "config_load j =
     cbind (load_nsec j config_defaults) (\<lambda>c.
     cbind (load_networks j c) (\<lambda>c.
     cbind (load_mints j c) (\<lambda>c.
     cbind (load_price j c) (\<lambda>c.
     cbind (load_payout j (load_client j (load_relays j c))) (\<lambda>c.
     cbind (load_mining j (default_payout_mint (load_cvm j c))) (\<lambda>c.
     Ok (fill_defaults (load_flags j c))))))))"

section \<open>The file\<close>

definition dq :: string where
  "dq = [CHR 0x22]"

definition default_nsec :: string where
  "default_nsec = ''a1b2c3d4e5f6a1b2c3d4e5f6a1b2c3d4e5f6a1b2c3d4e5f6a1b2c3d4e5f6a1b2''"

definition default_json :: string where
  "default_json = ''{'' @
     dq @ ''nsec'' @ dq @ '':'' @ dq @ default_nsec @ dq @ '','' @
     dq @ ''wifi_networks'' @ dq @ '':['' @
       ''{'' @ dq @ ''ssid'' @ dq @ '':'' @ dq @ ''c03rad0r'' @ dq @ '','' @ dq @ ''password'' @ dq @ '':'' @ dq @ ''c03rad0r123'' @ dq @ ''}'' @
     ''],'' @
     dq @ ''ap_password'' @ dq @ '':'' @ dq @ dq @ '','' @
     dq @ ''mint_url'' @ dq @ '':'' @ dq @ ''https://testnut.cashu.exchange'' @ dq @ '','' @
     dq @ ''accepted_mints'' @ dq @ '':['' @ dq @ ''https://testnut.cashu.exchange'' @ dq @ ''],'' @
     dq @ ''price_per_step'' @ dq @ '':21,'' @
     dq @ ''step_size_ms'' @ dq @ '':60000,'' @
     dq @ ''nostr_geohash'' @ dq @ '':'' @ dq @ ''u281w0dfz'' @ dq @ '','' @
     dq @ ''nostr_relays'' @ dq @ '':['' @ dq @ ''wss://relay.damus.io'' @ dq @ '','' @ dq @ ''wss://nos.lol'' @ dq @ ''],'' @
     dq @ ''nostr_publish_interval_s'' @ dq @ '':21600,'' @
     dq @ ''nostr_sync_interval_s'' @ dq @ '':1800,'' @
     dq @ ''nostr_fallback_sync_interval_s'' @ dq @ '':21600,'' @
     dq @ ''client_enabled'' @ dq @ '':false,'' @
     dq @ ''client_steps_to_buy'' @ dq @ '':1,'' @
     dq @ ''client_renewal_threshold_pct'' @ dq @ '':20,'' @
     dq @ ''client_retry_interval_ms'' @ dq @ '':30000'' @ ''}''"

text \<open>
  The file system: whether it mounts, whether the file can be opened for writing, and the contents
  of the file, \<open>None\<close> when there is none.
\<close>

record config_env =
  fe_mounts :: bool
  fe_writable :: bool
  fe_parse :: "string \<Rightarrow> json option"
  fe_print :: "json \<Rightarrow> string"

definition tollgate_config_init :: "config_env \<Rightarrow> string option \<Rightarrow> tollgate_config cres \<times> string option" where
  "tollgate_config_init e file =
     (if \<not> fe_mounts e then (Fail, file)
      else
        let file' = (case file of None \<Rightarrow> if fe_writable e then Some default_json else None | Some t \<Rightarrow> Some t) in
        (case file' of
           None \<Rightarrow> (Fail, None)
         | Some txt \<Rightarrow> (case fe_parse e txt of None \<Rightarrow> (Fail, file') | Some j \<Rightarrow> (config_load j, file'))))"

section \<open>Networks\<close>

datatype wifi_authmode = WIFI_AUTH_OPEN | WIFI_AUTH_WPA2_PSK | WIFI_AUTH_WPA3_PSK

record wifi_sta_config =
  sta_ssid :: string
  sta_password :: string
  sta_authmode :: wifi_authmode

definition tollgate_config_get_wifi :: "tollgate_config \<Rightarrow> wifi_sta_config cres" where
  "tollgate_config_get_wifi c =
     (if cfg_network_count c = 0 then Fail
      else
        let idx = cfg_current_network c mod cfg_network_count c;
            net = cfg_networks c ! idx in
        if length (cfg_networks c) \<le> idx then Undef
        else Ok \<lparr>sta_ssid = c_strncpy 32 (wn_ssid net), sta_password = c_strncpy 64 (wn_password net),
                 sta_authmode = (if wn_password net = [] then WIFI_AUTH_OPEN
                   else if c_strstr (cfg_wifi_auth_mode c) ''WPA3'' \<noteq> None then WIFI_AUTH_WPA3_PSK
                   else WIFI_AUTH_WPA2_PSK)\<rparr>)"

definition tollgate_config_get_next_wifi :: "tollgate_config \<Rightarrow> wifi_sta_config cres \<times> tollgate_config" where
  "tollgate_config_get_next_wifi c =
     (if cfg_network_count c = 0 then (Fail, c)
      else
        let c' = c\<lparr>cfg_current_network := (cfg_current_network c + 1) mod cfg_network_count c\<rparr> in
        (tollgate_config_get_wifi c', c'))"

definition tollgate_config_derive_unique :: "tollgate_identity option \<Rightarrow> tollgate_config \<Rightarrow> tollgate_config" where
  "tollgate_config_derive_unique ident c =
     (if cfg_identity_initialized c then c
      else (case ident of
         None \<Rightarrow> c
       | Some i \<Rightarrow>
           if \<not> id_initialized i then c
           else c\<lparr>cfg_ap_ssid := c_strncpy 32 (id_ap_ssid i), cfg_sta_mac := take 6 (id_sta_mac i),
                  cfg_ap_mac := take 6 (id_ap_mac i), cfg_ap_ip := id_ap_ip i,
                  cfg_ap_ip_str := c_strncpy 16 (id_ap_ip_str i), cfg_npub := c_strncpy 65 (id_npub_hex i),
                  cfg_identity_initialized := True\<rparr>))"

text \<open>What \<open>tollgate_config_add_wifi\<close> writes: the whole file, from nine of the settings.\<close>

definition network_object :: "wifi_network \<Rightarrow> json" where
  "network_object n = JObj [(''ssid'', JStr (wn_ssid n)), (''password'', JStr (wn_password n))]"

definition config_fields :: "tollgate_config \<Rightarrow> (string \<times> json) list" where
  "config_fields c =
     ([(''nsec'', JStr (cfg_nsec c)),
       (''wifi_networks'', JArr (map network_object (take (cfg_network_count c) (cfg_networks c))))] @
      (if cfg_ap_password c \<noteq> [] then [(''ap_password'', JStr (cfg_ap_password c))] else []) @
      [(''mint_url'', JStr (cfg_mint_url c)),
       (''price_per_step'', json_int (cfg_price_per_step c)),
       (''step_size_ms'', json_int (cfg_step_size_ms c))] @
      (if cfg_metric c \<noteq> [] then [(''metric'', JStr (cfg_metric c))] else []) @
      (if cfg_nostr_geohash c \<noteq> [] then [(''nostr_geohash'', JStr (cfg_nostr_geohash c))] else []) @
      [(''nostr_relays'', JArr (map JStr (take (cfg_nostr_relay_count c) (cfg_nostr_relays c))))])"

definition config_object :: "tollgate_config \<Rightarrow> json" where
  "config_object c = JObj (config_fields c)"

definition tollgate_config_add_wifi ::
  "config_env \<Rightarrow> string option \<Rightarrow> string option \<Rightarrow> tollgate_config \<Rightarrow> string option
     \<Rightarrow> (unit cres \<times> tollgate_config \<times> string option)" where
  "tollgate_config_add_wifi e ssid pass c file =
     (case (ssid, pass) of
        (Some s, Some p) \<Rightarrow>
          if TOLLGATE_MAX_WIFI_NETWORKS \<le> cfg_network_count c then (Fail, c, file)
          else
            let c' = c\<lparr>cfg_networks := (cfg_networks c)[cfg_network_count c :=
                         \<lparr>wn_ssid = c_strncpy 32 s, wn_password = c_strncpy 64 p\<rparr>],
                       cfg_network_count := cfg_network_count c + 1\<rparr> in
            (Ok (), c', if fe_writable e then Some (fe_print e (config_object c')) else file)
      | _ \<Rightarrow> (Fail, c, file))"

section \<open>Type invariant\<close>

text \<open>
  Every text is shorter than its buffer, every array has its size, and no count exceeds it.
\<close>

definition network_ok :: "wifi_network \<Rightarrow> bool" where
  "network_ok n \<longleftrightarrow> length (wn_ssid n) < 32 \<and> length (wn_password n) < 64"

definition texts_ok :: "nat \<Rightarrow> nat \<Rightarrow> string list \<Rightarrow> nat \<Rightarrow> bool" where
  "texts_ok n m arr c \<longleftrightarrow> length arr = m \<and> c \<le> m \<and> (\<forall>s \<in> set arr. length s < n)"

definition payout_ok :: "payout_config \<Rightarrow> bool" where
  "payout_ok p \<longleftrightarrow> length (po_mints p) = PAYOUT_MAX_MINTS \<and> po_mint_count p \<le> PAYOUT_MAX_MINTS \<and>
     (\<forall>m \<in> set (po_mints p). length (pm_url m) < 256) \<and>
     length (po_recipients p) = PAYOUT_MAX_RECIPIENTS \<and> po_recipient_count p \<le> PAYOUT_MAX_RECIPIENTS \<and>
     (\<forall>r \<in> set (po_recipients p). length (pr_lightning_address r) < 128)"

definition networks_ok :: "tollgate_config \<Rightarrow> bool" where
  "networks_ok c \<longleftrightarrow> length (cfg_networks c) = TOLLGATE_MAX_WIFI_NETWORKS \<and>
     cfg_network_count c \<le> TOLLGATE_MAX_WIFI_NETWORKS \<and> (\<forall>n \<in> set (cfg_networks c). network_ok n)"

definition gate_texts_ok :: "tollgate_config \<Rightarrow> bool" where
  "gate_texts_ok c \<longleftrightarrow> length (cfg_nsec c) < 65 \<and> length (cfg_npub c) < 65 \<and> length (cfg_ap_ssid c) < 32 \<and>
     length (cfg_ap_password c) < 64 \<and> length (cfg_ap_ip_str c) < 16 \<and> length (cfg_mint_url c) < 256 \<and>
     length (cfg_lnurl_url c) < 256 \<and> length (cfg_metric c) < 16 \<and> length (cfg_nostr_geohash c) < 16 \<and>
     length (cfg_cvm_relays c) < 256 \<and> length (cfg_wifi_auth_mode c) < 16"

definition prices_ok :: "tollgate_config \<Rightarrow> bool" where
  "prices_ok c \<longleftrightarrow> - (2 ^ 31) \<le> cfg_price_per_step c \<and> cfg_price_per_step c < 2 ^ 31 \<and>
     - (2 ^ 31) \<le> cfg_step_size_ms c \<and> cfg_step_size_ms c < 2 ^ 31"

definition mining_texts_ok :: "tollgate_config \<Rightarrow> bool" where
  "mining_texts_ok c \<longleftrightarrow> length (cfg_stratum_host c) < 128 \<and> length (cfg_stratum_user c) < 128 \<and>
     length (cfg_stratum_pass c) < 64 \<and> length (cfg_stratum_fallback_host c) < 128 \<and> length (cfg_faucet_url c) < 256"

definition config_wf :: "tollgate_config \<Rightarrow> bool" where
  "config_wf c \<longleftrightarrow> networks_ok c \<and> gate_texts_ok c \<and> mining_texts_ok c \<and> prices_ok c \<and>
     texts_ok 256 TOLLGATE_MAX_MINT_URLS (cfg_accepted_mints c) (cfg_accepted_mint_count c) \<and>
     texts_ok 128 TOLLGATE_MAX_RELAYS (cfg_nostr_relays c) (cfg_nostr_relay_count c) \<and>
     texts_ok 128 TOLLGATE_MAX_SEED_RELAYS (cfg_nostr_seed_relays c) (cfg_nostr_seed_relay_count c) \<and>
     payout_ok (cfg_payout c)"

named_theorems cfg_defs \<open>the groups of the invariant of the configuration\<close>

lemmas [cfg_defs] = config_wf_def networks_ok_def gate_texts_ok_def mining_texts_ok_def prices_ok_def

lemma strncpy_fits [simp]: "0 < n \<Longrightarrow> length (c_strncpy n s) < n"
  unfolding c_strncpy_def length_take by linarith

lemma strncpy_id [simp]: "length s < n \<Longrightarrow> c_strncpy n s = s"
  by (simp add: c_strncpy_def)

lemma read_str_fits [simp]: "length d < n \<Longrightarrow> length (read_str n j k d) < n"
  by (auto simp: read_str_def split: option.split)

lemma read_any_str_fits: "read_any_str n j k d = Ok s \<Longrightarrow> length d < n \<Longrightarrow> length s < n"
  by (auto simp: read_any_str_def cbind_Ok_iff split: option.splits)

lemma json_valueint_range: "- (2 ^ 31) \<le> json_valueint v \<and> json_valueint v < 2 ^ 31"
  using valueint_range by (simp add: json_valueint_def split: json.split bool.split)

lemma read_int_range:
  assumes "- (2 ^ 31) \<le> d" "d < 2 ^ 31"
  shows "- (2 ^ 31) \<le> read_int j k d" "read_int j k d < 2 ^ 31"
  using assms json_valueint_range by (simp_all add: read_int_def split: option.split)

lemma all_set_update: "(\<forall>x \<in> set xs. P x) \<Longrightarrow> P v \<Longrightarrow> \<forall>x \<in> set (xs[i := v]). P x"
  using set_update_subset_insert[of xs i v] by blast

lemma read_strings_ok:
  "texts_ok n m arr c \<Longrightarrow> 0 < n \<Longrightarrow> c + length js \<le> m \<Longrightarrow> case_prod (texts_ok n m) (read_strings n i js (arr, c))"
proof (induction js arbitrary: i arr c)
  case (Cons j js)
  show ?case
  proof (cases j)
    case (JStr s)
    have "texts_ok n m (arr[i := c_strncpy n s]) (Suc c)"
      using Cons.prems by (auto simp: texts_ok_def dest!: set_update_subset_insert[THEN subsetD])
    from Cons.IH[OF this Cons.prems(2)] show ?thesis using Cons.prems(3) JStr by simp
  qed (use Cons in auto)
qed simp

lemma read_networks_ok:
  "read_networks i js (arr, c) = Ok (arr', c') \<Longrightarrow> \<forall>n \<in> set arr. network_ok n \<Longrightarrow>
     length arr' = length arr \<and> c' \<le> c + length js \<and> (\<forall>n \<in> set arr'. network_ok n)"
proof (induction js arbitrary: i arr c)
  case (Cons net js)
  define v where "v = (\<lambda>s p. \<lparr>wn_ssid = c_strncpy 32 s, wn_password = c_strncpy 64 p\<rparr>)"
  have v: "\<forall>n \<in> set (arr[i := v s p]). network_ok n" for s p
    using Cons.prems(2) by (intro all_set_update) (auto simp: network_ok_def v_def)
  consider "read_networks (Suc i) js (arr, c) = Ok (arr', c')"
    | s p where "read_networks (Suc i) js (arr[i := v s p], Suc c) = Ok (arr', c')"
    using Cons.prems(1) by (auto simp: v_def cbind_Ok_iff split: option.splits)
  then show ?case
  proof cases
    case 1
    then show ?thesis using Cons.IH[OF 1 Cons.prems(2)] by simp
  next
    case 2
    then show ?thesis using Cons.IH[OF 2 v] by simp
  qed
qed simp

lemma defaults_wf: "config_wf config_defaults"
  by (simp add: cfg_defs config_defaults_def payout_defaults_def payout_ok_def texts_ok_def config_limits network_ok_def no_network_def)

lemma load_nsec_wf: "load_nsec j c = Ok c' \<Longrightarrow> config_wf c \<Longrightarrow> config_wf c'"
  by (auto simp: load_nsec_def cfg_defs split: option.splits)

definition network_list_ok :: "wifi_network list \<times> nat \<Rightarrow> bool" where
  "network_list_ok st \<longleftrightarrow> length (fst st) = TOLLGATE_MAX_WIFI_NETWORKS \<and> snd st \<le> TOLLGATE_MAX_WIFI_NETWORKS \<and>
     (\<forall>x \<in> set (fst st). network_ok x)"

lemma read_network_list_ok:
  assumes "read_network_list j (arr, 0) = Ok st" "network_list_ok (arr, 0)"
  shows "network_list_ok st"
proof (cases "json_arr (json_get_ci j ''wifi_networks'')")
  case (Some js)
  have "length (fst st) = length arr \<and> snd st \<le> length (take TOLLGATE_MAX_WIFI_NETWORKS js) \<and> (\<forall>n \<in> set (fst st). network_ok n)"
    using read_networks_ok[of 0 "take TOLLGATE_MAX_WIFI_NETWORKS js" arr 0 "fst st" "snd st"] assms Some
    by (simp add: read_network_list_def network_list_ok_def)
  then show ?thesis using assms(2) by (simp add: network_list_ok_def)
qed (use assms in \<open>simp add: read_network_list_def\<close>)

lemma wifi_fallback_ok:
  assumes "network_list_ok st"
  shows "network_list_ok (wifi_fallback j st)"
proof -
  have "\<forall>x \<in> set ((fst st)[0 := \<lparr>wn_ssid = c_strncpy 32 s, wn_password = c_strncpy 64 p\<rparr>]). network_ok x" for s p
    using assms by (intro all_set_update) (auto simp: network_list_ok_def network_ok_def)
  then show ?thesis using assms by (simp add: wifi_fallback_def network_list_ok_def config_limits split: option.split)
qed

lemma load_networks_wf:
  assumes "load_networks j c = Ok c'" "config_wf c" "cfg_network_count c = 0"
  shows "config_wf c'"
proof -
  have "network_list_ok (cfg_networks c, 0)" using assms(2,3) by (simp add: cfg_defs network_list_ok_def)
  then obtain st where "network_list_ok (wifi_fallback j st)"
    "c' = c\<lparr>cfg_networks := fst (wifi_fallback j st), cfg_network_count := snd (wifi_fallback j st)\<rparr>"
    using assms(1,3) read_network_list_ok wifi_fallback_ok unfolding load_networks_def cbind_Ok_iff
    by (metis cres.inject)
  then show ?thesis using assms(2) by (simp add: cfg_defs network_list_ok_def)
qed

lemma texts_from_ok:
  assumes "texts_ok n m arr 0" "0 < n"
  shows "texts_ok n m (fst (texts_from n m j (arr, 0))) (snd (texts_from n m j (arr, 0)))"
  using read_strings_ok[OF assms, of "take m js" 0 for js] assms(1)
  by (auto simp: texts_from_def case_prod_beta split: option.split)

text \<open>The counts of the lists that are still to be read when a group is loaded.\<close>

lemma load_nsec_frame:
  "load_nsec j c = Ok c' \<Longrightarrow> cfg_network_count c' = cfg_network_count c \<and> cfg_accepted_mint_count c' = cfg_accepted_mint_count c \<and>
     cfg_nostr_relay_count c' = cfg_nostr_relay_count c \<and> cfg_nostr_seed_relay_count c' = cfg_nostr_seed_relay_count c"
  by (auto simp: load_nsec_def split: option.splits)

lemma load_networks_frame:
  "load_networks j c = Ok c' \<Longrightarrow> cfg_accepted_mint_count c' = cfg_accepted_mint_count c \<and>
     cfg_nostr_relay_count c' = cfg_nostr_relay_count c \<and> cfg_nostr_seed_relay_count c' = cfg_nostr_seed_relay_count c"
  by (auto simp: load_networks_def cbind_Ok_iff)

lemma load_mints_frame:
  "load_mints j c = Ok c' \<Longrightarrow>
     cfg_nostr_relay_count c' = cfg_nostr_relay_count c \<and> cfg_nostr_seed_relay_count c' = cfg_nostr_seed_relay_count c"
  by (auto simp: load_mints_def cbind_Ok_iff Let_def)

lemma load_price_frame:
  "load_price j c = Ok c' \<Longrightarrow>
     cfg_nostr_relay_count c' = cfg_nostr_relay_count c \<and> cfg_nostr_seed_relay_count c' = cfg_nostr_seed_relay_count c"
  by (auto simp: load_price_def cbind_Ok_iff)

lemma load_mints_wf:
  assumes "load_mints j c = Ok c'" "config_wf c" "cfg_accepted_mint_count c = 0"
  shows "config_wf c'"
proof -
  let ?t = "texts_from 256 TOLLGATE_MAX_MINT_URLS (json_get_ci j ''accepted_mints'') (cfg_accepted_mints c, 0)"
  obtain ap mu ln where c': "c' = c\<lparr>cfg_ap_password := ap, cfg_mint_url := mu, cfg_accepted_mints := fst ?t,
      cfg_accepted_mint_count := snd ?t, cfg_lnurl_url := ln\<rparr>" "length ap < 64" "length mu < 256" "length ln < 256"
    using assms(1,2,3) read_any_str_fits by (auto simp: load_mints_def cbind_Ok_iff Let_def cfg_defs)
  moreover have "texts_ok 256 TOLLGATE_MAX_MINT_URLS (fst ?t) (snd ?t)"
    using assms(2,3) by (intro texts_from_ok) (simp_all add: config_wf_def)
  ultimately show ?thesis using assms(2) by (simp add: cfg_defs)
qed

lemma load_price_wf:
  assumes "load_price j c = Ok c'" "config_wf c"
  shows "config_wf c'"
proof -
  obtain pt gh where "read_any_str 16 j ''nostr_geohash'' ''u281w0dfz'' = Ok gh" and
    c': "c' = c\<lparr>cfg_price_per_step := read_int j ''price_per_step'' (cfg_price_per_step c),
           cfg_step_size_ms := read_int j ''step_size_ms'' (cfg_step_size_ms c),
           cfg_step_size_bytes := read_int j ''step_size_bytes'' (cfg_step_size_bytes c),
           cfg_metric := read_str 16 j ''metric'' (cfg_metric c),
           cfg_persist_threshold_sats := pt, cfg_nostr_geohash := gh\<rparr>"
    using assms(1) by (auto simp: load_price_def cbind_Ok_iff)
  then have "length gh < 16" using read_any_str_fits by fastforce
  then show ?thesis using assms(2) c' read_int_range by (simp add: cfg_defs)
qed

lemma load_relays_wf:
  assumes "config_wf c" "cfg_nostr_relay_count c = 0" "cfg_nostr_seed_relay_count c = 0"
  shows "config_wf (load_relays j c)"
  using assms texts_from_ok[of 128 TOLLGATE_MAX_RELAYS "cfg_nostr_relays c"]
    texts_from_ok[of 128 TOLLGATE_MAX_SEED_RELAYS "cfg_nostr_seed_relays c"]
  by (simp add: load_relays_def Let_def cfg_defs)

lemma load_client_wf: "config_wf c \<Longrightarrow> config_wf (load_client j c)"
  by (simp add: load_client_def cfg_defs)

lemma load_flags_wf: "config_wf c \<Longrightarrow> config_wf (load_flags j c)"
  by (simp add: load_flags_def cfg_defs)

lemma load_cvm_wf: "config_wf c \<Longrightarrow> config_wf (load_cvm j c)"
  by (simp add: load_cvm_def Let_def cfg_defs split: option.split)

lemma load_mining_wf: "load_mining j c = Ok c' \<Longrightarrow> config_wf c \<Longrightarrow> config_wf c'"
  by (auto simp: load_mining_def cbind_Ok_iff cfg_defs split: option.splits)

lemma read_recipients_ok:
  "\<forall>r \<in> set arr. length (pr_lightning_address r) < 128 \<Longrightarrow> i + length js \<le> length arr \<Longrightarrow>
     length (read_recipients i js arr) = length arr \<and> (\<forall>r \<in> set (read_recipients i js arr). length (pr_lightning_address r) < 128)"
proof (induction js arbitrary: i arr)
  case (Cons j js)
  define v where "v = \<lparr>pr_lightning_address = read_str 128 j ''lightning_address'' (pr_lightning_address (arr ! i)),
               pr_factor = (case json_num (json_get_ci j ''factor'') of Some d \<Rightarrow> d | None \<Rightarrow> pr_factor (arr ! i))\<rparr>"
  have "length (pr_lightning_address v) < 128" using Cons.prems by (simp add: v_def)
  then have "\<forall>r \<in> set (arr[i := v]). length (pr_lightning_address r) < 128" using Cons.prems(1) by (rule all_set_update[rotated])
  from Cons.IH[OF this, of "Suc i"] show ?case using Cons.prems(2) by (simp add: v_def)
qed simp

lemma read_payout_mints_ok:
  "read_payout_mints i js arr = Ok arr' \<Longrightarrow> \<forall>m \<in> set arr. length (pm_url m) < 256 \<Longrightarrow> i + length js \<le> length arr \<Longrightarrow>
     length arr' = length arr \<and> (\<forall>m \<in> set arr'. length (pm_url m) < 256)"
proof (induction js arbitrary: i arr)
  case (Cons j js)
  obtain mb mp where r: "read_payout_mints (Suc i) js (arr[i := \<lparr>pm_url = read_str 256 j ''url'' (pm_url (arr ! i)),
      pm_min_balance = mb, pm_min_payout_amount = mp\<rparr>]) = Ok arr'"
    using Cons.prems by (auto simp: cbind_Ok_iff)
  have "length (pm_url (arr ! i)) < 256" using Cons.prems(2,3) by simp
  then obtain v where v: "length (pm_url v) < 256" "read_payout_mints (Suc i) js (arr[i := v]) = Ok arr'"
    using r by (metis payout_mint_config.select_convs(1) read_str_fits)
  have "\<forall>m \<in> set (arr[i := v]). length (pm_url m) < 256" using Cons.prems(2) v(1) by (rule all_set_update)
  from Cons.IH[OF v(2) this] show ?case using Cons.prems(3) by simp
qed simp

lemma recipients_from_ok:
  assumes "payout_ok po"
  shows "length (fst (recipients_from j (po_recipients po, po_recipient_count po))) = PAYOUT_MAX_RECIPIENTS"
    "snd (recipients_from j (po_recipients po, po_recipient_count po)) \<le> PAYOUT_MAX_RECIPIENTS"
    "\<forall>r \<in> set (fst (recipients_from j (po_recipients po, po_recipient_count po))). length (pr_lightning_address r) < 128"
  using assms read_recipients_ok[of "po_recipients po" 0 "take PAYOUT_MAX_RECIPIENTS js" for js]
  by (simp_all add: recipients_from_def payout_ok_def split: option.split)

lemma payout_mints_from_ok:
  assumes "payout_mints_from j (po_mints po, po_mint_count po) = Ok ms" "payout_ok po"
  shows "length (fst ms) = PAYOUT_MAX_MINTS \<and> snd ms \<le> PAYOUT_MAX_MINTS \<and> (\<forall>m \<in> set (fst ms). length (pm_url m) < 256)"
proof (cases "json_arr j")
  case (Some js)
  then have "read_payout_mints 0 (take PAYOUT_MAX_MINTS js) (po_mints po) = Ok (fst ms)" "snd ms = length (take PAYOUT_MAX_MINTS js)"
    using assms(1) by (auto simp: payout_mints_from_def cbind_Ok_iff)
  then show ?thesis
    using assms(2) read_payout_mints_ok[of 0 "take PAYOUT_MAX_MINTS js" "po_mints po" "fst ms"] by (simp add: payout_ok_def)
qed (use assms in \<open>auto simp: payout_mints_from_def payout_ok_def\<close>)

lemma load_payout_section_ok:
  assumes "load_payout_section p po = Ok po'" "payout_ok po"
  shows "payout_ok po'"
proof -
  let ?rs = "recipients_from (json_get_ci p ''recipients'') (po_recipients po, po_recipient_count po)"
  obtain fee ms where ms: "payout_mints_from (json_get_ci p ''mints'') (po_mints po, po_mint_count po) = Ok ms"
    and po': "po' = po\<lparr>po_enabled := read_bool p ''enabled'' (po_enabled po), po_fee_tolerance_pct := fee,
       po_check_interval_s := read_int p ''check_interval_s'' (po_check_interval_s po),
       po_recipients := fst ?rs, po_recipient_count := snd ?rs, po_mints := fst ms, po_mint_count := snd ms\<rparr>"
    using assms(1) unfolding load_payout_section_def Let_def cbind_Ok_iff by blast
  show ?thesis
    unfolding po' using payout_mints_from_ok[OF ms assms(2)] recipients_from_ok[OF assms(2)] by (simp add: payout_ok_def)
qed

lemma config_wf_payout: "config_wf c \<Longrightarrow> payout_ok p \<Longrightarrow> config_wf (c\<lparr>cfg_payout := p\<rparr>)"
  by (simp add: cfg_defs)

lemma load_payout_wf:
  assumes "load_payout j c = Ok c'" "config_wf c"
  shows "config_wf c'"
proof (cases "json_obj (json_get_ci j ''payout'')")
  case (Some p)
  then obtain po where "load_payout_section p (cfg_payout c) = Ok po" "c' = c\<lparr>cfg_payout := po\<rparr>"
    using assms(1) by (auto simp: load_payout_def cbind_Ok_iff)
  then show ?thesis using assms(2) load_payout_section_ok config_wf_payout config_wf_def by metis
qed (use assms in \<open>simp add: load_payout_def\<close>)

lemma default_payout_mint_wf:
  assumes "config_wf c"
  shows "config_wf (default_payout_mint c)"
proof -
  let ?p = "(cfg_payout c)\<lparr>po_mints := (po_mints (cfg_payout c))[0 := \<lparr>pm_url = c_strncpy 256 (cfg_mint_url c),
      pm_min_balance = 64, pm_min_payout_amount = 128\<rparr>], po_mint_count := 1\<rparr>"
  have "\<forall>m \<in> set (po_mints ?p). length (pm_url m) < 256"
    using assms by (simp, intro all_set_update) (simp_all add: config_wf_def payout_ok_def)
  then have "payout_ok ?p" using assms by (simp add: config_wf_def payout_ok_def config_limits)
  then show ?thesis using assms config_wf_payout by (simp add: default_payout_mint_def)
qed

lemma fill_defaults_wf:
  assumes "config_wf c"
  shows "config_wf (fill_defaults c)"
proof -
  define c1 where "c1 = (if po_recipient_count (cfg_payout c) = 0 then
    c\<lparr>cfg_payout := (cfg_payout c)\<lparr>po_recipients := (po_recipients (cfg_payout c))[0 := default_recipient], po_recipient_count := 1\<rparr>\<rparr> else c)"
  define c2 where "c2 = (if cfg_accepted_mint_count c1 = 0 \<and> cfg_mint_url c1 \<noteq> [] then
    c1\<lparr>cfg_accepted_mints := (cfg_accepted_mints c1)[0 := c_strncpy 256 (cfg_mint_url c1)], cfg_accepted_mint_count := 1\<rparr> else c1)"
  define c3 where "c3 = (if cfg_nostr_relay_count c2 = 0 then c2\<lparr>cfg_nostr_relays := default_relays, cfg_nostr_relay_count := 4\<rparr> else c2)"
  have "\<forall>r \<in> set ((po_recipients (cfg_payout c))[0 := default_recipient]). length (pr_lightning_address r) < 128"
    using assms by (intro all_set_update) (simp_all add: config_wf_def payout_ok_def default_recipient_def)
  then have w1: "config_wf c1" using assms
    by (auto simp: c1_def intro!: config_wf_payout) (simp add: config_wf_def payout_ok_def config_limits)
  have "\<forall>s \<in> set ((cfg_accepted_mints c1)[0 := c_strncpy 256 (cfg_mint_url c1)]). length s < 256"
    using w1 by (intro all_set_update) (simp_all add: config_wf_def texts_ok_def)
  then have w2: "config_wf c2" using w1 by (simp add: c2_def cfg_defs texts_ok_def config_limits)
  have w3: "config_wf c3" using w2 by (simp add: c3_def cfg_defs texts_ok_def config_limits default_relays_def)
  then have "config_wf (if cfg_nostr_seed_relay_count c3 = 0 then
      c3\<lparr>cfg_nostr_seed_relays := default_seed_relays, cfg_nostr_seed_relay_count := 8\<rparr> else c3)"
    by (simp add: cfg_defs texts_ok_def config_limits default_seed_relays_def)
  then show ?thesis unfolding fill_defaults_def Let_def c1_def[symmetric] c2_def[symmetric] c3_def[symmetric] .
qed

lemma config_load_wf:
  assumes "config_load j = Ok c"
  shows "config_wf c"
proof -
  obtain c1 c2 c3 c4 c5 c6 where l: "load_nsec j config_defaults = Ok c1" "load_networks j c1 = Ok c2" "load_mints j c2 = Ok c3"
    "load_price j c3 = Ok c4" "load_payout j (load_client j (load_relays j c4)) = Ok c5"
    "load_mining j (default_payout_mint (load_cvm j c5)) = Ok c6" "c = fill_defaults (load_flags j c6)"
    using assms unfolding config_load_def cbind_Ok_iff by blast
  note f = load_nsec_frame[OF l(1)] load_networks_frame[OF l(2)] load_mints_frame[OF l(3)] load_price_frame[OF l(4)]
  have z: "cfg_network_count c1 = 0" "cfg_accepted_mint_count c2 = 0" "cfg_nostr_relay_count c4 = 0" "cfg_nostr_seed_relay_count c4 = 0"
    using f by (simp_all add: config_defaults_def)
  have "config_wf c4"
    using load_price_wf[OF l(4)] load_mints_wf[OF l(3)] load_networks_wf[OF l(2)] load_nsec_wf[OF l(1) defaults_wf] z by blast
  then have "config_wf (load_client j (load_relays j c4))" using z load_client_wf load_relays_wf by blast
  then have "config_wf c6" using load_payout_wf[OF l(5)] load_mining_wf[OF l(6)] load_cvm_wf default_payout_mint_wf by blast
  then show ?thesis unfolding l(7) by (intro fill_defaults_wf load_flags_wf)
qed

section \<open>Reachable configurations\<close>

inductive config_reach :: "config_env \<Rightarrow> tollgate_config \<Rightarrow> bool" for e where
  init: "fst (tollgate_config_init e file) = Ok c \<Longrightarrow> config_reach e c"
| next_wifi: "config_reach e c \<Longrightarrow> config_reach e (snd (tollgate_config_get_next_wifi c))"
| add_wifi: "config_reach e c \<Longrightarrow> config_reach e (fst (snd (tollgate_config_add_wifi e ssid pass c file)))"
| derive: "config_reach e c \<Longrightarrow> config_reach e (tollgate_config_derive_unique ident c)"

lemma next_wifi_wf: "config_wf c \<Longrightarrow> config_wf (snd (tollgate_config_get_next_wifi c))"
  by (simp add: tollgate_config_get_next_wifi_def Let_def cfg_defs)

lemma derive_unique_wf: "config_wf c \<Longrightarrow> config_wf (tollgate_config_derive_unique ident c)"
  by (simp add: tollgate_config_derive_unique_def cfg_defs split: option.split)

lemma add_wifi_cases:
  obtains "snd (tollgate_config_add_wifi e ssid pass c disk) = (c, disk)"
  | s p where "ssid = Some s" "pass = Some p" "cfg_network_count c < TOLLGATE_MAX_WIFI_NETWORKS"
      "fst (snd (tollgate_config_add_wifi e ssid pass c disk)) =
         c\<lparr>cfg_networks := (cfg_networks c)[cfg_network_count c := \<lparr>wn_ssid = c_strncpy 32 s, wn_password = c_strncpy 64 p\<rparr>],
           cfg_network_count := cfg_network_count c + 1\<rparr>"
  by (cases ssid; cases pass; cases "TOLLGATE_MAX_WIFI_NETWORKS \<le> cfg_network_count c")
    (auto simp: tollgate_config_add_wifi_def Let_def)

lemma add_wifi_wf:
  assumes "config_wf c"
  shows "config_wf (fst (snd (tollgate_config_add_wifi e ssid pass c disk)))"
proof (cases rule: add_wifi_cases[where e = e and ssid = ssid and pass = pass and c = c and disk = disk])
  case (2 s p)
  have "\<forall>n \<in> set ((cfg_networks c)[cfg_network_count c := \<lparr>wn_ssid = c_strncpy 32 s, wn_password = c_strncpy 64 p\<rparr>]). network_ok n"
    using assms by (intro all_set_update) (auto simp: cfg_defs network_ok_def)
  then show ?thesis using assms 2 by (simp add: cfg_defs)
qed (use assms in simp)

lemma config_init_wf: "fst (tollgate_config_init e file) = Ok c \<Longrightarrow> config_wf c"
  using config_load_wf by (auto simp: tollgate_config_init_def Let_def split: if_splits option.splits)


text \<open>Repeated calls of \<open>tollgate_config_get_next_wifi\<close> go round the networks.\<close>

definition next_network :: "tollgate_config \<Rightarrow> tollgate_config" where
  "next_network c = snd (tollgate_config_get_next_wifi c)"

lemma next_network_iter:
  assumes "0 < cfg_network_count c"
  shows "(next_network ^^ k) c = c\<lparr>cfg_current_network :=
    (if k = 0 then cfg_current_network c else (cfg_current_network c + k) mod cfg_network_count c)\<rparr>"
proof (induction k)
  case (Suc k)
  have m: "Suc (if k = 0 then cfg_current_network c else (cfg_current_network c + k) mod cfg_network_count c) mod cfg_network_count c =
      (cfg_current_network c + Suc k) mod cfg_network_count c"
    by (simp add: mod_Suc_eq)
  have "(next_network ^^ Suc k) c = next_network ((next_network ^^ k) c)" by simp
  also have "\<dots> = c\<lparr>cfg_current_network :=
      Suc (if k = 0 then cfg_current_network c else (cfg_current_network c + k) mod cfg_network_count c) mod cfg_network_count c\<rparr>"
    unfolding Suc.IH using assms by (simp add: next_network_def tollgate_config_get_next_wifi_def Let_def del: if_split)
  finally show ?case using m by simp
qed simp

lemma next_network_visits:
  assumes "i < cfg_network_count c"
  obtains k where "0 < k" "k \<le> cfg_network_count c" "cfg_current_network ((next_network ^^ k) c) = i"
proof -
  let ?n = "cfg_network_count c" and ?m = "cfg_current_network c mod cfg_network_count c"
  let ?d = "(i + ?n - ?m) mod ?n"
  have n: "0 < ?n" using assms by simp
  define k where "k = (if ?d = 0 then ?n else ?d)"
  have lt: "?m < ?n" using n by simp
  have "?m + (i + ?n - ?m) = i + ?n" using lt by simp
  then have "(?m + ?d) mod ?n = i" using assms by (metis mod_add_right_eq mod_add_self2 mod_less)
  then have "(?m + k) mod ?n = i" by (auto simp: k_def)
  then have "(cfg_current_network c + k) mod ?n = i" by (simp add: mod_add_left_eq)
  moreover have "0 < k" "k \<le> ?n" using n by (auto simp: k_def intro: less_imp_le)
  ultimately show ?thesis using that[of k] next_network_iter[OF n, of k] by simp
qed

lemma get_wifi_current:
  assumes "config_wf c" "cfg_current_network c < cfg_network_count c"
  obtains w where "tollgate_config_get_wifi c = Ok w"
    "sta_ssid w = wn_ssid (cfg_networks c ! cfg_current_network c)"
    "sta_password w = wn_password (cfg_networks c ! cfg_current_network c)"
proof -
  have "cfg_current_network c < length (cfg_networks c)" using assms by (simp add: config_wf_def networks_ok_def)
  moreover from this have "network_ok (cfg_networks c ! cfg_current_network c)"
    using assms(1) nth_mem by (fastforce simp: config_wf_def networks_ok_def)
  ultimately show ?thesis using that assms(2) by (simp add: tollgate_config_get_wifi_def Let_def network_ok_def)
qed

section \<open>Adding a network and starting again\<close>

lemma get_ci_obj: "json_get_ci (JObj ms) k = map_of (map (\<lambda>(n, v). (map to_lower n, v)) ms) (map to_lower k)"
  by (simp add: json_get_ci_def)

lemma lower_written_keys:
  "map to_lower ''nsec'' = ''nsec''" "map to_lower ''wifi_networks'' = ''wifi_networks''"
  "map to_lower ''ap_password'' = ''ap_password''" "map to_lower ''mint_url'' = ''mint_url''"
  "map to_lower ''price_per_step'' = ''price_per_step''" "map to_lower ''step_size_ms'' = ''step_size_ms''"
  "map to_lower ''metric'' = ''metric''" "map to_lower ''nostr_geohash'' = ''nostr_geohash''"
  "map to_lower ''nostr_relays'' = ''nostr_relays''" "map to_lower ''ssid'' = ''ssid''" "map to_lower ''password'' = ''password''"
  by code_simp+

lemma get_ci_lower:
  "list_all (\<lambda>m. map to_lower (fst m) = fst m) ms \<Longrightarrow> map to_lower k = k \<Longrightarrow> json_get_ci (JObj ms) k = map_of ms k"
  unfolding get_ci_obj by (induction ms) auto

lemma config_fields_lower: "list_all (\<lambda>m. map to_lower (fst m) = fst m) (config_fields c)"
  using lower_written_keys by (simp add: config_fields_def)

lemma config_object_get: "map to_lower k = k \<Longrightarrow> json_get_ci (config_object c) k = map_of (config_fields c) k"
  using get_ci_lower[OF config_fields_lower] by (simp add: config_object_def)

lemma config_fields_at:
  "map_of (config_fields c) ''nsec'' = Some (JStr (cfg_nsec c))"
  "map_of (config_fields c) ''wifi_networks'' = Some (JArr (map network_object (take (cfg_network_count c) (cfg_networks c))))"
  "map_of (config_fields c) ''ap_password'' = (if cfg_ap_password c \<noteq> [] then Some (JStr (cfg_ap_password c)) else None)"
  "map_of (config_fields c) ''mint_url'' = Some (JStr (cfg_mint_url c))"
  "map_of (config_fields c) ''price_per_step'' = Some (json_int (cfg_price_per_step c))"
  "map_of (config_fields c) ''step_size_ms'' = Some (json_int (cfg_step_size_ms c))"
  "map_of (config_fields c) ''metric'' = (if cfg_metric c \<noteq> [] then Some (JStr (cfg_metric c)) else None)"
  "map_of (config_fields c) ''nostr_geohash'' = (if cfg_nostr_geohash c \<noteq> [] then Some (JStr (cfg_nostr_geohash c)) else None)"
  "map_of (config_fields c) ''nostr_relays'' = Some (JArr (map JStr (take (cfg_nostr_relay_count c) (cfg_nostr_relays c))))"
  by (simp_all add: config_fields_def)

definition written_keys :: "string list" where
  "written_keys = [''nsec'', ''wifi_networks'', ''ap_password'', ''mint_url'', ''price_per_step'', ''step_size_ms'', ''metric'',
     ''nostr_geohash'', ''nostr_relays'']"

definition absent_key :: "string \<Rightarrow> bool" where
  "absent_key k \<longleftrightarrow> map to_lower k = k \<and> k \<notin> set written_keys"

lemma config_object_absent:
  assumes "absent_key k"
  shows "json_get_ci (config_object c) k = None"
proof -
  have "fst ` set (config_fields c) \<subseteq> set written_keys" by (auto simp: config_fields_def written_keys_def)
  then have "map_of (config_fields c) k = None" using assms by (auto simp: map_of_eq_None_iff absent_key_def)
  then show ?thesis using assms config_object_get by (simp add: absent_key_def)
qed

lemma config_object_written:
  "json_get_ci (config_object c) ''nsec'' = Some (JStr (cfg_nsec c))"
  "json_get_ci (config_object c) ''wifi_networks'' = Some (JArr (map network_object (take (cfg_network_count c) (cfg_networks c))))"
  "json_get_ci (config_object c) ''ap_password'' = (if cfg_ap_password c \<noteq> [] then Some (JStr (cfg_ap_password c)) else None)"
  "json_get_ci (config_object c) ''mint_url'' = Some (JStr (cfg_mint_url c))"
  "json_get_ci (config_object c) ''price_per_step'' = Some (json_int (cfg_price_per_step c))"
  "json_get_ci (config_object c) ''step_size_ms'' = Some (json_int (cfg_step_size_ms c))"
  "json_get_ci (config_object c) ''metric'' = (if cfg_metric c \<noteq> [] then Some (JStr (cfg_metric c)) else None)"
  "json_get_ci (config_object c) ''nostr_geohash'' = (if cfg_nostr_geohash c \<noteq> [] then Some (JStr (cfg_nostr_geohash c)) else None)"
  "json_get_ci (config_object c) ''nostr_relays'' = Some (JArr (map JStr (take (cfg_nostr_relay_count c) (cfg_nostr_relays c))))"
  using config_fields_at by (simp_all only: config_object_get[OF lower_written_keys(1)] config_object_get[OF lower_written_keys(2)]
    config_object_get[OF lower_written_keys(3)] config_object_get[OF lower_written_keys(4)] config_object_get[OF lower_written_keys(5)]
    config_object_get[OF lower_written_keys(6)] config_object_get[OF lower_written_keys(7)] config_object_get[OF lower_written_keys(8)]
    config_object_get[OF lower_written_keys(9)])

lemma absent_reads:
  assumes "json_get_ci j k = None"
  shows "read_str n j k s = s" "read_any_str n j k s = Ok s" "read_int j k i = i" "read_u16 j k p = p"
    "read_u64 j k u = Ok u" "read_bool j k b = b" "texts_from n m None st = st"
  using assms by (simp_all add: read_str_def read_any_str_def read_int_def read_u16_def read_u64_def read_bool_def
    texts_from_def json_str_def json_arr_def)

lemma config_object_client: "load_client (config_object c) d = d"
proof -
  have "json_get_ci (config_object c) ''client_enabled'' = None" "json_get_ci (config_object c) ''client_steps_to_buy'' = None"
    "json_get_ci (config_object c) ''client_renewal_threshold_pct'' = None" "json_get_ci (config_object c) ''client_retry_interval_ms'' = None"
    by (rule config_object_absent, code_simp)+
  then show ?thesis by (simp add: load_client_def absent_reads)
qed

lemma config_object_flags: "load_flags (config_object c) d = d"
proof -
  have "json_get_ci (config_object c) ''market_enabled'' = None" "json_get_ci (config_object c) ''market_scan_interval_s'' = None"
    "json_get_ci (config_object c) ''client_auto_switch'' = None" "json_get_ci (config_object c) ''sync_enabled'' = None"
    "json_get_ci (config_object c) ''wifistr_enabled'' = None" "json_get_ci (config_object c) ''local_relay_enabled'' = None"
    "json_get_ci (config_object c) ''mint_health_enabled'' = None"
    by (rule config_object_absent, code_simp)+
  then show ?thesis by (simp add: load_flags_def absent_reads)
qed

lemma config_object_sections:
  "load_payout (config_object c) d = Ok d" "load_mining (config_object c) d = Ok d" "load_cvm (config_object c) d = d"
proof -
  have "json_get_ci (config_object c) ''payout'' = None" "json_get_ci (config_object c) ''mining'' = None"
    "json_get_ci (config_object c) ''cvm'' = None" "json_get_ci (config_object c) ''cvm_enabled'' = None"
    "json_get_ci (config_object c) ''wifi_auth_mode'' = None" "json_get_ci (config_object c) ''display_enabled'' = None"
    by (rule config_object_absent, code_simp)+
  then show "load_payout (config_object c) d = Ok d" "load_mining (config_object c) d = Ok d" "load_cvm (config_object c) d = d"
    by (simp_all add: load_payout_def load_mining_def load_cvm_def json_obj_def absent_reads)
qed

lemma read_strings_written:
  assumes "\<forall>s \<in> set ss. length s < n" "length pre = i" "length ss \<le> length post"
  shows "read_strings n i (map JStr ss) (pre @ post, c) = (pre @ ss @ drop (length ss) post, c + length ss)"
  using assms
proof (induction ss arbitrary: i pre post c)
  case (Cons s ss)
  then obtain p ps where p: "post = p # ps" by (cases post) auto
  have "(pre @ post)[i := c_strncpy n s] = (pre @ [s]) @ ps" using Cons.prems p by (simp add: list_update_append)
  then show ?case using Cons.IH[of "pre @ [s]" "Suc i" ps "Suc c"] Cons.prems p by simp
qed simp

lemma network_object_get:
  "json_get_ci (network_object n) ''ssid'' = Some (JStr (wn_ssid n))"
  "json_get_ci (network_object n) ''password'' = Some (JStr (wn_password n))"
  by (simp_all add: network_object_def get_ci_obj lower_written_keys)

lemma read_networks_written:
  assumes "\<forall>w \<in> set ws. network_ok w" "length pre = i" "length ws \<le> length post"
  shows "read_networks i (map network_object ws) (pre @ post, c) = Ok (pre @ ws @ drop (length ws) post, c + length ws)"
  using assms
proof (induction ws arbitrary: i pre post c)
  case (Cons w ws)
  then obtain p ps where p: "post = p # ps" by (cases post) auto
  have "\<lparr>wn_ssid = c_strncpy 32 (wn_ssid w), wn_password = c_strncpy 64 (wn_password w)\<rparr> = w"
    using Cons.prems(1) by (simp add: network_ok_def)
  then have "(pre @ post)[i := \<lparr>wn_ssid = c_strncpy 32 (wn_ssid w), wn_password = c_strncpy 64 (wn_password w)\<rparr>] = (pre @ [w]) @ ps"
    using Cons.prems p by (simp add: list_update_append)
  then show ?case using Cons.IH[of "pre @ [w]" "Suc i" ps "Suc c"] Cons.prems p
    by (simp add: network_object_get valuestring_def)
qed simp

text \<open>What the file of \<^const>\<open>config_object\<close> says, and nothing else.\<close>

definition saved_part :: "tollgate_config \<Rightarrow> tollgate_config" where
  "saved_part c = config_defaults\<lparr>
     cfg_nsec := cfg_nsec c,
     cfg_networks := take (cfg_network_count c) (cfg_networks c) @ replicate (TOLLGATE_MAX_WIFI_NETWORKS - cfg_network_count c) no_network,
     cfg_network_count := cfg_network_count c,
     cfg_ap_password := cfg_ap_password c, cfg_mint_url := cfg_mint_url c,
     cfg_price_per_step := cfg_price_per_step c, cfg_step_size_ms := cfg_step_size_ms c,
     cfg_metric := (if cfg_metric c = [] then ''milliseconds'' else cfg_metric c),
     cfg_nostr_geohash := (if cfg_nostr_geohash c = [] then ''u281w0dfz'' else cfg_nostr_geohash c),
     cfg_nostr_relays := take (cfg_nostr_relay_count c) (cfg_nostr_relays c) @ replicate (TOLLGATE_MAX_RELAYS - cfg_nostr_relay_count c) [],
     cfg_nostr_relay_count := cfg_nostr_relay_count c\<rparr>"

lemma set_take_all: "\<forall>x \<in> set xs. P x \<Longrightarrow> \<forall>x \<in> set (take n xs). P x"
  by (meson in_set_takeD)

lemma config_object_networks:
  assumes "config_wf c" "0 < cfg_network_count c"
  shows "load_networks (config_object c) (config_defaults\<lparr>cfg_nsec := s\<rparr>) = Ok (config_defaults\<lparr>cfg_nsec := s,
     cfg_networks := take (cfg_network_count c) (cfg_networks c) @ replicate (TOLLGATE_MAX_WIFI_NETWORKS - cfg_network_count c) no_network,
     cfg_network_count := cfg_network_count c\<rparr>)"
proof -
  let ?ws = "take (cfg_network_count c) (cfg_networks c)"
  have w: "length ?ws = cfg_network_count c" "\<forall>w \<in> set ?ws. network_ok w" "cfg_network_count c \<le> TOLLGATE_MAX_WIFI_NETWORKS"
    using assms(1) by (auto simp: config_wf_def networks_ok_def dest: in_set_takeD)
  have "read_network_list (config_object c) (replicate TOLLGATE_MAX_WIFI_NETWORKS no_network, 0) =
      Ok (?ws @ replicate (TOLLGATE_MAX_WIFI_NETWORKS - cfg_network_count c) no_network, cfg_network_count c)"
    using read_networks_written[OF w(2), of "[]" 0 "replicate TOLLGATE_MAX_WIFI_NETWORKS no_network" 0] w(1,3)
    by (simp add: read_network_list_def config_object_written json_arr_def take_map)
  then show ?thesis using assms(2) by (simp add: load_networks_def config_defaults_def wifi_fallback_def)
qed

lemma config_object_relays:
  assumes "config_wf c" "cfg_nostr_relays d = replicate TOLLGATE_MAX_RELAYS []" "cfg_nostr_relay_count d = 0"
  shows "load_relays (config_object c) d = d\<lparr>
     cfg_nostr_relays := take (cfg_nostr_relay_count c) (cfg_nostr_relays c) @ replicate (TOLLGATE_MAX_RELAYS - cfg_nostr_relay_count c) [],
     cfg_nostr_relay_count := cfg_nostr_relay_count c\<rparr>"
proof -
  let ?ss = "take (cfg_nostr_relay_count c) (cfg_nostr_relays c)"
  have w: "length ?ss = cfg_nostr_relay_count c" "\<forall>s \<in> set ?ss. length s < 128" "cfg_nostr_relay_count c \<le> TOLLGATE_MAX_RELAYS"
    using assms(1) by (auto simp: config_wf_def texts_ok_def dest: in_set_takeD)
  have "texts_from 128 TOLLGATE_MAX_RELAYS (json_get_ci (config_object c) ''nostr_relays'') (replicate TOLLGATE_MAX_RELAYS [], 0) =
      (?ss @ replicate (TOLLGATE_MAX_RELAYS - cfg_nostr_relay_count c) [], cfg_nostr_relay_count c)"
    using read_strings_written[OF w(2), of "[]" 0 "replicate TOLLGATE_MAX_RELAYS []" 0] w(1,3)
    by (simp add: texts_from_def config_object_written json_arr_def take_map)
  moreover have "json_get_ci (config_object c) ''nostr_publish_interval_s'' = None" "json_get_ci (config_object c) ''nostr_sync_interval_s'' = None"
    "json_get_ci (config_object c) ''nostr_fallback_sync_interval_s'' = None" "json_get_ci (config_object c) ''nostr_seed_relays'' = None"
    by (rule config_object_absent, code_simp)+
  ultimately show ?thesis using assms(2,3) by (simp add: load_relays_def Let_def absent_reads)
qed

lemma config_reload:
  assumes "config_wf c" "0 < cfg_network_count c"
  shows "config_load (config_object c) = Ok (fill_defaults (default_payout_mint (saved_part c)))"
proof -
  let ?j = "config_object c"
  define c1 where "c1 = config_defaults\<lparr>cfg_nsec := cfg_nsec c\<rparr>"
  define c2 where "c2 = c1\<lparr>
    cfg_networks := take (cfg_network_count c) (cfg_networks c) @ replicate (TOLLGATE_MAX_WIFI_NETWORKS - cfg_network_count c) no_network,
    cfg_network_count := cfg_network_count c\<rparr>"
  define c3 where "c3 = c2\<lparr>cfg_ap_password := cfg_ap_password c, cfg_mint_url := cfg_mint_url c\<rparr>"
  define c4 where "c4 = c3\<lparr>cfg_price_per_step := cfg_price_per_step c, cfg_step_size_ms := cfg_step_size_ms c,
     cfg_metric := (if cfg_metric c = [] then ''milliseconds'' else cfg_metric c),
     cfg_nostr_geohash := (if cfg_nostr_geohash c = [] then ''u281w0dfz'' else cfg_nostr_geohash c)\<rparr>"
  have t: "length (cfg_nsec c) < 65" "length (cfg_ap_password c) < 64" "length (cfg_mint_url c) < 256"
    "length (cfg_metric c) < 16" "length (cfg_nostr_geohash c) < 16"
    using assms(1) by (simp_all add: config_wf_def gate_texts_ok_def)
  have p: "json_valueint (json_int (cfg_price_per_step c)) = cfg_price_per_step c"
    "json_valueint (json_int (cfg_step_size_ms c)) = cfg_step_size_ms c"
    using assms(1) by (simp_all add: config_wf_def prices_ok_def json_valueint_def json_int_def valueint_def clamp_signed_def)
  have n: "json_get_ci ?j ''accepted_mints'' = None" "json_get_ci ?j ''lnurl_url'' = None"
    "json_get_ci ?j ''step_size_bytes'' = None" "json_get_ci ?j ''persist_threshold_sats'' = None"
    by (rule config_object_absent, code_simp)+
  have l1: "load_nsec ?j config_defaults = Ok c1" using t by (simp add: load_nsec_def config_object_written json_str_def c1_def)
  have l2: "load_networks ?j c1 = Ok c2" unfolding c2_def c1_def using config_object_networks[OF assms] by simp
  have d: "cfg_ap_password c2 = []" by (simp add: c2_def c1_def config_defaults_def)
  have "read_any_str 64 ?j ''ap_password'' (cfg_ap_password c2) = Ok (cfg_ap_password c)"
    using t d by (simp add: read_any_str_def config_object_written valuestring_def)
  moreover have "read_any_str 256 ?j ''mint_url'' (cfg_mint_url c2) = Ok (cfg_mint_url c)"
    using t by (simp add: read_any_str_def config_object_written valuestring_def)
  ultimately have l3: "load_mints ?j c2 = Ok c3" using n by (simp add: load_mints_def absent_reads Let_def c3_def)
  have m: "cfg_metric c3 = ''milliseconds''" by (simp add: c3_def c2_def c1_def config_defaults_def)
  have "read_int ?j ''price_per_step'' x = cfg_price_per_step c" "read_int ?j ''step_size_ms'' x = cfg_step_size_ms c" for x
    using p by (simp_all add: read_int_def config_object_written)
  moreover have "read_str 16 ?j ''metric'' (cfg_metric c3) = (if cfg_metric c = [] then ''milliseconds'' else cfg_metric c)"
    using t m by (simp add: read_str_def config_object_written json_str_def)
  moreover have "read_any_str 16 ?j ''nostr_geohash'' ''u281w0dfz'' = Ok (if cfg_nostr_geohash c = [] then ''u281w0dfz'' else cfg_nostr_geohash c)"
    using t by (simp add: read_any_str_def config_object_written valuestring_def)
  ultimately have l4: "load_price ?j c3 = Ok c4" using n by (simp add: load_price_def absent_reads c4_def)
  have r: "cfg_nostr_relays c4 = replicate TOLLGATE_MAX_RELAYS []" "cfg_nostr_relay_count c4 = 0"
    by (simp_all add: c4_def c3_def c2_def c1_def config_defaults_def)
  have "load_relays ?j c4 = saved_part c"
    unfolding config_object_relays[OF assms(1) r] by (simp add: saved_part_def c4_def c3_def c2_def c1_def)
  then show ?thesis
    using l1 l2 l3 l4 by (simp add: config_load_def config_object_client config_object_sections config_object_flags)
qed

lemma add_wifi_restart:
  assumes "config_wf c" "tollgate_config_add_wifi e (Some ssid) (Some pass) c disk = (Ok (), c', disk')"
    and "fe_mounts e" "fe_writable e" "fe_parse e (fe_print e (config_object c')) = Some (config_object c')"
  shows "tollgate_config_init e disk' = (Ok (fill_defaults (default_payout_mint (saved_part c'))), disk')"
    "0 < cfg_network_count c'" "config_wf c'"
proof -
  have d: "disk' = Some (fe_print e (config_object c'))" and n: "0 < cfg_network_count c'"
    using assms(2,4) by (auto simp: tollgate_config_add_wifi_def Let_def split: if_splits)
  have w: "config_wf c'" using add_wifi_wf[OF assms(1), of e "Some ssid" "Some pass" disk] assms(2) by simp
  show "tollgate_config_init e disk' = (Ok (fill_defaults (default_payout_mint (saved_part c'))), disk')"
    using assms(3,5) d config_reload[OF w n] by (simp add: tollgate_config_init_def)
  show "0 < cfg_network_count c'" "config_wf c'" using n w by blast+
qed

lemma restart_keeps:
  "cfg_nsec (fill_defaults (default_payout_mint c)) = cfg_nsec c"
  "cfg_networks (fill_defaults (default_payout_mint c)) = cfg_networks c"
  "cfg_network_count (fill_defaults (default_payout_mint c)) = cfg_network_count c"
  "cfg_ap_password (fill_defaults (default_payout_mint c)) = cfg_ap_password c"
  "cfg_mint_url (fill_defaults (default_payout_mint c)) = cfg_mint_url c"
  "cfg_price_per_step (fill_defaults (default_payout_mint c)) = cfg_price_per_step c"
  "cfg_step_size_ms (fill_defaults (default_payout_mint c)) = cfg_step_size_ms c"
  "cfg_metric (fill_defaults (default_payout_mint c)) = cfg_metric c"
  "cfg_nostr_geohash (fill_defaults (default_payout_mint c)) = cfg_nostr_geohash c"
  "cfg_client_enabled (fill_defaults (default_payout_mint c)) = cfg_client_enabled c"
  "cfg_mining_enabled (fill_defaults (default_payout_mint c)) = cfg_mining_enabled c"
  "cfg_lnurl_url (fill_defaults (default_payout_mint c)) = cfg_lnurl_url c"
  by (simp_all add: fill_defaults_def default_payout_mint_def Let_def)

lemma restart_relays:
  "0 < cfg_nostr_relay_count c \<Longrightarrow> cfg_nostr_relays (fill_defaults (default_payout_mint c)) = cfg_nostr_relays c"
  "0 < cfg_nostr_relay_count c \<Longrightarrow> cfg_nostr_relay_count (fill_defaults (default_payout_mint c)) = cfg_nostr_relay_count c"
  by (simp_all add: fill_defaults_def default_payout_mint_def Let_def)

lemma restart_payout:
  assumes "cfg_payout c = payout_defaults"
  shows "po_recipient_count (cfg_payout (fill_defaults (default_payout_mint c))) = 1"
    "po_recipients (cfg_payout (fill_defaults (default_payout_mint c))) ! 0 = default_recipient"
  using assms by (simp_all add: fill_defaults_def default_payout_mint_def Let_def payout_defaults_def PAYOUT_MAX_RECIPIENTS_def)

lemma restart_mints:
  assumes "cfg_accepted_mint_count c = 0"
  shows "cfg_accepted_mint_count (fill_defaults (default_payout_mint c)) = (if cfg_mint_url c = [] then 0 else 1)"
  using assms by (simp add: fill_defaults_def default_payout_mint_def Let_def)


text \<open>
  But nothing else survives: after the restart the profits go to \<open>TollGate@coinos.io\<close> whatever recipients were
  configured, only the main mint is accepted, and the upstream client, mining and the Lightning address
  are off.
\<close>

theorem config_add_wifi_forgets:
  assumes "config_wf c" "tollgate_config_add_wifi e (Some ssid) (Some pass) c disk = (Ok (), c', disk')"
    and "fe_mounts e" "fe_writable e" "fe_parse e (fe_print e (config_object c')) = Some (config_object c')"
  shows "\<exists>c2. tollgate_config_init e disk' = (Ok c2, disk') \<and>
    po_recipient_count (cfg_payout c2) = 1 \<and> po_recipients (cfg_payout c2) ! 0 = default_recipient \<and>
    cfg_accepted_mint_count c2 \<le> 1 \<and> \<not> cfg_client_enabled c2 \<and> \<not> cfg_mining_enabled c2 \<and> cfg_lnurl_url c2 = []"
proof (intro exI conjI)
  note r = add_wifi_restart[OF assms(1-5)]
  have s: "cfg_payout (saved_part c') = payout_defaults" "cfg_accepted_mint_count (saved_part c') = 0"
    "\<not> cfg_client_enabled (saved_part c')" "\<not> cfg_mining_enabled (saved_part c')" "cfg_lnurl_url (saved_part c') = []"
    by (simp_all add: saved_part_def config_defaults_def)
  show "tollgate_config_init e disk' = (Ok (fill_defaults (default_payout_mint (saved_part c'))), disk')" by (rule r(1))
  show "po_recipient_count (cfg_payout (fill_defaults (default_payout_mint (saved_part c')))) = 1"
    "po_recipients (cfg_payout (fill_defaults (default_payout_mint (saved_part c')))) ! 0 = default_recipient"
    using restart_payout[OF s(1)] by blast+
  show "cfg_accepted_mint_count (fill_defaults (default_payout_mint (saved_part c'))) \<le> 1" using restart_mints[OF s(2)] by simp
  show "\<not> cfg_client_enabled (fill_defaults (default_payout_mint (saved_part c')))"
    "\<not> cfg_mining_enabled (fill_defaults (default_payout_mint (saved_part c')))"
    "cfg_lnurl_url (fill_defaults (default_payout_mint (saved_part c'))) = []"
    using s by (simp_all add: restart_keeps)
qed

text \<open>A gate with one network and a second one added to it.\<close>

definition demo_start :: tollgate_config where
  "demo_start = config_defaults\<lparr>cfg_nsec := default_nsec,
     cfg_networks := replicate TOLLGATE_MAX_WIFI_NETWORKS \<lparr>wn_ssid = ''home'', wn_password = ''secret''\<rparr>, cfg_network_count := 1,
     cfg_nostr_geohash := ''u281w0dfz'', cfg_nostr_relays := default_relays, cfg_nostr_relay_count := 2\<rparr>"

definition demo_added :: tollgate_config where
  "demo_added = demo_start\<lparr>cfg_networks := (cfg_networks demo_start)[1 := \<lparr>wn_ssid = c_strncpy 32 ''cafe'', wn_password = c_strncpy 64 []\<rparr>],
     cfg_network_count := 2\<rparr>"

definition demo_config_env :: config_env where
  "demo_config_env = \<lparr>fe_mounts = True, fe_writable = True, fe_parse = (\<lambda>t. Some (config_object demo_added)), fe_print = (\<lambda>j. ''{}'')\<rparr>"

lemma demo_start_wf: "config_wf demo_start"
  using defaults_wf by (simp add: cfg_defs demo_start_def texts_ok_def config_limits default_relays_def default_nsec_def network_ok_def)

lemma demo_add: "tollgate_config_add_wifi demo_config_env (Some ''cafe'') (Some []) demo_start None = (Ok (), demo_added, Some ''{}'')"
  by (simp add: tollgate_config_add_wifi_def demo_start_def demo_added_def demo_config_env_def config_limits numeral_2_eq_2)


theorem config_add_wifi_forgets_witness:
  "\<exists>c2. tollgate_config_init demo_config_env (Some ''{}'') = (Ok c2, Some ''{}'') \<and>
     pr_lightning_address (po_recipients (cfg_payout c2) ! 0) = ''TollGate@coinos.io''"
  using config_add_wifi_forgets[OF demo_start_wf demo_add]
  by (auto simp: demo_config_env_def default_recipient_def)


section \<open>Gaps in the list of networks\<close>

lemma load_rest_networks:
  "load_mints j c = Ok c1 \<Longrightarrow> cfg_networks c1 = cfg_networks c \<and> cfg_network_count c1 = cfg_network_count c \<and> cfg_current_network c1 = cfg_current_network c"
  "load_price j c = Ok c1 \<Longrightarrow> cfg_networks c1 = cfg_networks c \<and> cfg_network_count c1 = cfg_network_count c \<and> cfg_current_network c1 = cfg_current_network c"
  "load_payout j c = Ok c1 \<Longrightarrow> cfg_networks c1 = cfg_networks c \<and> cfg_network_count c1 = cfg_network_count c \<and> cfg_current_network c1 = cfg_current_network c"
  "load_mining j c = Ok c1 \<Longrightarrow> cfg_networks c1 = cfg_networks c \<and> cfg_network_count c1 = cfg_network_count c \<and> cfg_current_network c1 = cfg_current_network c"
  by (auto simp: load_mints_def load_price_def load_payout_def load_mining_def cbind_Ok_iff Let_def split: option.splits)

lemma rest_networks:
  "cfg_networks (load_client j c) = cfg_networks c" "cfg_network_count (load_client j c) = cfg_network_count c"
  "cfg_current_network (load_client j c) = cfg_current_network c"
  "cfg_networks (load_relays j c) = cfg_networks c" "cfg_network_count (load_relays j c) = cfg_network_count c"
  "cfg_current_network (load_relays j c) = cfg_current_network c"
  "cfg_networks (load_cvm j c) = cfg_networks c" "cfg_network_count (load_cvm j c) = cfg_network_count c"
  "cfg_current_network (load_cvm j c) = cfg_current_network c"
  "cfg_networks (load_flags j c) = cfg_networks c" "cfg_network_count (load_flags j c) = cfg_network_count c"
  "cfg_current_network (load_flags j c) = cfg_current_network c"
  "cfg_networks (default_payout_mint c) = cfg_networks c" "cfg_network_count (default_payout_mint c) = cfg_network_count c"
  "cfg_current_network (default_payout_mint c) = cfg_current_network c"
  "cfg_networks (fill_defaults c) = cfg_networks c" "cfg_network_count (fill_defaults c) = cfg_network_count c"
  "cfg_current_network (fill_defaults c) = cfg_current_network c"
  by (simp_all add: load_client_def load_relays_def load_cvm_def load_flags_def default_payout_mint_def fill_defaults_def Let_def
    split: option.split)

lemma config_load_networks:
  assumes "config_load j = Ok c"
  obtains st where "read_network_list j (replicate TOLLGATE_MAX_WIFI_NETWORKS no_network, 0) = Ok st"
    "cfg_networks c = fst (wifi_fallback j st)" "cfg_network_count c = snd (wifi_fallback j st)" "cfg_current_network c = 0"
proof -
  obtain c1 c2 c3 c4 c5 c6 where l: "load_nsec j config_defaults = Ok c1" "load_networks j c1 = Ok c2" "load_mints j c2 = Ok c3"
    "load_price j c3 = Ok c4" "load_payout j (load_client j (load_relays j c4)) = Ok c5"
    "load_mining j (default_payout_mint (load_cvm j c5)) = Ok c6" "c = fill_defaults (load_flags j c6)"
    using assms unfolding config_load_def cbind_Ok_iff by blast
  have c1: "cfg_networks c1 = replicate TOLLGATE_MAX_WIFI_NETWORKS no_network" "cfg_network_count c1 = 0" "cfg_current_network c1 = 0"
    using l(1) by (auto simp: load_nsec_def config_defaults_def split: option.splits)
  obtain st where st: "read_network_list j (cfg_networks c1, cfg_network_count c1) = Ok st"
    "c2 = c1\<lparr>cfg_networks := fst (wifi_fallback j st), cfg_network_count := snd (wifi_fallback j st)\<rparr>"
    using l(2) by (auto simp: load_networks_def cbind_Ok_iff)
  have "cfg_networks c = cfg_networks c2 \<and> cfg_network_count c = cfg_network_count c2 \<and> cfg_current_network c = cfg_current_network c2"
    using load_rest_networks(1)[OF l(3)] load_rest_networks(2)[OF l(4)] load_rest_networks(3)[OF l(5)] load_rest_networks(4)[OF l(6)] l(7)
    by (simp add: rest_networks)
  then show ?thesis using that[of st] st c1 by simp
qed

text \<open>
  An unusable entry before a good one hides the good one: the entry is skipped without being counted, the
  good network is stored behind the counted part, and the gate tries the empty name for ever.
\<close>

theorem config_gap_hides_network:
  assumes "config_load j = Ok c" "json_get_ci j ''wifi_networks'' = Some (JArr [gap, network_object w])"
    and "json_get_ci gap ''ssid'' = None" "network_ok w"
  shows "cfg_networks c ! 1 = w \<and> cfg_network_count c = 1 \<and>
    (\<forall>k. \<exists>x. tollgate_config_get_wifi ((next_network ^^ k) c) = Ok x \<and> sta_ssid x = [])"
proof -
  obtain st where st: "read_network_list j (replicate TOLLGATE_MAX_WIFI_NETWORKS no_network, 0) = Ok st"
    "cfg_networks c = fst (wifi_fallback j st)" "cfg_network_count c = snd (wifi_fallback j st)" "cfg_current_network c = 0"
    using config_load_networks[OF assms(1)] .
  have five: "TOLLGATE_MAX_WIFI_NETWORKS = Suc (Suc 3)" by (simp add: config_limits)
  have w: "\<lparr>wn_ssid = c_strncpy 32 (wn_ssid w), wn_password = c_strncpy 64 (wn_password w)\<rparr> = w" using assms(4) by (simp add: network_ok_def)
  have "st = (no_network # w # replicate 3 no_network, 1)"
    using st(1) assms(2,3) w by (auto simp: read_network_list_def json_arr_def five network_object_get valuestring_def numeral_eq_Suc)
  then have c: "cfg_networks c = no_network # w # replicate 3 no_network" "cfg_network_count c = 1"
    using st by (simp_all add: wifi_fallback_def)
  have "(next_network ^^ k) c = c\<lparr>cfg_current_network := 0\<rparr>" for k using next_network_iter[of c k] c st(4) by simp
  then show ?thesis using c by (simp add: tollgate_config_get_wifi_def Let_def no_network_def c_strncpy_def)
qed

definition demo_gap :: json where
  "demo_gap = JObj [(''nsec'', JStr default_nsec),
     (''wifi_networks'', JArr [JObj [(''password'', JStr ''x'')], network_object \<lparr>wn_ssid = ''cafe'', wn_password = []\<rparr>])]"

text \<open>Only nine members can stop the reader.\<close>

lemma config_load_succeeds:
  assumes "json_get_ci j ''nsec'' = Some (JStr s)"
    and "read_network_list j (replicate TOLLGATE_MAX_WIFI_NETWORKS no_network, 0) = Ok st"
    and "json_get_ci j ''ap_password'' = None" "json_get_ci j ''mint_url'' = None" "json_get_ci j ''lnurl_url'' = None"
    and "json_get_ci j ''nostr_geohash'' = None" "json_get_ci j ''persist_threshold_sats'' = None"
    and "json_get_ci j ''payout'' = None" "json_get_ci j ''mining'' = None"
  shows "\<exists>c. config_load j = Ok c"
proof -
  have "load_nsec j config_defaults = Ok (config_defaults\<lparr>cfg_nsec := c_strncpy 65 s\<rparr>)" using assms(1) by (simp add: load_nsec_def json_str_def)
  moreover have "\<exists>c. load_networks j (config_defaults\<lparr>cfg_nsec := c_strncpy 65 s\<rparr>) = Ok c"
    using assms(2) by (simp add: load_networks_def config_defaults_def)
  moreover have "\<exists>d. load_mints j c = Ok d" "\<exists>d. load_price j c = Ok d" for c
    using assms(3-7) by (simp_all add: load_mints_def load_price_def absent_reads Let_def)
  moreover have "load_payout j c = Ok c" "load_mining j c = Ok c" for c
    using assms(8,9) by (simp_all add: load_payout_def load_mining_def json_obj_def)
  ultimately obtain c1 c2 c3 c4 where "load_nsec j config_defaults = Ok c1" "load_networks j c1 = Ok c2" "load_mints j c2 = Ok c3"
    "load_price j c3 = Ok c4" "\<And>c. load_payout j c = Ok c" "\<And>c. load_mining j c = Ok c" by blast
  then show ?thesis by (simp add: config_load_def)
qed

lemma demo_gap_lower:
  "list_all (\<lambda>m. map to_lower (fst m) = fst m) [(''nsec'', x), (''wifi_networks'', y)]"
  "list_all (\<lambda>m. map to_lower (fst m) = fst m) [(''password'', x)]"
  using lower_written_keys by simp_all

lemma demo_gap_get:
  "json_get_ci demo_gap ''wifi_networks'' = Some (JArr [JObj [(''password'', JStr ''x'')], network_object \<lparr>wn_ssid = ''cafe'', wn_password = []\<rparr>])"
  "json_get_ci demo_gap ''nsec'' = Some (JStr default_nsec)"
  "json_get_ci (JObj [(''password'', JStr ''x'')]) ''ssid'' = None"
  unfolding demo_gap_def get_ci_lower[OF demo_gap_lower(1) lower_written_keys(1)] get_ci_lower[OF demo_gap_lower(1) lower_written_keys(2)]
    get_ci_lower[OF demo_gap_lower(2) lower_written_keys(10)] by simp_all

lemma demo_gap_none:
  assumes "map to_lower k = k" "k \<noteq> ''nsec''" "k \<noteq> ''wifi_networks''"
  shows "json_get_ci demo_gap k = None"
  unfolding demo_gap_def get_ci_lower[OF demo_gap_lower(1) assms(1)] using assms(2,3) by simp

lemma demo_gap_loads: "\<exists>c. config_load demo_gap = Ok c"
proof (rule config_load_succeeds[OF demo_gap_get(2)])
  show "read_network_list demo_gap (replicate TOLLGATE_MAX_WIFI_NETWORKS no_network, 0) =
      Ok ((replicate TOLLGATE_MAX_WIFI_NETWORKS no_network)[1 := \<lparr>wn_ssid = ''cafe'', wn_password = []\<rparr>], 1)"
    by (simp add: read_network_list_def demo_gap_get json_arr_def TOLLGATE_MAX_WIFI_NETWORKS_def network_object_get valuestring_def c_strncpy_def)
  have l: "map to_lower ''lnurl_url'' = ''lnurl_url''" "map to_lower ''persist_threshold_sats'' = ''persist_threshold_sats''"
    "map to_lower ''payout'' = ''payout''" "map to_lower ''mining'' = ''mining''"
    by code_simp+
  show "json_get_ci demo_gap ''lnurl_url'' = None" "json_get_ci demo_gap ''persist_threshold_sats'' = None"
    "json_get_ci demo_gap ''payout'' = None" "json_get_ci demo_gap ''mining'' = None"
    by (rule demo_gap_none[OF l(1)] demo_gap_none[OF l(2)] demo_gap_none[OF l(3)] demo_gap_none[OF l(4)]; simp)+
  show "json_get_ci demo_gap ''ap_password'' = None" "json_get_ci demo_gap ''mint_url'' = None" "json_get_ci demo_gap ''nostr_geohash'' = None"
    by (rule demo_gap_none[OF lower_written_keys(3)] demo_gap_none[OF lower_written_keys(4)] demo_gap_none[OF lower_written_keys(8)]; simp)+
qed

theorem config_gap_hides_network_witness:
  "\<exists>c. config_load demo_gap = Ok c \<and> wn_ssid (cfg_networks c ! 1) = ''cafe'' \<and>
     (\<exists>x. tollgate_config_get_wifi c = Ok x \<and> sta_ssid x = [])"
proof -
  obtain c where c: "config_load demo_gap = Ok c" using demo_gap_loads by blast
  have "network_ok \<lparr>wn_ssid = ''cafe'', wn_password = []\<rparr>" by (simp add: network_ok_def)
  from config_gap_hides_network[OF c demo_gap_get(1,3) this]
  have g: "cfg_networks c ! 1 = \<lparr>wn_ssid = ''cafe'', wn_password = []\<rparr>"
    "\<forall>k. \<exists>x. tollgate_config_get_wifi ((next_network ^^ k) c) = Ok x \<and> sta_ssid x = []" by blast+
  from g(2)[rule_format, of 0] g(1) c show ?thesis by (intro exI[of _ c]) simp
qed

end
