(* ===== verification/TG_Dns.thy ===== *)
theory TG_Dns
  imports TG_Bytes
begin

text \<open>
  The DNS server (\<^verbatim>\<open>components/tollgate_core/src/tollgate_core_dns.c\<close>): the list of
  authenticated clients, the handling of one received datagram (hijack for a client that has
  not paid, forwarding for one that has), the name decoder used for the log line, and the
  start and stop of the service. A datagram is handled on the 512-byte receive buffer of the
  code; a write or read outside a buffer is the outcome \<open>Undef\<close>, and the name decoder is a
  partial function because its compression pointers need not make progress.
\<close>

unbundle bit_operations_syntax

section \<open>State\<close>

record dns_state =
  s_auth_list :: "u32 list"
  s_auth_count :: nat
  s_dns_running :: bool
  dns_ap_ip :: u32
  s_upstream_dns :: u32

definition MAX_AUTH_IPS :: nat where
  "MAX_AUTH_IPS = 10"

definition DNS_BUF_SIZE :: nat where
  "DNS_BUF_SIZE = 512"

text \<open>The static storage at boot: zeroed.\<close>

definition dns_boot :: dns_state where
  "dns_boot = \<lparr>s_auth_list = replicate MAX_AUTH_IPS 0, s_auth_count = 0,
     s_dns_running = False, dns_ap_ip = 0, s_upstream_dns = 0\<rparr>"

section \<open>The authentication list\<close>

definition auth_ips :: "dns_state \<Rightarrow> u32 set" where
  "auth_ips d = set (take (s_auth_count d) (s_auth_list d))"

definition is_authenticated :: "dns_state \<Rightarrow> u32 \<Rightarrow> bool" where
  "is_authenticated d ip =
     (first_idx (\<lambda>a. a = ip) (take (s_auth_count d) (s_auth_list d)) \<noteq> None)"

definition dns_set_authenticated :: "u32 \<Rightarrow> bool \<Rightarrow> dns_state \<Rightarrow> dns_state" where
  "dns_set_authenticated ip authenticated d =
     (if authenticated then
        if is_authenticated d ip then d
        else if s_auth_count d < MAX_AUTH_IPS then
          d\<lparr>s_auth_list := (s_auth_list d)[s_auth_count d := ip],
            s_auth_count := s_auth_count d + 1\<rparr>
        else d
      else
        (case first_idx (\<lambda>a. a = ip) (take (s_auth_count d) (s_auth_list d)) of
           None \<Rightarrow> d
         | Some i \<Rightarrow>
             d\<lparr>s_auth_list := swap_remove i (s_auth_count d) (s_auth_list d),
               s_auth_count := s_auth_count d - 1\<rparr>))"

definition dns_inv :: "dns_state \<Rightarrow> bool" where
  "dns_inv d \<longleftrightarrow> length (s_auth_list d) = MAX_AUTH_IPS \<and> s_auth_count d \<le> MAX_AUTH_IPS \<and>
     distinct (take (s_auth_count d) (s_auth_list d))"

lemma dns_inv_boot: "dns_inv dns_boot"
  by (simp add: dns_inv_def dns_boot_def)

lemma auth_ips_boot [simp]: "auth_ips dns_boot = {}"
  by (simp add: auth_ips_def dns_boot_def)

lemma is_authenticated_iff: "is_authenticated d ip \<longleftrightarrow> ip \<in> auth_ips d"
  using first_idx_None_iff[of "\<lambda>a. a = ip"]
  by (simp add: is_authenticated_def auth_ips_def)

lemma card_auth_ips: "dns_inv d \<Longrightarrow> card (auth_ips d) = s_auth_count d"
  by (simp add: dns_inv_def auth_ips_def distinct_card)

lemma set_authenticated_True:
  assumes "dns_inv d"
  shows "dns_inv (dns_set_authenticated ip True d)"
    and "auth_ips (dns_set_authenticated ip True d) =
      (if ip \<in> auth_ips d \<or> card (auth_ips d) < MAX_AUTH_IPS then insert ip (auth_ips d)
       else auth_ips d)"
proof -
  have c: "card (auth_ips d) = s_auth_count d" using assms by (rule card_auth_ips)
  show "dns_inv (dns_set_authenticated ip True d)"
    using assms set_take_append(2)[of "s_auth_count d" "s_auth_list d" ip]
    by (auto simp: dns_set_authenticated_def dns_inv_def is_authenticated_iff auth_ips_def)
  show "auth_ips (dns_set_authenticated ip True d) =
      (if ip \<in> auth_ips d \<or> card (auth_ips d) < MAX_AUTH_IPS then insert ip (auth_ips d)
       else auth_ips d)"
    using assms set_take_append(1)[of "s_auth_count d" "s_auth_list d" ip] c
    by (auto simp: dns_set_authenticated_def dns_inv_def is_authenticated_iff auth_ips_def)
qed

lemma set_authenticated_False:
  assumes "dns_inv d"
  shows "dns_inv (dns_set_authenticated ip False d)"
    and "auth_ips (dns_set_authenticated ip False d) = auth_ips d - {ip}"
proof -
  let ?l = "take (s_auth_count d) (s_auth_list d)"
  have "dns_inv (dns_set_authenticated ip False d) \<and>
        auth_ips (dns_set_authenticated ip False d) = auth_ips d - {ip}"
  proof (cases "first_idx (\<lambda>a. a = ip) ?l")
    case None
    then have "ip \<notin> auth_ips d"
      by (auto simp: auth_ips_def first_idx_None_iff)
    with None assms show ?thesis by (simp add: dns_set_authenticated_def)
  next
    case (Some i)
    have i: "i < s_auth_count d" "s_auth_list d ! i = ip"
      using first_idx_SomeD[OF Some] by auto
    have n: "s_auth_count d \<le> length (s_auth_list d)" "distinct ?l"
      using assms by (simp_all add: dns_inv_def)
    note r = distinct_swap_remove[OF i(1) n]
    show ?thesis
      using Some assms r i(2)
      by (simp add: dns_set_authenticated_def auth_ips_def dns_inv_def le_diff_conv)
  qed
  then show "dns_inv (dns_set_authenticated ip False d)"
    and "auth_ips (dns_set_authenticated ip False d) = auth_ips d - {ip}" by simp_all
qed

interpretation dns_auth: ip_registry dns_inv auth_ips is_authenticated
  "\<lambda>ip. dns_set_authenticated ip True" "\<lambda>ip. dns_set_authenticated ip False" MAX_AUTH_IPS
proof unfold_locales
  fix d ip
  assume inv: "dns_inv d"
  show "is_authenticated d ip \<longleftrightarrow> ip \<in> auth_ips d" by (rule is_authenticated_iff)
  show "finite (auth_ips d)" by (simp add: auth_ips_def)
  show "card (auth_ips d) \<le> MAX_AUTH_IPS" using inv card_auth_ips[OF inv] by (simp add: dns_inv_def)
qed (simp_all add: set_authenticated_True set_authenticated_False)

lemma set_authenticated_frame [simp]:
  "s_dns_running (dns_set_authenticated ip b d) = s_dns_running d"
  "dns_ap_ip (dns_set_authenticated ip b d) = dns_ap_ip d"
  "s_upstream_dns (dns_set_authenticated ip b d) = s_upstream_dns d"
  by (simp_all add: dns_set_authenticated_def split: option.split)

section \<open>Start and stop\<close>

definition dns_start_internal :: "u32 \<Rightarrow> u32 \<Rightarrow> dns_state \<Rightarrow> dns_state" where
  "dns_start_internal ap_ip upstream_dns d =
     (if s_dns_running d then d
      else d\<lparr>dns_ap_ip := ap_ip, s_upstream_dns := upstream_dns, s_dns_running := True\<rparr>)"

definition dns_stop :: "dns_state \<Rightarrow> dns_state" where
  "dns_stop d = d\<lparr>s_dns_running := False\<rparr>"

definition dns_is_running :: "dns_state \<Rightarrow> bool" where
  "dns_is_running d = s_dns_running d"

lemma dns_start_stop_auth [simp]:
  "auth_ips (dns_start_internal a u d) = auth_ips d"
  "auth_ips (dns_stop d) = auth_ips d"
  "dns_inv (dns_start_internal a u d) = dns_inv d"
  "dns_inv (dns_stop d) = dns_inv d"
  by (simp_all add: dns_start_internal_def dns_stop_def auth_ips_def dns_inv_def)

section \<open>Decoding the question\<close>

text \<open>
  The scan of the question name in \<open>dns_server_task\<close>: \<open>n\<close> is the number of bytes
  received into \<open>rx_buf\<close>.
\<close>

function skip_qname :: "u8 list \<Rightarrow> nat \<Rightarrow> nat \<Rightarrow> nat" where
  "skip_qname rx_buf n q_offset =
     (if q_offset < n \<and> rx_buf ! q_offset \<noteq> 0
      then skip_qname rx_buf n (q_offset + unat (rx_buf ! q_offset) + 1)
      else q_offset)"
  by pat_completeness auto
termination
  by (relation "measure (\<lambda>(rx_buf, n, q_offset). n - q_offset)") auto

declare skip_qname.simps [simp del]

lemma skip_qname_ge: "q \<le> skip_qname rx n q"
proof (induction rx n q rule: skip_qname.induct)
  case (1 rx n q)
  then show ?case by (cases "q < n \<and> rx ! q \<noteq> 0") (auto simp: skip_qname.simps[of rx n q])
qed

text \<open>
  \<open>parse_dns_name\<close>: the inner copy loop of a label, then the outer loop. \<open>None\<close> is a
  loop that never returns; \<open>Undef\<close> a read past the buffer; the result is the decoded name
  (the bytes before the terminating NUL). The local variable \<open>jump_pos\<close> is written but
  never read and is left out.
\<close>

fun copy_label :: "u8 list \<Rightarrow> nat \<Rightarrow> nat \<Rightarrow> nat \<Rightarrow> nat \<Rightarrow> u8 list \<Rightarrow> nat \<times> u8 list" where
  "copy_label buf buf_len out_len 0 pos out = (pos, out)"
| "copy_label buf buf_len out_len (Suc k) pos out =
     (if pos < buf_len \<and> length out < out_len - 1
      then copy_label buf buf_len out_len k (pos + 1) (out @ [buf ! pos])
      else (pos, out))"

partial_function (option) parse_dns_name ::
  "u8 list \<Rightarrow> nat \<Rightarrow> nat \<Rightarrow> nat \<Rightarrow> u8 list \<Rightarrow> u8 list cres option" where
  "parse_dns_name buf buf_len out_len pos out =
     (if pos < buf_len \<and> length out < out_len - 1 then
        if buf ! pos = 0 then Some (Ok out)
        else if buf ! pos AND 0xC0 = 0xC0 then
          if pos + 1 < length buf
          then parse_dns_name buf buf_len out_len
                 (unat (buf ! pos AND 0x3F) * 256 + unat (buf ! (pos + 1))) out
          else Some Undef
        else
          (case copy_label buf buf_len out_len (unat (buf ! pos)) (pos + 1)
                  (if out \<noteq> [] then out @ [46] else out) of
             (pos', out') \<Rightarrow> parse_dns_name buf buf_len out_len pos' out')
      else Some (Ok out))"

lemma copy_label_pos: "pos \<le> fst (copy_label buf n m k pos out)"
  by (induction k arbitrary: pos out) (auto simp: Suc_le_lessD intro: le_trans[OF le_SucI])

lemma copy_label_length:
  "length (snd (copy_label buf n m k pos out)) \<le> max (length out) (m - 1)"
proof (induction k arbitrary: pos out)
  case (Suc k)
  have "length (snd (copy_label buf n m k (pos + 1) (out @ [buf ! pos]))) \<le> max (Suc (length out)) (m - 1)"
    using Suc.IH[of "pos + 1" "out @ [buf ! pos]"] by simp
  then show ?case by auto
qed simp

section \<open>Answers\<close>

text \<open>
  \<open>build_nxdomain\<close> and \<open>build_redirect_response\<close> edit the receive buffer in place. The
  answer record is 16 bytes, appended right behind the request in the same buffer.
\<close>

definition set_header :: "u16 \<Rightarrow> u16 \<Rightarrow> u8 list \<Rightarrow> u8 list" where
  "set_header flags ancount response =
     buf_write 10 (be16 0) (buf_write 8 (be16 0) (buf_write 6 (be16 ancount) (buf_write 2 (be16 flags) response)))"

definition build_nxdomain :: "u8 list \<Rightarrow> nat \<Rightarrow> u8 list \<times> nat" where
  "build_nxdomain response req_len = (set_header 0x8403 0 response, req_len)"

definition HIJACK_TTL :: u32 where
  "HIJACK_TTL = 10"

definition redirect_answer :: "u32 \<Rightarrow> u8 list" where
  "redirect_answer ap_ip =
     be16 0xC00C @ be16 1 @ be16 1 @ be32 HIJACK_TTL @ be16 4 @ le32 ap_ip"

definition build_redirect_response :: "u32 \<Rightarrow> u8 list \<Rightarrow> nat \<Rightarrow> (u8 list \<times> nat) cres" where
  "build_redirect_response ap_ip response req_len =
     (let r = set_header 0x8180 1 response; ans = redirect_answer ap_ip in
      if req_len + length ans \<le> length r
      then Ok (buf_write req_len ans r, req_len + length ans)
      else Undef)"

text \<open>
  \<open>forward_dns\<close>: \<open>upstream req\<close> is what the upstream resolver sends back for the request
  (\<open>None\<close> for no socket or a time-out); at most 528 bytes are received, and the
  transaction id is put back.
\<close>

definition forward_dns :: "(u8 list \<Rightarrow> u8 list option) \<Rightarrow> u8 list \<Rightarrow> nat \<Rightarrow> u16 \<Rightarrow> u8 list option" where
  "forward_dns upstream req resp_buf_len txn_id =
     (case upstream req of
        None \<Rightarrow> None
      | Some reply \<Rightarrow>
          (let resp = take resp_buf_len reply in
           if length resp = 0 then None
           else if 12 \<le> length resp then Some (buf_write 0 (be16 txn_id) resp)
           else Some resp))"

datatype dns_action = DNS_Drop | DNS_Reply "u8 list"

text \<open>
  One iteration of the loop of \<open>dns_server_task\<close>: \<open>rx_buf\<close> is the receive buffer after
  \<open>recvfrom\<close> returned \<open>n\<close>, \<open>client_ip\<close> the sender. The outer \<open>None\<close> is an
  iteration that never ends.
\<close>

definition dns_handle_packet ::
  "(u8 list \<Rightarrow> u8 list option) \<Rightarrow> dns_state \<Rightarrow> u32 \<Rightarrow> u8 list \<Rightarrow> nat \<Rightarrow> dns_action cres option" where
  "dns_handle_packet upstream d client_ip rx_buf n =
     (if n < 12 then Some (Ok DNS_Drop)
      else let txn_id = of_be16 (rx_buf ! 0) (rx_buf ! 1);
               is_query = (of_be16 (rx_buf ! 2) (rx_buf ! 3) AND 0x8000 = 0);
               qdcount = of_be16 (rx_buf ! 4) (rx_buf ! 5) in
      if \<not> is_query \<or> qdcount = 0 then Some (Ok DNS_Drop)
      else let q_offset = skip_qname rx_buf n 12 in
      if n < q_offset + 5 then Some (Ok DNS_Drop)
      else let qtype = of_be16 (rx_buf ! (q_offset + 1)) (rx_buf ! (q_offset + 2));
               req_len = q_offset + 5 in
      if is_authenticated d client_ip then
        (case forward_dns upstream (take req_len rx_buf) (DNS_BUF_SIZE + 16) txn_id of
           None \<Rightarrow> Some (Ok DNS_Drop)
         | Some resp \<Rightarrow> Some (Ok (DNS_Reply resp)))
      else
        (case parse_dns_name rx_buf n 256 12 [] of
           None \<Rightarrow> None
         | Some name \<Rightarrow> Some (cbind name (\<lambda>qname.
             if qtype = 1 then
               cbind (build_redirect_response (dns_ap_ip d) rx_buf req_len) (\<lambda>(rx, resp_len).
                 Ok (DNS_Reply (buf_write 0 (be16 txn_id) (take resp_len rx))))
             else
               (case build_nxdomain rx_buf req_len of (rx, resp_len) \<Rightarrow>
                 Ok (DNS_Reply (buf_write 0 (be16 txn_id) (take resp_len rx))))))))"

section \<open>The answers, byte by byte\<close>

lemma header_split:
  assumes "12 \<le> length xs"
  obtains a b c d e f g h i j k l r where "xs = a # b # c # d # e # f # g # h # i # j # k # l # r"
  using assms by (auto simp: Suc_le_length_iff numeral_eq_Suc)

lemma length_redirect_answer [simp]: "length (redirect_answer ip) = 16"
  by (simp add: redirect_answer_def)

lemma rewrite_txn_id:
  assumes "2 \<le> length rx"
  shows "buf_write 0 (be16 (of_be16 (rx ! 0) (rx ! 1))) (take 2 rx @ y) = take 2 rx @ y"
proof -
  obtain a b r where "rx = a # b # r" using assms by (auto simp: Suc_le_length_iff numeral_eq_Suc)
  then show ?thesis by (simp add: buf_write_def)
qed

lemma buf_write_append:
  assumes "length h \<le> off"
  shows "buf_write off bs (h @ x) = h @ buf_write (off - length h) bs x"
  using assms by (simp add: buf_write_def)

text \<open>The header every hijack answer starts with: the client's id and question count.\<close>

definition reply_header :: "u16 \<Rightarrow> u16 \<Rightarrow> u8 list \<Rightarrow> u8 list" where
  "reply_header flags ancount rx =
     take 2 rx @ be16 flags @ take 2 (drop 4 rx) @ be16 ancount @ [0, 0, 0, 0]"

lemma length_reply_header: "12 \<le> length rx \<Longrightarrow> length (reply_header f a rx) = 12"
  by (simp add: reply_header_def)

lemma set_header_bytes:
  assumes "12 \<le> length rx"
  shows "set_header flags ancount rx =
    reply_header flags ancount rx @ drop 12 rx"
  using assms by (elim header_split) (simp add: set_header_def reply_header_def buf_write_def be16_def)

lemma reply_header_id:
  assumes "12 \<le> length rx"
  shows "buf_write 0 [rx ! 0, rx ! Suc 0] (reply_header f a rx @ y) = reply_header f a rx @ y"
  using rewrite_txn_id[of rx] assms by (simp add: reply_header_def)

definition well_formed_query :: "u8 list \<Rightarrow> nat \<Rightarrow> bool" where
  "well_formed_query rx n \<longleftrightarrow> length rx = DNS_BUF_SIZE \<and> 12 \<le> n \<and> n \<le> DNS_BUF_SIZE \<and>
     of_be16 (rx ! 2) (rx ! 3) AND 0x8000 = 0 \<and> of_be16 (rx ! 4) (rx ! 5) \<noteq> 0 \<and>
     skip_qname rx n 12 + 5 \<le> n"

definition query_type :: "u8 list \<Rightarrow> nat \<Rightarrow> u16" where
  "query_type rx n =
     (let q = skip_qname rx n 12 in of_be16 (rx ! (q + 1)) (rx ! (q + 2)))"

lemma query_length:
  assumes "well_formed_query rx n"
  shows "12 \<le> length rx" "17 \<le> skip_qname rx n 12 + 5" "skip_qname rx n 12 + 5 \<le> length rx"
  using assms skip_qname_ge[of 12 rx n] by (auto simp: well_formed_query_def)

lemma redirect_reply:
  assumes "well_formed_query rx n" "req_len = skip_qname rx n 12 + 5"
    and "req_len + 16 \<le> DNS_BUF_SIZE"
  shows "build_redirect_response ip rx req_len = Ok (reply_header 0x8180 1 rx @
      buf_write (req_len - 12) (redirect_answer ip) (drop 12 rx), req_len + 16)"
    and "take (req_len + 16) (reply_header 0x8180 1 rx @
      buf_write (req_len - 12) (redirect_answer ip) (drop 12 rx)) =
      reply_header 0x8180 1 rx @ take (req_len - 12) (drop 12 rx) @ redirect_answer ip"
proof -
  note q = query_length[OF assms(1)]
  have hl: "length (reply_header 0x8180 1 rx) = 12" using q(1) by (rule length_reply_header)
  have lrx: "length rx = DNS_BUF_SIZE" using assms(1) by (simp add: well_formed_query_def)
  show "build_redirect_response ip rx req_len = Ok (reply_header 0x8180 1 rx @
      buf_write (req_len - 12) (redirect_answer ip) (drop 12 rx), req_len + 16)"
    using assms(2,3) q hl lrx
    by (simp add: build_redirect_response_def set_header_bytes buf_write_append)
  show "take (req_len + 16) (reply_header 0x8180 1 rx @
      buf_write (req_len - 12) (redirect_answer ip) (drop 12 rx)) =
      reply_header 0x8180 1 rx @ take (req_len - 12) (drop 12 rx) @ redirect_answer ip"
    using assms(2,3) q hl lrx by (simp add: buf_write_def)
qed

lemma redirect_overflow:
  assumes "well_formed_query rx n" "req_len = skip_qname rx n 12 + 5"
    and "DNS_BUF_SIZE < req_len + 16"
  shows "build_redirect_response ip rx req_len = Undef"
  using assms query_length[OF assms(1)] length_reply_header[of rx]
  by (simp add: build_redirect_response_def set_header_bytes well_formed_query_def)

text \<open>
  The outcome for a well-formed query of a client that is not authenticated, once the name has
  been decoded for the log.
\<close>

lemma hijack_outcome:
  assumes q: "well_formed_query rx n" and na: "\<not> is_authenticated d ip"
    and nm: "parse_dns_name rx n 256 12 [] = Some (Ok name)"
  defines "req_len \<equiv> skip_qname rx n 12 + 5"
  shows "dns_handle_packet up d ip rx n = Some
     (if query_type rx n = 1 then
        if req_len + 16 \<le> DNS_BUF_SIZE
        then Ok (DNS_Reply (reply_header 0x8180 1 rx @ take (req_len - 12) (drop 12 rx) @
                            redirect_answer (dns_ap_ip d)))
        else Undef
      else Ok (DNS_Reply (reply_header 0x8403 0 rx @ take (req_len - 12) (drop 12 rx))))"
proof -
  note ql = query_length[OF q]
  have hl: "length (reply_header f a rx) = 12" for f a using ql(1) by (rule length_reply_header)
  have step: "dns_handle_packet up d ip rx n = Some
     (if query_type rx n = 1 then
        cbind (build_redirect_response (dns_ap_ip d) rx req_len) (\<lambda>(r, l).
          Ok (DNS_Reply (buf_write 0 (be16 (of_be16 (rx ! 0) (rx ! 1))) (take l r))))
      else (case build_nxdomain rx req_len of (r, l) \<Rightarrow>
          Ok (DNS_Reply (buf_write 0 (be16 (of_be16 (rx ! 0) (rx ! 1))) (take l r)))))"
    using q na nm
    by (simp add: dns_handle_packet_def well_formed_query_def query_type_def Let_def req_len_def)
  have nx: "take req_len (set_header 0x8403 0 rx) =
      reply_header 0x8403 0 rx @ take (req_len - 12) (drop 12 rx)"
    using ql hl by (simp add: set_header_bytes req_len_def)
  show ?thesis
  proof (cases "query_type rx n = 1 \<and> req_len + 16 \<le> DNS_BUF_SIZE")
    case True
    then show ?thesis
      using step redirect_reply[OF q req_len_def[THEN meta_eq_to_obj_eq]] ql(1)
      by (simp add: reply_header_id)
  next
    case False
    then show ?thesis
      using step redirect_overflow[OF q req_len_def[THEN meta_eq_to_obj_eq]] ql(1)
      by (auto simp: build_nxdomain_def nx reply_header_id)
  qed
qed

section \<open>The name decoder\<close>

lemma parse_dns_name_bound:
  assumes "parse_dns_name buf n m pos out = Some (Ok name)"
  shows "length name \<le> max (length out) (m - 1)"
proof -
  have "\<forall>name. r = Ok name \<longrightarrow> length name \<le> max (length out) (m - 1)"
    if "parse_dns_name buf n m pos out = Some r" for r
  proof (rule parse_dns_name.raw_induct
      [where P = "\<lambda>buf n m pos out r. \<forall>name. r = Ok name \<longrightarrow> length name \<le> max (length out) (m - 1)", OF _ that])
    fix f :: "u8 list \<Rightarrow> nat \<Rightarrow> nat \<Rightarrow> nat \<Rightarrow> u8 list \<Rightarrow> u8 list cres option"
      and buf :: "u8 list" and n m pos :: nat and out :: "u8 list" and r :: "u8 list cres"
    assume IH: "\<And>buf n m pos out r. f buf n m pos out = Some r \<Longrightarrow>
        \<forall>name. r = Ok name \<longrightarrow> length name \<le> max (length out) (m - 1)"
    let ?o = "if out \<noteq> [] then out @ [46] else out"
    let ?c = "copy_label buf n m (unat (buf ! pos)) (pos + 1) ?o"
    assume eq: "(if pos < n \<and> length out < m - 1 then
        if buf ! pos = 0 then Some (Ok out)
        else if buf ! pos AND 0xC0 = 0xC0 then
          if pos + 1 < length buf
          then f buf n m (unat (buf ! pos AND 0x3F) * 256 + unat (buf ! (pos + 1))) out
          else Some Undef
        else (case ?c of (pos', out') \<Rightarrow> f buf n m pos' out')
      else Some (Ok out)) = Some r"
    have o: "length out < m - 1 \<Longrightarrow> length (snd ?c) \<le> m - 1"
      using copy_label_length[of buf n m "unat (buf ! pos)" "pos + 1" ?o] by auto
    show "\<forall>name. r = Ok name \<longrightarrow> length name \<le> max (length out) (m - 1)"
      using eq o by (fastforce split: if_splits prod.splits dest: IH)
  qed
  then show ?thesis using assms by blast
qed

lemma parse_dns_name_self_pointer:
  assumes "pos < n" "length out < m - 1" "pos + 1 < length buf"
    and ptr: "buf ! pos AND 0xC0 = 0xC0"
    and self: "unat (buf ! pos AND 0x3F) * 256 + unat (buf ! (pos + 1)) = pos"
  shows "parse_dns_name buf n m pos out = None"
proof (rule ccontr)
  assume "parse_dns_name buf n m pos out \<noteq> None"
  then obtain r where r: "parse_dns_name buf n m pos out = Some r" by auto
  have nz: "buf ! pos \<noteq> 0" using ptr by auto
  have "\<not> (buf = buf \<and> n = n \<and> m = m \<and> pos = pos \<and> out = out)"
  proof (rule parse_dns_name.raw_induct
      [where P = "\<lambda>b n' m' p o' r. \<not> (b = buf \<and> n' = n \<and> m' = m \<and> p = pos \<and> o' = out)", OF _ r])
    fix f b n' m' p o' r
    assume IH: "\<And>b n' m' p o' r. f b n' m' p o' = Some r \<Longrightarrow>
        \<not> (b = buf \<and> n' = n \<and> m' = m \<and> p = pos \<and> o' = out)"
      and eq: "(if p < n' \<and> length o' < m' - 1 then
        if b ! p = 0 then Some (Ok o')
        else if b ! p AND 0xC0 = 0xC0 then
          if p + 1 < length b
          then f b n' m' (unat (b ! p AND 0x3F) * 256 + unat (b ! (p + 1))) o'
          else Some Undef
        else (case copy_label b n' m' (unat (b ! p)) (p + 1) (if o' \<noteq> [] then o' @ [46] else o') of
          (pos', out') \<Rightarrow> f b n' m' pos' out')
      else Some (Ok o')) = Some r"
    show "\<not> (b = buf \<and> n' = n \<and> m' = m \<and> p = pos \<and> o' = out)"
      using assms nz eq by (auto dest: IH)
  qed
  then show False by simp
qed

lemma parse_dns_name_returns:
  assumes plain: "\<forall>b\<in>set (take n buf). b AND 0xC0 \<noteq> 0xC0" and "n \<le> length buf"
  shows "\<exists>name. parse_dns_name buf n m pos out = Some (Ok name)"
proof (induction "n - pos" arbitrary: pos out rule: less_induct)
  case less
  show ?case
  proof (cases "pos < n \<and> length out < m - 1 \<and> buf ! pos \<noteq> 0")
    case False
    then show ?thesis by (subst parse_dns_name.simps) auto
  next
    case True
    obtain p' o' where c: "copy_label buf n m (unat (buf ! pos)) (pos + 1)
        (if out \<noteq> [] then out @ [46] else out) = (p', o')" by fastforce
    have "pos + 1 \<le> p'"
      using copy_label_pos[of "pos + 1" buf n m "unat (buf ! pos)" "if out \<noteq> [] then out @ [46] else out"]
      unfolding c by simp
    then have "n - p' < n - pos" using True by linarith
    then have "\<exists>name. parse_dns_name buf n m p' o' = Some (Ok name)" by (rule less)
    moreover have "buf ! pos \<in> set (take n buf)"
      using True assms(2) by (auto simp: in_set_conv_nth)
    then have "buf ! pos AND 0xC0 \<noteq> 0xC0" using plain by blast
    ultimately show ?thesis using True c by (subst parse_dns_name.simps) simp
  qed
qed

section \<open>Properties\<close>

definition example_query :: "u8 list" where
  "example_query = [0x12, 0x34, 1, 0, 0, 1, 0, 0, 0, 0, 0, 0, 1, 0x61, 0, 0, 1, 0, 1] @ replicate 493 0"

lemma example_query_facts:
  "well_formed_query example_query 19" "skip_qname example_query 19 12 = 14"
  "query_type example_query 19 = 1"
  "\<forall>b\<in>set (take 19 example_query). b AND 0xC0 \<noteq> 0xC0"
proof -
  show q: "skip_qname example_query 19 12 = 14"
    by (simp add: skip_qname.simps example_query_def)
  show "well_formed_query example_query 19" "query_type example_query 19 = 1"
    by (simp_all add: well_formed_query_def query_type_def q DNS_BUF_SIZE_def)
       (simp_all add: example_query_def of_be16_def)
  show "\<forall>b\<in>set (take 19 example_query). b AND 0xC0 \<noteq> 0xC0"
    by (simp add: example_query_def)
qed



definition long_query :: "u8 list" where
  "long_query = [0x12, 0x34, 1, 0, 0, 1, 0, 0, 0, 0, 0, 0] @ replicate 488 1 @ [0, 0, 1, 0, 1] @ replicate 7 0"

lemma long_query_nth: "i < 488 \<Longrightarrow> long_query ! (12 + i) = 1"
  by (simp add: long_query_def nth_append)

lemma long_query_tail:
  "long_query ! 500 = 0" "long_query ! 501 = 0" "long_query ! 502 = 1"
  by (simp_all add: long_query_def nth_append)

lemma long_query_skip: "j \<le> 244 \<Longrightarrow> skip_qname long_query 505 (500 - 2 * j) = 500"
proof (induction j)
  case 0
  then show ?case by (simp add: skip_qname.simps long_query_tail)
next
  case (Suc j)
  have "long_query ! (500 - 2 * Suc j) = 1"
    using long_query_nth[of "488 - 2 * Suc j"] Suc.prems by simp
  moreover have "Suc (Suc (498 - 2 * j)) = 500 - 2 * j" using Suc.prems by simp
  ultimately show ?case
    using Suc by (subst skip_qname.simps) simp
qed

lemma long_query_facts:
  "well_formed_query long_query 505" "query_type long_query 505 = 1"
  "skip_qname long_query 505 12 = 500"
  "\<forall>b\<in>set (take 505 long_query). b AND 0xC0 \<noteq> 0xC0"
proof -
  show q: "skip_qname long_query 505 12 = 500" using long_query_skip[of 244] by simp
  show "well_formed_query long_query 505"
    unfolding well_formed_query_def q by (simp add: DNS_BUF_SIZE_def long_query_def of_be16_def)
  show "query_type long_query 505 = 1"
    unfolding query_type_def q Let_def by (simp add: long_query_tail of_be16_def)
  show "\<forall>b\<in>set (take 505 long_query). b AND 0xC0 \<noteq> 0xC0"
    by (auto simp: long_query_def)
qed

text \<open>
  The redirect answer is built in the 512-byte receive buffer itself: for an A query
  without compression pointers of a client that has not paid, the 16 bytes of the answer
  record are written past the end of that buffer exactly when the request is longer than 496
  bytes.
\<close>

theorem dns_redirect_overflow:
  assumes "well_formed_query rx n" "\<not> is_authenticated d ip" "query_type rx n = 1"
    and "\<forall>b\<in>set (take n rx). b AND 0xC0 \<noteq> 0xC0"
  shows "dns_handle_packet up d ip rx n = Some Undef \<longleftrightarrow> 496 < skip_qname rx n 12 + 5"
proof -
  have "n \<le> length rx" using assms(1) by (simp add: well_formed_query_def)
  then obtain name where "parse_dns_name rx n 256 12 [] = Some (Ok name)"
    using parse_dns_name_returns[OF assms(4)] by blast
  from hijack_outcome[OF assms(1,2) this] assms(3) show ?thesis
    by (simp add: DNS_BUF_SIZE_def)
qed

theorem dns_redirect_overflow_witness:
  "dns_handle_packet (\<lambda>_. None) dns_boot 0x0204A8C0 long_query 505 = Some Undef"
proof -
  have "\<not> is_authenticated dns_boot 0x0204A8C0"
    by (simp add: is_authenticated_def dns_boot_def)
  from dns_redirect_overflow[OF long_query_facts(1) this long_query_facts(2,4)]
  show ?thesis by (simp add: long_query_facts)
qed

definition pointer_loop_query :: "u8 list" where
  "pointer_loop_query = [0x12, 0x34, 1, 0, 0, 1, 0, 0, 0, 0, 0, 0, 0xC0, 0x0C] @ replicate 498 0"

lemma pointer_loop_query_facts:
  "well_formed_query pointer_loop_query 512"
  "pointer_loop_query ! 12 = 0xC0" "pointer_loop_query ! 13 = 0x0C"
proof -
  have "skip_qname pointer_loop_query 512 12 = 205"
    by (simp add: skip_qname.simps pointer_loop_query_def nth_append)
  then show "well_formed_query pointer_loop_query 512"
    by (simp add: well_formed_query_def DNS_BUF_SIZE_def) (simp add: pointer_loop_query_def of_be16_def)
  show "pointer_loop_query ! 12 = 0xC0" "pointer_loop_query ! 13 = 0x0C"
    by (simp_all add: pointer_loop_query_def)
qed

text \<open>
  (C23) A well-formed query of a client that has not paid, whose name is a compression pointer
  to itself (bytes C0 0C at offset 12), makes the name decoder loop for ever, and the DNS server
  with it: the iteration of the server loop never ends.
\<close>

theorem dns_name_pointer_loop:
  assumes "well_formed_query rx n" "\<not> is_authenticated d ip" "13 < n"
    and "rx ! 12 = 0xC0" "rx ! 13 = 0x0C"
  shows "dns_handle_packet up d ip rx n = None"
proof -
  have "parse_dns_name rx n 256 12 [] = None"
    using assms by (intro parse_dns_name_self_pointer) (auto simp: well_formed_query_def)
  then show ?thesis
    using assms by (simp add: dns_handle_packet_def well_formed_query_def Let_def)
qed

theorem dns_name_pointer_loop_witness:
  "dns_handle_packet (\<lambda>_. None) dns_boot 0x0204A8C0 pointer_loop_query 512 = None"
proof -
  have "\<not> is_authenticated dns_boot 0x0204A8C0"
    by (simp add: is_authenticated_def dns_boot_def)
  from dns_name_pointer_loop[OF pointer_loop_query_facts(1) this _ pointer_loop_query_facts(2,3)]
  show ?thesis by simp
qed

text \<open>
  A client that has paid reaches the upstream resolver: the request is passed on as it
  was sent (cut after the question), and the reply comes back, cut at 528 bytes, with the
  client's own transaction id in it whatever id the resolver used.
\<close>

theorem dns_paid_query_forwarded:
  assumes "well_formed_query rx n" "is_authenticated d ip"
    and "up (take (skip_qname rx n 12 + 5) rx) = Some reply" "12 \<le> length reply"
  shows "dns_handle_packet up d ip rx n =
    Some (Ok (DNS_Reply (take 2 rx @ drop 2 (take 528 reply))))"
proof -
  obtain a b r where rx: "rx = a # b # r"
    using query_length(1)[OF assms(1)] by (auto simp: Suc_le_length_iff numeral_eq_Suc)
  have "forward_dns up (take (skip_qname rx n 12 + 5) rx) (DNS_BUF_SIZE + 16)
      (of_be16 (rx ! 0) (rx ! 1)) = Some (take 2 rx @ drop 2 (take 528 reply))"
    using assms(3,4)
    by (auto simp: forward_dns_def DNS_BUF_SIZE_def buf_write_def rx Let_def numeral_2_eq_2)
  then show ?thesis
    using assms(1,2) by (simp add: dns_handle_packet_def well_formed_query_def Let_def)
qed

theorem dns_paid_query_forwarded_witness:
  "dns_handle_packet (\<lambda>_. Some (replicate 20 7)) (dns_set_authenticated 5 True dns_boot) 5 example_query 19
   = Some (Ok (DNS_Reply ([0x12, 0x34] @ replicate 18 7)))"
proof -
  have a: "is_authenticated (dns_set_authenticated 5 True dns_boot) 5"
    by (rule dns_auth.add_member) (simp_all add: dns_inv_boot MAX_AUTH_IPS_def)
  have "drop 2 (take 528 (replicate 20 (7 :: u8))) = replicate 18 7" by (simp add: numeral_eq_Suc)
  with dns_paid_query_forwarded[OF example_query_facts(1) a, of "\<lambda>_. Some (replicate 20 7)"]
  show ?thesis by (simp add: example_query_def)
qed

end
