(* ===== verification/TG_Firewall.thy ===== *)
theory TG_Firewall
  imports TG_Dns
begin

text \<open>
  The per-client firewall (\<^verbatim>\<open>components/tollgate_core/src/tollgate_core_firewall.c\<close>):
  the table of clients that may use the uplink, the lookup of a client's MAC address, and the
  filter that lwIP calls for every packet it would forward. A grant or a revocation also
  updates the DNS authentication list, so the operations work on the pair of both states.
  Addresses are kept as the code keeps them, in network byte order as a little-endian load
  reads them.
\<close>

unbundle bit_operations_syntax

section \<open>State\<close>

record fw_client =
  fwc_ip :: u32
  fwc_mac :: string

record fw_state =
  fw_ap_ip :: u32
  s_mining_port :: u16
  s_clients :: "fw_client list"
  s_client_count :: nat

record net_state =
  net_fw :: fw_state
  net_dns :: dns_state

definition MAX_CLIENTS :: nat where
  "MAX_CLIENTS = 10"

definition empty_client :: fw_client where
  "empty_client = \<lparr>fwc_ip = 0, fwc_mac = []\<rparr>"

definition fw_boot :: fw_state where
  "fw_boot = \<lparr>fw_ap_ip = 0, s_mining_port = 3333,
     s_clients = replicate MAX_CLIENTS empty_client, s_client_count = 0\<rparr>"

definition net_boot :: net_state where
  "net_boot = \<lparr>net_fw = fw_boot, net_dns = dns_boot\<rparr>"

section \<open>Looking up a MAC address\<close>

definition ERR_OK :: int where
  "ERR_OK = 0"

definition format_mac :: "u8 list \<Rightarrow> string" where
  "format_mac m = hex2 (m ! 0) @ '':'' @ hex2 (m ! 1) @ '':'' @ hex2 (m ! 2) @ '':'' @
                  hex2 (m ! 3) @ '':'' @ hex2 (m ! 4) @ '':'' @ hex2 (m ! 5)"

text \<open>
  The station list of the WiFi driver is a parameter (\<open>None\<close>: one of the two calls fails),
  and so is lwIP's \<open>etharp_get_entry\<close>: for an index, its return code and the address and
  hardware address it points the out parameters to. The loop over the ARP table continues as
  long as the return code is \<open>ERR_OK\<close>; \<open>None\<close> is a loop that never ends.
\<close>

partial_function (option) arp_scan ::
  "(nat \<Rightarrow> int \<times> u32 option \<times> u8 list option) \<Rightarrow> u32 \<Rightarrow> nat \<Rightarrow> string cres option" where
  "arp_scan etharp_get_entry client_ip i =
     (case etharp_get_entry i of (ret, entry_ip, entry_eth) \<Rightarrow>
        if ret = ERR_OK then
          (case entry_eth of
             Some eth \<Rightarrow> if entry_ip = Some client_ip then Some (Ok (format_mac eth))
                         else arp_scan etharp_get_entry client_ip (i + 1)
           | None \<Rightarrow> arp_scan etharp_get_entry client_ip (i + 1))
        else Some Fail)"

definition fw_get_mac_for_ip ::
  "(u32 \<times> u8 list) list option \<Rightarrow> (nat \<Rightarrow> int \<times> u32 option \<times> u8 list option) \<Rightarrow> u32
   \<Rightarrow> string cres option" where
  "fw_get_mac_for_ip sta_list etharp_get_entry client_ip =
     (case sta_list of
        Some stas \<Rightarrow>
          (case first_idx (\<lambda>(ip, mac). ip = client_ip) stas of
             Some i \<Rightarrow> Some (Ok (format_mac (snd (stas ! i))))
           | None \<Rightarrow> arp_scan etharp_get_entry client_ip 0)
      | None \<Rightarrow> arp_scan etharp_get_entry client_ip 0)"

section \<open>The client table\<close>

text \<open>
  The operations below take \<open>mac_of\<close>, the answer of the lookup above for each address
  (\<open>None\<close> for \<open>ESP_FAIL\<close>) while the operation runs.
\<close>

definition fw_init :: "u32 \<Rightarrow> net_state \<Rightarrow> net_state" where
  "fw_init ap_ip s = s\<lparr>net_fw := (net_fw s)\<lparr>fw_ap_ip := ap_ip,
     s_clients := replicate MAX_CLIENTS empty_client, s_client_count := 0\<rparr>\<rparr>"

definition fw_set_sandbox_ports :: "u16 \<Rightarrow> net_state \<Rightarrow> net_state" where
  "fw_set_sandbox_ports mining_port s = s\<lparr>net_fw := (net_fw s)\<lparr>s_mining_port := mining_port\<rparr>\<rparr>"

definition fw_set_sandbox_mint_access :: "bool \<Rightarrow> net_state \<Rightarrow> net_state" where
  "fw_set_sandbox_mint_access enabled s = s"

definition find_client_by_ip :: "fw_state \<Rightarrow> u32 \<Rightarrow> nat option" where
  "find_client_by_ip f client_ip =
     first_idx (\<lambda>c. fwc_ip c = client_ip) (take (s_client_count f) (s_clients f))"

definition find_client_by_mac :: "fw_state \<Rightarrow> string \<Rightarrow> nat option" where
  "find_client_by_mac f mac =
     first_idx (\<lambda>c. fwc_mac c \<noteq> [] \<and> fwc_mac c = mac) (take (s_client_count f) (s_clients f))"

definition fw_grant :: "(u32 \<Rightarrow> string option) \<Rightarrow> u32 \<Rightarrow> net_state \<Rightarrow> net_state" where
  "fw_grant mac_of client_ip s =
     (let f = net_fw s in
      case find_client_by_ip f client_ip of
        Some i \<Rightarrow> s
      | None \<Rightarrow>
          if MAX_CLIENTS \<le> s_client_count f then s
          else s\<lparr>net_fw := f\<lparr>
                   s_clients := (s_clients f)[s_client_count f :=
                     \<lparr>fwc_ip = client_ip,
                      fwc_mac = (case mac_of client_ip of Some m \<Rightarrow> m | None \<Rightarrow> [])\<rparr>],
                   s_client_count := s_client_count f + 1\<rparr>,
                 net_dns := dns_set_authenticated client_ip True (net_dns s)\<rparr>)"

definition fw_revoke :: "u32 \<Rightarrow> net_state \<Rightarrow> net_state" where
  "fw_revoke client_ip s =
     (let f = net_fw s in
      case find_client_by_ip f client_ip of
        None \<Rightarrow> s
      | Some i \<Rightarrow>
          s\<lparr>net_fw := f\<lparr>s_clients := swap_remove i (s_client_count f) (s_clients f),
                        s_client_count := s_client_count f - 1\<rparr>,
            net_dns := dns_set_authenticated client_ip False (net_dns s)\<rparr>)"

definition fw_revoke_all :: "net_state \<Rightarrow> net_state" where
  "fw_revoke_all s =
     s\<lparr>net_fw := (net_fw s)\<lparr>s_client_count := 0\<rparr>,
       net_dns := fold (\<lambda>c. dns_set_authenticated (fwc_ip c) False)
                    (take (s_client_count (net_fw s)) (s_clients (net_fw s))) (net_dns s)\<rparr>"

definition fw_is_allowed :: "net_state \<Rightarrow> u32 \<Rightarrow> bool" where
  "fw_is_allowed s client_ip = (find_client_by_ip (net_fw s) client_ip \<noteq> None)"

definition fw_is_mac_allowed :: "net_state \<Rightarrow> string \<Rightarrow> bool" where
  "fw_is_mac_allowed s mac = (find_client_by_mac (net_fw s) mac \<noteq> None)"

definition fw_client_count :: "net_state \<Rightarrow> nat" where
  "fw_client_count s = s_client_count (net_fw s)"

section \<open>The forwarding filter\<close>

text \<open>A packet buffer is the bytes of its first segment; \<open>p->len\<close> is their number.\<close>

definition IP_HLEN :: nat where
  "IP_HLEN = 20"

definition TCP_HLEN :: nat where
  "TCP_HLEN = 20"

definition IP_PROTO_TCP :: u8 where
  "IP_PROTO_TCP = 6"

definition IP_PROTO_UDP :: u8 where
  "IP_PROTO_UDP = 17"

definition lwip_ntohl :: "u32 \<Rightarrow> u32" where
  "lwip_ntohl v = of_be32 (ucast v) (ucast (drop_bit 8 v)) (ucast (drop_bit 16 v)) (ucast (drop_bit 24 v))"

definition ip_src :: "u8 list \<Rightarrow> u32" where
  "ip_src p = of_le32 (p ! 12) (p ! 13) (p ! 14) (p ! 15)"

definition ip_dest :: "u8 list \<Rightarrow> u32" where
  "ip_dest p = of_le32 (p ! 16) (p ! 17) (p ! 18) (p ! 19)"

definition ip_proto :: "u8 list \<Rightarrow> u8" where
  "ip_proto p = p ! 9"

definition tcp_dst_port :: "u8 list \<Rightarrow> u16" where
  "tcp_dst_port p = of_be16 (p ! (IP_HLEN + 2)) (p ! (IP_HLEN + 3))"

definition is_sandbox_allowed :: "fw_state \<Rightarrow> u8 list \<Rightarrow> bool" where
  "is_sandbox_allowed f p =
     (if length p < IP_HLEN then False
      else if lwip_ntohl (ip_dest p) = lwip_ntohl (fw_ap_ip f) then
        if ip_proto p = IP_PROTO_TCP \<and>
           (let dst_port = (if IP_HLEN + TCP_HLEN \<le> length p then tcp_dst_port p else 0) in
            dst_port = 80 \<or> dst_port = 2121 \<or> dst_port = 4869 \<or> dst_port = s_mining_port f)
        then True
        else if ip_proto p = IP_PROTO_UDP then True
        else ip_proto p = 1
      else False)"

definition ip4_canforward_filter :: "net_state \<Rightarrow> u8 list \<Rightarrow> int" where
  "ip4_canforward_filter s p =
     (if length p < IP_HLEN then - 1
      else if lwip_ntohl (ip_src p) AND 0xFFFFFF00 \<noteq> lwip_ntohl (fw_ap_ip (net_fw s)) AND 0xFFFFFF00
      then 1
      else if fw_is_allowed s (ip_src p) then 1
      else if is_sandbox_allowed (net_fw s) p then 1
      else 0)"

section \<open>The client table is a registry in step with the DNS list\<close>

definition fw_table :: "fw_state \<Rightarrow> u32 list" where
  "fw_table f = map fwc_ip (take (s_client_count f) (s_clients f))"

definition fw_ips :: "net_state \<Rightarrow> u32 set" where
  "fw_ips s = set (fw_table (net_fw s))"

definition net_inv :: "net_state \<Rightarrow> bool" where
  "net_inv s \<longleftrightarrow> length (s_clients (net_fw s)) = MAX_CLIENTS \<and>
     s_client_count (net_fw s) \<le> MAX_CLIENTS \<and> distinct (fw_table (net_fw s)) \<and>
     dns_inv (net_dns s) \<and> auth_ips (net_dns s) = fw_ips s"

lemma net_inv_boot: "net_inv net_boot"
  by (simp add: net_inv_def net_boot_def fw_boot_def fw_table_def fw_ips_def dns_inv_boot)

lemma fw_ips_boot [simp]: "fw_ips net_boot = {}"
  by (simp add: net_boot_def fw_boot_def fw_table_def fw_ips_def)

lemma find_client_by_ip_first:
  "find_client_by_ip f ip = first_idx (\<lambda>a. a = ip) (fw_table f)"
  by (simp add: find_client_by_ip_def fw_table_def first_idx_cong_map comp_def)

lemma fw_is_allowed_iff: "fw_is_allowed s ip \<longleftrightarrow> ip \<in> fw_ips s"
  by (simp add: fw_is_allowed_def find_client_by_ip_first fw_ips_def first_idx_None_iff)

lemma find_client_None: "find_client_by_ip (net_fw s) ip = None \<longleftrightarrow> ip \<notin> fw_ips s"
  using fw_is_allowed_iff[of s ip] by (auto simp: fw_is_allowed_def)

lemma length_fw_table: "net_inv s \<Longrightarrow> length (fw_table (net_fw s)) = s_client_count (net_fw s)"
  by (simp add: net_inv_def fw_table_def)

lemma card_fw_ips: "net_inv s \<Longrightarrow> card (fw_ips s) = s_client_count (net_fw s)"
  using length_fw_table[of s] by (simp add: net_inv_def fw_ips_def distinct_card)

lemma fw_grant_cases:
  "fw_grant mac_of ip s =
    (if ip \<in> fw_ips s \<or> MAX_CLIENTS \<le> s_client_count (net_fw s) then s
     else s\<lparr>net_fw := (net_fw s)\<lparr>
              s_clients := (s_clients (net_fw s))[s_client_count (net_fw s) :=
                \<lparr>fwc_ip = ip, fwc_mac = (case mac_of ip of Some m \<Rightarrow> m | None \<Rightarrow> [])\<rparr>],
              s_client_count := s_client_count (net_fw s) + 1\<rparr>,
            net_dns := dns_set_authenticated ip True (net_dns s)\<rparr>)"
  using find_client_None[of s ip]
  by (auto simp: fw_grant_def Let_def split: option.split)

lemma fw_grant_table:
  assumes "net_inv s" "ip \<notin> fw_ips s" "s_client_count (net_fw s) < MAX_CLIENTS"
  shows "fw_table (net_fw (fw_grant mac_of ip s)) = fw_table (net_fw s) @ [ip]"
  using assms by (simp add: fw_grant_cases fw_table_def net_inv_def take_Suc_nth)

lemma fw_grant_spec:
  assumes inv: "net_inv s"
  shows "net_inv (fw_grant mac_of ip s)"
    and "fw_ips (fw_grant mac_of ip s) =
      (if ip \<in> fw_ips s \<or> card (fw_ips s) < MAX_CLIENTS then insert ip (fw_ips s) else fw_ips s)"
proof -
  have "net_inv (fw_grant mac_of ip s) \<and> fw_ips (fw_grant mac_of ip s) =
      (if ip \<in> fw_ips s \<or> card (fw_ips s) < MAX_CLIENTS then insert ip (fw_ips s) else fw_ips s)"
  proof (cases "ip \<in> fw_ips s \<or> MAX_CLIENTS \<le> s_client_count (net_fw s)")
    case True
    then show ?thesis using inv card_fw_ips[OF inv] by (auto simp: fw_grant_cases)
  next
    case False
    then have t: "fw_table (net_fw (fw_grant mac_of ip s)) = fw_table (net_fw s) @ [ip]"
      using fw_grant_table[OF inv] by simp
    then have i: "fw_ips (fw_grant mac_of ip s) = insert ip (fw_ips s)"
      by (simp add: fw_ips_def)
    have d: "net_dns (fw_grant mac_of ip s) = dns_set_authenticated ip True (net_dns s)"
      using False by (simp add: fw_grant_cases)
    have c: "card (auth_ips (net_dns s)) < MAX_AUTH_IPS"
      using inv False card_fw_ips[OF inv] by (simp add: net_inv_def MAX_AUTH_IPS_def MAX_CLIENTS_def)
    have "length (s_clients (net_fw (fw_grant mac_of ip s))) = MAX_CLIENTS"
      "s_client_count (net_fw (fw_grant mac_of ip s)) \<le> MAX_CLIENTS"
      using inv False by (simp_all add: fw_grant_cases net_inv_def)
    then show ?thesis
      using inv False t i d c card_fw_ips[OF inv] set_authenticated_True[of "net_dns s" ip]
      by (simp add: net_inv_def fw_ips_def)
  qed
  then show "net_inv (fw_grant mac_of ip s)"
    and "fw_ips (fw_grant mac_of ip s) =
      (if ip \<in> fw_ips s \<or> card (fw_ips s) < MAX_CLIENTS then insert ip (fw_ips s) else fw_ips s)"
    by blast+
qed

lemma fw_revoke_table:
  assumes "net_inv s" "find_client_by_ip (net_fw s) ip = Some i"
  shows "distinct (fw_table (net_fw (fw_revoke ip s)))"
    and "set (fw_table (net_fw (fw_revoke ip s))) = fw_ips s - {ip}"
proof -
  let ?f = "net_fw s"
  let ?a = "map fwc_ip (s_clients ?f)"
  have tab: "fw_table ?f = take (s_client_count ?f) ?a" by (simp add: fw_table_def take_map)
  have n: "s_client_count ?f \<le> length ?a" "distinct (take (s_client_count ?f) ?a)"
    using assms(1) tab by (auto simp: net_inv_def)
  have "i < length (fw_table ?f)" "fw_table ?f ! i = ip"
    using first_idx_SomeD[of "\<lambda>a. a = ip" "fw_table ?f" i] assms(2)
    by (auto simp: find_client_by_ip_first)
  then have i: "i < s_client_count ?f" "?a ! i = ip" by (auto simp: tab)
  have t: "fw_table (net_fw (fw_revoke ip s)) =
      take (s_client_count ?f - 1) (swap_remove i (s_client_count ?f) ?a)"
    using assms(2) i(1) n(1)
    by (simp add: fw_revoke_def fw_table_def Let_def map_swap_remove flip: take_map)
  show "distinct (fw_table (net_fw (fw_revoke ip s)))"
    and "set (fw_table (net_fw (fw_revoke ip s))) = fw_ips s - {ip}"
    unfolding t using distinct_swap_remove[OF i(1) n] by (simp_all add: i(2) fw_ips_def tab)
qed

lemma fw_revoke_spec:
  assumes inv: "net_inv s"
  shows "net_inv (fw_revoke ip s)" and "fw_ips (fw_revoke ip s) = fw_ips s - {ip}"
proof -
  have "net_inv (fw_revoke ip s) \<and> fw_ips (fw_revoke ip s) = fw_ips s - {ip}"
  proof (cases "find_client_by_ip (net_fw s) ip")
    case None
    then show ?thesis using inv find_client_None[of s ip] by (simp add: fw_revoke_def)
  next
    case (Some i)
    note r = fw_revoke_table[OF inv Some]
    have "length (s_clients (net_fw (fw_revoke ip s))) = MAX_CLIENTS"
      "s_client_count (net_fw (fw_revoke ip s)) \<le> MAX_CLIENTS"
      "net_dns (fw_revoke ip s) = dns_set_authenticated ip False (net_dns s)"
      using inv Some by (simp_all add: fw_revoke_def Let_def net_inv_def le_diff_conv)
    then show ?thesis
      using r inv set_authenticated_False[of "net_dns s" ip] by (simp add: net_inv_def fw_ips_def)
  qed
  then show "net_inv (fw_revoke ip s)" and "fw_ips (fw_revoke ip s) = fw_ips s - {ip}" by blast+
qed

lemma fw_init_spec:
  assumes "net_inv s" "fw_ips s = {}"
  shows "net_inv (fw_init ap s)" "fw_ips (fw_init ap s) = {}"
  using assms by (simp_all add: net_inv_def fw_init_def fw_ips_def fw_table_def)

lemma fw_frame [simp]:
  "s_mining_port (net_fw (fw_grant mac_of ip s)) = s_mining_port (net_fw s)"
  "fw_ap_ip (net_fw (fw_grant mac_of ip s)) = fw_ap_ip (net_fw s)"
  "s_mining_port (net_fw (fw_revoke ip s)) = s_mining_port (net_fw s)"
  "fw_ap_ip (net_fw (fw_revoke ip s)) = fw_ap_ip (net_fw s)"
  by (simp_all add: fw_grant_def fw_revoke_def Let_def split: option.split)

interpretation fw: ip_registry net_inv fw_ips fw_is_allowed "fw_grant mac_of" fw_revoke MAX_CLIENTS
  for mac_of
proof unfold_locales
  fix s ip
  assume inv: "net_inv s"
  show "fw_is_allowed s ip \<longleftrightarrow> ip \<in> fw_ips s" by (rule fw_is_allowed_iff)
  show "finite (fw_ips s)" by (simp add: fw_ips_def)
  show "card (fw_ips s) \<le> MAX_CLIENTS" using inv card_fw_ips[OF inv] by (simp add: net_inv_def)
qed (simp_all add: fw_grant_spec fw_revoke_spec)

lemma fw_revoke_all_spec:
  assumes "net_inv s"
  shows "net_inv (fw_revoke_all s)" and "fw_ips (fw_revoke_all s) = {}"
proof -
  have "fold (\<lambda>c. dns_set_authenticated (fwc_ip c) False) cs d =
      fold (\<lambda>ip. dns_set_authenticated ip False) (map fwc_ip cs) d" for cs d
    by (induction cs arbitrary: d) auto
  then have d: "net_dns (fw_revoke_all s) =
      fold (\<lambda>ip. dns_set_authenticated ip False) (fw_table (net_fw s)) (net_dns s)"
    by (simp add: fw_revoke_all_def fw_table_def)
  have "dns_inv (net_dns (fw_revoke_all s))" "auth_ips (net_dns (fw_revoke_all s)) = {}"
    using assms d dns_auth.inv_fold_remove dns_auth.ips_fold_remove
    by (auto simp: net_inv_def fw_ips_def)
  then show "net_inv (fw_revoke_all s)" "fw_ips (fw_revoke_all s) = {}"
    using assms by (simp_all add: net_inv_def fw_revoke_all_def fw_ips_def fw_table_def)
qed

section \<open>Properties\<close>

lemma lwip_ntohl_inj [simp]: "lwip_ntohl a = lwip_ntohl b \<longleftrightarrow> a = b"
proof
  assume "lwip_ntohl a = lwip_ntohl b"
  then have "be32 (lwip_ntohl a) = be32 (lwip_ntohl b)" by (rule arg_cong)
  then have "be32 a = be32 b" unfolding lwip_ntohl_def be32_of_be32 by (simp add: be32_def)
  then show "a = b" unfolding be32_def by (metis list.inject of_be32_be32)
qed simp

text \<open>The services of the gate itself that a client may reach before it has paid.\<close>

definition portal_service :: "fw_state \<Rightarrow> u8 list \<Rightarrow> bool" where
  "portal_service f p \<longleftrightarrow> ip_dest p = fw_ap_ip f \<and>
     (ip_proto p = IP_PROTO_UDP \<or> ip_proto p = 1 \<or>
      ip_proto p = IP_PROTO_TCP \<and> 40 \<le> length p \<and>
      tcp_dst_port p \<in> {80, 2121, 4869, s_mining_port f})"

lemma sandbox_portal_service:
  assumes "20 \<le> length p" "s_mining_port f \<noteq> 0"
  shows "is_sandbox_allowed f p = portal_service f p"
  using assms
  by (auto simp: is_sandbox_allowed_def portal_service_def IP_HLEN_def TCP_HLEN_def Let_def
      IP_PROTO_UDP_def IP_PROTO_TCP_def)

text \<open>
  (C6) The forwarding decision, exactly: a packet too short for an IP header is an error; any
  other packet is forwarded if and only if its source lies outside the access point's /24
  network, or its source is in the client table, or it goes to the gate's own address and there
  to UDP, ICMP or one of the TCP ports 80, 2121, 4869 and the mining port. Every other packet is
  dropped.
\<close>

theorem fw_filter_decision:
  assumes "s_mining_port (net_fw s) \<noteq> 0"
  shows "ip4_canforward_filter s p =
    (if length p < 20 then - 1
     else if lwip_ntohl (ip_src p) AND 0xFFFFFF00 \<noteq> lwip_ntohl (fw_ap_ip (net_fw s)) AND 0xFFFFFF00
        \<or> ip_src p \<in> fw_ips s \<or> portal_service (net_fw s) p then 1 else 0)"
  using sandbox_portal_service[of p "net_fw s"] assms
  by (auto simp: ip4_canforward_filter_def IP_HLEN_def fw_is_allowed_iff)

definition example_packet :: "u8 list" where
  "example_packet = [0x45, 0, 0, 40, 0, 0, 0, 0, 64, 6, 0, 0, 192, 168, 4, 2, 8, 8, 8, 8] @ replicate 20 0"

theorem fw_filter_decision_witness:
  "ip4_canforward_filter (fw_init 0x0104A8C0 net_boot) example_packet = 0 \<and>
   ip4_canforward_filter (fw_grant (\<lambda>_. None) 0x0204A8C0 (fw_init 0x0104A8C0 net_boot)) example_packet = 1"
proof -
  let ?s = "fw_init 0x0104A8C0 net_boot"
  let ?g = "fw_grant (\<lambda>_. None) 0x0204A8C0 ?s"
  have src: "ip_src example_packet = 0x0204A8C0" "ip_dest example_packet = 0x08080808"
    "length example_packet = 40" "lwip_ntohl 0x0204A8C0 = 0xC0A80402" "lwip_ntohl 0x0104A8C0 = 0xC0A80401"
    by (simp_all add: ip_src_def ip_dest_def example_packet_def of_le32_def of_be32_def lwip_ntohl_def)
  have e: "fw_ips ?s = {}" "s_mining_port (net_fw ?s) = 3333" "fw_ap_ip (net_fw ?s) = 0x0104A8C0"
    by (simp_all add: fw_init_def net_boot_def fw_boot_def fw_ips_def fw_table_def)
  have g: "fw_ips ?g = {0x0204A8C0}" "s_mining_port (net_fw ?g) = 3333" "fw_ap_ip (net_fw ?g) = 0x0104A8C0"
    using fw_init_spec[OF net_inv_boot] by (simp_all add: fw.ips_add e MAX_CLIENTS_def)
  show ?thesis
    using fw_filter_decision[of ?s example_packet] fw_filter_decision[of ?g example_packet]
    by (simp add: src e g portal_service_def)
qed

lemma arp_scan_never_ok:
  assumes doc: "\<forall>i. fst (e i) = 1 \<or> e i = (0, None, None)" and r: "arp_scan e ip i = Some r"
  shows "r = Fail \<and> (\<exists>j. fst (e j) = 1)"
proof (rule arp_scan.raw_induct[where P = "\<lambda>e' ip' i r. e' = e \<longrightarrow> r = Fail \<and> (\<exists>j. fst (e j) = 1)",
      OF _ r, THEN mp, OF _ refl])
  fix f e' ip' i r
  assume IH: "\<And>e' ip' i r. f e' ip' i = Some r \<Longrightarrow> e' = e \<longrightarrow> r = Fail \<and> (\<exists>j. fst (e j) = 1)"
    and eq: "(case e' i of (ret, entry_ip, entry_eth) \<Rightarrow>
        if ret = ERR_OK then
          (case entry_eth of
             Some eth \<Rightarrow> if entry_ip = Some ip' then Some (Ok (format_mac eth)) else f e' ip' (i + 1)
           | None \<Rightarrow> f e' ip' (i + 1))
        else Some Fail) = Some r"
  show "e' = e \<longrightarrow> r = Fail \<and> (\<exists>j. fst (e j) = 1)"
  proof
    assume e: "e' = e"
    show "r = Fail \<and> (\<exists>j. fst (e j) = 1)"
    proof (cases "fst (e i) = 1")
      case True
      then show ?thesis using eq e by (auto simp: ERR_OK_def split: prod.splits intro: exI[of _ i])
    next
      case False
      then have "e i = (0, None, None)" using doc by blast
      then show ?thesis using eq e IH by (simp add: ERR_OK_def)
    qed
  qed
qed

lemma arp_scan_returns:
  assumes doc: "\<forall>i. fst (e i) = 1 \<or> e i = (0, None, None)" and "fst (e (i + k)) = 1"
  shows "arp_scan e ip i = Some Fail"
  using assms(2)
proof (induction k arbitrary: i)
  case 0
  then show ?case by (subst arp_scan.simps) (auto simp: ERR_OK_def split: prod.splits)
next
  case (Suc k)
  then have "arp_scan e ip (Suc i) = Some Fail" by simp
  then show ?case
    using doc[rule_format, of i]
    by (subst arp_scan.simps) (auto simp: ERR_OK_def split: prod.splits)
qed

text \<open>
  lwIP documents that \<open>etharp_get_entry\<close> returns 1 for a valid entry and 0 otherwise,
  writing its out parameters only for a valid one, while the scan goes on as long as the
  result is \<open>ERR_OK\<close>, which is 0. For a client that the WiFi driver does not list, the ARP
  fallback therefore never finds an address: it fails at the first valid entry, and it never
  returns if the table has none.
\<close>

theorem fw_arp_fallback_never_finds:
  assumes "\<forall>i. fst (etharp i) = 1 \<or> etharp i = (0, None, None)"
    and "case sta of Some stas \<Rightarrow> ip \<notin> fst ` set stas | None \<Rightarrow> True"
  shows "fw_get_mac_for_ip sta etharp ip =
    (if \<exists>i. fst (etharp i) = 1 then Some Fail else None)"
proof -
  have scan: "fw_get_mac_for_ip sta etharp ip = arp_scan etharp ip 0"
    using assms(2) by (auto simp: fw_get_mac_for_ip_def first_idx_Some_iff split: option.splits)
      (metis fst_conv image_eqI nth_mem old.prod.exhaust)
  show ?thesis
  proof (cases "\<exists>i. fst (etharp i) = 1")
    case True
    then obtain i where "fst (etharp (0 + i)) = 1" by auto
    then show ?thesis using scan True arp_scan_returns[OF assms(1)] by metis
  next
    case False
    then show ?thesis using scan arp_scan_never_ok[OF assms(1), of ip 0] by (metis option.exhaust)
  qed
qed

theorem fw_arp_fallback_never_finds_witness:
  "fw_get_mac_for_ip (Some []) (\<lambda>i. if i = 2 then (1, Some 7, Some [1, 2, 3, 4, 5, 6]) else (0, None, None)) 7
   = Some Fail"
proof -
  let ?e = "\<lambda>i :: nat. if i = 2 then (1 :: int, Some (7 :: u32), Some [1 :: u8, 2, 3, 4, 5, 6]) else (0, None, None)"
  have "\<forall>i. fst (?e i) = 1 \<or> ?e i = (0, None, None)" by simp
  moreover have "\<exists>i. fst (?e i) = 1" by (rule exI[of _ 2]) simp
  ultimately show ?thesis using fw_arp_fallback_never_finds[of ?e 7 "Some []"] by simp
qed

end
