(* ===== verification/TG_Session.thy ===== *)
theory TG_Session
  imports TG_Firewall
begin

text \<open>
  The session manager (\<^verbatim>\<open>components/tollgate_core/src/tollgate_core_session.c\<close>): ten
  session slots, created by a payment, extended by the next one, and revoked when the paid time
  or the paid bytes are used up. Creation grants and revocation withdraws the client's access in
  the firewall, so the state holds the firewall and DNS state as well.

  A pointer to a session is its slot index. The platform callbacks are read as the values they
  return while one operation runs (\<open>None\<close>: the callback is not installed); in particular an
  operation sees one time.
\<close>

section \<open>Data\<close>

datatype tg_payment_method = TG_PAYMENT_CASHU | TG_PAYMENT_MINING | TG_PAYMENT_BYTES

record tg_session =
  client_ip :: u32
  mac :: string
  allotment_ms :: u64
  start_time_ms :: i64
  allotment_bytes :: u64
  bytes_consumed :: u64
  payment_method :: tg_payment_method
  active :: bool

record tollgate_platform =
  get_price_sats :: "u16 option"
  get_step_ms :: "i32 option"
  get_mint_url :: "string option option"
  get_metric :: "string option option"
  get_step_bytes :: "i32 option"
  get_time_ms :: "i64 option"
  spend_proofs :: "(string \<Rightarrow> bool) option"
  get_hashprice_sats_per_ghs_day :: "u64 option"
  has_on_share_accepted :: bool

text \<open>
  What one operation reads of its surroundings: the tick clock
  \<open>xTaskGetTickCount() * portTICK_PERIOD_MS\<close> and the MAC lookup.
\<close>

record op_env =
  env_ticks_ms :: i64
  env_mac_of :: "u32 \<Rightarrow> string option"

record sess_state =
  s_sessions :: "tg_session list"
  s_session_count :: int
  sess_platform :: "tollgate_platform option"
  sess_net :: net_state

definition TG_SESSION_MAX_CLIENTS :: nat where
  "TG_SESSION_MAX_CLIENTS = 10"

definition zero_session :: tg_session where
  "zero_session = \<lparr>client_ip = 0, mac = [], allotment_ms = 0, start_time_ms = 0,
     allotment_bytes = 0, bytes_consumed = 0, payment_method = TG_PAYMENT_CASHU, active = False\<rparr>"

definition sess_boot :: sess_state where
  "sess_boot = \<lparr>s_sessions = replicate TG_SESSION_MAX_CLIENTS zero_session, s_session_count = 0,
     sess_platform = None, sess_net = net_boot\<rparr>"

section \<open>Operations\<close>

definition session_set_platform :: "tollgate_platform option \<Rightarrow> sess_state \<Rightarrow> sess_state" where
  "session_set_platform p g = g\<lparr>sess_platform := p\<rparr>"

definition time_ms :: "op_env \<Rightarrow> sess_state \<Rightarrow> i64" where
  "time_ms env g =
     (case sess_platform g of
        Some p \<Rightarrow> (case get_time_ms p of Some t \<Rightarrow> t | None \<Rightarrow> env_ticks_ms env)
      | None \<Rightarrow> env_ticks_ms env)"

definition session_init :: "sess_state \<Rightarrow> sess_state" where
  "session_init g = g\<lparr>s_sessions := replicate TG_SESSION_MAX_CLIENTS zero_session, s_session_count := 0\<rparr>"

definition session_find_by_ip :: "sess_state \<Rightarrow> u32 \<Rightarrow> nat option" where
  "session_find_by_ip g ip = first_idx (\<lambda>s. active s \<and> client_ip s = ip) (s_sessions g)"

definition session_find_by_mac :: "sess_state \<Rightarrow> string \<Rightarrow> nat option" where
  "session_find_by_mac g m = first_idx (\<lambda>s. active s \<and> mac s \<noteq> [] \<and> mac s = m) (s_sessions g)"

definition session_extend :: "nat \<Rightarrow> u64 \<Rightarrow> sess_state \<Rightarrow> sess_state" where
  "session_extend i additional_ms g =
     (let s = s_sessions g ! i in
      if \<not> active s then g
      else g\<lparr>s_sessions := (s_sessions g)[i := s\<lparr>allotment_ms := allotment_ms s + additional_ms\<rparr>]\<rparr>)"

definition metric_is_bytes :: "sess_state \<Rightarrow> bool" where
  "metric_is_bytes g =
     (case sess_platform g of
        Some p \<Rightarrow> get_metric p = Some (Some ''bytes'')
      | None \<Rightarrow> False)"

definition session_is_expired :: "op_env \<Rightarrow> sess_state \<Rightarrow> tg_session \<Rightarrow> bool" where
  "session_is_expired env g s =
     (if \<not> active s then True
      else if payment_method s = TG_PAYMENT_BYTES then allotment_bytes s \<le> bytes_consumed s
      else if metric_is_bytes g then allotment_bytes s \<le> bytes_consumed s
      else sint (allotment_ms s) \<le> sint (time_ms env g - start_time_ms s))"

definition session_revoke :: "nat \<Rightarrow> sess_state \<Rightarrow> sess_state" where
  "session_revoke i g =
     (let s = s_sessions g ! i in
      if \<not> active s then g
      else g\<lparr>sess_net := fw_revoke (client_ip s) (sess_net g),
             s_sessions := (s_sessions g)[i := s\<lparr>active := False\<rparr>],
             s_session_count := s_session_count g - 1\<rparr>)"

definition session_evict :: "op_env \<Rightarrow> sess_state \<Rightarrow> sess_state" where
  "session_evict env g =
     (if int TG_SESSION_MAX_CLIENTS \<le> s_session_count g then
        (case first_idx (\<lambda>s. \<not> active s \<or> session_is_expired env g s) (s_sessions g) of
           Some i \<Rightarrow> session_revoke i g
         | None \<Rightarrow> g)
      else g)"

definition session_create :: "op_env \<Rightarrow> u32 \<Rightarrow> u64 \<Rightarrow> sess_state \<Rightarrow> nat option \<times> sess_state" where
  "session_create env ip allot g =
     (case session_find_by_ip g ip of
        Some i \<Rightarrow> (Some i, session_extend i allot g)
      | None \<Rightarrow>
          (let g1 = session_evict env g in
           case first_idx (\<lambda>s. \<not> active s) (s_sessions g1) of
             Some i \<Rightarrow>
               (Some i,
                g1\<lparr>s_sessions := (s_sessions g1)[i := (s_sessions g1 ! i)\<lparr>
                      client_ip := ip, allotment_ms := allot,
                      start_time_ms := time_ms env g1, active := True,
                      payment_method := TG_PAYMENT_CASHU,
                      mac := (case env_mac_of env ip of Some m \<Rightarrow> m | None \<Rightarrow> [])\<rparr>],
                   s_session_count := s_session_count g1 + 1,
                   sess_net := fw_grant (env_mac_of env) ip (sess_net g1)\<rparr>)
           | None \<Rightarrow> (None, g1)))"

definition session_create_bytes :: "op_env \<Rightarrow> u32 \<Rightarrow> u64 \<Rightarrow> sess_state \<Rightarrow> nat option \<times> sess_state" where
  "session_create_bytes env ip allot_bytes g =
     (case session_create env ip 0 g of
        (Some i, g1) \<Rightarrow>
          (Some i, g1\<lparr>s_sessions := (s_sessions g1)[i := (s_sessions g1 ! i)\<lparr>
             allotment_bytes := allot_bytes, bytes_consumed := 0,
             allotment_ms := INT64_MAX, payment_method := TG_PAYMENT_BYTES\<rparr>]\<rparr>)
      | (None, g1) \<Rightarrow> (None, g1))"

definition session_add_bytes :: "u32 \<Rightarrow> u64 \<Rightarrow> sess_state \<Rightarrow> sess_state" where
  "session_add_bytes ip bytes g =
     (case session_find_by_ip g ip of
        Some i \<Rightarrow>
          (let s = s_sessions g ! i in
           if active s
           then g\<lparr>s_sessions := (s_sessions g)[i := s\<lparr>bytes_consumed := bytes_consumed s + bytes\<rparr>]\<rparr>
           else g)
      | None \<Rightarrow> g)"

definition check_expiry :: "op_env \<Rightarrow> sess_state \<Rightarrow> sess_state" where
  "check_expiry env g =
     fold (\<lambda>i g. if active (s_sessions g ! i) \<and> session_is_expired env g (s_sessions g ! i)
                 then session_revoke i g else g) [0..<TG_SESSION_MAX_CLIENTS] g"

definition session_revoke_all :: "sess_state \<Rightarrow> sess_state" where
  "session_revoke_all g =
     fold (\<lambda>i g. if active (s_sessions g ! i) then session_revoke i g else g)
       [0..<TG_SESSION_MAX_CLIENTS] g"

definition session_active_count :: "sess_state \<Rightarrow> nat" where
  "session_active_count g = count_if active (s_sessions g)"

definition session_tick :: "op_env \<Rightarrow> sess_state \<Rightarrow> sess_state" where
  "session_tick env g = check_expiry env g"

definition session_get_array_size :: nat where
  "session_get_array_size = TG_SESSION_MAX_CLIENTS"

section \<open>The session table and its agreement with the firewall\<close>

definition active_ips :: "sess_state \<Rightarrow> u32 set" where
  "active_ips g = set (used active client_ip (s_sessions g))"

definition sess_inv :: "sess_state \<Rightarrow> bool" where
  "sess_inv g \<longleftrightarrow> length (s_sessions g) = TG_SESSION_MAX_CLIENTS \<and>
     s_session_count g = int (count_if active (s_sessions g)) \<and>
     distinct (used active client_ip (s_sessions g)) \<and> net_inv (sess_net g)"

definition in_sync :: "sess_state \<Rightarrow> bool" where
  "in_sync g \<longleftrightarrow> fw_ips (sess_net g) = active_ips g"

lemma sess_inv_boot: "sess_inv sess_boot" "in_sync sess_boot"
  by (simp_all add: sess_inv_def sess_boot_def zero_session_def net_inv_boot in_sync_def active_ips_def)

lemma card_active_ips: "sess_inv g \<Longrightarrow> card (active_ips g) = count_if active (s_sessions g)"
  by (simp add: sess_inv_def active_ips_def distinct_card length_used)

lemma find_by_ip_None: "session_find_by_ip g ip = None \<longleftrightarrow> ip \<notin> active_ips g"
  by (auto simp: session_find_by_ip_def first_idx_None_iff active_ips_def used_def)

lemma find_by_ip_Some:
  assumes "session_find_by_ip g ip = Some i"
  shows "i < length (s_sessions g)" "active (s_sessions g ! i)" "client_ip (s_sessions g ! i) = ip"
    "ip \<in> active_ips g"
proof -
  show "i < length (s_sessions g)" "active (s_sessions g ! i)" "client_ip (s_sessions g ! i) = ip"
    using first_idx_SomeD[OF assms[unfolded session_find_by_ip_def]] by auto
  show "ip \<in> active_ips g" using assms find_by_ip_None[of g ip] by auto
qed

text \<open>Edits that keep which slots are in use and by whom.\<close>

lemma edit_slot:
  assumes "sess_inv g" "i < length (s_sessions g)"
    and "active s = active (s_sessions g ! i)" "client_ip s = client_ip (s_sessions g ! i)"
  shows "sess_inv (g\<lparr>s_sessions := (s_sessions g)[i := s]\<rparr>)"
    and "active_ips (g\<lparr>s_sessions := (s_sessions g)[i := s]\<rparr>) = active_ips g"
proof -
  have "used active client_ip ((s_sessions g)[i := s]) = used active client_ip (s_sessions g)"
    using assms(2-4) by (intro used_keep) auto
  moreover from this have "count_if active ((s_sessions g)[i := s]) = count_if active (s_sessions g)"
    by (metis length_used)
  ultimately show "sess_inv (g\<lparr>s_sessions := (s_sessions g)[i := s]\<rparr>)"
    and "active_ips (g\<lparr>s_sessions := (s_sessions g)[i := s]\<rparr>) = active_ips g"
    using assms(1) by (simp_all add: sess_inv_def active_ips_def)
qed

lemma session_extend_spec:
  assumes "sess_inv g" "i < length (s_sessions g)"
  shows "sess_inv (session_extend i a g)" "active_ips (session_extend i a g) = active_ips g"
    "sess_net (session_extend i a g) = sess_net g" "sess_platform (session_extend i a g) = sess_platform g"
  using edit_slot[OF assms, of "(s_sessions g ! i)\<lparr>allotment_ms := allotment_ms (s_sessions g ! i) + a\<rparr>"] assms
  by (simp_all add: session_extend_def Let_def)

lemma session_add_bytes_spec:
  assumes "sess_inv g"
  shows "sess_inv (session_add_bytes ip b g)" "active_ips (session_add_bytes ip b g) = active_ips g"
    "sess_net (session_add_bytes ip b g) = sess_net g"
proof -
  have "sess_inv (session_add_bytes ip b g) \<and> active_ips (session_add_bytes ip b g) = active_ips g \<and>
    sess_net (session_add_bytes ip b g) = sess_net g"
  proof (cases "session_find_by_ip g ip")
    case None
    then show ?thesis using assms by (simp add: session_add_bytes_def)
  next
    case (Some i)
    then show ?thesis
      using edit_slot[OF assms find_by_ip_Some(1)[OF Some],
          of "(s_sessions g ! i)\<lparr>bytes_consumed := bytes_consumed (s_sessions g ! i) + b\<rparr>"] assms
      by (simp add: session_add_bytes_def Let_def)
  qed
  then show "sess_inv (session_add_bytes ip b g)" "active_ips (session_add_bytes ip b g) = active_ips g"
    "sess_net (session_add_bytes ip b g) = sess_net g" by simp_all
qed

lemma session_add_bytes_platform [simp]: "sess_platform (session_add_bytes ip b g) = sess_platform g"
  by (simp add: session_add_bytes_def Let_def split: option.split)

lemma session_revoke_spec:
  assumes inv: "sess_inv g" and i: "i < length (s_sessions g)"
  defines "gone \<equiv> (if active (s_sessions g ! i) then {client_ip (s_sessions g ! i)} else {})"
  shows "sess_inv (session_revoke i g)"
    and "active_ips (session_revoke i g) = active_ips g - gone"
    and "fw_ips (sess_net (session_revoke i g)) = fw_ips (sess_net g) - gone"
    and "sess_platform (session_revoke i g) = sess_platform g"
proof -
  let ?s = "s_sessions g ! i"
  have "sess_inv (session_revoke i g) \<and> active_ips (session_revoke i g) = active_ips g - gone \<and>
    fw_ips (sess_net (session_revoke i g)) = fw_ips (sess_net g) - gone"
  proof (cases "active ?s")
    case False
    then show ?thesis using inv by (simp add: session_revoke_def gone_def Let_def)
  next
    case True
    have u: "distinct (used active client_ip ((s_sessions g)[i := ?s\<lparr>active := False\<rparr>]))"
      "set (used active client_ip ((s_sessions g)[i := ?s\<lparr>active := False\<rparr>]))
        = set (used active client_ip (s_sessions g)) - {client_ip ?s}"
      using used_free[OF i, of active "?s\<lparr>active := False\<rparr>" client_ip] True inv
      by (simp_all add: sess_inv_def)
    have c: "count_if active ((s_sessions g)[i := ?s\<lparr>active := False\<rparr>]) + 1 = count_if active (s_sessions g)"
      using count_if_update[OF i, of active "?s\<lparr>active := False\<rparr>"] True by simp
    show ?thesis
      using True inv u c[symmetric] fw_revoke_spec[of "sess_net g" "client_ip ?s"]
      by (simp add: session_revoke_def sess_inv_def active_ips_def gone_def Let_def)
  qed
  then show "sess_inv (session_revoke i g)" "active_ips (session_revoke i g) = active_ips g - gone"
    "fw_ips (sess_net (session_revoke i g)) = fw_ips (sess_net g) - gone" by blast+
  show "sess_platform (session_revoke i g) = sess_platform g"
    by (simp add: session_revoke_def Let_def)
qed

section \<open>Revoking every session that meets a condition\<close>

definition retire :: "(tg_session \<Rightarrow> bool) \<Rightarrow> tg_session \<Rightarrow> tg_session" where
  "retire Q s = (if active s \<and> Q s then s\<lparr>active := False\<rparr> else s)"

definition revoke_upto :: "(tg_session \<Rightarrow> bool) \<Rightarrow> nat \<Rightarrow> sess_state \<Rightarrow> sess_state" where
  "revoke_upto Q n g =
     fold (\<lambda>i h. if active (s_sessions h ! i) \<and> Q (s_sessions h ! i) then session_revoke i h else h) [0..<n] g"

lemma revoke_upto_Suc:
  "revoke_upto Q (Suc n) g = (let h = revoke_upto Q n g in
     if active (s_sessions h ! n) \<and> Q (s_sessions h ! n) then session_revoke n h else h)"
  by (simp add: revoke_upto_def Let_def)

lemma revoke_upto_sessions:
  assumes "n \<le> length (s_sessions g)"
  shows "s_sessions (revoke_upto Q n g) = map (retire Q) (take n (s_sessions g)) @ drop n (s_sessions g)"
  using assms
proof (induction n)
  case 0
  then show ?case by (simp add: revoke_upto_def)
next
  case (Suc n)
  let ?xs = "s_sessions g"
  have h: "s_sessions (revoke_upto Q n g) = map (retire Q) (take n ?xs) @ drop n ?xs"
    using Suc by simp
  have nth: "s_sessions (revoke_upto Q n g) ! n = ?xs ! n"
    using h Suc.prems by (simp add: nth_append)
  have d: "drop n ?xs = ?xs ! n # drop (Suc n) ?xs"
    using Suc.prems by (simp add: Cons_nth_drop_Suc)
  show ?case
    using h nth d Suc.prems
    by (simp add: revoke_upto_Suc Let_def session_revoke_def retire_def take_Suc_nth list_update_append)
qed

lemma revoke_upto_spec:
  fixes Q :: "tg_session \<Rightarrow> bool"
  assumes "sess_inv g" "n \<le> length (s_sessions g)"
  defines "gone \<equiv> client_ip ` {s \<in> set (take n (s_sessions g)). active s \<and> Q s}"
  shows "sess_inv (revoke_upto Q n g) \<and> active_ips (revoke_upto Q n g) = active_ips g - gone \<and>
    fw_ips (sess_net (revoke_upto Q n g)) = fw_ips (sess_net g) - gone \<and>
    sess_platform (revoke_upto Q n g) = sess_platform g"
  using assms(2) unfolding gone_def
proof (induction n)
  case 0
  then show ?case using assms(1) by (simp add: revoke_upto_def)
next
  case (Suc n)
  let ?h = "revoke_upto Q n g"
  have nth: "s_sessions ?h ! n = s_sessions g ! n"
    using revoke_upto_sessions[of n g Q] Suc.prems by (simp add: nth_append)
  have len: "n < length (s_sessions ?h)"
    using revoke_upto_sessions[of n g Q] Suc.prems by simp
  have t: "take (Suc n) (s_sessions g) = take n (s_sessions g) @ [s_sessions g ! n]"
    using Suc.prems by (simp add: take_Suc_nth)
  have IH: "sess_inv ?h" using Suc by simp
  show ?case
    using Suc session_revoke_spec[OF IH len] nth t
    by (auto simp: revoke_upto_Suc Let_def)
qed

lemma session_is_expired_cong:
  "sess_platform h = sess_platform g \<Longrightarrow> session_is_expired env h s = session_is_expired env g s"
  by (simp add: session_is_expired_def metric_is_bytes_def time_ms_def)

lemma check_expiry_revoke_upto:
  "check_expiry env g = revoke_upto (session_is_expired env g) TG_SESSION_MAX_CLIENTS g"
proof -
  have "sess_platform h = sess_platform g \<Longrightarrow>
    fold (\<lambda>i g. if active (s_sessions g ! i) \<and> session_is_expired env g (s_sessions g ! i)
        then session_revoke i g else g) is h =
    fold (\<lambda>i h. if active (s_sessions h ! i) \<and> session_is_expired env g (s_sessions h ! i)
        then session_revoke i h else h) is h" for "is" h
  proof (induction "is" arbitrary: h)
    case (Cons i "is")
    have "sess_platform (session_revoke i h) = sess_platform g"
      using Cons.prems by (simp add: session_revoke_def Let_def)
    then show ?case using Cons session_is_expired_cong[OF Cons.prems, of env] by simp
  qed simp
  then show ?thesis by (simp add: check_expiry_def revoke_upto_def)
qed

lemma session_revoke_all_revoke_upto:
  "session_revoke_all g = revoke_upto (\<lambda>_. True) TG_SESSION_MAX_CLIENTS g"
  by (simp add: session_revoke_all_def revoke_upto_def)

section \<open>Creation\<close>

lemma session_evict_spec:
  assumes inv: "sess_inv g"
  shows "sess_inv (session_evict env g)" "active_ips (session_evict env g) \<subseteq> active_ips g"
    "in_sync g \<Longrightarrow> in_sync (session_evict env g)"
    "sess_platform (session_evict env g) = sess_platform g"
    "sess_net (session_evict env g) = sess_net g \<or>
      (\<exists>i < length (s_sessions g). session_evict env g = session_revoke i g)"
proof -
  have "session_evict env g = g \<or> (\<exists>i < length (s_sessions g). session_evict env g = session_revoke i g)"
    using first_idx_SomeD(1)[of "\<lambda>s. \<not> active s \<or> session_is_expired env g s" "s_sessions g"]
    by (cases "first_idx (\<lambda>s. \<not> active s \<or> session_is_expired env g s) (s_sessions g)")
       (auto simp: session_evict_def)
  then consider "session_evict env g = g" | i where "i < length (s_sessions g)"
    "session_evict env g = session_revoke i g" by blast
  then have "sess_inv (session_evict env g) \<and> active_ips (session_evict env g) \<subseteq> active_ips g \<and>
    (in_sync g \<longrightarrow> in_sync (session_evict env g)) \<and>
    sess_platform (session_evict env g) = sess_platform g \<and>
    (sess_net (session_evict env g) = sess_net g \<or>
      (\<exists>i < length (s_sessions g). session_evict env g = session_revoke i g))"
  proof cases
    case 1
    then show ?thesis using inv by simp
  next
    case 2
    then show ?thesis
      using session_revoke_spec[OF inv 2(1)] by (auto simp: in_sync_def)
  qed
  then show "sess_inv (session_evict env g)" "active_ips (session_evict env g) \<subseteq> active_ips g"
    "in_sync g \<Longrightarrow> in_sync (session_evict env g)"
    "sess_platform (session_evict env g) = sess_platform g"
    "sess_net (session_evict env g) = sess_net g \<or>
      (\<exists>i < length (s_sessions g). session_evict env g = session_revoke i g)" by blast+
qed

text \<open>Filling a free slot.\<close>

lemma fill_slot:
  fixes mac_of :: "u32 \<Rightarrow> string option"
  assumes inv: "sess_inv g" and i: "i < length (s_sessions g)" "\<not> active (s_sessions g ! i)"
    and s: "active s" "client_ip s = ip" and new: "ip \<notin> active_ips g"
  defines "g' \<equiv> g\<lparr>s_sessions := (s_sessions g)[i := s], s_session_count := s_session_count g + 1,
                   sess_net := fw_grant mac_of ip (sess_net g)\<rparr>"
  shows "sess_inv g'" "active_ips g' = insert ip (active_ips g)" "in_sync g \<Longrightarrow> in_sync g'"
proof -
  let ?xs = "s_sessions g"
  have u: "distinct (used active client_ip (?xs[i := s]))"
    "set (used active client_ip (?xs[i := s])) = insert ip (set (used active client_ip ?xs))"
    using used_fill[OF i(1), of active s client_ip] i s inv new
    by (simp_all add: sess_inv_def active_ips_def)
  have c: "count_if active (?xs[i := s]) = count_if active ?xs + 1"
    using count_if_update[OF i(1), of active s] i s by simp
  show inv': "sess_inv g'"
    using inv u c fw_grant_spec(1)[of "sess_net g" mac_of ip] by (simp add: sess_inv_def g'_def)
  show a: "active_ips g' = insert ip (active_ips g)"
    using u by (simp add: active_ips_def g'_def)
  show "in_sync g'" if sync: "in_sync g"
  proof -
    have "count_if active ?xs < TG_SESSION_MAX_CLIENTS"
      using count_if_le[of active "?xs[i := s]"] c inv by (simp add: sess_inv_def)
    then have "card (fw_ips (sess_net g)) < MAX_CLIENTS"
      using sync card_active_ips[OF inv]
      by (simp add: in_sync_def TG_SESSION_MAX_CLIENTS_def MAX_CLIENTS_def)
    then show ?thesis
      using sync a inv fw_grant_spec(2)[of "sess_net g" mac_of ip]
      by (simp add: in_sync_def g'_def sess_inv_def)
  qed
qed

lemma session_create_spec:
  assumes inv: "sess_inv g" and eq: "session_create env ip a g = (r, g')"
  shows "sess_inv g'" "in_sync g \<Longrightarrow> in_sync g'" "sess_platform g' = sess_platform g"
    "r = Some i \<Longrightarrow> i < length (s_sessions g') \<and> active (s_sessions g' ! i) \<and>
       client_ip (s_sessions g' ! i) = ip"
    "r = None \<Longrightarrow> active_ips g' \<subseteq> active_ips g"
    "active_ips g' \<subseteq> insert ip (active_ips g)"
proof -
  have "sess_inv g' \<and> (in_sync g \<longrightarrow> in_sync g') \<and> sess_platform g' = sess_platform g \<and>
    (r = Some i \<longrightarrow> i < length (s_sessions g') \<and> active (s_sessions g' ! i) \<and>
       client_ip (s_sessions g' ! i) = ip) \<and>
    (r = None \<longrightarrow> active_ips g' \<subseteq> active_ips g) \<and> active_ips g' \<subseteq> insert ip (active_ips g)"
  proof (cases "session_find_by_ip g ip")
    case (Some j)
    note f = find_by_ip_Some[OF Some]
    have g': "r = Some j" "g' = session_extend j a g"
      using eq Some by (auto simp: session_create_def)
    then show ?thesis
      using session_extend_spec[OF inv f(1), of a] f
      by (auto simp: in_sync_def session_extend_def Let_def)
  next
    case None
    let ?g1 = "session_evict env g"
    note ev = session_evict_spec[OF inv, of env]
    have new: "ip \<notin> active_ips ?g1" using None ev(2) find_by_ip_None[of g ip] by auto
    show ?thesis
    proof (cases "first_idx (\<lambda>s. \<not> active s) (s_sessions ?g1)")
      case None
      then show ?thesis
        using eq \<open>session_find_by_ip g ip = None\<close> ev by (auto simp: session_create_def Let_def)
    next
      case (Some j)
      note j = first_idx_SomeD[OF Some]
      show ?thesis
        using eq \<open>session_find_by_ip g ip = None\<close> Some ev(2,3,4) j
          fill_slot[OF ev(1) j _ _ new, of "(s_sessions ?g1 ! j)\<lparr>
            client_ip := ip, allotment_ms := a, start_time_ms := time_ms env ?g1, active := True,
            payment_method := TG_PAYMENT_CASHU,
            mac := (case env_mac_of env ip of Some m \<Rightarrow> m | None \<Rightarrow> [])\<rparr>" "env_mac_of env"]
        by (auto simp: session_create_def Let_def)
    qed
  qed
  then show "sess_inv g'" "in_sync g \<Longrightarrow> in_sync g'" "sess_platform g' = sess_platform g"
    "r = Some i \<Longrightarrow> i < length (s_sessions g') \<and> active (s_sessions g' ! i) \<and>
       client_ip (s_sessions g' ! i) = ip"
    "r = None \<Longrightarrow> active_ips g' \<subseteq> active_ips g" "active_ips g' \<subseteq> insert ip (active_ips g)" by blast+
qed

lemma session_create_bytes_spec:
  assumes inv: "sess_inv g" and eq: "session_create_bytes env ip a g = (r, g')"
  shows "sess_inv g'" "in_sync g \<Longrightarrow> in_sync g'" "sess_platform g' = sess_platform g"
    "r = Some i \<Longrightarrow> i < length (s_sessions g') \<and> active (s_sessions g' ! i) \<and>
       client_ip (s_sessions g' ! i) = ip"
    "active_ips g' \<subseteq> insert ip (active_ips g)"
proof -
  obtain r1 g1 where c: "session_create env ip 0 g = (r1, g1)" by fastforce
  note cs = session_create_spec[OF inv c]
  have "sess_inv g' \<and> (in_sync g \<longrightarrow> in_sync g') \<and> sess_platform g' = sess_platform g \<and>
    (r = Some i \<longrightarrow> i < length (s_sessions g') \<and> active (s_sessions g' ! i) \<and>
       client_ip (s_sessions g' ! i) = ip) \<and> active_ips g' \<subseteq> insert ip (active_ips g)"
  proof (cases r1)
    case None
    then show ?thesis using eq c cs by (auto simp: session_create_bytes_def)
  next
    case (Some j)
    have j: "j < length (s_sessions g1)" using cs(4) Some by blast
    let ?s = "(s_sessions g1 ! j)\<lparr>allotment_bytes := a, bytes_consumed := 0,
             allotment_ms := INT64_MAX, payment_method := TG_PAYMENT_BYTES\<rparr>"
    have "sess_inv (g1\<lparr>s_sessions := (s_sessions g1)[j := ?s]\<rparr>)"
      "active_ips (g1\<lparr>s_sessions := (s_sessions g1)[j := ?s]\<rparr>) = active_ips g1"
      by (rule edit_slot[OF cs(1) j]; simp)+
    then show ?thesis
      using eq c Some cs(2,3,4,6) j by (auto simp: session_create_bytes_def in_sync_def)
  qed
  then show "sess_inv g'" "in_sync g \<Longrightarrow> in_sync g'" "sess_platform g' = sess_platform g"
    "r = Some i \<Longrightarrow> i < length (s_sessions g') \<and> active (s_sessions g' ! i) \<and>
       client_ip (s_sessions g' ! i) = ip" "active_ips g' \<subseteq> insert ip (active_ips g)" by blast+
qed

section \<open>Properties\<close>

text \<open>The clients whose session is active and not used up.\<close>

definition alive_ips :: "op_env \<Rightarrow> sess_state \<Rightarrow> u32 set" where
  "alive_ips env g = client_ip ` {s \<in> set (s_sessions g). active s \<and> \<not> session_is_expired env g s}"

text \<open>A state with one time session and one bytes session, used by the witnesses.\<close>

definition demo_platform :: tollgate_platform where
  "demo_platform = \<lparr>get_price_sats = Some 21, get_step_ms = Some 60000,
     get_mint_url = Some (Some ''https://mint''), get_metric = Some (Some ''milliseconds''),
     get_step_bytes = None, get_time_ms = Some 1000, spend_proofs = None,
     get_hashprice_sats_per_ghs_day = None, has_on_share_accepted = False\<rparr>"

definition demo_env :: op_env where
  "demo_env = \<lparr>env_ticks_ms = 0, env_mac_of = (\<lambda>_. None)\<rparr>"

definition demo_gate :: sess_state where
  "demo_gate = snd (session_create_bytes demo_env 6 500
     (snd (session_create demo_env 5 60000 (sess_boot\<lparr>sess_platform := Some demo_platform\<rparr>))))"

lemma demo_gate_inv: "sess_inv demo_gate" "in_sync demo_gate"
proof -
  have b: "sess_inv (sess_boot\<lparr>sess_platform := Some demo_platform\<rparr>)"
    "in_sync (sess_boot\<lparr>sess_platform := Some demo_platform\<rparr>)"
    using sess_inv_boot by (simp_all add: sess_inv_def in_sync_def active_ips_def)
  note c = session_create_spec[OF b(1) surjective_pairing]
  note d = session_create_bytes_spec[OF c(1) surjective_pairing]
  show "sess_inv demo_gate" "in_sync demo_gate"
    unfolding demo_gate_def by (rule d(1), rule d(2), rule c(2), rule b(2))
qed

definition demo_time_session :: tg_session where
  "demo_time_session = \<lparr>client_ip = 5, mac = [], allotment_ms = 60000, start_time_ms = 1000,
     allotment_bytes = 0, bytes_consumed = 0, payment_method = TG_PAYMENT_CASHU, active = True\<rparr>"

definition demo_bytes_session :: tg_session where
  "demo_bytes_session = \<lparr>client_ip = 6, mac = [], allotment_ms = INT64_MAX, start_time_ms = 1000,
     allotment_bytes = 500, bytes_consumed = 0, payment_method = TG_PAYMENT_BYTES, active = True\<rparr>"

lemma session_create_fresh:
  assumes "session_find_by_ip g ip = None" "s_session_count g < 10"
    and "first_idx (\<lambda>s. \<not> active s) (s_sessions g) = Some i"
  shows "session_create env ip a g = (Some i,
    g\<lparr>s_sessions := (s_sessions g)[i := (s_sessions g ! i)\<lparr>
        client_ip := ip, allotment_ms := a, start_time_ms := time_ms env g, active := True,
        payment_method := TG_PAYMENT_CASHU,
        mac := (case env_mac_of env ip of Some m \<Rightarrow> m | None \<Rightarrow> [])\<rparr>],
      s_session_count := s_session_count g + 1,
      sess_net := fw_grant (env_mac_of env) ip (sess_net g)\<rparr>)"
  using assms by (simp add: session_create_def session_evict_def TG_SESSION_MAX_CLIENTS_def Let_def)

lemma zero_session_simps [simp]: "\<not> active zero_session"
  by (simp add: zero_session_def)

lemma demo_gate_sessions:
  "s_sessions demo_gate = demo_time_session # demo_bytes_session # replicate 8 zero_session"
  "sess_platform demo_gate = Some demo_platform"
proof -
  let ?g0 = "sess_boot\<lparr>sess_platform := Some demo_platform\<rparr>"
  let ?g1 = "snd (session_create demo_env 5 60000 ?g0)"
  have r: "s_sessions ?g0 = zero_session # zero_session # replicate 8 zero_session"
    by (simp add: sess_boot_def TG_SESSION_MAX_CLIENTS_def numeral_eq_Suc)
  have s0: "session_find_by_ip ?g0 5 = None" "s_session_count ?g0 < 10"
    "first_idx (\<lambda>s. \<not> active s) (s_sessions ?g0) = Some 0"
    by (simp_all only: session_find_by_ip_def r) (simp_all add: first_idx_None_iff sess_boot_def)
  have t: "zero_session\<lparr>client_ip := 5, allotment_ms := 60000, start_time_ms := 1000, active := True,
      payment_method := TG_PAYMENT_CASHU, mac := []\<rparr> = demo_time_session"
    by (simp add: zero_session_def demo_time_session_def)
  have 1: "s_sessions ?g1 = demo_time_session # zero_session # replicate 8 zero_session"
    "s_session_count ?g1 = 1" "sess_platform ?g1 = Some demo_platform"
    unfolding session_create_fresh[OF s0] using r t
    by (simp_all add: time_ms_def demo_env_def demo_platform_def sess_boot_def)
  have s1: "session_find_by_ip ?g1 6 = None" "s_session_count ?g1 < 10"
    "first_idx (\<lambda>s. \<not> active s) (s_sessions ?g1) = Some 1"
    by (simp_all only: session_find_by_ip_def 1) (simp_all add: first_idx_None_iff demo_time_session_def)
  have "time_ms demo_env ?g1 = 1000" by (simp add: time_ms_def 1) (simp add: demo_platform_def)
  then show "s_sessions demo_gate = demo_time_session # demo_bytes_session # replicate 8 zero_session"
    "sess_platform demo_gate = Some demo_platform"
    unfolding demo_gate_def session_create_bytes_def session_create_fresh[OF s1] using 1
    by (simp_all add: demo_env_def) (simp add: zero_session_def demo_bytes_session_def)
qed

text \<open>
  (C4) A tick revokes exactly the sessions whose allotment is used up: each active session that
  is expired becomes inactive, every other slot stays as it is, and afterwards the clients the
  firewall lets through and the clients whose DNS queries are forwarded are exactly those with
  an active session that was not expired.
\<close>

theorem session_tick_expires_exactly:
  assumes "sess_inv g" "in_sync g"
  shows "s_sessions (session_tick env g) =
      map (\<lambda>s. if active s \<and> session_is_expired env g s then s\<lparr>active := False\<rparr> else s) (s_sessions g) \<and>
    fw_ips (sess_net (session_tick env g)) = alive_ips env g \<and>
    auth_ips (net_dns (sess_net (session_tick env g))) = alive_ips env g"
proof -
  let ?E = "session_is_expired env g"
  have n: "TG_SESSION_MAX_CLIENTS \<le> length (s_sessions g)" using assms(1) by (simp add: sess_inv_def)
  have tk: "session_tick env g = revoke_upto ?E TG_SESSION_MAX_CLIENTS g"
    by (simp add: session_tick_def check_expiry_revoke_upto)
  have sess: "s_sessions (session_tick env g) =
      map (\<lambda>s. if active s \<and> ?E s then s\<lparr>active := False\<rparr> else s) (s_sessions g)"
    using revoke_upto_sessions[OF n, of ?E] assms(1)
    by (simp add: tk sess_inv_def retire_def)
  have a: "active_ips (session_tick env g) = alive_ips env g"
    unfolding active_ips_def used_def sess alive_ips_def by (auto simp: image_iff)
  have sp: "sess_inv (session_tick env g)" "fw_ips (sess_net (session_tick env g)) = active_ips (session_tick env g)"
    using revoke_upto_spec[OF assms(1) n, of ?E] assms(2) by (simp_all add: tk in_sync_def)
  show ?thesis using sess sp a by (simp add: sess_inv_def net_inv_def)
qed

theorem session_tick_expires_exactly_witness:
  "fw_ips (sess_net (session_tick demo_env
     (demo_gate\<lparr>sess_platform := Some (demo_platform\<lparr>get_time_ms := Some 61000\<rparr>)\<rparr>))) = {6}"
proof -
  let ?g = "demo_gate\<lparr>sess_platform := Some (demo_platform\<lparr>get_time_ms := Some 61000\<rparr>)\<rparr>"
  have "sess_inv ?g" "in_sync ?g"
    using demo_gate_inv by (simp_all add: sess_inv_def in_sync_def active_ips_def)
  from session_tick_expires_exactly[OF this, of demo_env]
  have "fw_ips (sess_net (session_tick demo_env ?g)) = alive_ips demo_env ?g" by blast
  moreover have "{s \<in> set (s_sessions ?g). active s \<and> \<not> session_is_expired demo_env ?g s} = {demo_bytes_session}"
    by (auto simp: demo_gate_sessions session_is_expired_def metric_is_bytes_def time_ms_def demo_platform_def
      demo_time_session_def demo_bytes_session_def zero_session_def)
  ultimately show ?thesis by (simp add: alive_ips_def demo_bytes_session_def)
qed

lemma revoke_frees_slot:
  assumes "i < length (s_sessions g)"
  shows "\<not> active (s_sessions (session_revoke i g) ! i)" "length (s_sessions (session_revoke i g)) = length (s_sessions g)"
  using assms by (auto simp: session_revoke_def Let_def)

lemma evict_free_iff:
  assumes inv: "sess_inv g"
  shows "first_idx (\<lambda>s. \<not> active s) (s_sessions (session_evict env g)) = None \<longleftrightarrow>
    (\<forall>s \<in> set (s_sessions g). active s \<and> \<not> session_is_expired env g s)"
proof -
  let ?P = "\<lambda>s. \<not> active s \<or> session_is_expired env g s"
  have len: "length (s_sessions g) = 10" using inv by (simp add: sess_inv_def TG_SESSION_MAX_CLIENTS_def)
  show ?thesis
  proof (cases "count_if active (s_sessions g) = length (s_sessions g)")
    case False
    then have "\<exists>s \<in> set (s_sessions g). \<not> active s" by (auto simp: count_if_all)
    moreover have "session_evict env g = g"
      using False inv len count_if_le[of active "s_sessions g"]
      by (simp add: session_evict_def sess_inv_def TG_SESSION_MAX_CLIENTS_def)
    ultimately show ?thesis by (auto simp: first_idx_None_iff)
  next
    case True
    then have all: "\<forall>s \<in> set (s_sessions g). active s" by (simp add: count_if_all)
    show ?thesis
    proof (cases "first_idx ?P (s_sessions g)")
      case None
      then have "session_evict env g = g" by (simp add: session_evict_def)
      then show ?thesis using None all by (auto simp: first_idx_None_iff)
    next
      case (Some i)
      note i = first_idx_SomeD[OF Some]
      have "session_evict env g = session_revoke i g"
        using Some True len inv by (simp add: session_evict_def sess_inv_def TG_SESSION_MAX_CLIENTS_def)
      moreover have "s_sessions (session_revoke i g) ! i \<in> set (s_sessions (session_revoke i g))"
        using i(1) revoke_frees_slot[OF i(1)] by simp
      moreover have "s_sessions g ! i \<in> set (s_sessions g)" using i(1) by simp
      ultimately show ?thesis
        using i(2) revoke_frees_slot(1)[OF i(1)] by (auto simp: first_idx_None_iff)
    qed
  qed
qed

lemma session_create_None_iff:
  assumes "sess_inv g"
  shows "fst (session_create env ip a g) = None \<longleftrightarrow>
    ip \<notin> active_ips g \<and> (\<forall>s \<in> set (s_sessions g). active s \<and> \<not> session_is_expired env g s)"
proof (cases "session_find_by_ip g ip")
  case None
  then show ?thesis
    using evict_free_iff[OF assms, of env] find_by_ip_None[of g ip]
    by (auto simp: session_create_def Let_def split: option.split)
next
  case (Some i)
  then show ?thesis using find_by_ip_Some(4)[OF Some] by (simp add: session_create_def)
qed

lemma session_create_None_state:
  assumes "sess_inv g" "fst (session_create env ip a g) = None"
  shows "snd (session_create env ip a g) = g"
proof -
  have n: "ip \<notin> active_ips g" "\<forall>s \<in> set (s_sessions g). active s \<and> \<not> session_is_expired env g s"
    using assms session_create_None_iff by blast+
  have "first_idx (\<lambda>s. \<not> active s \<or> session_is_expired env g s) (s_sessions g) = None"
    using n(2) by (simp add: first_idx_None_iff)
  then have e: "session_evict env g = g" by (simp add: session_evict_def)
  have "first_idx (\<lambda>s. \<not> active s) (s_sessions g) = None" using n(2) by (simp add: first_idx_None_iff)
  then show ?thesis using n(1) e find_by_ip_None[of g ip] by (simp add: session_create_def)
qed

text \<open>
  (C5) A payment is refused a session only when there is truly no room: session creation fails
  if and only if the client has no active session and all ten slots hold sessions that are
  active and not expired.
\<close>

theorem session_create_refused_iff:
  assumes "sess_inv g"
  shows "fst (session_create env ip a g) = None \<longleftrightarrow>
    ip \<notin> active_ips g \<and> (\<forall>s \<in> set (s_sessions g). active s \<and> \<not> session_is_expired env g s)"
  using assms by (rule session_create_None_iff)

theorem session_create_refused_iff_witness:
  "fst (session_create demo_env 7 60000 demo_gate) \<noteq> None"
proof -
  have "zero_session \<in> set (s_sessions demo_gate)" by (simp add: demo_gate_sessions)
  then show ?thesis
    using session_create_refused_iff[OF demo_gate_inv(1), of demo_env 7 60000] by auto
qed

text \<open>
  A time session lasts exactly as long as was paid for: with a clock that has not gone
  back behind the start, a session that is not metered in bytes is expired if and only if the
  elapsed milliseconds have reached the allotment. This holds for allotments below 2^63; a
  larger allotment is read as negative and counts as expired at once.
\<close>

theorem session_time_expiry:
  assumes "active s" "payment_method s \<noteq> TG_PAYMENT_BYTES" "\<not> metric_is_bytes g"
    and "0 \<le> sint (start_time_ms s)" "sint (start_time_ms s) \<le> sint (time_ms env g)"
  shows "session_is_expired env g s \<longleftrightarrow>
    uint (allotment_ms s) \<le> sint (time_ms env g) - sint (start_time_ms s) \<or> 2 ^ 63 \<le> uint (allotment_ms s)"
proof -
  have e: "session_is_expired env g s \<longleftrightarrow>
      sint (allotment_ms s) \<le> sint (time_ms env g) - sint (start_time_ms s)"
    using assms sint_diff_time[OF assms(4,5)] by (simp add: session_is_expired_def)
  show ?thesis
  proof (cases "uint (allotment_ms s) < 2 ^ 63")
    case True
    then have "sint (allotment_ms s) = uint (allotment_ms s)" by (rule sint_small)
    then show ?thesis using e True by simp
  next
    case False
    then have "sint (allotment_ms s) < 0" by (simp add: sint_big)
    then show ?thesis using e False assms(5) by simp
  qed
qed

theorem session_time_expiry_witness:
  "\<not> session_is_expired demo_env demo_gate demo_time_session"
  using session_time_expiry[of demo_time_session demo_gate demo_env]
  by (simp add: demo_gate_sessions demo_time_session_def time_ms_def metric_is_bytes_def demo_platform_def)

text \<open>
  A second bytes payment does not add to the first: for a client with an active session,
  \<open>session_create_bytes\<close> replaces the byte allotment and clears the consumption, so what is
  left afterwards is the new purchase alone and the unused rest of the old one is lost. (A time
  payment, in contrast, adds its milliseconds to the session.)
\<close>

theorem session_bytes_topup_replaces:
  assumes "sess_inv g" "session_find_by_ip g ip = Some i"
  shows "let g' = snd (session_create_bytes env ip b g); s' = s_sessions g' ! i;
             t' = s_sessions (snd (session_create env ip a g)) ! i in
    allotment_bytes s' = b \<and> bytes_consumed s' = 0 \<and>
    allotment_ms t' = allotment_ms (s_sessions g ! i) + a \<and> start_time_ms t' = start_time_ms (s_sessions g ! i)"
  using find_by_ip_Some[OF assms(2)] assms(2)
  by (simp add: session_create_bytes_def session_create_def session_extend_def Let_def)

theorem session_bytes_topup_replaces_witness:
  "allotment_bytes (s_sessions (snd (session_create_bytes demo_env 6 300 demo_gate)) ! 1) = 300"
proof -
  have "session_find_by_ip demo_gate 6 = Some 1"
    by (simp add: session_find_by_ip_def demo_gate_sessions demo_time_session_def demo_bytes_session_def)
  from session_bytes_topup_replaces[OF demo_gate_inv(1) this, of demo_env 300 0]
  show ?thesis by (simp add: Let_def)
qed

end
