(* ===== verification/TG_Cashu.thy ===== *)
theory TG_Cashu
  imports TG_Json
begin

text \<open>
  The Cashu token handling of \<^verbatim>\<open>components/tollgate_core/src/tollgate_core_cashu.c\<close>: decoding a
  \<open>cashuA\<close> token, asking the mint which proofs are spent, and computing what a payment buys.
  Base64 (mbedtls), SHA-256 (mbedtls), the HTTP client and the JSON parser and printer are
  parameters.
\<close>

section \<open>Data\<close>

record tg_cashu_proof =
  pr_amount :: u64
  pr_id :: string
  pr_secret :: string
  pr_c :: string

record tg_cashu_token =
  tok_proofs :: "tg_cashu_proof list"
  tok_mint_url :: string
  tok_total_amount :: u64

record tg_cashu_proof_state =
  y_hex :: string
  spent :: bool

definition TG_CASHU_MAX_PROOFS :: nat where
  "TG_CASHU_MAX_PROOFS = 10"

definition V3_PREFIX :: string where
  "V3_PREFIX = ''cashuA''"

text \<open>
  What the token code calls: \<open>b64_dec n s\<close> is \<open>mbedtls_base64_decode\<close> into a buffer of \<open>n\<close>
  bytes (\<open>None\<close>: an error return), \<open>json_parse\<close> is \<open>cJSON_Parse\<close>, \<open>json_print\<close> is
  \<open>cJSON_PrintUnformatted\<close>, \<open>sha256\<close> the hash of a byte string, and \<open>http_post url body\<close> the
  exchange with the mint: \<open>None\<close> when the client cannot be created or opened, otherwise the
  status code and the bytes available (\<open>None\<close>: a read error).
\<close>

record cashu_ext =
  b64_dec :: "nat \<Rightarrow> string \<Rightarrow> string option"
  json_parse :: "string \<Rightarrow> json option"
  json_print :: "json \<Rightarrow> string"
  sha256 :: "string \<Rightarrow> u8 list"
  http_post :: "string \<Rightarrow> string \<Rightarrow> (int \<times> string option) option"

section \<open>Decoding a token\<close>

definition b64url_char :: "char \<Rightarrow> char" where
  "b64url_char c = (if c = CHR ''-'' then CHR ''+'' else if c = CHR ''_'' then CHR ''/'' else c)"

definition b64url_pad :: "string \<Rightarrow> string" where
  "b64url_pad s = map b64url_char s @ replicate ((4 - length s mod 4) mod 4) (CHR ''='')"

definition b64url_decode :: "cashu_ext \<Rightarrow> string \<Rightarrow> nat \<Rightarrow> string option" where
  "b64url_decode ext input out_size = b64_dec ext out_size (b64url_pad input)"

definition copy_field :: "nat \<Rightarrow> json option \<Rightarrow> string" where
  "copy_field n j = (case json_str j of Some s \<Rightarrow> c_strncpy n s | None \<Rightarrow> [])"

fun parse_proofs :: "json list \<Rightarrow> tg_cashu_proof list \<Rightarrow> u64 \<Rightarrow> (tg_cashu_proof list \<times> u64) cres" where
  "parse_proofs [] ps tot = Ok (ps, tot)"
| "parse_proofs (p # rest) ps tot =
     (case json_num (json_get p ''amount'') of
        None \<Rightarrow> Fail
      | Some n \<Rightarrow> cbind (d2u64 n) (\<lambda>a.
          parse_proofs rest
            (ps @ [\<lparr>pr_amount = a, pr_id = copy_field 68 (json_get p ''id''),
                    pr_secret = copy_field 128 (json_get p ''secret''),
                    pr_c = copy_field 128 (json_get p ''C'')\<rparr>])
            (tot + a)))"

definition parse_proofs_array :: "json \<Rightarrow> (tg_cashu_proof list \<times> u64) cres" where
  "parse_proofs_array arr =
     (case json_arr (Some arr) of
        None \<Rightarrow> Fail
      | Some xs \<Rightarrow> if TG_CASHU_MAX_PROOFS < length xs then Fail else parse_proofs xs [] 0)"

definition token_len :: "string \<Rightarrow> nat" where
  "token_len s =
     (let n1 = (case c_strchr CHR 0x0A s of Some i \<Rightarrow> i | None \<Rightarrow> length s) in
      case c_strchr CHR 0x0D s of Some i \<Rightarrow> if i < n1 then i else n1 | None \<Rightarrow> n1)"

text \<open>The object that holds \<open>mint\<close> and \<open>proofs\<close>: the first entry of \<open>token\<close>, or the root.\<close>

definition token_body :: "json \<Rightarrow> json option" where
  "token_body jroot =
     (case json_arr (json_get jroot ''token'') of
        Some xs \<Rightarrow> (case xs of [] \<Rightarrow> None | first # _ \<Rightarrow> Some first)
      | None \<Rightarrow> Some jroot)"

definition cashu_decode_token :: "cashu_ext \<Rightarrow> string \<Rightarrow> tg_cashu_token cres" where
  "cashu_decode_token ext token_str =
     (let len = token_len token_str in
      if len \<le> 6 then Fail
      else if \<not> starts_with V3_PREFIX token_str then Fail
      else
        (let b64_len = len - 6; decoded_size = b64_len * 3 div 4 + 4 in
         case b64url_decode ext (take b64_len (drop 6 token_str)) (decoded_size - 1) of
           None \<Rightarrow> Fail
         | Some buf \<Rightarrow>
             (case json_parse ext (c_str buf) of
                None \<Rightarrow> Fail
              | Some jroot \<Rightarrow>
                  (case token_body jroot of
                     None \<Rightarrow> Fail
                   | Some body \<Rightarrow>
                       cbind (case json_get body ''proofs'' of
                                Some arr \<Rightarrow> parse_proofs_array arr
                              | None \<Rightarrow> Ok ([], 0))
                         (\<lambda>(ps, tot).
                            if ps = [] then Fail
                            else Ok \<lparr>tok_proofs = ps, tok_mint_url = copy_field 256 (json_get body ''mint''),
                                     tok_total_amount = tot\<rparr>)))))"

section \<open>Asking the mint\<close>

definition sha256_hex :: "cashu_ext \<Rightarrow> string \<Rightarrow> string" where
  "sha256_hex ext data = hex_of_bytes (sha256 ext data)"

fun apply_states :: "json list \<Rightarrow> tg_cashu_proof_state list \<Rightarrow> tg_cashu_proof_state list" where
  "apply_states (s # ss) (p # ps) =
     (case json_str (json_get s ''state'') of
        Some v \<Rightarrow> p\<lparr>spent := (v = ''SPENT'')\<rparr>
      | None \<Rightarrow> p) # apply_states ss ps"
| "apply_states [] ps = ps"
| "apply_states ss [] = []"

definition cashu_check_proof_states ::
  "cashu_ext \<Rightarrow> string \<Rightarrow> tg_cashu_token \<Rightarrow> tg_cashu_proof_state list option" where
  "cashu_check_proof_states ext mint_url token =
     (let ys = map (\<lambda>p. sha256_hex ext (pr_secret p)) (tok_proofs token);
          states = map (\<lambda>y. \<lparr>y_hex = y, spent = False\<rparr>) ys;
          post_body = take 4095 (''{\"Ys\":'' @ json_print ext (JArr (map JStr ys)) @ ''}'');
          url = take 511 (mint_url @ ''/v1/checkstate'')
      in case http_post ext url post_body of
           None \<Rightarrow> None
         | Some (status, resp) \<Rightarrow>
             (let resp_buf = take 8191 (case resp of Some r \<Rightarrow> r | None \<Rightarrow> []) in
              if status \<noteq> 200 \<or> resp_buf = [] then None
              else
                (case json_parse ext (c_str resp_buf) of
                   None \<Rightarrow> None
                 | Some jroot \<Rightarrow>
                     (case json_arr (json_get jroot ''states'') of
                        None \<Rightarrow> None
                      | Some sts \<Rightarrow> Some (apply_states sts states)))))"

section \<open>Price and mint\<close>

definition cashu_calculate_allotment :: "u64 \<Rightarrow> u64 \<Rightarrow> u64 \<Rightarrow> u64" where
  "cashu_calculate_allotment token_amount price_per_step step_size =
     (if price_per_step = 0 then 0 else (token_amount div price_per_step) * step_size)"

definition cashu_is_mint_accepted :: "string \<Rightarrow> string \<Rightarrow> bool" where
  "cashu_is_mint_accepted mint_url accepted \<longleftrightarrow> mint_url \<noteq> [] \<and> accepted \<noteq> [] \<and> mint_url = accepted"

section \<open>Decoding: bounds and round trip\<close>

lemma length_b64url_pad: "length (b64url_pad s) mod 4 = 0" "length (b64url_pad s) < length s + 4"
proof -
  have "(n + (4 - n mod 4) mod 4) mod 4 = 0" for n :: nat
  proof -
    have "n mod 4 = 0 \<or> n mod 4 = 1 \<or> n mod 4 = 2 \<or> n mod 4 = 3" by linarith
    moreover have "(n + k) mod 4 = (n mod 4 + k) mod 4" for k by (simp add: mod_add_left_eq)
    ultimately show ?thesis by auto
  qed
  then show "length (b64url_pad s) mod 4 = 0" by (simp add: b64url_pad_def)
  show "length (b64url_pad s) < length s + 4" by (simp add: b64url_pad_def)
qed

definition proof_ok :: "tg_cashu_proof \<Rightarrow> bool" where
  "proof_ok p \<longleftrightarrow> length (pr_id p) < 68 \<and> length (pr_secret p) < 128 \<and> length (pr_c p) < 128"

lemma copy_field_length: "0 < n \<Longrightarrow> length (copy_field n j) < n"
  by (auto simp: copy_field_def c_strncpy_def split: option.split)

lemma parse_proofs_spec:
  assumes "parse_proofs xs ps t = Ok (ps', t')" "\<forall>p \<in> set ps. proof_ok p" "t = sum_list (map pr_amount ps)"
  shows "length ps' = length ps + length xs \<and> (\<forall>p \<in> set ps'. proof_ok p) \<and> t' = sum_list (map pr_amount ps')"
  using assms
proof (induction xs ps t rule: parse_proofs.induct)
  case (2 x rest ps t)
  from "2.prems"(1) obtain n a where na: "json_num (json_get x ''amount'') = Some n" "d2u64 n = Ok a"
    by (auto simp: cbind_Ok_iff split: option.splits)
  let ?p = "\<lparr>pr_amount = a, pr_id = copy_field 68 (json_get x ''id''),
      pr_secret = copy_field 128 (json_get x ''secret''), pr_c = copy_field 128 (json_get x ''C'')\<rparr>"
  have "proof_ok ?p" by (simp add: proof_ok_def copy_field_length)
  moreover have "parse_proofs rest (ps @ [?p]) (t + a) = Ok (ps', t')" using "2.prems"(1) na by simp
  ultimately show ?case using "2.IH"[OF na(1), of a] "2.prems"(2,3) by auto
qed simp

lemma parse_proofs_array_spec:
  assumes "parse_proofs_array arr = Ok (ps, t)"
  shows "length ps \<le> TG_CASHU_MAX_PROOFS" "\<forall>p \<in> set ps. proof_ok p" "t = sum_list (map pr_amount ps)"
  using assms parse_proofs_spec[of _ "[]" 0 ps t]
  by (auto simp: parse_proofs_array_def split: option.splits if_splits)

lemma decode_token_cases:
  assumes "cashu_decode_token ext s = Ok tok"
  obtains body ps where
    "6 < token_len s" "starts_with V3_PREFIX s"
    "(case json_get body ''proofs'' of Some arr \<Rightarrow> parse_proofs_array arr | None \<Rightarrow> Ok ([], 0)) =
       Ok (ps, tok_total_amount tok)"
    "ps \<noteq> []" "tok_proofs tok = ps" "tok_mint_url tok = copy_field 256 (json_get body ''mint'')"
proof -
  from assms obtain body ps t where
    "6 < token_len s" "starts_with V3_PREFIX s"
    "(case json_get body ''proofs'' of Some arr \<Rightarrow> parse_proofs_array arr | None \<Rightarrow> Ok ([], 0)) = Ok (ps, t)"
    "(if ps = [] then Fail else Ok \<lparr>tok_proofs = ps, tok_mint_url = copy_field 256 (json_get body ''mint''),
       tok_total_amount = t\<rparr>) = Ok tok"
    by (fastforce simp: cashu_decode_token_def Let_def cbind_Ok_iff not_le split: if_splits option.splits)
  then show ?thesis by (intro that[of body ps]) (auto split: if_splits)
qed

text \<open>
  Whatever text is posted as a token, a decoded token fits its C structure: it begins with
  \<open>cashuA\<close>, has between 1 and 10 proofs, its strings fit their buffers with the terminating
  NUL, and its total is the sum of the proof amounts (in 64-bit arithmetic).
\<close>

theorem cashu_decoded_token_bounds:
  assumes "cashu_decode_token ext s = Ok tok"
  shows "starts_with ''cashuA'' s \<and> 1 \<le> length (tok_proofs tok) \<and> length (tok_proofs tok) \<le> 10 \<and>
    length (tok_mint_url tok) < 256 \<and> (\<forall>p \<in> set (tok_proofs tok). proof_ok p) \<and>
    tok_total_amount tok = sum_list (map pr_amount (tok_proofs tok))"
proof -
  from decode_token_cases[OF assms] obtain body ps where b:
    "starts_with V3_PREFIX s"
    "(case json_get body ''proofs'' of Some arr \<Rightarrow> parse_proofs_array arr | None \<Rightarrow> Ok ([], 0)) =
       Ok (ps, tok_total_amount tok)"
    "ps \<noteq> []" "tok_proofs tok = ps" "tok_mint_url tok = copy_field 256 (json_get body ''mint'')" .
  then obtain arr where "parse_proofs_array arr = Ok (ps, tok_total_amount tok)"
    by (auto split: option.splits)
  from parse_proofs_array_spec[OF this] b show ?thesis
    by (simp add: V3_PREFIX_def TG_CASHU_MAX_PROOFS_def copy_field_length Suc_le_eq)
qed

text \<open>The JSON text of a version 3 token as wallets write it.\<close>

definition proof_json :: "tg_cashu_proof \<Rightarrow> json" where
  "proof_json p = JObj [(''amount'', JNum (Fin (of_int (uint (pr_amount p))))), (''id'', JStr (pr_id p)),
     (''secret'', JStr (pr_secret p)), (''C'', JStr (pr_c p))]"

definition token_json :: "string \<Rightarrow> tg_cashu_proof list \<Rightarrow> json" where
  "token_json mint ps = JObj [(''token'', JArr [JObj [(''mint'', JStr mint),
     (''proofs'', JArr (map proof_json ps))]])]"

lemma parse_proofs_json:
  assumes "\<forall>p \<in> set ps. proof_ok p"
  shows "parse_proofs (map proof_json ps) acc t = Ok (acc @ ps, t + sum_list (map pr_amount ps))"
  using assms
proof (induction ps arbitrary: acc t)
  case (Cons p ps)
  have "d2u64 (Fin (of_int (uint (pr_amount p)))) = Ok (pr_amount p)" by (rule d2u64_uint)
  moreover have "\<lparr>pr_amount = pr_amount p, pr_id = copy_field 68 (Some (JStr (pr_id p))),
      pr_secret = copy_field 128 (Some (JStr (pr_secret p))), pr_c = copy_field 128 (Some (JStr (pr_c p)))\<rparr> = p"
    using Cons.prems by (simp add: copy_field_def json_str_def c_strncpy_def proof_ok_def)
  ultimately show ?case using Cons by (simp add: proof_json_def json_get_def json_num_def add.assoc)
qed simp

lemma token_len_Cons:
  "token_len (x # s) = (if x = CHR 0x0A \<or> x = CHR 0x0D then 0 else Suc (token_len s))"
  by (auto simp: token_len_def c_strchr_def Let_def split: option.splits)

lemma token_len_takeWhile: "token_len s = length (takeWhile (\<lambda>c. c \<noteq> CHR 0x0A \<and> c \<noteq> CHR 0x0D) s)"
proof (induction s)
  case Nil
  then show ?case by (simp add: token_len_def c_strchr_def)
next
  case (Cons x s)
  then show ?case by (simp add: token_len_Cons)
qed

text \<open>
  (C8) A token that a wallet writes is read back exactly: with a Base64 decoder and a JSON parser
  that invert the wallet's encoder and printer on this text, \<open>cashu_decode_token\<close> returns the
  same mint, the same proofs and their total, for every list of 1 to 10 proofs whose strings fit.
  A line break after the token, and what follows it, is ignored.
\<close>

theorem cashu_token_roundtrip:
  assumes "b64_dec ext (3 + length e * 3 div 4) (b64url_pad e) = Some txt"
    and "json_parse ext (c_str txt) = Some (token_json mint ps)"
    and "e \<noteq> []" "CHR 0x0A \<notin> set e" "CHR 0x0D \<notin> set e"
    and "nl = [] \<or> hd nl = CHR 0x0A \<or> hd nl = CHR 0x0D"
    and "ps \<noteq> []" "length ps \<le> 10" "length mint < 256" "\<forall>p \<in> set ps. proof_ok p"
  shows "cashu_decode_token ext (''cashuA'' @ e @ nl) =
    Ok \<lparr>tok_proofs = ps, tok_mint_url = mint, tok_total_amount = sum_list (map pr_amount ps)\<rparr>"
proof -
  have "takeWhile (\<lambda>c. c \<noteq> CHR 0x0A \<and> c \<noteq> CHR 0x0D) (e @ nl) = e"
    using assms(4-6) by (cases nl) (auto simp: takeWhile_append)
  then have len: "token_len (''cashuA'' @ e @ nl) = length e + 6"
    by (simp add: token_len_takeWhile)
  have body: "token_body (token_json mint ps) =
      Some (JObj [(''mint'', JStr mint), (''proofs'', JArr (map proof_json ps))])"
    by (simp add: token_body_def token_json_def json_acc_defs)
  have "parse_proofs_array (JArr (map proof_json ps)) = Ok (ps, sum_list (map pr_amount ps))"
    using assms(8) parse_proofs_json[OF assms(10), of "[]" 0]
    by (simp add: parse_proofs_array_def json_arr_def TG_CASHU_MAX_PROOFS_def)
  moreover have "copy_field 256 (Some (JStr mint)) = mint"
    using assms(9) by (simp add: copy_field_def json_str_def c_strncpy_def)
  ultimately show ?thesis
    using assms(1-3,7) len body
    by (simp add: cashu_decode_token_def b64url_decode_def V3_PREFIX_def starts_with_def json_get_def)
qed

text \<open>A concrete instance: a decoder and a parser that know one token.\<close>

definition demo_proofs :: "tg_cashu_proof list" where
  "demo_proofs = [\<lparr>pr_amount = 32, pr_id = ''00a1'', pr_secret = ''s1'', pr_c = ''02c1''\<rparr>,
     \<lparr>pr_amount = 10, pr_id = ''00a1'', pr_secret = ''s2'', pr_c = ''02c2''\<rparr>]"

definition demo_ext :: cashu_ext where
  "demo_ext = \<lparr>b64_dec = (\<lambda>n s. if s = ''abc='' then Some ''T'' else None),
     json_parse = (\<lambda>t. if t = ''T'' then Some (token_json ''https://mint'' demo_proofs)
        else if t = ''S'' then Some (JObj [(''states'', JArr [JObj [(''state'', JStr ''UNSPENT'')],
               JObj [(''state'', JStr ''PENDING'')]])]) else None),
     json_print = (\<lambda>j. []), sha256 = (\<lambda>s. replicate 32 0), http_post = (\<lambda>u b. Some (200, Some ''S''))\<rparr>"

lemma demo_proofs_ok: "\<forall>p \<in> set demo_proofs. proof_ok p" "demo_proofs \<noteq> []" "length demo_proofs \<le> 10"
  "sum_list (map pr_amount demo_proofs) = 42"
  by (simp_all add: demo_proofs_def proof_ok_def)

theorem cashu_token_roundtrip_witness:
  "cashu_decode_token demo_ext (''cashuA'' @ ''abc'' @ [CHR 0x0A]) =
    Ok \<lparr>tok_proofs = demo_proofs, tok_mint_url = ''https://mint'', tok_total_amount = 42\<rparr>"
proof -
  have b: "b64_dec demo_ext (3 + length ''abc'' * 3 div 4) (b64url_pad ''abc'') = Some ''T''"
    "json_parse demo_ext (c_str ''T'') = Some (token_json ''https://mint'' demo_proofs)"
    by (simp_all add: demo_ext_def b64url_pad_def b64url_char_def c_str_def)
  show ?thesis
    using cashu_token_roundtrip[OF b, of "[CHR 0x0A]"] demo_proofs_ok by simp
qed

definition demo_token :: tg_cashu_token where
  "demo_token = \<lparr>tok_proofs = demo_proofs, tok_mint_url = ''https://mint'', tok_total_amount = 42\<rparr>"

lemma demo_token_decodes: "cashu_decode_token demo_ext ''cashuAabc'' = Ok demo_token"
  using demo_proofs_ok(4)
  by (simp add: cashu_decode_token_def b64url_decode_def V3_PREFIX_def starts_with_def token_len_takeWhile
    b64url_pad_def b64url_char_def demo_ext_def c_str_def token_body_def token_json_def json_acc_defs
    parse_proofs_array_def parse_proofs_json[OF demo_proofs_ok(1)] demo_proofs_ok(2)
    not_less[THEN iffD2, OF demo_proofs_ok(3)] TG_CASHU_MAX_PROOFS_def copy_field_def c_strncpy_def demo_token_def)

theorem cashu_decoded_token_bounds_witness:
  "length (tok_proofs demo_token) \<le> 10 \<and> starts_with ''cashuA'' ''cashuAabc''"
  using cashu_decoded_token_bounds[OF demo_token_decodes] by simp

section \<open>Proof states and allotment\<close>

lemma length_apply_states [simp]: "length (apply_states ss ps) = length ps"
  by (induction ss ps rule: apply_states.induct) auto

lemma nth_apply_states:
  "i < length ps \<Longrightarrow> apply_states ss ps ! i =
     (if i < length ss then (case json_str (json_get (ss ! i) ''state'') of
         Some v \<Rightarrow> (ps ! i)\<lparr>spent := (v = ''SPENT'')\<rparr> | None \<Rightarrow> ps ! i) else ps ! i)"
  by (induction ss ps arbitrary: i rule: apply_states.induct) (auto simp: nth_Cons split: nat.split option.split)

text \<open>
  The spent check trusts what the mint lists: proof \<open>i\<close> counts as spent if and only if the
  mint answered with status 200 and the \<open>i\<close>-th entry of its \<open>states\<close> array is exactly the string
  \<open>SPENT\<close>. A \<open>PENDING\<close> proof, an entry without a state and a proof the mint left out of its answer
  all count as unspent.
\<close>

theorem cashu_spent_iff:
  assumes "cashu_check_proof_states ext mint tok = Some sts" "i < length (tok_proofs tok)"
  shows "length sts = length (tok_proofs tok) \<and>
    (\<exists>url body resp j xs. http_post ext url body = Some (200, Some resp) \<and>
       json_parse ext (c_str (take 8191 resp)) = Some j \<and> json_get j ''states'' = Some (JArr xs) \<and>
       (spent (sts ! i) \<longleftrightarrow> i < length xs \<and> json_get (xs ! i) ''state'' = Some (JStr ''SPENT'')))"
proof -
  from assms(1) obtain url body resp j xs where h: "http_post ext url body = Some (200, Some resp)"
    "json_parse ext (c_str (take 8191 resp)) = Some j" "json_arr (json_get j ''states'') = Some xs"
    "sts = apply_states xs (map (\<lambda>y. \<lparr>y_hex = y, spent = False\<rparr>)
       (map (\<lambda>p. sha256_hex ext (pr_secret p)) (tok_proofs tok)))"
    by (auto simp: cashu_check_proof_states_def Let_def split: option.splits if_splits)
  have g: "json_get j ''states'' = Some (JArr xs)"
    using h(3) by (auto simp: json_arr_def split: option.splits json.splits)
  have "spent (sts ! i) \<longleftrightarrow> i < length xs \<and> json_str (json_get (xs ! i) ''state'') = Some ''SPENT''"
    using assms(2) h(4) by (auto simp: nth_apply_states split: option.splits)
  also have "json_str (json_get (xs ! i) ''state'') = Some ''SPENT'' \<longleftrightarrow>
      json_get (xs ! i) ''state'' = Some (JStr ''SPENT'')"
    by (auto simp: json_str_def split: option.splits json.splits)
  finally have "spent (sts ! i) \<longleftrightarrow> i < length xs \<and> json_get (xs ! i) ''state'' = Some (JStr ''SPENT'')" .
  moreover have "length sts = length (tok_proofs tok)" using h(4) by simp
  ultimately show ?thesis using h(1,2) g by blast
qed

text \<open>The instance: two proofs, of which the mint calls the second \<open>PENDING\<close>.\<close>

definition demo_answer :: "json list" where
  "demo_answer = [JObj [(''state'', JStr ''UNSPENT'')], JObj [(''state'', JStr ''PENDING'')]]"

definition demo_sts :: "tg_cashu_proof_state list" where
  "demo_sts = apply_states demo_answer
     (map (\<lambda>p. \<lparr>y_hex = sha256_hex demo_ext (pr_secret p), spent = False\<rparr>) demo_proofs)"

lemma demo_states:
  "cashu_check_proof_states demo_ext ''https://mint'' demo_token = Some demo_sts" "map spent demo_sts = [False, False]"
proof -
  have h: "http_post demo_ext u b = Some (200, Some ''S'')" for u b by (simp add: demo_ext_def)
  have j: "json_parse demo_ext (c_str ''S'') = Some (JObj [(''states'', JArr demo_answer)])"
    by (simp add: demo_ext_def c_str_def demo_answer_def)
  show "cashu_check_proof_states demo_ext ''https://mint'' demo_token = Some demo_sts"
    by (simp add: cashu_check_proof_states_def Let_def h j json_get_def json_arr_def comp_def demo_token_def demo_sts_def)
  show "map spent demo_sts = [False, False]"
    by (simp add: demo_sts_def demo_proofs_def demo_answer_def json_get_def json_str_def)
qed

theorem cashu_spent_iff_witness:
  "map spent demo_sts = [False, False] \<and> length demo_sts = length (tok_proofs demo_token)"
proof -
  have "1 < length (tok_proofs demo_token)" by (simp add: demo_token_def demo_proofs_def)
  from cashu_spent_iff[OF demo_states(1) this] demo_states(2) show ?thesis by simp
qed

text \<open>
  What a payment buys: the number of whole steps the amount covers, times the step size,
  reduced modulo 2^64. When the product fits, the client is never granted more steps than it
  paid for, nor a whole step fewer; below the price of one step it gets nothing.
\<close>

theorem cashu_allotment_exact:
  assumes "price \<noteq> 0"
  shows "uint (cashu_calculate_allotment amount price step) =
      (uint amount div uint price * uint step) mod 2 ^ 64 \<and>
    uint price * (uint amount div uint price) \<le> uint amount \<and>
    uint amount < uint price * (uint amount div uint price + 1) \<and>
    (amount < price \<longrightarrow> cashu_calculate_allotment amount price step = 0)"
proof -
  have p: "0 < uint price" using assms by (simp add: word_neq_0_conv word_less_def)
  have "uint (cashu_calculate_allotment amount price step) = (uint amount div uint price * uint step) mod 2 ^ 64"
    using assms by (simp add: cashu_calculate_allotment_def uint_word_ariths uint_div)
  moreover have "uint price * (uint amount div uint price) \<le> uint amount"
    using mult_div_mod_eq[of "uint price" "uint amount"] pos_mod_sign[OF p, of "uint amount"] by linarith
  moreover have "uint amount < uint price * (uint amount div uint price + 1)"
    using mult_div_mod_eq[of "uint price" "uint amount"] pos_mod_bound[OF p, of "uint amount"]
    unfolding distrib_left by linarith
  moreover have "amount < price \<longrightarrow> cashu_calculate_allotment amount price step = 0"
    by (auto simp: cashu_calculate_allotment_def word_less_def word_uint_eq_iff uint_div uint_word_ariths)
  ultimately show ?thesis by blast
qed

theorem cashu_allotment_exact_witness:
  "uint (cashu_calculate_allotment 100 21 60000) = 240000"
  using cashu_allotment_exact[of 21 100 60000] by simp

end
