(* ===== verification/TG_Market.thy ===== *)
theory TG_Market
  imports TG_Cashu
begin

text \<open>
  Price beacons (\<^verbatim>\<open>tollgate_core_beacon.c\<close>) and the market of neighbouring gates
  (\<^verbatim>\<open>tollgate_core_market.c\<close>). A beacon is a vendor information element of 32 bytes; the packed
  C structure is its little-endian byte layout. The market keeps the last ten gates heard.
  SHA-256 is a parameter.
\<close>

unbundle bit_operations_syntax

section \<open>The information element\<close>

record beacon_config =
  bc_mint_url :: string
  bc_metric :: string
  bc_price_per_step :: int
  bc_step_size_ms :: int
  bc_step_size_bytes :: int
  bc_geohash :: string
  bc_npub_hex :: "string option"
  bc_identity_initialized :: bool

definition TOLLGATE_OUI :: "u8 list" where
  "TOLLGATE_OUI = [0xC0, 0xFF, 0xEE]"

definition TOLLGATE_IE_TYPE :: u8 where
  "TOLLGATE_IE_TYPE = 1"

definition TOLLGATE_IE_VERSION :: u8 where
  "TOLLGATE_IE_VERSION = 1"

definition TOLLGATE_IE_ELEMENT_ID :: u8 where
  "TOLLGATE_IE_ELEMENT_ID = 0xDD"

definition TOLLGATE_IE_GEOHASH_MAX :: nat where
  "TOLLGATE_IE_GEOHASH_MAX = 9"

definition TOLLGATE_IE_PAYLOAD_SIZE :: nat where
  "TOLLGATE_IE_PAYLOAD_SIZE = 26"

definition beacon_hash :: "(string \<Rightarrow> u8 list) \<Rightarrow> string \<Rightarrow> u8 list" where
  "beacon_hash sha s = take 4 (sha s)"

definition beacon_payload :: "(string \<Rightarrow> u8 list) \<Rightarrow> beacon_config \<Rightarrow> u8 list" where
  "beacon_payload sha cfg =
     (let is_bytes = (bc_metric cfg = ''bytes'');
          gh = take TOLLGATE_IE_GEOHASH_MAX (bc_geohash cfg)
      in [TOLLGATE_IE_VERSION, if is_bytes then 1 else 0]
         @ le16 (of_int (bc_price_per_step cfg))
         @ le32 (of_int (if is_bytes then bc_step_size_bytes cfg else bc_step_size_ms cfg))
         @ beacon_hash sha (bc_mint_url cfg)
         @ [of_nat (length gh)]
         @ map of_char gh @ replicate (TOLLGATE_IE_GEOHASH_MAX - length gh) 0
         @ (if bc_identity_initialized cfg
            then (case bc_npub_hex cfg of Some h \<Rightarrow> beacon_hash sha h | None \<Rightarrow> replicate 4 0)
            else replicate 4 0))"

definition beacon_build_ie :: "(string \<Rightarrow> u8 list) \<Rightarrow> beacon_config \<Rightarrow> u8 list" where
  "beacon_build_ie sha cfg =
     [TOLLGATE_IE_ELEMENT_ID, of_nat (4 + TOLLGATE_IE_PAYLOAD_SIZE)] @ TOLLGATE_OUI @ [TOLLGATE_IE_TYPE]
     @ beacon_payload sha cfg"

section \<open>The market table\<close>

record market_entry =
  me_bssid :: "u8 list"
  me_ssid :: string
  me_rssi :: i8
  me_price_per_step :: u16
  me_step_size :: u32
  me_metric :: u8
  me_mint_hash :: "u8 list"
  me_npub_hash :: "u8 list"
  me_geohash :: "u8 list"
  me_discovered_ms :: i64
  me_valid :: bool

record market =
  mk_entries :: "market_entry list"
  mk_count :: nat

definition TG_MARKET_MAX_ENTRIES :: nat where
  "TG_MARKET_MAX_ENTRIES = 10"

definition zero_entry :: market_entry where
  "zero_entry = \<lparr>me_bssid = replicate 6 0, me_ssid = [], me_rssi = 0, me_price_per_step = 0, me_step_size = 0,
     me_metric = 0, me_mint_hash = replicate 4 0, me_npub_hash = replicate 4 0, me_geohash = [],
     me_discovered_ms = 0, me_valid = False\<rparr>"

definition market_init :: market where
  "market_init = \<lparr>mk_entries = replicate TG_MARKET_MAX_ENTRIES zero_entry, mk_count = 0\<rparr>"

definition find_entry_by_bssid :: "market \<Rightarrow> u8 list \<Rightarrow> nat option" where
  "find_entry_by_bssid mk bssid = first_idx (\<lambda>e. me_valid e \<and> me_bssid e = bssid) (mk_entries mk)"

fun oldest_from :: "market_entry list \<Rightarrow> nat \<Rightarrow> nat \<Rightarrow> i64 \<Rightarrow> nat" where
  "oldest_from [] i oldest t = oldest"
| "oldest_from (e # es) i oldest t =
     (if sint (me_discovered_ms e) < sint t then oldest_from es (Suc i) i (me_discovered_ms e)
      else oldest_from es (Suc i) oldest t)"

definition find_free_slot :: "market \<Rightarrow> nat" where
  "find_free_slot mk =
     (case first_idx (\<lambda>e. \<not> me_valid e) (mk_entries mk) of
        Some i \<Rightarrow> i
      | None \<Rightarrow> oldest_from (tl (mk_entries mk)) 1 0 (me_discovered_ms (hd (mk_entries mk))))"

text \<open>Reading the packed payload; the geohash bytes are the C string stored.\<close>

definition read_entry :: "i64 \<Rightarrow> u8 list \<Rightarrow> int \<Rightarrow> u8 list \<Rightarrow> market_entry" where
  "read_entry now sa rssi pl =
     (let gh_len = min (unat (pl ! 12)) TOLLGATE_IE_GEOHASH_MAX in
      \<lparr>me_bssid = sa, me_ssid = [], me_rssi = of_int rssi,
       me_price_per_step = of_le16 (pl ! 2) (pl ! 3),
       me_step_size = of_le32 (pl ! 4) (pl ! 5) (pl ! 6) (pl ! 7),
       me_metric = pl ! 1, me_mint_hash = take 4 (drop 8 pl), me_npub_hash = take 4 (drop 22 pl),
       me_geohash = take gh_len (drop 13 pl), me_discovered_ms = now, me_valid = True\<rparr>)"

definition market_store :: "market_entry \<Rightarrow> market \<Rightarrow> market" where
  "market_store e mk =
     (case find_entry_by_bssid mk (me_bssid e) of
        Some i \<Rightarrow> mk\<lparr>mk_entries := (mk_entries mk)[i := e]\<rparr>
      | None \<Rightarrow> mk\<lparr>mk_entries := (mk_entries mk)[find_free_slot mk := e],
                   mk_count := (if mk_count mk < TG_MARKET_MAX_ENTRIES then mk_count mk + 1 else mk_count mk)\<rparr>)"

definition market_parse_ie ::
  "i64 \<Rightarrow> u8 list \<Rightarrow> u8 list \<Rightarrow> u8 \<Rightarrow> u8 list \<Rightarrow> int \<Rightarrow> u8 list option \<Rightarrow> market \<Rightarrow> market" where
  "market_parse_ie now sa oui oui_type payload rssi self_npub mk =
     (if length payload < TOLLGATE_IE_PAYLOAD_SIZE then mk
      else if oui \<noteq> TOLLGATE_OUI then mk
      else if oui_type \<noteq> TOLLGATE_IE_TYPE then mk
      else if payload ! 0 \<noteq> TOLLGATE_IE_VERSION then mk
      else if (case self_npub of Some h \<Rightarrow> take 4 (drop 22 payload) = h | None \<Rightarrow> False) then mk
      else market_store (read_entry now sa rssi payload) mk)"

definition effective_price :: "market_entry \<Rightarrow> u32" where
  "effective_price e =
     (if me_metric e = 0 then ucast (me_price_per_step e) * 60000 div me_step_size e
      else ucast (me_price_per_step e) * 1048576 div me_step_size e)"

definition eligible :: "market_entry \<Rightarrow> bool" where
  "eligible e \<longleftrightarrow> me_valid e \<and> me_ssid e \<noteq> [] \<and> me_step_size e \<noteq> 0"

fun cheapest_from :: "market_entry list \<Rightarrow> nat \<Rightarrow> nat option \<Rightarrow> u32 \<Rightarrow> nat option" where
  "cheapest_from [] i cheapest best = cheapest"
| "cheapest_from (e # es) i cheapest best =
     (if eligible e \<and> effective_price e < best then cheapest_from es (Suc i) (Some i) (effective_price e)
      else cheapest_from es (Suc i) cheapest best)"

definition market_find_cheapest :: "market \<Rightarrow> nat option" where
  "market_find_cheapest mk = cheapest_from (mk_entries mk) 0 None UINT32_MAX"

text \<open>\<open>memcpy(entry->ssid, ssid, 32)\<close> and a terminating NUL: the C string of the first 32 bytes.\<close>

definition market_update_ssid :: "u8 list \<Rightarrow> string \<Rightarrow> i8 \<Rightarrow> market \<Rightarrow> market" where
  "market_update_ssid bssid ssid rssi mk =
     (case find_entry_by_bssid mk bssid of
        Some i \<Rightarrow> mk\<lparr>mk_entries := (mk_entries mk)[i := (mk_entries mk ! i)\<lparr>
                     me_ssid := c_str (take 32 ssid), me_rssi := rssi\<rparr>]\<rparr>
      | None \<Rightarrow> mk)"

section \<open>The table invariant\<close>

definition market_inv :: "market \<Rightarrow> bool" where
  "market_inv mk \<longleftrightarrow> length (mk_entries mk) = TG_MARKET_MAX_ENTRIES \<and>
     distinct (used me_valid me_bssid (mk_entries mk)) \<and> mk_count mk = count_if me_valid (mk_entries mk)"

lemma market_inv_init: "market_inv market_init"
  by (simp add: market_inv_def market_init_def zero_entry_def)

lemma oldest_from_range:
  "oldest < i \<Longrightarrow> oldest_from es i oldest t < i + length es"
  by (induction es i oldest t rule: oldest_from.induct) fastforce+

lemma find_free_slot_range:
  assumes "market_inv mk"
  shows "find_free_slot mk < length (mk_entries mk)"
proof (cases "first_idx (\<lambda>e. \<not> me_valid e) (mk_entries mk)")
  case None
  have "oldest_from (tl (mk_entries mk)) 1 0 t < 1 + length (tl (mk_entries mk))" for t
    by (rule oldest_from_range) simp
  then show ?thesis using None assms
    by (cases "mk_entries mk") (auto simp: find_free_slot_def market_inv_def TG_MARKET_MAX_ENTRIES_def)
next
  case (Some i)
  then show ?thesis using first_idx_SomeD[OF Some] by (simp add: find_free_slot_def)
qed

lemma market_write_known:
  assumes "market_inv mk" "find_entry_by_bssid mk b = Some i" "me_valid e" "me_bssid e = b"
  shows "market_inv (mk\<lparr>mk_entries := (mk_entries mk)[i := e]\<rparr>)"
proof -
  note i = first_idx_SomeD[OF assms(2)[unfolded find_entry_by_bssid_def]]
  have "used me_valid me_bssid ((mk_entries mk)[i := e]) = used me_valid me_bssid (mk_entries mk)"
    using i assms(3,4) by (intro used_keep) auto
  moreover from this have "count_if me_valid ((mk_entries mk)[i := e]) = count_if me_valid (mk_entries mk)"
    by (metis length_used)
  ultimately show ?thesis using assms(1) by (simp add: market_inv_def)
qed

lemma market_write_new:
  assumes inv: "market_inv mk" and new: "find_entry_by_bssid mk (me_bssid e) = None" and e: "me_valid e"
  defines "mk' \<equiv> mk\<lparr>mk_entries := (mk_entries mk)[find_free_slot mk := e],
    mk_count := (if mk_count mk < TG_MARKET_MAX_ENTRIES then mk_count mk + 1 else mk_count mk)\<rparr>"
  shows "market_inv mk'"
proof -
  let ?i = "find_free_slot mk" and ?es = "mk_entries mk"
  have i: "?i < length ?es" using find_free_slot_range[OF inv] .
  have "me_bssid e \<notin> set (used me_valid me_bssid ?es)"
    using new by (auto simp: find_entry_by_bssid_def first_idx_None_iff used_def)
  then have d: "distinct (used me_valid me_bssid (?es[?i := e]))"
    using inv e used_split[OF i, of me_valid me_bssid] by (auto simp: market_inv_def)
  have full: "me_valid (?es ! ?i) \<longleftrightarrow> mk_count mk = TG_MARKET_MAX_ENTRIES"
  proof (cases "first_idx (\<lambda>e. \<not> me_valid e) ?es")
    case None
    then show ?thesis
      using inv i count_if_all[of me_valid ?es] by (auto simp: first_idx_None_iff market_inv_def)
  next
    case (Some j)
    note j = first_idx_SomeD[OF Some]
    then show ?thesis
      using Some inv count_if_all[of me_valid ?es] by (auto simp: find_free_slot_def market_inv_def)
  qed
  have "mk_count mk \<le> TG_MARKET_MAX_ENTRIES" using inv count_if_le[of me_valid ?es] by (simp add: market_inv_def)
  then show ?thesis
    using d inv full count_if_update[OF i, of me_valid e] e by (auto simp: market_inv_def mk'_def)
qed

lemma read_entry_simps [simp]:
  "me_valid (read_entry now sa rssi pl)" "me_bssid (read_entry now sa rssi pl) = sa"
  by (simp_all add: read_entry_def Let_def)

lemma market_store_inv:
  assumes "market_inv mk" "me_valid e"
  shows "market_inv (market_store e mk)"
proof (cases "find_entry_by_bssid mk (me_bssid e)")
  case None
  then show ?thesis using market_write_new[OF assms(1) None assms(2)] unfolding market_store_def None by simp
next
  case (Some i)
  then show ?thesis using market_write_known[OF assms(1) Some assms(2)] unfolding market_store_def Some by simp
qed

lemma market_parse_ie_inv:
  assumes "market_inv mk"
  shows "market_inv (market_parse_ie now sa oui ty pl rssi self mk)"
  using assms market_store_inv[OF assms] by (simp add: market_parse_ie_def)

lemma market_store_entries:
  assumes "market_inv mk"
  obtains i where "i < length (mk_entries mk)" "mk_entries (market_store e mk) = (mk_entries mk)[i := e]"
proof (cases "find_entry_by_bssid mk (me_bssid e)")
  case None
  then show ?thesis using that[of "find_free_slot mk"] find_free_slot_range[OF assms] by (simp add: market_store_def)
next
  case (Some i)
  then show ?thesis using that[of i] first_idx_SomeD(1)[OF Some[unfolded find_entry_by_bssid_def]]
    by (simp add: market_store_def)
qed

section \<open>Beacon round trip\<close>

lemma of_le_bytes [simp]:
  "of_le16 (ucast w) (ucast (drop_bit 8 w)) = w"
  "of_le32 (ucast v) (ucast (drop_bit 8 v)) (ucast (drop_bit 16 v)) (ucast (drop_bit 24 v)) = v"
  by (simp_all add: of_le16_def of_le32_def)

lemma payload_layout:
  assumes "\<And>s. 4 \<le> length (sha s)"
  shows "length (beacon_payload sha cfg) = 26"
    and "beacon_payload sha cfg ! 0 = 1"
    and "beacon_payload sha cfg ! 1 = (if bc_metric cfg = ''bytes'' then 1 else 0)"
    and "of_le16 (beacon_payload sha cfg ! 2) (beacon_payload sha cfg ! 3) = of_int (bc_price_per_step cfg)"
    and "of_le32 (beacon_payload sha cfg ! 4) (beacon_payload sha cfg ! 5) (beacon_payload sha cfg ! 6)
      (beacon_payload sha cfg ! 7) =
        of_int (if bc_metric cfg = ''bytes'' then bc_step_size_bytes cfg else bc_step_size_ms cfg)"
    and "take 4 (drop 8 (beacon_payload sha cfg)) = beacon_hash sha (bc_mint_url cfg)"
    and "take (min (unat (beacon_payload sha cfg ! 12)) 9) (drop 13 (beacon_payload sha cfg)) =
      map of_char (take 9 (bc_geohash cfg))"
    and "take 4 (drop 22 (beacon_payload sha cfg)) =
      (if bc_identity_initialized cfg
            then (case bc_npub_hex cfg of Some h \<Rightarrow> beacon_hash sha h | None \<Rightarrow> replicate 4 0)
            else replicate 4 0)"
proof -
  have h: "length (beacon_hash sha s) = 4" for s using assms[of s] by (simp add: beacon_hash_def)
  obtain a b c d where m: "beacon_hash sha (bc_mint_url cfg) = [a, b, c, d]"
    using h[of "bc_mint_url cfg"] by (auto simp: numeral_eq_Suc length_Suc_conv)
  let ?n = "if bc_identity_initialized cfg
            then (case bc_npub_hex cfg of Some h \<Rightarrow> beacon_hash sha h | None \<Rightarrow> replicate 4 0)
            else replicate 4 (0 :: u8)"
  have n: "length ?n = 4" using h by (simp split: option.split)
  let ?gh = "take 9 (bc_geohash cfg)"
  have u: "unat (of_nat (length ?gh) :: u8) = length ?gh"
    by (simp add: unat_of_nat take_bit_nat_eq_self)
  note defs = beacon_payload_def Let_def le16_def le32_def m TOLLGATE_IE_GEOHASH_MAX_def TOLLGATE_IE_VERSION_def
  show "length (beacon_payload sha cfg) = 26" using n by (simp add: defs)
  show "beacon_payload sha cfg ! 0 = 1" "beacon_payload sha cfg ! 1 = (if bc_metric cfg = ''bytes'' then 1 else 0)"
    "of_le16 (beacon_payload sha cfg ! 2) (beacon_payload sha cfg ! 3) = of_int (bc_price_per_step cfg)"
    "of_le32 (beacon_payload sha cfg ! 4) (beacon_payload sha cfg ! 5) (beacon_payload sha cfg ! 6)
      (beacon_payload sha cfg ! 7) =
        of_int (if bc_metric cfg = ''bytes'' then bc_step_size_bytes cfg else bc_step_size_ms cfg)"
    "take 4 (drop 8 (beacon_payload sha cfg)) = beacon_hash sha (bc_mint_url cfg)"
    by (simp_all add: defs)
  show "take (min (unat (beacon_payload sha cfg ! 12)) 9) (drop 13 (beacon_payload sha cfg)) =
      map of_char (take 9 (bc_geohash cfg))"
    using u by (simp add: defs)
  show "take 4 (drop 22 (beacon_payload sha cfg)) = ?n"
    using n by (simp add: defs)
qed

lemma find_entry_unique:
  assumes "market_inv mk" "i < length (mk_entries mk)" "me_valid (mk_entries mk ! i)" "me_bssid (mk_entries mk ! i) = b"
  shows "find_entry_by_bssid mk b = Some i"
proof (cases "find_entry_by_bssid mk b")
  case None
  then show ?thesis using assms by (auto simp: find_entry_by_bssid_def first_idx_None_iff)
next
  case (Some j)
  note j = first_idx_SomeD[OF Some[unfolded find_entry_by_bssid_def]]
  have "j = i" using assms j used_distinct_index[of me_valid me_bssid "mk_entries mk" j i]
    by (simp add: market_inv_def)
  then show ?thesis using Some by simp
qed

text \<open>
  A beacon is understood by the gate that hears it: parsing the information element that
  \<open>build_ie\<close> writes records, under the sender's address, its metric, its price (modulo 2^16), its
  step size (modulo 2^32), the hash of its mint and its geohash, whatever the table held before, and
  keeps the table consistent (one entry per address). Only the beacon of a gate with our own
  identity is ignored.
\<close>

theorem market_beacon_roundtrip:
  assumes "\<And>s. 4 \<le> length (sha s)" "market_inv mk"
    and "\<forall>h. self = Some h \<longrightarrow> take 4 (drop 22 (beacon_payload sha cfg)) \<noteq> h"
  shows "let ie = beacon_build_ie sha cfg;
             mk' = market_parse_ie now sa (take 3 (drop 2 ie)) (ie ! 5) (drop 6 ie) rssi self mk
         in length ie = 32 \<and> market_inv mk' \<and>
            (\<exists>i e. find_entry_by_bssid mk' sa = Some i \<and> e = mk_entries mk' ! i \<and>
               me_metric e = (if bc_metric cfg = ''bytes'' then 1 else 0) \<and>
               me_price_per_step e = of_int (bc_price_per_step cfg) \<and>
               me_step_size e = of_int (if bc_metric cfg = ''bytes'' then bc_step_size_bytes cfg else bc_step_size_ms cfg) \<and>
               me_mint_hash e = beacon_hash sha (bc_mint_url cfg) \<and>
               me_geohash e = map of_char (take 9 (bc_geohash cfg)) \<and> me_discovered_ms e = now)"
proof -
  note l = payload_layout[OF assms(1), where cfg = cfg]
  define ie where "ie = beacon_build_ie sha cfg"
  have ie: "take 3 (drop 2 ie) = TOLLGATE_OUI" "ie ! 5 = TOLLGATE_IE_TYPE" "drop 6 ie = beacon_payload sha cfg"
    "length ie = 32"
    using l(1) by (simp_all add: ie_def beacon_build_ie_def TOLLGATE_OUI_def)
  let ?e = "read_entry now sa rssi (beacon_payload sha cfg)"
  define mk' where "mk' = market_parse_ie now sa (take 3 (drop 2 ie)) (ie ! 5) (drop 6 ie) rssi self mk"
  have mk': "mk' = market_store ?e mk"
    using assms(3) l(1,2) ie
    by (simp add: mk'_def market_parse_ie_def TOLLGATE_IE_PAYLOAD_SIZE_def TOLLGATE_IE_VERSION_def split: option.split)
  obtain i where i: "i < length (mk_entries mk)" "mk_entries mk' = (mk_entries mk)[i := ?e]"
    using market_store_entries[OF assms(2), of ?e] unfolding mk' .
  have inv: "market_inv mk'" unfolding mk'_def by (rule market_parse_ie_inv[OF assms(2)])
  have "find_entry_by_bssid mk' sa = Some i"
    by (rule find_entry_unique[OF inv]) (use i in simp_all)
  moreover have "mk_entries mk' ! i = ?e" using i by simp
  moreover have "me_metric ?e = (if bc_metric cfg = ''bytes'' then 1 else 0)"
    "me_price_per_step ?e = of_int (bc_price_per_step cfg)"
    "me_step_size ?e = of_int (if bc_metric cfg = ''bytes'' then bc_step_size_bytes cfg else bc_step_size_ms cfg)"
    "me_mint_hash ?e = beacon_hash sha (bc_mint_url cfg)"
    "me_geohash ?e = map of_char (take 9 (bc_geohash cfg))" "me_discovered_ms ?e = now"
    unfolding read_entry_def Let_def TOLLGATE_IE_GEOHASH_MAX_def by (simp_all only: market_entry.select_convs l)
  ultimately show ?thesis using ie(4) inv unfolding Let_def ie_def[symmetric] mk'_def[symmetric]
    by (intro conjI exI[of _ i] exI[of _ ?e]) (simp_all only:)
qed

definition demo_cfg :: beacon_config where
  "demo_cfg = \<lparr>bc_mint_url = ''https://mint'', bc_metric = ''bytes'', bc_price_per_step = 21, bc_step_size_ms = 60000,
     bc_step_size_bytes = 1048576, bc_geohash = ''u4pruyd'', bc_npub_hex = None, bc_identity_initialized = False\<rparr>"

theorem market_beacon_roundtrip_witness:
  "length (beacon_build_ie (\<lambda>s. replicate 32 7) demo_cfg) = 32"
proof -
  have h: "\<And>s. 4 \<le> length ((\<lambda>s :: string. replicate 32 (7 :: u8)) s)" by simp
  have v: "\<forall>h. None = Some h \<longrightarrow> take 4 (drop 22 (beacon_payload (\<lambda>s. replicate 32 7) demo_cfg)) \<noteq> h" by simp
  show ?thesis by (rule market_beacon_roundtrip[OF h market_inv_init v, unfolded Let_def, THEN conjunct1])
qed

section \<open>The cheapest gate\<close>

text \<open>\<open>k\<close> is the first of the cheapest eligible entries of \<open>es\<close>.\<close>

definition is_cheapest :: "market_entry list \<Rightarrow> nat \<Rightarrow> bool" where
  "is_cheapest es k \<longleftrightarrow> k < length es \<and> eligible (es ! k) \<and>
     (\<forall>j < length es. eligible (es ! j) \<longrightarrow> effective_price (es ! k) \<le> effective_price (es ! j)) \<and>
     (\<forall>j < k. eligible (es ! j) \<longrightarrow> effective_price (es ! k) < effective_price (es ! j))"

lemma is_cheapest_Cons:
  assumes "is_cheapest es k" "eligible x \<Longrightarrow> effective_price (es ! k) < effective_price x"
  shows "is_cheapest (x # es) (Suc k)"
  using assms unfolding is_cheapest_def by (auto simp: nth_Cons less_imp_le split: nat.split)

lemma is_cheapest_hd:
  assumes "eligible x" "\<forall>e \<in> set es. \<not> (eligible e \<and> effective_price e < effective_price x)"
  shows "is_cheapest (x # es) 0"
  using assms unfolding is_cheapest_def by (auto simp: nth_Cons not_less split: nat.split)

lemma cheapest_from_spec:
  "(\<forall>e \<in> set es. \<not> (eligible e \<and> effective_price e < best)) \<and> cheapest_from es i c best = c \<or>
   (\<exists>k. cheapest_from es i c best = Some (i + k) \<and> is_cheapest es k \<and> effective_price (es ! k) < best)"
proof (induction es i c best rule: cheapest_from.induct)
  case (1 i c best)
  then show ?case by simp
next
  case (2 x es i c best)
  show ?case
  proof (cases "eligible x \<and> effective_price x < best")
    case True
    from "2.IH"(1)[OF True] show ?thesis
    proof (elim disjE exE conjE)
      assume n: "\<forall>e \<in> set es. \<not> (eligible e \<and> effective_price e < effective_price x)"
        "cheapest_from es (Suc i) (Some i) (effective_price x) = Some i"
      then have "is_cheapest (x # es) 0" using True is_cheapest_hd by blast
      then show ?thesis using True n(2) by (intro disjI2 exI[of _ 0]) simp
    next
      fix k
      assume k: "cheapest_from es (Suc i) (Some i) (effective_price x) = Some (Suc i + k)" "is_cheapest es k"
        "effective_price (es ! k) < effective_price x"
      then have "is_cheapest (x # es) (Suc k)" by (intro is_cheapest_Cons)
      then show ?thesis using True k by (intro disjI2 exI[of _ "Suc k"]) (auto intro: less_trans)
    qed
  next
    case False
    have e: "cheapest_from (x # es) i c best = cheapest_from es (Suc i) c best" using False by (simp only: cheapest_from.simps if_False)
    from "2.IH"(2)[OF False] show ?thesis
    proof (elim disjE exE conjE)
      assume "\<forall>e \<in> set es. \<not> (eligible e \<and> effective_price e < best)" "cheapest_from es (Suc i) c best = c"
      then show ?thesis using False e by (intro disjI1) simp
    next
      fix k
      assume k: "cheapest_from es (Suc i) c best = Some (Suc i + k)" "is_cheapest es k" "effective_price (es ! k) < best"
      have "is_cheapest (x # es) (Suc k)" using k(2,3) False by (intro is_cheapest_Cons) (auto simp: not_less)
      then show ?thesis using k e by (intro disjI2 exI[of _ "Suc k"]) simp
    qed
  qed
qed

text \<open>
  The market picks the first of the cheapest gates: \<open>find_cheapest\<close> returns a slot with a valid
  entry that has a name and a nonzero step and whose effective price is minimal, the earliest such
  slot; it returns nothing only if no entry qualifies with a price below \<open>UINT32_MAX\<close>. For time
  prices the effective price is exactly \<open>price * 60000 / step\<close>; for byte prices \<open>price * 1048576 / step\<close>
  as long as the price is below 4096, and above that the 32-bit product wraps.
\<close>

theorem market_cheapest_minimal:
  "(case market_find_cheapest mk of
      Some k \<Rightarrow> is_cheapest (mk_entries mk) k
    | None \<Rightarrow> \<forall>e \<in> set (mk_entries mk). \<not> (eligible e \<and> effective_price e < UINT32_MAX)) \<and>
   (me_metric e = 0 \<longrightarrow> uint (effective_price e) = uint (me_price_per_step e) * 60000 div uint (me_step_size e)) \<and>
   (me_metric e \<noteq> 0 \<longrightarrow> uint (effective_price e) =
      (uint (me_price_per_step e) * 1048576 mod 2 ^ 32) div uint (me_step_size e))"
proof -
  have "case market_find_cheapest mk of
      Some k \<Rightarrow> is_cheapest (mk_entries mk) k
    | None \<Rightarrow> \<forall>e \<in> set (mk_entries mk). \<not> (eligible e \<and> effective_price e < UINT32_MAX)"
    using cheapest_from_spec[of "mk_entries mk" UINT32_MAX 0 None] by (auto simp: market_find_cheapest_def)
  moreover have p: "uint (ucast (me_price_per_step e) :: u32) = uint (me_price_per_step e)"
    by (simp add: unsigned_ucast_eq take_bit_int_eq_self_iff)
       (rule order.strict_trans[OF uint_lt2p[of "me_price_per_step e"]], simp)
  moreover have "uint (me_price_per_step e) * 60000 < 2 ^ 32"
    using uint_lt2p[of "me_price_per_step e"] by simp
  ultimately show ?thesis by (auto simp: effective_price_def uint_div uint_word_ariths)
qed

theorem market_cheapest_minimal_witness:
  "effective_price (zero_entry\<lparr>me_metric := 1, me_price_per_step := 4096, me_step_size := 1048576\<rparr>) = 0 \<and>
   is_cheapest [zero_entry\<lparr>me_valid := True, me_ssid := ''a'', me_step_size := 60000\<rparr>] 0"
  using market_cheapest_minimal[of "\<lparr>mk_entries = [zero_entry\<lparr>me_valid := True, me_ssid := ''a'', me_step_size := 60000\<rparr>],
      mk_count = 1\<rparr>" "zero_entry\<lparr>me_metric := 1, me_price_per_step := 4096, me_step_size := 1048576\<rparr>"]
  by (simp add: market_find_cheapest_def eligible_def effective_price_def zero_entry_def UINT32_MAX_def word_uint_eq_iff)

end
