(* ===== verification/TG_Client.thy ===== *)
theory TG_Client
  imports TG_Market
begin

text \<open>
  The gate as a client of another gate: parsing what the upstream gate answers
  (\<^verbatim>\<open>tollgate_core_client.c\<close>) and the state machine that detects, pays and renews
  (\<^verbatim>\<open>main/tollgate_client.c\<close>). The HTTP client and the wallet are parameters, read once per
  operation; the payments sent are recorded in the state.
\<close>

section \<open>Answers of the upstream gate\<close>

record discovery =
  is_tollgate :: bool
  di_price_per_step :: int
  di_step_size_ms :: int
  di_mint_url :: string
  di_metric :: string
  di_unit :: string
  di_mining_available :: bool
  di_mining_port :: u16

definition zero_discovery :: discovery where
  "zero_discovery = \<lparr>is_tollgate = False, di_price_per_step = 0, di_step_size_ms = 0, di_mint_url = [],
     di_metric = [], di_unit = [], di_mining_available = False, di_mining_port = 0\<rparr>"

text \<open>\<open>cJSON_GetArrayItem\<close> followed by \<open>cJSON_IsString\<close>.\<close>

definition item_str :: "json list \<Rightarrow> nat \<Rightarrow> string option" where
  "item_str xs i = (if i < length xs then json_str (Some (xs ! i)) else None)"

definition discovery_price :: "json list \<Rightarrow> discovery \<Rightarrow> discovery" where
  "discovery_price xs d =
     (let d1 = (case item_str xs 2 of Some s \<Rightarrow> d\<lparr>di_price_per_step := c_atoi s\<rparr> | None \<Rightarrow> d);
          d2 = (case item_str xs 3 of Some s \<Rightarrow> d1\<lparr>di_unit := c_strncpy 16 s\<rparr> | None \<Rightarrow> d1)
      in (case item_str xs 4 of Some s \<Rightarrow> d2\<lparr>di_mint_url := c_strncpy 256 s\<rparr> | None \<Rightarrow> d2))"

definition discovery_tag :: "json \<Rightarrow> discovery \<Rightarrow> discovery" where
  "discovery_tag tag d =
     (case json_arr (Some tag) of
        None \<Rightarrow> d
      | Some xs \<Rightarrow>
          if length xs < 2 then d
          else (case item_str xs 0 of
              None \<Rightarrow> d
            | Some name \<Rightarrow>
                if name = ''metric'' then
                  (case item_str xs 1 of Some s \<Rightarrow> d\<lparr>di_metric := c_strncpy 32 s\<rparr> | None \<Rightarrow> d)
                else if name = ''step_size'' then
                  (case item_str xs 1 of Some s \<Rightarrow> d\<lparr>di_step_size_ms := c_atoi s\<rparr> | None \<Rightarrow> d)
                else if name = ''price_per_step'' \<and> 3 \<le> length xs then
                  (if item_str xs 1 = Some ''mining'' then
                     (case item_str xs 2 of
                        Some s \<Rightarrow> d\<lparr>di_mining_available := True, di_mining_port := of_int (c_atoi s)\<rparr>
                      | None \<Rightarrow> d\<lparr>di_mining_available := True\<rparr>)
                   else if item_str xs 1 = Some ''cashu'' \<and> 6 \<le> length xs then discovery_price xs d
                   else d)
                else d))"

definition has_kind :: "json \<Rightarrow> int \<Rightarrow> bool" where
  "has_kind j k = (case json_num (json_get j ''kind'') of Some n \<Rightarrow> valueint n = k | None \<Rightarrow> False)"

definition client_parse_discovery :: "(string \<Rightarrow> json option) \<Rightarrow> string \<Rightarrow> discovery option" where
  "client_parse_discovery parse s =
     (case parse s of
        None \<Rightarrow> None
      | Some j \<Rightarrow>
          if \<not> has_kind j 10021 then None
          else
            (let d = zero_discovery\<lparr>is_tollgate := True, di_unit := ''sat''\<rparr> in
             case json_arr (json_get j ''tags'') of
               None \<Rightarrow> Some d
             | Some tags \<Rightarrow> Some (fold discovery_tag tags d)))"

definition session_tag :: "json \<Rightarrow> int \<Rightarrow> int" where
  "session_tag tag allotment =
     (case json_arr (Some tag) of
        None \<Rightarrow> allotment
      | Some xs \<Rightarrow>
          if item_str xs 0 = Some ''allotment'' then
            (case item_str xs 1 of Some s \<Rightarrow> c_atoll s | None \<Rightarrow> allotment)
          else allotment)"

text \<open>The out parameter keeps its value \<open>prev\<close> unless an allotment tag is found.\<close>

definition client_parse_session :: "(string \<Rightarrow> json option) \<Rightarrow> string \<Rightarrow> int \<Rightarrow> int option" where
  "client_parse_session parse s prev =
     (case parse s of
        None \<Rightarrow> None
      | Some j \<Rightarrow>
          if \<not> has_kind j 1022 then None
          else (case json_arr (json_get j ''tags'') of
                  Some tags \<Rightarrow> Some (fold session_tag tags prev)
                | None \<Rightarrow> Some prev))"

definition client_parse_usage :: "string \<Rightarrow> (int \<times> int) option" where
  "client_parse_usage resp =
     (case c_strchr CHR ''/'' resp of
        None \<Rightarrow> None
      | Some rlen \<Rightarrow>
          if 32 \<le> rlen then None
          else Some (c_atoll (take rlen resp), c_atoll (take 31 (drop (rlen + 1) resp))))"

section \<open>Arithmetic of the client\<close>

definition cint32 :: "int \<Rightarrow> int cres" where
  "cint32 i = (if - (2 ^ 31) \<le> i \<and> i < 2 ^ 31 then Ok i else Undef)"

definition cint64 :: "int \<Rightarrow> int cres" where
  "cint64 i = (if - (2 ^ 63) \<le> i \<and> i < 2 ^ 63 then Ok i else Undef)"

text \<open>C division truncates towards zero.\<close>

definition c_div :: "int \<Rightarrow> int \<Rightarrow> int" where
  "c_div a b = sgn a * sgn b * (\<bar>a\<bar> div \<bar>b\<bar>)"

text \<open>\<open>(int)\<close> of a 64-bit value.\<close>

definition to_int32 :: "int \<Rightarrow> int" where
  "to_int32 i = sint (of_int i :: i32)"

definition client_should_renew :: "int \<Rightarrow> int \<Rightarrow> int \<Rightarrow> bool cres" where
  "client_should_renew remaining_ms allotment_ms threshold_pct =
     (let threshold = (if threshold_pct \<le> 0 then 20 else threshold_pct) in
      if allotment_ms \<le> 0 \<or> remaining_ms < 0 then Ok False
      else cbind (cint64 (remaining_ms * 100)) (\<lambda>p.
             Ok (to_int32 (c_div p allotment_ms) \<le> threshold)))"

definition client_calc_price_per_min :: "int \<Rightarrow> int \<Rightarrow> int cres" where
  "client_calc_price_per_min price_per_step step_size_ms =
     (let step = (if step_size_ms \<le> 0 then 1 else step_size_ms) in
      cbind (cint32 (price_per_step * 60000)) (\<lambda>p. Ok (c_div p step)))"

definition client_calc_steps :: "int \<Rightarrow> int \<Rightarrow> int cres" where
  "client_calc_steps steps_to_buy price =
     (let steps = (if steps_to_buy \<le> 0 then 1 else steps_to_buy) in cint32 (steps * price))"

section \<open>The client's state machine\<close>

datatype tollgate_client_state =
    TG_CLIENT_IDLE | TG_CLIENT_DETECTING | TG_CLIENT_NO_TOLLGATE | TG_CLIENT_NEEDS_PAY | TG_CLIENT_PAYING
  | TG_CLIENT_PAID | TG_CLIENT_RENEWING | TG_CLIENT_MINING | TG_CLIENT_ERROR

record client_config =
  cc_client_enabled :: bool
  cc_steps_to_buy :: int
  cc_renewal_threshold_pct :: int
  cc_retry_interval_ms :: int

text \<open>
  The surroundings of one operation: the clock, the HTTP client (\<open>None\<close>: the request failed), the
  wallet's balance and its \<open>nucula_wallet_send\<close>, the JSON parser and the market table.
\<close>

record client_env =
  ce_now :: i64
  ce_get :: "string \<Rightarrow> (int \<times> string) option"
  ce_post :: "string \<Rightarrow> string \<Rightarrow> (int \<times> string) option"
  ce_balance :: u64
  ce_send :: "u64 \<Rightarrow> string option"
  ce_parse :: "string \<Rightarrow> json option"
  ce_market :: market
  ce_cfg :: client_config

record client_machine =
  cs_state :: tollgate_client_state
  cs_discovery :: discovery
  cs_gw_ip :: string
  cs_allotment_ms :: int
  cs_remaining_ms :: int
  cs_last_pay_time_ms :: i64
  cs_retry_count :: int
  cs_miner_running :: bool
  cs_payments :: "int list"

definition http_get :: "client_env \<Rightarrow> string \<Rightarrow> nat \<Rightarrow> (int \<times> string) option" where
  "http_get env url n = map_option (\<lambda>(status, body). (status, c_str (take (n - 1) body))) (ce_get env url)"

definition http_post_text :: "client_env \<Rightarrow> string \<Rightarrow> string \<Rightarrow> nat \<Rightarrow> (int \<times> string) option" where
  "http_post_text env url body n =
     map_option (\<lambda>(status, resp). (status, c_str (take (n - 1) resp))) (ce_post env url body)"

definition gate_url :: "string \<Rightarrow> string \<Rightarrow> string" where
  "gate_url gw path = take 127 (''http://'' @ gw @ '':2121/'' @ path)"

definition client_detect :: "client_env \<Rightarrow> string \<Rightarrow> discovery option" where
  "client_detect env gw =
     (case http_get env (gate_url gw []) 4096 of
        Some (status, body) \<Rightarrow> if status = 200 then client_parse_discovery (ce_parse env) body else None
      | None \<Rightarrow> None)"

text \<open>The allotment bought, or \<open>None\<close>; and whether a token left the wallet.\<close>

definition client_pay :: "client_env \<Rightarrow> string \<Rightarrow> int \<Rightarrow> int option \<times> bool" where
  "client_pay env gw amount_sats =
     (if ce_balance env < of_int amount_sats then (None, False)
      else (case ce_send env (of_int amount_sats) of
          None \<Rightarrow> (None, False)
        | Some token \<Rightarrow>
            (case http_post_text env (gate_url gw []) (c_str token) 8192 of
               None \<Rightarrow> (None, True)
             | Some (status, body) \<Rightarrow>
                 if status = 200 then (client_parse_session (ce_parse env) body 0, True) else (None, True))))"

definition client_query_usage :: "client_env \<Rightarrow> string \<Rightarrow> (int \<times> int) option" where
  "client_query_usage env gw =
     (case http_get env (gate_url gw ''usage'') 256 of
        Some (status, body) \<Rightarrow> if status = 200 then client_parse_usage body else None
      | None \<Rightarrow> None)"

definition client_init :: "client_machine \<Rightarrow> client_machine" where
  "client_init c = c\<lparr>cs_state := TG_CLIENT_IDLE, cs_discovery := zero_discovery, cs_gw_ip := [],
     cs_allotment_ms := 0, cs_remaining_ms := -1, cs_last_pay_time_ms := 0, cs_retry_count := 0\<rparr>"

definition client_boot :: client_machine where
  "client_boot = \<lparr>cs_state = TG_CLIENT_IDLE, cs_discovery = zero_discovery, cs_gw_ip = [], cs_allotment_ms = 0,
     cs_remaining_ms = -1, cs_last_pay_time_ms = 0, cs_retry_count = 0, cs_miner_running = False, cs_payments = []\<rparr>"

definition client_amount :: "client_env \<Rightarrow> client_machine \<Rightarrow> int cres" where
  "client_amount env c =
     (let steps = (if cc_steps_to_buy (ce_cfg env) \<le> 0 then 1 else cc_steps_to_buy (ce_cfg env)) in
      cint32 (steps * di_price_per_step (cs_discovery c)))"

definition note_payment :: "bool \<Rightarrow> int \<Rightarrow> client_machine \<Rightarrow> client_machine" where
  "note_payment sent amount c = (if sent then c\<lparr>cs_payments := cs_payments c @ [amount]\<rparr> else c)"

definition paid_up :: "client_env \<Rightarrow> int \<Rightarrow> client_machine \<Rightarrow> client_machine" where
  "paid_up env allotment c = c\<lparr>cs_allotment_ms := allotment, cs_remaining_ms := allotment,
     cs_last_pay_time_ms := ce_now env, cs_state := TG_CLIENT_PAID\<rparr>"

text \<open>The price comparison at the end only logs, but its arithmetic can overflow.\<close>

definition client_compare_market :: "client_env \<Rightarrow> client_machine \<Rightarrow> unit cres" where
  "client_compare_market env c =
     (case market_find_cheapest (ce_market env) of
        None \<Rightarrow> Ok ()
      | Some i \<Rightarrow>
          (let e = mk_entries (ce_market env) ! i in
           cbind (client_calc_price_per_min (di_price_per_step (cs_discovery c)) (di_step_size_ms (cs_discovery c)))
             (\<lambda>_. cbind (client_calc_price_per_min (uint (me_price_per_step e)) (sint (me_step_size e)))
             (\<lambda>_. Ok ()))))"

definition client_on_sta_connected :: "client_env \<Rightarrow> string \<Rightarrow> client_machine \<Rightarrow> client_machine cres" where
  "client_on_sta_connected env gw c =
     (if \<not> cc_client_enabled (ce_cfg env) then Ok c
      else
        (let c1 = c\<lparr>cs_gw_ip := c_strncpy 16 gw, cs_retry_count := 0\<rparr> in
         case client_detect env gw of
           None \<Rightarrow> Ok (c1\<lparr>cs_state := TG_CLIENT_NO_TOLLGATE\<rparr>)
         | Some d \<Rightarrow>
             (let c2 = c1\<lparr>cs_discovery := d, cs_miner_running := True\<rparr> in
              cbind (client_amount env c2) (\<lambda>amount.
                case client_pay env gw amount of
                  (None, sent) \<Rightarrow> Ok (note_payment sent amount (c2\<lparr>cs_state := TG_CLIENT_ERROR\<rparr>))
                | (Some allotment, sent) \<Rightarrow>
                    cbind (client_compare_market env c2) (\<lambda>_.
                      Ok (note_payment sent amount (paid_up env allotment c2)))))))"

definition client_on_sta_disconnected :: "client_machine \<Rightarrow> client_machine" where
  "client_on_sta_disconnected c = (client_init c)\<lparr>cs_miner_running := False\<rparr>"

definition client_retry :: "client_env \<Rightarrow> client_machine \<Rightarrow> client_machine cres" where
  "client_retry env c =
     (if sint (ce_now env - cs_last_pay_time_ms c) < cc_retry_interval_ms (ce_cfg env) then Ok c
      else if cs_gw_ip c = [] then Ok c
      else
        cbind (client_amount env c) (\<lambda>amount.
          case client_pay env (cs_gw_ip c) amount of
            (Some allotment, sent) \<Rightarrow> Ok (note_payment sent amount ((paid_up env allotment c)\<lparr>cs_retry_count := 0\<rparr>))
          | (None, sent) \<Rightarrow> Ok (note_payment sent amount (c\<lparr>cs_last_pay_time_ms := ce_now env,
              cs_retry_count := cs_retry_count c + 1, cs_state := TG_CLIENT_ERROR\<rparr>))))"

definition client_tick :: "client_env \<Rightarrow> client_machine \<Rightarrow> client_machine cres" where
  "client_tick env c =
     (if cs_state c \<notin> {TG_CLIENT_PAID, TG_CLIENT_RENEWING, TG_CLIENT_ERROR} then Ok c
      else if cs_state c = TG_CLIENT_ERROR then client_retry env c
      else if cs_gw_ip c = [] then Ok c
      else
        (let c1 = (case client_query_usage env (cs_gw_ip c) of
                     Some (remaining, whole) \<Rightarrow> c\<lparr>cs_remaining_ms := remaining, cs_allotment_ms := whole\<rparr>
                   | None \<Rightarrow> c) in
         cbind (client_should_renew (cs_remaining_ms c1) (cs_allotment_ms c1) (cc_renewal_threshold_pct (ce_cfg env)))
           (\<lambda>renew. if \<not> renew then Ok c1
              else cbind (client_amount env c1) (\<lambda>amount.
                case client_pay env (cs_gw_ip c) amount of
                  (Some allotment, sent) \<Rightarrow> Ok (note_payment sent amount (paid_up env allotment c1))
                | (None, sent) \<Rightarrow> Ok (note_payment sent amount (c1\<lparr>cs_state := TG_CLIENT_ERROR,
                    cs_last_pay_time_ms := ce_now env\<rparr>))))))"

section \<open>When the client renews\<close>

lemma c_div_nonneg: "0 \<le> a \<Longrightarrow> 0 < b \<Longrightarrow> c_div a b = a div b"
  by (cases "a = 0") (auto simp: c_div_def)

lemma to_int32_id: "- (2 ^ 31) \<le> i \<Longrightarrow> i < 2 ^ 31 \<Longrightarrow> to_int32 i = i"
  by (simp add: to_int32_def signed_of_int signed_take_bit_int_eq_self)

text \<open>
  The renewal rule: for a session of positive length of which \<open>remaining\<close> is left, below 2^56
  milliseconds, the client renews exactly when the remaining share, in whole percent, is at or
  below the threshold (20 if none is configured), that is when
  \<open>remaining * 100 < (threshold + 1) * allotment\<close>.
\<close>

theorem client_renewal_rule:
  assumes "0 < allotment" "0 \<le> remaining" "remaining \<le> allotment" "remaining < 2 ^ 56"
  shows "client_should_renew remaining allotment pct =
    Ok (remaining * 100 < ((if pct \<le> 0 then 20 else pct) + 1) * allotment)"
proof -
  let ?t = "if pct \<le> 0 then 20 else pct"
  have q: "0 \<le> remaining * 100 div allotment" "remaining * 100 div allotment \<le> 100"
    using assms zdiv_mono1[of "remaining * 100" "allotment * 100" allotment]
    by (simp_all add: pos_imp_zdiv_nonneg_iff)
  have e: "remaining * 100 div allotment \<le> t \<longleftrightarrow> remaining * 100 < (t + 1) * allotment" for t
  proof -
    let ?q = "remaining * 100 div allotment"
    have m: "?q * allotment \<le> remaining * 100" "remaining * 100 < (?q + 1) * allotment"
      using assms(1) mult_div_mod_eq[of allotment "remaining * 100"] pos_mod_sign[of allotment "remaining * 100"]
        pos_mod_bound[of allotment "remaining * 100"]
      unfolding mult.commute[of _ allotment] distrib_left by linarith+
    show ?thesis
    proof
      assume "?q \<le> t"
      then have "(?q + 1) * allotment \<le> (t + 1) * allotment" using assms(1) by (intro mult_right_mono) auto
      then show "remaining * 100 < (t + 1) * allotment" using m(2) by linarith
    next
      assume "remaining * 100 < (t + 1) * allotment"
      then have "?q * allotment < (t + 1) * allotment" using m(1) by linarith
      then show "?q \<le> t" using assms(1) mult_less_cancel_right_pos[of allotment ?q "t + 1"] by linarith
    qed
  qed
  have "cint64 (remaining * 100) = Ok (remaining * 100)" using assms by (simp add: cint64_def)
  moreover have "to_int32 (remaining * 100 div allotment) = remaining * 100 div allotment"
  proof (rule to_int32_id)
    show "- (2 ^ 31) \<le> remaining * 100 div allotment" by (rule order_trans[OF _ q(1)]) simp
    show "remaining * 100 div allotment < 2 ^ 31" by (rule le_less_trans[OF q(2)]) simp
  qed
  moreover have "c_div (remaining * 100) allotment = remaining * 100 div allotment"
    using assms by (intro c_div_nonneg) auto
  ultimately show ?thesis
    using assms(1,2) by (simp add: client_should_renew_def Let_def e)
qed

theorem client_renewal_rule_witness:
  "client_should_renew 12000 60000 20 = Ok True \<and> client_should_renew 30000 60000 20 = Ok False"
  using client_renewal_rule[of 60000 12000 20] client_renewal_rule[of 60000 30000 20] by simp

section \<open>Runs of the client\<close>

inductive client_step :: "client_machine \<Rightarrow> client_machine \<Rightarrow> bool" where
  connected: "client_on_sta_connected env gw c = Ok c' \<Longrightarrow> client_step c c'"
| disconnected: "client_step c (client_on_sta_disconnected c)"
| ticked: "client_tick env c = Ok c' \<Longrightarrow> client_step c c'"

inductive_cases client_stepE: "client_step c c'"

inductive client_reach :: "client_machine \<Rightarrow> bool" where
  boot: "client_reach client_boot"
| step: "client_reach c \<Longrightarrow> client_step c c' \<Longrightarrow> client_reach c'"

definition client_settled :: "client_machine \<Rightarrow> bool" where
  "client_settled c \<longleftrightarrow> cs_state c \<in> {TG_CLIENT_IDLE, TG_CLIENT_NO_TOLLGATE, TG_CLIENT_PAID, TG_CLIENT_ERROR} \<and>
     (cs_state c \<in> {TG_CLIENT_PAID, TG_CLIENT_ERROR} \<longrightarrow> is_tollgate (cs_discovery c) \<and> cs_miner_running c)"

lemma discovery_tag_is_tollgate [simp]: "is_tollgate (discovery_tag t d) = is_tollgate d"
  by (simp add: discovery_tag_def discovery_price_def Let_def split: option.split)

lemma parse_discovery_is_tollgate:
  assumes "client_parse_discovery parse s = Some d"
  shows "is_tollgate d"
proof -
  have "is_tollgate (fold discovery_tag tags d) = is_tollgate d" for tags d
    by (induction tags arbitrary: d) simp_all
  then show ?thesis using assms
    by (auto simp: client_parse_discovery_def Let_def split: option.splits if_splits)
qed

lemma client_detect_is_tollgate: "client_detect env gw = Some d \<Longrightarrow> is_tollgate d"
  by (auto simp: client_detect_def parse_discovery_is_tollgate split: option.splits if_splits)

definition client_ready :: "client_machine \<Rightarrow> bool" where
  "client_ready c \<longleftrightarrow> is_tollgate (cs_discovery c) \<and> cs_miner_running c"

lemma settled_note [simp]: "client_settled (note_payment sent a c) = client_settled c"
  by (simp add: note_payment_def client_settled_def)

lemma settled_paid_up:
  "client_ready c \<Longrightarrow> client_settled (paid_up env a c)"
  "client_ready c \<Longrightarrow> client_settled ((paid_up env a c)\<lparr>cs_retry_count := n\<rparr>)"
  by (simp_all add: paid_up_def client_settled_def client_ready_def)

lemma settled_error:
  "client_ready c \<Longrightarrow> client_settled (c\<lparr>cs_state := TG_CLIENT_ERROR\<rparr>)"
  "client_ready c \<Longrightarrow> client_settled (c\<lparr>cs_state := TG_CLIENT_ERROR, cs_last_pay_time_ms := t\<rparr>)"
  "client_ready c \<Longrightarrow> client_settled (c\<lparr>cs_last_pay_time_ms := t, cs_retry_count := n, cs_state := TG_CLIENT_ERROR\<rparr>)"
  by (simp_all add: client_settled_def client_ready_def)

lemmas settled_intros = settled_paid_up settled_error

lemma settled_ready:
  "client_settled c \<Longrightarrow> cs_state c = TG_CLIENT_PAID \<or> cs_state c = TG_CLIENT_ERROR \<Longrightarrow> client_ready c"
  by (auto simp: client_settled_def client_ready_def)

lemma settled_connected:
  assumes "client_settled c" "client_on_sta_connected env gw c = Ok c'"
  shows "client_settled c'"
proof (cases "cc_client_enabled (ce_cfg env)")
  case False
  then show ?thesis using assms by (simp add: client_on_sta_connected_def)
next
  case True
  note eq = assms(2)[unfolded client_on_sta_connected_def Let_def]
  show ?thesis
  proof (cases "client_detect env gw")
    case None
    then show ?thesis using eq True by (auto simp: client_settled_def)
  next
    case (Some d)
    let ?c = "c\<lparr>cs_gw_ip := c_strncpy 16 gw, cs_retry_count := 0, cs_discovery := d, cs_miner_running := True\<rparr>"
    have r: "client_ready ?c" using client_detect_is_tollgate[OF Some] by (simp add: client_ready_def)
    obtain amount where a: "client_amount env ?c = Ok amount" using eq True Some by (auto simp: cbind_Ok_iff)
    obtain res sent where p: "client_pay env gw amount = (res, sent)" by fastforce
    show ?thesis using eq True Some a p r
      by (cases res) (auto simp: cbind_Ok_iff intro: settled_intros)
  qed
qed

lemma settled_retry:
  assumes "client_ready c" "client_settled c" "client_retry env c = Ok c'"
  shows "client_settled c'"
proof (cases "c' = c")
  case True
  then show ?thesis using assms by simp
next
  case False
  then obtain amount where a: "client_amount env c = Ok amount"
    using assms(3) by (auto simp: client_retry_def cbind_Ok_iff split: if_splits)
  obtain res sent where p: "client_pay env (cs_gw_ip c) amount = (res, sent)" by fastforce
  show ?thesis using assms(1,3) a p False
    by (cases res) (auto simp: client_retry_def intro: settled_intros split: if_splits)
qed

lemma settled_tick:
  assumes "client_settled c" "client_tick env c = Ok c'"
  shows "client_settled c'"
proof -
  consider "c' = c" | "cs_state c = TG_CLIENT_ERROR" "client_retry env c = Ok c'"
    | "cs_state c = TG_CLIENT_PAID" "cs_gw_ip c \<noteq> []"
    using assms by (auto simp: client_tick_def client_settled_def split: if_splits)
  then show ?thesis
  proof cases
    case 3
    let ?c = "case client_query_usage env (cs_gw_ip c) of
        Some (remaining, whole) \<Rightarrow> c\<lparr>cs_remaining_ms := remaining, cs_allotment_ms := whole\<rparr> | None \<Rightarrow> c"
    have r: "client_ready ?c" and s: "client_settled ?c"
      using settled_ready[OF assms(1)] 3(1) assms(1)
      by (simp_all add: client_ready_def client_settled_def split: option.split prod.split)
    have eq: "client_tick env c = cbind (client_should_renew (cs_remaining_ms ?c) (cs_allotment_ms ?c)
        (cc_renewal_threshold_pct (ce_cfg env))) (\<lambda>renew. if \<not> renew then Ok ?c
          else cbind (client_amount env ?c) (\<lambda>amount. case client_pay env (cs_gw_ip c) amount of
            (Some allotment, sent) \<Rightarrow> Ok (note_payment sent amount (paid_up env allotment ?c))
          | (None, sent) \<Rightarrow> Ok (note_payment sent amount (?c\<lparr>cs_state := TG_CLIENT_ERROR,
              cs_last_pay_time_ms := ce_now env\<rparr>))))"
      using 3 by (simp add: client_tick_def Let_def)
    obtain renew where w: "client_should_renew (cs_remaining_ms ?c) (cs_allotment_ms ?c)
        (cc_renewal_threshold_pct (ce_cfg env)) = Ok renew"
      using assms(2) unfolding eq cbind_Ok_iff by blast
    show ?thesis
    proof (cases renew)
      case False
      then show ?thesis using assms(2) s unfolding eq w by simp
    next
      case True
      then obtain amount where a: "client_amount env ?c = Ok amount"
        using assms(2) unfolding eq w by (auto simp: cbind_Ok_iff)
      obtain res sent where p: "client_pay env (cs_gw_ip c) amount = (res, sent)" by fastforce
      show ?thesis using assms(2) True r unfolding eq w cbind.simps a
        by (cases res) (auto simp: p intro: settled_intros)
    qed
  qed (use assms settled_retry settled_ready in auto)
qed



fun client_ticks :: "client_env list \<Rightarrow> client_machine \<Rightarrow> client_machine cres" where
  "client_ticks [] c = Ok c"
| "client_ticks (e # es) c = cbind (client_tick e c) (client_ticks es)"

lemma usage_gone: "client_parse_usage ''-1/-1'' = Some (-1, -1)"
  by (simp add: client_parse_usage_def c_strchr_def c_atoll_def number_prefix_def is_space_def skip_sign_def
    skip_0x_def digit_in_def hex_val_def digits_value_def clamp_signed_def)

text \<open>
  A client that misses its renewal never pays again: once the upstream gate answers \<open>-1/-1\<close>
  (no session), every further tick leaves the client in the paid state without a payment, however
  often it is repeated, although it has no access any more.
\<close>

theorem client_expired_never_renews:
  assumes "cs_state c = TG_CLIENT_PAID" "cs_gw_ip c \<noteq> []"
    and "\<forall>e \<in> set envs. http_get e (gate_url (cs_gw_ip c) ''usage'') 256 = Some (200, ''-1/-1'')"
  shows "\<exists>c'. client_ticks envs c = Ok c' \<and> cs_state c' = TG_CLIENT_PAID \<and> cs_payments c' = cs_payments c"
  using assms
proof (induction envs arbitrary: c)
  case (Cons e es)
  let ?c = "c\<lparr>cs_remaining_ms := -1, cs_allotment_ms := -1\<rparr>"
  have "client_query_usage e (cs_gw_ip c) = Some (-1, -1)"
    using Cons.prems(3) usage_gone by (simp add: client_query_usage_def)
  then have "client_tick e c = Ok ?c"
    using Cons.prems(1,2) by (simp add: client_tick_def client_should_renew_def Let_def)
  moreover have "\<exists>c'. client_ticks es ?c = Ok c' \<and> cs_state c' = TG_CLIENT_PAID \<and> cs_payments c' = cs_payments ?c"
    using Cons.prems by (intro Cons.IH) simp_all
  ultimately show ?case by simp
qed simp

definition demo_client_env :: client_env where
  "demo_client_env = \<lparr>ce_now = 0, ce_get = (\<lambda>u. Some (200, ''-1/-1'')), ce_post = (\<lambda>u b. None), ce_balance = 0,
     ce_send = (\<lambda>a. None), ce_parse = (\<lambda>s. None), ce_market = market_init,
     ce_cfg = \<lparr>cc_client_enabled = True, cc_steps_to_buy = 1, cc_renewal_threshold_pct = 20, cc_retry_interval_ms = 1000\<rparr>\<rparr>"

theorem client_expired_never_renews_witness:
  "\<exists>c'. client_ticks [demo_client_env, demo_client_env]
      (client_boot\<lparr>cs_state := TG_CLIENT_PAID, cs_gw_ip := ''10.0.0.1''\<rparr>) = Ok c' \<and>
    cs_state c' = TG_CLIENT_PAID \<and> cs_payments c' = []"
  using client_expired_never_renews[of "client_boot\<lparr>cs_state := TG_CLIENT_PAID, cs_gw_ip := ''10.0.0.1''\<rparr>"
      "[demo_client_env, demo_client_env]"]
  by (simp add: http_get_def demo_client_env_def c_str_def client_boot_def)

end
