(* ===== verification/TG_Portal.thy ===== *)
theory TG_Portal
  imports TG_Session TG_Client
begin

text \<open>
  Portal helpers (\<^verbatim>\<open>tollgate_core_portal.c\<close>): the template engine of the captive page, the usage
  line and the list of captive-detection paths. The template loops follow the C code: the first
  pass counts how much longer the result is (in 32-bit \<open>size_t\<close> arithmetic), the second writes it. An
  empty key keeps the first loop from ending, so the loops are partial: \<open>None\<close> means no return.
\<close>

section \<open>Templates\<close>

partial_function (option) tpl_extra :: "string \<Rightarrow> string \<Rightarrow> string \<Rightarrow> u32 \<Rightarrow> u32 option" where
  "tpl_extra key val p extra =
     (case c_strstr p key of
        None \<Rightarrow> Some extra
      | Some i \<Rightarrow> tpl_extra key val (drop (i + length key) p)
                    (extra + (of_nat (length val) - of_nat (length key))))"

partial_function (option) tpl_write :: "string \<Rightarrow> string \<Rightarrow> string \<Rightarrow> string \<Rightarrow> string option" where
  "tpl_write key val p dst =
     (if p = [] then Some dst
      else (case c_strstr p key of
              None \<Rightarrow> Some (dst @ p)
            | Some i \<Rightarrow> tpl_write key val (drop (i + length key) p) (dst @ take i p @ val)))"

text \<open>The text written must fit the allocated buffer, terminator included.\<close>

definition fits :: "u32 \<Rightarrow> string \<Rightarrow> string cres" where
  "fits out_size out = (if length out + 1 \<le> unat out_size then Ok out else Undef)"

definition portal_template_replace :: "string \<Rightarrow> string \<Rightarrow> string \<Rightarrow> string cres option" where
  "portal_template_replace tpl key val =
     (case tpl_extra key val tpl 0 of
        None \<Rightarrow> None
      | Some extra \<Rightarrow> map_option (fits (of_nat (length tpl) + extra + 1)) (tpl_write key val tpl []))"

fun render_extra :: "string \<Rightarrow> (string \<times> string) list \<Rightarrow> u32 \<Rightarrow> u32 option" where
  "render_extra tpl [] extra = Some extra"
| "render_extra tpl ((key, val) # subs) extra =
     (case tpl_extra key val tpl extra of
        None \<Rightarrow> None
      | Some e \<Rightarrow> render_extra tpl subs e)"

fun earliest :: "string \<Rightarrow> (string \<times> string) list \<Rightarrow> (nat \<times> string \<times> string) option \<Rightarrow> (nat \<times> string \<times> string) option" where
  "earliest src [] best = best"
| "earliest src ((key, val) # subs) best =
     (case c_strstr src key of
        Some f \<Rightarrow> (if (case best of None \<Rightarrow> True | Some (b, _) \<Rightarrow> f < b) then earliest src subs (Some (f, key, val))
                   else earliest src subs best)
      | None \<Rightarrow> earliest src subs best)"

partial_function (option) render_write :: "(string \<times> string) list \<Rightarrow> string \<Rightarrow> string \<Rightarrow> string option" where
  "render_write subs src out =
     (if src = [] then Some out
      else (case earliest src subs None of
              None \<Rightarrow> Some (out @ src)
            | Some (i, key, val) \<Rightarrow> render_write subs (drop (i + length key) src) (out @ take i src @ val)))"

definition portal_render :: "string \<Rightarrow> (string \<times> string) list \<Rightarrow> string cres option" where
  "portal_render tpl subs =
     (case render_extra tpl subs 0 of
        None \<Rightarrow> None
      | Some extra \<Rightarrow> map_option (fits (of_nat (length tpl) + extra + 1)) (render_write subs tpl []))"

section \<open>Usage and captive paths\<close>

definition portal_calc_usage :: "tg_session \<Rightarrow> string \<Rightarrow> i64 \<Rightarrow> (int \<times> int) option cres" where
  "portal_calc_usage s metric now =
     (if \<not> active s then Ok None
      else if metric = ''bytes'' then
        cbind (cint64 (sint (allotment_bytes s) - sint (bytes_consumed s))) (\<lambda>r.
          Ok (Some (if r < 0 then 0 else r, sint (allotment_bytes s))))
      else
        cbind (cint64 (sint now - sint (start_time_ms s))) (\<lambda>elapsed.
        cbind (cint64 (sint (allotment_ms s) - elapsed)) (\<lambda>r.
          Ok (Some (if r < 0 then 0 else r, sint (allotment_ms s))))))"

definition portal_format_usage :: "tg_session \<Rightarrow> string \<Rightarrow> i64 \<Rightarrow> nat \<Rightarrow> string cres" where
  "portal_format_usage s metric now buf_size =
     cbind (portal_calc_usage s metric now) (\<lambda>u. Ok (take (buf_size - 1)
       (case u of
          None \<Rightarrow> ''-1/-1''
        | Some (r, t) \<Rightarrow> dec_of_int r @ ''/'' @ dec_of_nat (unat (of_int t :: u64)))))"

definition CAPTIVE_URIS :: "string list" where
  "CAPTIVE_URIS = [''/generate_204'', ''/hotspot-detect.html'', ''/canonical.html'', ''/success.txt'',
     ''/ncsi.txt'', ''/connecttest.txt'', ''/wpad.dat'']"

definition portal_is_captive_uri :: "string option \<Rightarrow> bool" where
  "portal_is_captive_uri uri = (case uri of None \<Rightarrow> False | Some u \<Rightarrow> u \<in> set CAPTIVE_URIS)"

section \<open>The template engine computes the substitution\<close>

function subst_all :: "string \<Rightarrow> string \<Rightarrow> string \<Rightarrow> string" where
  "subst_all key val p =
     (if key = [] then p
      else (case c_strstr p key of
              None \<Rightarrow> p
            | Some i \<Rightarrow> take i p @ val @ subst_all key val (drop (i + length key) p)))"
  by auto
termination
  by (relation "measure (\<lambda>(key, val, p). length p)") (auto dest!: c_strstr_bound simp flip: length_greater_0_conv)

declare subst_all.simps [simp del]

lemma tpl_extra_subst:
  assumes "key \<noteq> []"
  shows "tpl_extra key val p extra = Some (extra + of_nat (length (subst_all key val p)) - of_nat (length p))"
  using assms
proof (induction key val p arbitrary: extra rule: subst_all.induct)
  case (1 key val p)
  show ?case
  proof (cases "c_strstr p key")
    case None
    then show ?thesis using "1.prems" by (simp add: tpl_extra.simps[of _ _ p] subst_all.simps[of _ _ p])
  next
    case (Some i)
    note b = c_strstr_bound[OF Some]
    have "(of_nat (length p - (i + length key)) :: u32) = of_nat (length p) - of_nat i - of_nat (length key)"
      using b by (simp add: of_nat_diff)
    then show ?thesis
      using "1.IH"[OF "1.prems" Some "1.prems"] Some "1.prems" b
      by (simp add: tpl_extra.simps[of _ _ p] subst_all.simps[of _ _ p])
  qed
qed

lemma tpl_write_subst:
  assumes "key \<noteq> []"
  shows "tpl_write key val p dst = Some (dst @ subst_all key val p)"
  using assms
proof (induction key val p arbitrary: dst rule: subst_all.induct)
  case (1 key val p)
  show ?case
  proof (cases "p = [] \<or> c_strstr p key = None")
    case True
    then show ?thesis using "1.prems" by (auto simp: tpl_write.simps[of _ _ p] subst_all.simps[of _ _ p])
  next
    case False
    then obtain i where "c_strstr p key = Some i" by auto
    then show ?thesis using "1.IH"[OF "1.prems" _ "1.prems"] False "1.prems"
      by (simp add: tpl_write.simps[of _ _ p] subst_all.simps[of _ _ p])
  qed
qed

text \<open>
  The template engine returns, replaces every occurrence and never overruns its buffer: for a
  nonempty key and a result shorter than 2^32 - 1 characters, \<open>template_replace\<close> ends and returns the
  template with all occurrences of the key (from left to right, without overlap) replaced by the
  value, written into a buffer of exactly the right size.
\<close>

theorem portal_template_exact:
  assumes "key \<noteq> []" "length (subst_all key val tpl) + 1 < 2 ^ 32"
  shows "portal_template_replace tpl key val = Some (Ok (subst_all key val tpl)) \<and>
    tpl_extra key val tpl 0 = Some (of_nat (length (subst_all key val tpl)) - of_nat (length tpl))"
proof -
  let ?o = "subst_all key val tpl"
  have "of_nat (length ?o) + 1 = (of_nat (Suc (length ?o)) :: u32)" by simp
  moreover have "unat (of_nat (Suc (length ?o)) :: u32) = Suc (length ?o)"
    unfolding unat_of_nat using assms(2) by (intro mod_less) simp
  ultimately have "fits (of_nat (length ?o) + 1) ?o = Ok ?o" by (simp only: fits_def) simp
  then show ?thesis
    using tpl_extra_subst[OF assms(1), of val tpl 0] tpl_write_subst[OF assms(1), of val tpl "[]"]
    by (simp add: portal_template_replace_def)
qed

theorem portal_template_exact_witness:
  "portal_template_replace ''a{x}b{x}'' ''{x}'' ''12'' = Some (Ok ''a12b12'')"
proof -
  have "subst_all ''{x}'' ''12'' ''a{x}b{x}'' = ''a12b12''"
    by (simp add: subst_all.simps starts_with_def)
  then show ?thesis using portal_template_exact[of "''{x}''" "''12''" "''a{x}b{x}''"] by simp
qed

section \<open>The usage line round trip\<close>

lemma length_dec_of_nat: "n < 10 ^ Suc d \<Longrightarrow> length (dec_of_nat n) \<le> Suc d"
proof (induction d arbitrary: n)
  case 0
  then show ?case by (simp add: dec_of_nat.simps[of n])
next
  case (Suc d)
  show ?case
  proof (cases "n < 10")
    case True
    then show ?thesis by (simp add: dec_of_nat.simps[of n])
  next
    case False
    have "n div 10 < 10 ^ Suc d" using Suc.prems by (simp add: less_mult_imp_div_less mult.commute)
    then show ?thesis using Suc.IH False by (simp add: dec_of_nat.simps[of n])
  qed
qed

lemma c_atoll_dec: "n < 2 ^ 63 \<Longrightarrow> c_atoll (dec_of_nat n) = int n"
  using number_prefix_dec[of "[]" n] by (simp add: c_atoll_def clamp_signed_def)

lemma parse_usage_line:
  assumes "r < 2 ^ 63" "t < 2 ^ 63"
  shows "client_parse_usage (dec_of_nat r @ ''/'' @ dec_of_nat t) = Some (int r, int t)"
proof -
  have l: "length (dec_of_nat n) \<le> 19" if "n < 2 ^ 63" for n
    using length_dec_of_nat[of n 18] that by simp
  have nd: "CHR ''/'' \<notin> set (dec_of_nat r)"
  proof
    assume "CHR ''/'' \<in> set (dec_of_nat r)"
    then obtain d where "d < 10" "CHR ''/'' = hex_digit d" using dec_of_nat_digits by blast
    then show False using hex_digit_props(4)[of d] by simp
  qed
  then have "c_strchr CHR ''/'' (dec_of_nat r @ ''/'' @ dec_of_nat t) = Some (length (dec_of_nat r))"
    unfolding c_strchr_def first_idx_Some_iff
    by (auto simp: nth_append in_set_conv_nth)
  then show ?thesis
    using l[OF assms(1)] l[OF assms(2)] assms by (simp add: client_parse_usage_def c_atoll_dec)
qed

lemma cint64_diff: "0 \<le> a \<Longrightarrow> a < 2 ^ 63 \<Longrightarrow> 0 \<le> b \<Longrightarrow> b < 2 ^ 63 \<Longrightarrow> cint64 (a - b) = Ok (a - b)"
  by (simp add: cint64_def)

text \<open>
  What the portal says is what the client reads: for an active session with an allotment below
  2^63 and a clock not behind its start, the usage line fits its 64-byte buffer and parses back to
  the remaining and the total amount; and the remaining amount is zero exactly when the session is
  expired (same clock and metric).
\<close>

theorem portal_usage_roundtrip:
  assumes "active s" "payment_method s \<noteq> TG_PAYMENT_BYTES \<or> metric = ''bytes''"
    and "metric_is_bytes g \<longleftrightarrow> metric = ''bytes''" "time_ms env g = now"
    and "uint (allotment_ms s) < 2 ^ 63" "uint (allotment_bytes s) < 2 ^ 63" "uint (bytes_consumed s) < 2 ^ 63"
    and "0 \<le> sint (start_time_ms s)" "sint (start_time_ms s) \<le> sint now"
  shows "\<exists>line r t. portal_format_usage s metric now 64 = Ok line \<and> length line < 64 \<and>
    portal_calc_usage s metric now = Ok (Some (r, t)) \<and> client_parse_usage line = Some (r, t) \<and>
    (r = 0 \<longleftrightarrow> session_is_expired env g s)"
proof -
  let ?tot = "if metric = ''bytes'' then allotment_bytes s else allotment_ms s"
  let ?used = "if metric = ''bytes'' then uint (bytes_consumed s) else sint now - sint (start_time_ms s)"
  let ?r = "if uint ?tot - ?used < 0 then 0 else uint ?tot - ?used"
  have tot: "sint ?tot = uint ?tot" "uint ?tot < 2 ^ 63" using assms(5,6) sint_small by auto
  have u: "0 \<le> ?used" "?used < 2 ^ 63"
    using assms(7-9) sint_lt[of now] by auto
  have c: "portal_calc_usage s metric now = Ok (Some (?r, uint ?tot))"
  proof (cases "metric = ''bytes''")
    case True
    then show ?thesis
      using assms(1,6,7) cint64_diff[of "uint (allotment_bytes s)" "uint (bytes_consumed s)"]
      by (simp add: portal_calc_usage_def sint_small)
  next
    case False
    then show ?thesis
      using assms(1,5) u cint64_diff[of "sint now" "sint (start_time_ms s)"] assms(8,9) sint_lt[of now]
        sint_lt[of "start_time_ms s"] cint64_diff[of "uint (allotment_ms s)" "sint now - sint (start_time_ms s)"]
      by (simp add: portal_calc_usage_def sint_small)
  qed
  have r: "0 \<le> ?r" "?r \<le> uint ?tot" using u by auto
  have "?r < 2 ^ 63" using r(2) tot(2) by linarith
  then have nr: "nat ?r < 2 ^ 63" "unat ?tot < 2 ^ 63"
    using r(1) tot(2) by (simp_all add: nat_less_iff flip: nat_uint_eq)
  let ?line = "dec_of_nat (nat ?r) @ ''/'' @ dec_of_nat (unat ?tot)"
  have "length (dec_of_nat n) \<le> 19" if "n < 2 ^ 63" for n using length_dec_of_nat[of n 18] that by simp
  from this[OF nr(1)] this[OF nr(2)] have len: "length ?line < 64" by simp
  have f: "portal_format_usage s metric now 64 = Ok ?line"
    unfolding portal_format_usage_def c using r(1) len by (simp add: dec_of_int_def)
  have p: "client_parse_usage ?line = Some (?r, uint ?tot)"
    using parse_usage_line[OF nr] r(1) by (simp add: uint_nat[symmetric] flip: uint_nat)
  have e: "?r = 0 \<longleftrightarrow> session_is_expired env g s"
  proof (cases "metric = ''bytes''")
    case True
    then show ?thesis using assms(1,3) by (auto simp: session_is_expired_def word_le_def)
  next
    case False
    then show ?thesis using assms(1-5) tot(1) sint_diff_time[OF assms(8,9)] by (auto simp: session_is_expired_def)
  qed
  show ?thesis using c f p e len by (intro exI conjI)
qed

theorem portal_usage_roundtrip_witness:
  "\<exists>line r t. portal_format_usage demo_time_session ''milliseconds'' 1000 64 = Ok line \<and> length line < 64 \<and>
    portal_calc_usage demo_time_session ''milliseconds'' 1000 = Ok (Some (r, t)) \<and>
    client_parse_usage line = Some (r, t) \<and> (r = 0 \<longleftrightarrow> session_is_expired demo_env demo_gate demo_time_session)"
  by (rule portal_usage_roundtrip)
     (simp_all add: demo_time_session_def metric_is_bytes_def demo_gate_sessions demo_platform_def time_ms_def)

end
