(* ===== verification/TG_Mining.thy ===== *)
theory TG_Mining
  imports TG_Double
begin

text \<open>
  Mining as payment (\<^verbatim>\<open>components/tollgate_core/src/tollgate_core_mining.c\<close>): the table of
  mining clients with their share counts and hash rates, the network difficulty read from
  \<open>nbits\<close>, the hash price derived from it, and the conversion of hash rate into an allotment.
  \<open>now\<close> is the tick clock an operation reads. Hash rates and hash prices are \<open>double\<close>s.
\<close>

unbundle bit_operations_syntax

section \<open>Data\<close>

record mining_client_stats =
  mc_ip :: u32
  shares_accepted :: u64
  shares_rejected :: u64
  first_share_time_ms :: i64
  last_share_time_ms :: i64
  hashrate_ghs :: rat

record mining_state =
  m_clients :: "mining_client_stats list"
  m_client_count :: nat
  s_current_hashprice :: rat
  s_current_nbits :: u32
  s_current_difficulty :: u64

definition MINING_SHARE_WINDOW_S :: int where
  "MINING_SHARE_WINDOW_S = 30"

definition MINING_BLOCK_SUBSIDY_SATS :: u64 where
  "MINING_BLOCK_SUBSIDY_SATS = 312500000"

definition MINING_BLOCKS_PER_DAY :: u64 where
  "MINING_BLOCKS_PER_DAY = 144"

definition MINING_MAX_CLIENTS :: nat where
  "MINING_MAX_CLIENTS = 10"

definition zero_stats :: mining_client_stats where
  "zero_stats = \<lparr>mc_ip = 0, shares_accepted = 0, shares_rejected = 0, first_share_time_ms = 0,
     last_share_time_ms = 0, hashrate_ghs = 0\<rparr>"

definition mining_init :: mining_state where
  "mining_init = \<lparr>m_clients = replicate MINING_MAX_CLIENTS zero_stats, m_client_count = 0,
     s_current_hashprice = 0, s_current_nbits = 0, s_current_difficulty = 1\<rparr>"

section \<open>Difficulty and hash price\<close>

definition nbits_exponent :: "u32 \<Rightarrow> nat" where
  "nbits_exponent nbits = unat (drop_bit 24 nbits AND 0xFF)"

definition nbits_mantissa :: "u32 \<Rightarrow> u32" where
  "nbits_mantissa nbits = nbits AND 0x007FFFFF"

definition nbits_to_difficulty :: "u32 \<Rightarrow> u64 cres" where
  "nbits_to_difficulty nbits =
     (if nbits = 0 then Ok UINT64_MAX
      else
        (let e = nbits_exponent nbits; mantissa = nbits_mantissa nbits in
         if e \<le> 3 then
           (let m = drop_bit (8 * (3 - e)) mantissa in
            if m = 0 then Ok UINT64_MAX else Ok (0x00000000FFFF0000 div ucast m))
         else if 64 \<le> 8 * (e - 3) then Undef
         else
           (let tgt = push_bit (8 * (e - 3)) (ucast mantissa) :: u64 in
            if tgt = 0 then Ok UINT64_MAX
            else (let diff = 0x00000000FFFF0000 div tgt in Ok (if diff = 0 then 1 else diff)))))"

definition calc_hashprice_of :: "u64 \<Rightarrow> rat" where
  "calc_hashprice_of diff =
     (if diff = 0 \<or> diff = UINT64_MAX then 0
      else
        (let network_hashrate_th = d_div (d_mul (u2d diff) 4294967296) 1000000000000;
             daily_sats = d_mul (u2d MINING_BLOCK_SUBSIDY_SATS) (u2d MINING_BLOCKS_PER_DAY);
             sats_per_th_day = d_div daily_sats network_hashrate_th
         in d_div sats_per_th_day 1000))"

definition mining_calc_hashprice :: "u32 \<Rightarrow> rat cres" where
  "mining_calc_hashprice nbits = cbind (nbits_to_difficulty nbits) (\<lambda>diff. Ok (calc_hashprice_of diff))"

definition mining_calc_hashprice_override :: "u64 \<Rightarrow> rat" where
  "mining_calc_hashprice_override sats_per_ghs_day = u2d sats_per_ghs_day"

definition mining_validate_share :: "u8 list \<Rightarrow> u32 \<Rightarrow> u8 list \<Rightarrow> bool" where
  "mining_validate_share header80 nonce tgt = True"

definition mining_set_current_nbits :: "u32 \<Rightarrow> mining_state \<Rightarrow> mining_state cres" where
  "mining_set_current_nbits nbits m =
     cbind (nbits_to_difficulty nbits) (\<lambda>diff.
     cbind (mining_calc_hashprice nbits) (\<lambda>hp.
       Ok (m\<lparr>s_current_nbits := nbits, s_current_difficulty := diff, s_current_hashprice := hp\<rparr>)))"

definition mining_get_current_hashprice :: "mining_state \<Rightarrow> rat" where
  "mining_get_current_hashprice m = s_current_hashprice m"

section \<open>From hash rate to allotment\<close>

definition mining_shares_to_allotment_ms :: "rat \<Rightarrow> rat \<Rightarrow> int \<Rightarrow> int \<Rightarrow> u64 cres" where
  "mining_shares_to_allotment_ms ghs hashprice price_per_step step_size_ms =
     (if ghs \<le> 0 \<or> hashprice \<le> 0 \<or> price_per_step \<le> 0 then Ok 0
      else
        (let sats_per_ms = d_div (d_mul ghs hashprice) 86400000;
             steps_earned = d_div (d_mul sats_per_ms (i2d step_size_ms)) (i2d price_per_step)
         in cbind (d2u64 (Fin (d_mul steps_earned (i2d step_size_ms))))
              (\<lambda>allotment. Ok (if 0 < allotment then allotment else 1))))"

definition mining_shares_to_allotment_bytes :: "rat \<Rightarrow> rat \<Rightarrow> int \<Rightarrow> int \<Rightarrow> u64 cres" where
  "mining_shares_to_allotment_bytes ghs hashprice price_per_step step_size_bytes =
     (if ghs \<le> 0 \<or> hashprice \<le> 0 \<or> price_per_step \<le> 0 then Ok 0
      else
        (let sats_per_ms = d_div (d_mul ghs hashprice) 86400000;
             steps_earned = d_div (d_mul sats_per_ms 1000) (i2d price_per_step)
         in cbind (d2u64 (Fin (d_mul steps_earned (i2d step_size_bytes))))
              (\<lambda>allotment. Ok (if 0 < allotment then allotment else 1))))"

section \<open>The client table\<close>

definition mining_find :: "mining_state \<Rightarrow> u32 \<Rightarrow> nat option" where
  "mining_find m ip = first_idx (\<lambda>c. mc_ip c = ip) (take (m_client_count m) (m_clients m))"

definition stale :: "i64 \<Rightarrow> mining_client_stats \<Rightarrow> bool" where
  "stale now c \<longleftrightarrow> MINING_SHARE_WINDOW_S * 2000 < sint (now - last_share_time_ms c)"

definition mining_get_or_create_client :: "i64 \<Rightarrow> u32 \<Rightarrow> mining_state \<Rightarrow> nat option \<times> mining_state" where
  "mining_get_or_create_client now ip m =
     (case mining_find m ip of
        Some i \<Rightarrow> (Some i, m)
      | None \<Rightarrow>
          if MINING_MAX_CLIENTS \<le> m_client_count m then
            (case first_idx (stale now) (take MINING_MAX_CLIENTS (m_clients m)) of
               Some i \<Rightarrow> (Some i, m\<lparr>m_clients := (m_clients m)[i :=
                  zero_stats\<lparr>mc_ip := ip, first_share_time_ms := now\<rparr>]\<rparr>)
             | None \<Rightarrow> (None, m))
          else
            (Some (m_client_count m), m\<lparr>m_clients := (m_clients m)[m_client_count m :=
                zero_stats\<lparr>mc_ip := ip, first_share_time_ms := now\<rparr>],
              m_client_count := m_client_count m + 1\<rparr>))"

definition window_ms :: "i64 \<Rightarrow> i64 \<Rightarrow> int" where
  "window_ms t1 t0 = (let w = sint (t1 - t0) in if w < 1000 then 1000 else w)"

definition hashrate_of :: "u64 \<Rightarrow> int \<Rightarrow> u64 \<Rightarrow> rat" where
  "hashrate_of accepted window difficulty =
     (let window_s = d_div (i2d window) 1000;
          shares_per_s = d_div (u2d accepted) window_s;
          diff = (if 0 < difficulty then u2d difficulty else 1)
      in d_div (d_mul (d_mul shares_per_s diff) 4294967296) 1000000000)"

definition mining_update_hashrate :: "i64 \<Rightarrow> u32 \<Rightarrow> bool \<Rightarrow> mining_state \<Rightarrow> mining_state" where
  "mining_update_hashrate now ip accepted m =
     (case mining_get_or_create_client now ip m of
        (None, m1) \<Rightarrow> m1
      | (Some i, m1) \<Rightarrow>
          (let c = m_clients m1 ! i;
               c1 = (if accepted then c\<lparr>shares_accepted := shares_accepted c + 1\<rparr>
                     else c\<lparr>shares_rejected := shares_rejected c + 1\<rparr>)\<lparr>last_share_time_ms := now\<rparr>;
               w = window_ms (last_share_time_ms c1) (first_share_time_ms c1)
           in m1\<lparr>m_clients := (m_clients m1)[i := c1\<lparr>hashrate_ghs :=
                hashrate_of (shares_accepted c1) w (s_current_difficulty m1)\<rparr>]\<rparr>))"

definition mining_get_client_stats :: "mining_state \<Rightarrow> u32 \<Rightarrow> mining_client_stats option" where
  "mining_get_client_stats m ip = map_option (\<lambda>i. m_clients m ! i) (mining_find m ip)"

section \<open>The table invariant\<close>

definition mining_table :: "mining_state \<Rightarrow> mining_client_stats list" where
  "mining_table m = take (m_client_count m) (m_clients m)"

definition mining_inv :: "mining_state \<Rightarrow> bool" where
  "mining_inv m \<longleftrightarrow> length (m_clients m) = MINING_MAX_CLIENTS \<and> m_client_count m \<le> MINING_MAX_CLIENTS \<and>
     distinct (map mc_ip (mining_table m))"

lemma mining_inv_init: "mining_inv mining_init"
  by (simp add: mining_inv_def mining_init_def mining_table_def)

lemma mining_find_None: "mining_find m ip = None \<longleftrightarrow> ip \<notin> mc_ip ` set (mining_table m)"
  by (auto simp: mining_find_def first_idx_None_iff mining_table_def)

lemma mining_find_Some:
  assumes "mining_find m ip = Some i"
  shows "i < m_client_count m" "i < length (m_clients m)" "mc_ip (m_clients m ! i) = ip"
  using first_idx_SomeD[OF assms[unfolded mining_find_def]] by auto

lemma mining_find_eqI:
  assumes "mining_inv m" "i < m_client_count m" "mc_ip (m_clients m ! i) = ip"
  shows "mining_find m ip = Some i"
proof -
  have len: "length (mining_table m) = m_client_count m"
    using assms(1) by (simp add: mining_inv_def mining_table_def)
  have "mc_ip (mining_table m ! j) \<noteq> ip" if "j < i" for j
  proof -
    have "map mc_ip (mining_table m) ! j \<noteq> map mc_ip (mining_table m) ! i"
      using assms(1,2) that len by (subst nth_eq_iff_index_eq) (auto simp: mining_inv_def)
    then show ?thesis using assms(2,3) that len by (simp add: mining_table_def)
  qed
  then show ?thesis using assms(2,3) len
    by (auto simp: mining_find_def first_idx_Some_iff mining_table_def)
qed

text \<open>A new entry after the last one, and a new entry in place of an old one.\<close>

lemma mining_append:
  assumes "mining_inv m" "mining_find m (mc_ip c) = None" "m_client_count m < MINING_MAX_CLIENTS"
  defines "m' \<equiv> m\<lparr>m_clients := (m_clients m)[m_client_count m := c], m_client_count := m_client_count m + 1\<rparr>"
  shows "mining_inv m'" "mining_table m' = mining_table m @ [c]"
proof -
  have len: "length (m_clients m) = MINING_MAX_CLIENTS" using assms(1) by (simp add: mining_inv_def)
  then show t: "mining_table m' = mining_table m @ [c]"
    using assms(3) by (simp add: m'_def mining_table_def take_Suc_nth)
  show "mining_inv m'"
    using t assms(1-3) len mining_find_None[of m "mc_ip c"] by (auto simp: mining_inv_def m'_def)
qed

lemma mining_reuse:
  assumes "mining_inv m" "mining_find m (mc_ip c) = None" "i < m_client_count m"
  defines "m' \<equiv> m\<lparr>m_clients := (m_clients m)[i := c]\<rparr>"
  shows "mining_inv m'" "mining_table m' = (mining_table m)[i := c]"
proof -
  show t: "mining_table m' = (mining_table m)[i := c]"
    by (simp add: m'_def mining_table_def take_update_swap)
  have "distinct ((map mc_ip (mining_table m))[i := mc_ip c])"
    using assms(1,2) mining_find_None[of m "mc_ip c"]
    by (intro distinct_list_update) (auto simp: mining_inv_def)
  then show "mining_inv m'" using t assms(1) by (simp add: mining_inv_def m'_def map_update)
qed

definition fresh_stats :: "i64 \<Rightarrow> u32 \<Rightarrow> mining_client_stats" where
  "fresh_stats now ip = zero_stats\<lparr>mc_ip := ip, first_share_time_ms := now\<rparr>"

lemma mc_ip_fresh [simp]: "mc_ip (fresh_stats now ip) = ip"
  by (simp add: fresh_stats_def)

lemma get_or_create_cases:
  assumes inv: "mining_inv m" and eq: "mining_get_or_create_client now ip m = (r, m')"
  obtains (found) i where "mining_find m ip = Some i" "r = Some i" "m' = m"
  | (full) "mining_find m ip = None" "m_client_count m = MINING_MAX_CLIENTS"
      "\<forall>c \<in> set (mining_table m). \<not> stale now c" "r = None" "m' = m"
  | (new) "mining_find m ip = None" "m_client_count m < MINING_MAX_CLIENTS" "r = Some (m_client_count m)"
      "m' = m\<lparr>m_clients := (m_clients m)[m_client_count m := fresh_stats now ip],
         m_client_count := m_client_count m + 1\<rparr>"
  | (reuse) i where "mining_find m ip = None" "m_client_count m = MINING_MAX_CLIENTS" "r = Some i"
      "i < m_client_count m" "stale now (m_clients m ! i)"
      "m' = m\<lparr>m_clients := (m_clients m)[i := fresh_stats now ip]\<rparr>"
proof (cases "mining_find m ip")
  case (Some i)
  then have "r = Some i" "m' = m" using eq by (simp_all add: mining_get_or_create_client_def)
  with Some show ?thesis by (rule found)
next
  case None
  have len: "length (m_clients m) = MINING_MAX_CLIENTS" "m_client_count m \<le> MINING_MAX_CLIENTS"
    using inv by (simp_all add: mining_inv_def)
  note df = mining_get_or_create_client_def fresh_stats_def
  show ?thesis
  proof (cases "m_client_count m = MINING_MAX_CLIENTS")
    case False
    then have c: "m_client_count m < MINING_MAX_CLIENTS" using len by simp
    then have "r = Some (m_client_count m)" "m' = m\<lparr>m_clients := (m_clients m)[m_client_count m := fresh_stats now ip],
         m_client_count := m_client_count m + 1\<rparr>"
      using eq None by (simp_all add: df)
    with None c show ?thesis by (rule new)
  next
    case True
    show ?thesis
    proof (cases "first_idx (stale now) (take MINING_MAX_CLIENTS (m_clients m))")
      case None2: None
      then have "r = None" "m' = m" using eq None True by (simp_all add: df)
      moreover have "\<forall>c \<in> set (mining_table m). \<not> stale now c"
        using None2 True by (simp add: first_idx_None_iff mining_table_def)
      ultimately show ?thesis using None True by (intro full)
    next
      case (Some i)
      then have "r = Some i" "m' = m\<lparr>m_clients := (m_clients m)[i := fresh_stats now ip]\<rparr>"
        using eq None True by (simp_all add: df)
      moreover have "i < m_client_count m" "stale now (m_clients m ! i)"
        using first_idx_SomeD[OF Some] True by simp_all
      ultimately show ?thesis using None True by (intro reuse[of i])
    qed
  qed
qed

lemma mining_edit:
  assumes "mining_inv m" "mc_ip d = mc_ip (m_clients m ! i)"
  shows "mining_inv (m\<lparr>m_clients := (m_clients m)[i := d]\<rparr>)"
proof -
  have t: "mining_table (m\<lparr>m_clients := (m_clients m)[i := d]\<rparr>) = (mining_table m)[i := d]"
    by (simp add: mining_table_def take_update_swap)
  have "map mc_ip ((mining_table m)[i := d]) = map mc_ip (mining_table m)"
  proof (cases "i < length (mining_table m)")
    case True
    then show ?thesis using assms(2) by (simp add: map_update list_update_same_conv mining_table_def)
  qed (simp add: list_update_beyond)
  then show ?thesis using assms(1) t by (simp add: mining_inv_def)
qed

lemma get_or_create_spec:
  assumes "mining_inv m" "mining_get_or_create_client now ip m = (r, m')"
  shows "mining_inv m'" "r = Some i \<Longrightarrow> i < m_client_count m' \<and> mc_ip (m_clients m' ! i) = ip"
proof -
  have len: "length (m_clients m) = MINING_MAX_CLIENTS" "m_client_count m \<le> length (m_clients m)"
    using assms(1) by (simp_all add: mining_inv_def)
  from assms have "mining_inv m' \<and> (r = Some i \<longrightarrow> i < m_client_count m' \<and> mc_ip (m_clients m' ! i) = ip)"
  proof (cases rule: get_or_create_cases)
    case (found j)
    then show ?thesis using assms(1) mining_find_Some[OF found(1)] by auto
  next
    case new
    then show ?thesis
      using mining_append[OF assms(1), of "fresh_stats now ip"] len by simp
  next
    case (reuse j)
    then show ?thesis
      using mining_reuse[OF assms(1), of "fresh_stats now ip" j] len by simp
  qed (use assms in simp)
  then show "mining_inv m'" "r = Some i \<Longrightarrow> i < m_client_count m' \<and> mc_ip (m_clients m' ! i) = ip" by simp_all
qed

section \<open>Properties\<close>

text \<open>
  The mining table keeps one entry per client. Looking up a client returns its own slot,
  reusing a slot only when all ten are taken and that slot's client has not submitted a share for
  more than a minute; no other client loses its statistics. The lookup fails only when ten other
  clients have all been active within the last minute.
\<close>

theorem mining_client_slot:
  assumes "mining_inv m" "mining_get_or_create_client now ip m = (r, m')"
  shows "mining_inv m' \<and>
    (case r of
       Some i \<Rightarrow> i < m_client_count m' \<and> mc_ip (m_clients m' ! i) = ip \<and>
         (\<forall>c \<in> set (mining_table m). c \<in> set (mining_table m') \<or>
            (stale now c \<and> m_client_count m = MINING_MAX_CLIENTS))
     | None \<Rightarrow> m' = m \<and> m_client_count m = MINING_MAX_CLIENTS \<and>
         (\<forall>c \<in> set (mining_table m). mc_ip c \<noteq> ip \<and> \<not> stale now c))"
proof -
  have len: "length (m_clients m) = MINING_MAX_CLIENTS" "m_client_count m \<le> length (m_clients m)"
    using assms(1) by (simp_all add: mining_inv_def)
  from assms show ?thesis
  proof (cases rule: get_or_create_cases)
    case (found i)
    then show ?thesis using assms(1) mining_find_Some[OF found(1)] by simp
  next
    case full
    then show ?thesis using assms(1) mining_find_None[of m ip] by auto
  next
    case new
    note n = mining_append[OF assms(1), of "fresh_stats now ip", simplified, OF new(1,2)]
    show ?thesis using n new(2-4) len by simp
  next
    case (reuse i)
    note n = mining_reuse[OF assms(1), of "fresh_stats now ip", simplified, OF reuse(1,4)]
    have "c \<in> set (mining_table m') \<or> stale now c" if "c \<in> set (mining_table m)" for c
    proof -
      from that obtain j where j: "j < length (mining_table m)" "c = mining_table m ! j"
        by (auto simp: in_set_conv_nth)
      show ?thesis
      proof (cases "j = i")
        case True
        then show ?thesis using j reuse(4,5) by (simp add: mining_table_def)
      next
        case False
        then have "c = (mining_table m)[i := fresh_stats now ip] ! j" using j by simp
        then show ?thesis using j n(2) reuse(6) by (metis length_list_update nth_mem)
      qed
    qed
    then show ?thesis using n(1) reuse len by simp
  qed
qed

theorem mining_client_slot_witness:
  "mining_inv (snd (mining_get_or_create_client 5 7 mining_init))"
  using mining_client_slot[OF mining_inv_init surjective_pairing, of 5 7] by blast

lemma nbits_mantissa_small: "uint (ucast (nbits_mantissa nbits) :: u64) < 2 ^ 23"
proof -
  have "nbits_mantissa nbits = take_bit 23 nbits"
    by (simp add: nbits_mantissa_def take_bit_eq_mask mask_eq_exp_minus_1)
  then have "uint (nbits_mantissa nbits) < 2 ^ 23"
    by (metis take_bit_int_less_exp unsigned_take_bit_eq)
  then show ?thesis by (simp add: unsigned_ucast_eq take_bit_int_eq_self)
qed

lemma push_bit_exact:
  assumes "uint (w :: u64) * 2 ^ k < 2 ^ 64"
  shows "uint (push_bit k w) = uint w * 2 ^ k"
proof -
  have "uint (push_bit k w) = take_bit 64 (push_bit k (uint w))" by (simp add: unsigned_push_bit_eq)
  also have "\<dots> = uint w * 2 ^ k" using assms by (simp add: push_bit_eq_mult take_bit_int_eq_self)
  finally show ?thesis .
qed

text \<open>
  Where the difficulty of an \<open>nbits\<close> value is defined: the 64-bit shift is undefined exactly
  when the exponent byte is 11 or more. With an exponent from 4 to 8 and a nonzero mantissa the
  result is the quotient of the difficulty-1 constant and the target, and at least 1. Every
  difficulty that occurs on the Bitcoin network has an exponent above 20.
\<close>

theorem mining_nbits_difficulty:
  assumes "nbits \<noteq> 0"
  shows "(nbits_to_difficulty nbits = Undef \<longleftrightarrow> 11 \<le> nbits_exponent nbits) \<and>
    (4 \<le> nbits_exponent nbits \<and> nbits_exponent nbits \<le> 8 \<and> nbits_mantissa nbits \<noteq> 0 \<longrightarrow>
      (\<exists>d. nbits_to_difficulty nbits = Ok d \<and> uint d =
         max 1 (0xFFFF0000 div (uint (nbits_mantissa nbits) * 256 ^ (nbits_exponent nbits - 3)))))"
proof -
  let ?e = "nbits_exponent nbits" and ?m = "nbits_mantissa nbits"
  have "nbits_to_difficulty nbits = Undef \<longleftrightarrow> 11 \<le> ?e"
    using assms by (auto simp: nbits_to_difficulty_def Let_def)
  moreover have "\<exists>d. nbits_to_difficulty nbits = Ok d \<and> uint d = max 1 (0xFFFF0000 div (uint ?m * 256 ^ (?e - 3)))"
    if e: "4 \<le> ?e" "?e \<le> 8" and m: "?m \<noteq> 0"
  proof -
    let ?t = "push_bit (8 * (?e - 3)) (ucast ?m) :: u64"
    have p: "(256 :: int) ^ (?e - 3) = 2 ^ (8 * (?e - 3))" by (simp add: power_mult)
    have um: "uint (ucast ?m :: u64) = uint ?m"
      by (simp add: unsigned_ucast_eq take_bit_int_eq_self_iff)
         (rule order.strict_trans[OF uint_lt2p[of ?m]], simp)
    have "uint ?m * 2 ^ (8 * (?e - 3)) < 2 ^ 23 * 2 ^ 40"
    proof (rule mult_less_le_imp_less)
      show "uint ?m < 2 ^ 23" using nbits_mantissa_small[of nbits] um by simp
      show "(2 :: int) ^ (8 * (?e - 3)) \<le> 2 ^ 40" using e by (intro power_increasing) auto
    qed auto
    then have t: "uint ?t = uint ?m * 256 ^ (?e - 3)"
      using push_bit_exact[of "ucast ?m" "8 * (?e - 3)"] p um by simp
    have m0: "0 < uint ?m" using m by (simp add: word_neq_0_conv word_less_def)
    then have t0: "?t \<noteq> 0" using t by (auto simp: word_uint_eq_iff)
    let ?d = "0xFFFF0000 div ?t"
    have d: "uint ?d = 0xFFFF0000 div (uint ?m * 256 ^ (?e - 3))" by (simp add: uint_div t)
    have "nbits_to_difficulty nbits = Ok (if ?d = 0 then 1 else ?d)"
      using assms e t0 by (simp add: nbits_to_difficulty_def Let_def)
    moreover have "uint (if ?d = 0 then 1 else ?d) = max 1 (uint ?d)"
    proof (cases "?d = 0")
      case False
      then have "1 \<le> uint ?d" by (simp add: word_neq_0_conv word_less_def int_one_le_iff_zero_less)
      then show ?thesis using False by simp
    qed simp
    ultimately show ?thesis using d by auto
  qed
  ultimately show ?thesis by blast
qed

theorem mining_nbits_difficulty_witness:
  "nbits_to_difficulty 0x1d00ffff = Undef \<and> nbits_to_difficulty 0x04000001 = Ok 0xFFFF00"
  using mining_nbits_difficulty[of "0x1d00ffff"] mining_nbits_difficulty[of "0x04000001"]
  by (simp add: nbits_exponent_def nbits_to_difficulty_def nbits_mantissa_def)

lemma d2u64_pos:
  assumes "0 < d"
  shows "cbind (d2u64 (Fin d)) (\<lambda>a. Ok (if 0 < a then a else 1)) =
    (if \<lfloor>d\<rfloor> < 2 ^ 64 then Ok (of_int (max 1 \<lfloor>d\<rfloor>)) else Undef)"
proof -
  have t: "trunc_rat d = \<lfloor>d\<rfloor>" "0 \<le> \<lfloor>d\<rfloor>" using assms by (simp_all add: trunc_rat_def)
  have "0 < (of_int \<lfloor>d\<rfloor> :: u64) \<longleftrightarrow> 0 < \<lfloor>d\<rfloor>" if "\<lfloor>d\<rfloor> < 2 ^ 64"
    using t(2) that by (simp add: word_less_def uint_word_of_int_eq take_bit_int_eq_self)
  then show ?thesis using t by (auto simp: d2u64_def max_def)
qed

text \<open>
  What an accepted share earns: with positive inputs the allotment is the truncation of a
  double that differs from the exact value \<open>hashrate * price per day / ms per day * step / price
  * step\<close> by at most the five roundings of the computation, and never less than 1. Only a value
  of 2^64 or more (undefined in C) is not covered.
\<close>

theorem mining_allotment_ms_accuracy:
  assumes "0 < ghs" "0 < hp" "0 < price" "price < 2 ^ 31" "0 < step" "step < 2 ^ 31"
  shows "\<exists>d. near 5 d (ghs * hp / 86400000 * of_int step / of_int price * of_int step) \<and>
    mining_shares_to_allotment_ms ghs hp price step =
      (if \<lfloor>d\<rfloor> < 2 ^ 64 then Ok (of_int (max 1 \<lfloor>d\<rfloor>)) else Undef)"
proof -
  have i: "i2d step = of_int step" "i2d price = of_int price"
    using assms by (simp_all add: i2d_def fl_int)
  let ?d = "d_mul (d_div (d_mul (d_div (d_mul ghs hp) 86400000) (of_int step)) (of_int price)) (of_int step)"
  have five: "5 = Suc (Suc (Suc (Suc (Suc 0))))" by simp
  have "near 5 ?d (ghs * hp / 86400000 * of_int step / of_int price * of_int step)"
    unfolding five by (intro near_mul near_div near_refl) (use assms in simp_all)
  moreover from near_pos[OF this]
  have "mining_shares_to_allotment_ms ghs hp price step =
      (if \<lfloor>?d\<rfloor> < 2 ^ 64 then Ok (of_int (max 1 \<lfloor>?d\<rfloor>)) else Undef)"
    using assms by (simp add: mining_shares_to_allotment_ms_def Let_def i d2u64_pos not_le)
  ultimately show ?thesis by blast
qed

theorem mining_allotment_ms_accuracy_witness:
  "\<exists>d. near 5 d (100 * 50 / 86400000 * 60000 / 21 * 60000) \<and>
    mining_shares_to_allotment_ms 100 50 21 60000 =
      (if \<lfloor>d\<rfloor> < 2 ^ 64 then Ok (of_int (max 1 \<lfloor>d\<rfloor>)) else Undef)"
  using mining_allotment_ms_accuracy[of 100 50 21 60000] by simp

end
