(* ===== verification/TG_Core.thy ===== *)
theory TG_Core
  imports TG_Session TG_Cashu TG_Mining
begin

text \<open>
  The core of the gate (\<^verbatim>\<open>components/tollgate_core/src/tollgate_core.c\<close>): payments, the owner of
  the device, the periodic tick and the rewards for accepted mining shares, composed from the
  session manager, the firewall, the token code and the mining table. The two handlers of the
  captive portal that change access (\<^verbatim>\<open>main/captive_portal.c\<close>) are here as well. The last
  section puts the operations together as a step relation and proves what holds in every
  reachable state.
\<close>

section \<open>State\<close>

record core_state =
  core_sess :: sess_state
  core_mining :: mining_state
  core_platform :: "tollgate_platform option"
  core_ap_ip :: u32
  s_owner_ip :: u32
  s_owner_mac :: "u8 list"
  s_owner_connected :: bool
  core_share_events :: "rat list"

definition core_boot :: core_state where
  "core_boot = \<lparr>core_sess = sess_boot, core_mining = mining_init, core_platform = None, core_ap_ip = 0,
     s_owner_ip = 0, s_owner_mac = replicate 6 0, s_owner_connected = False, core_share_events = []\<rparr>"

abbreviation core_net :: "core_state \<Rightarrow> net_state" where
  "core_net st \<equiv> sess_net (core_sess st)"

definition core_init :: "tollgate_platform option \<Rightarrow> u32 \<Rightarrow> core_state \<Rightarrow> bool \<times> core_state" where
  "core_init platform ap_ip st =
     (case platform of
        None \<Rightarrow> (False, st)
      | Some p \<Rightarrow>
          (let g1 = session_init (session_set_platform platform (core_sess st));
               g2 = g1\<lparr>sess_net := fw_init ap_ip (sess_net g1)\<rparr>
           in (True, st\<lparr>core_platform := platform, core_ap_ip := ap_ip, s_owner_connected := False,
                s_owner_mac := replicate 6 0, core_sess := g2\<rparr>)))"

definition core_dns_start :: "u32 \<Rightarrow> core_state \<Rightarrow> core_state" where
  "core_dns_start upstream st = st\<lparr>core_sess := (core_sess st)\<lparr>sess_net :=
     (core_net st)\<lparr>net_dns := dns_start_internal (core_ap_ip st) upstream (net_dns (core_net st))\<rparr>\<rparr>\<rparr>"

definition core_dns_stop :: "core_state \<Rightarrow> core_state" where
  "core_dns_stop st = st\<lparr>core_sess := (core_sess st)\<lparr>sess_net :=
     (core_net st)\<lparr>net_dns := dns_stop (net_dns (core_net st))\<rparr>\<rparr>\<rparr>"

section \<open>Payments\<close>

text \<open>The metric string; a callback that returns \<open>NULL\<close> is passed to \<open>strcmp\<close>.\<close>

definition core_metric :: "tollgate_platform \<Rightarrow> string cres" where
  "core_metric p = (case get_metric p of
       None \<Rightarrow> Ok ''milliseconds''
     | Some None \<Rightarrow> Undef
     | Some (Some m) \<Rightarrow> Ok m)"

definition core_price :: "tollgate_platform \<Rightarrow> u64" where
  "core_price p = (case get_price_sats p of Some v \<Rightarrow> ucast v | None \<Rightarrow> 21)"

definition core_step_size :: "tollgate_platform \<Rightarrow> string \<Rightarrow> u64" where
  "core_step_size p metric =
     (if metric = ''bytes''
      then (case get_step_bytes p of Some v \<Rightarrow> scast v | None \<Rightarrow> 22020096)
      else (case get_step_ms p of Some v \<Rightarrow> scast v | None \<Rightarrow> 60000))"

definition core_mint :: "tollgate_platform \<Rightarrow> string option" where
  "core_mint p = (case get_mint_url p of
       Some (Some u) \<Rightarrow> if u = [] then None else Some u
     | _ \<Rightarrow> None)"

definition create_metered :: "op_env \<Rightarrow> string \<Rightarrow> u32 \<Rightarrow> u64 \<Rightarrow> sess_state \<Rightarrow> nat option \<times> sess_state" where
  "create_metered env metric ip allotment g =
     (if metric = ''bytes'' then session_create_bytes env ip allotment g else session_create env ip allotment g)"

text \<open>The checks a token has to pass, up to and including the wallet callback.\<close>

definition core_accept_token :: "cashu_ext \<Rightarrow> tollgate_platform \<Rightarrow> string \<Rightarrow> tg_cashu_token cres" where
  "core_accept_token ext p token_str =
     (case core_mint p of
        None \<Rightarrow> Fail
      | Some accepted_mint \<Rightarrow>
          cbind (cashu_decode_token ext token_str) (\<lambda>token.
            if \<not> cashu_is_mint_accepted (tok_mint_url token) accepted_mint then Fail
            else
              (case cashu_check_proof_states ext (tok_mint_url token) token of
                 None \<Rightarrow> Fail
               | Some states \<Rightarrow>
                   if list_ex spent states then Fail
                   else if (case spend_proofs p of Some f \<Rightarrow> \<not> f token_str | None \<Rightarrow> False) then Fail
                   else Ok token)))"

definition core_process_payment ::
  "cashu_ext \<Rightarrow> op_env \<Rightarrow> u32 \<Rightarrow> string option \<Rightarrow> core_state \<Rightarrow> (bool \<times> core_state) cres" where
  "core_process_payment ext env ip token_str st =
     (case (core_platform st, token_str) of
        (Some p, Some tstr) \<Rightarrow>
          (case core_accept_token ext p tstr of
             Undef \<Rightarrow> Undef
           | Fail \<Rightarrow> Ok (False, st)
           | Ok token \<Rightarrow>
               cbind (core_metric p) (\<lambda>metric.
                 (let allotment = cashu_calculate_allotment (tok_total_amount token) (core_price p)
                                    (core_step_size p metric) in
                  if allotment = 0 then Ok (False, st)
                  else
                    (case create_metered env metric ip allotment (core_sess st) of
                       (r, g) \<Rightarrow> Ok (r \<noteq> None, st\<lparr>core_sess := g\<rparr>)))))
      | _ \<Rightarrow> Ok (False, st))"

section \<open>The owner\<close>

definition core_client_connected :: "u8 list option \<Rightarrow> u32 \<Rightarrow> core_state \<Rightarrow> core_state" where
  "core_client_connected hw ip st =
     (if \<not> s_owner_connected st
      then st\<lparr>s_owner_connected := True, s_owner_ip := ip,
              s_owner_mac := (case hw of Some m \<Rightarrow> m | None \<Rightarrow> s_owner_mac st)\<rparr>
      else st)"

text \<open>The first six bytes of the text of a session's MAC, as \<open>memcmp\<close> sees them.\<close>

definition mac_text6 :: "string \<Rightarrow> u8 list" where
  "mac_text6 s = take 6 (map of_char s @ replicate 6 0)"

definition core_client_disconnected :: "u8 list option \<Rightarrow> core_state \<Rightarrow> core_state" where
  "core_client_disconnected hw st =
     (if \<not> s_owner_connected st then st
      else (case hw of
              None \<Rightarrow> st
            | Some m \<Rightarrow>
                if s_owner_mac st = m then
                  (let st1 = st\<lparr>s_owner_connected := False, s_owner_mac := replicate 6 0\<rparr> in
                   if 0 < fw_client_count (core_net st) then
                     (case first_idx (\<lambda>s. active s \<and> mac s \<noteq> [] \<and> mac_text6 (mac s) \<noteq> m)
                             (s_sessions (core_sess st)) of
                        Some i \<Rightarrow> st1\<lparr>s_owner_connected := True,
                                      s_owner_ip := client_ip (s_sessions (core_sess st) ! i)\<rparr>
                      | None \<Rightarrow> st1)
                   else st1)
                else st))"

definition core_is_owner :: "core_state \<Rightarrow> u32 \<Rightarrow> bool" where
  "core_is_owner st ip \<longleftrightarrow> s_owner_connected st \<and> s_owner_ip st = ip"

definition core_is_owner_connected :: "core_state \<Rightarrow> bool" where
  "core_is_owner_connected st = s_owner_connected st"

section \<open>Tick and queries\<close>

definition core_tick :: "op_env \<Rightarrow> core_state \<Rightarrow> core_state" where
  "core_tick env st = st\<lparr>core_sess := session_tick env (core_sess st)\<rparr>"

definition core_is_client_allowed :: "core_state \<Rightarrow> u32 \<Rightarrow> bool" where
  "core_is_client_allowed st ip = fw_is_allowed (core_net st) ip"

definition core_is_dns_running :: "core_state \<Rightarrow> bool" where
  "core_is_dns_running st = dns_is_running (net_dns (core_net st))"

definition core_active_session_count :: "core_state \<Rightarrow> nat" where
  "core_active_session_count st = session_active_count (core_sess st)"

definition core_allowed_client_count :: "core_state \<Rightarrow> nat" where
  "core_allowed_client_count st = fw_client_count (core_net st)"

definition core_status_json :: "core_state \<Rightarrow> json" where
  "core_status_json st = JObj
     [(''ownerConnected'', JBool (s_owner_connected st)),
      (''activeSessions'', json_int (int (core_active_session_count st))),
      (''allowedClients'', json_int (int (core_allowed_client_count st))),
      (''dnsRunning'', JBool (core_is_dns_running st))]"

text \<open>\<open>cJSON_AddStringToObject\<close> with a \<open>NULL\<close> string adds nothing.\<close>

definition core_config_json :: "core_state \<Rightarrow> json" where
  "core_config_json st = JObj (case core_platform st of None \<Rightarrow> [] | Some p \<Rightarrow>
     (case get_price_sats p of Some v \<Rightarrow> [(''priceSats'', json_int (uint v))] | None \<Rightarrow> []) @
     (case get_step_ms p of Some v \<Rightarrow> [(''stepMs'', json_int (sint v))] | None \<Rightarrow> []) @
     (case get_mint_url p of Some (Some u) \<Rightarrow> [(''mintUrl'', JStr u)] | _ \<Rightarrow> []) @
     (case get_metric p of Some (Some m) \<Rightarrow> [(''metric'', JStr m)] | _ \<Rightarrow> []) @
     (case get_step_bytes p of Some v \<Rightarrow> [(''stepBytes'', json_int (sint v))] | None \<Rightarrow> []))"

section \<open>Mining rewards\<close>

definition core_calc_hashprice :: "core_state \<Rightarrow> rat" where
  "core_calc_hashprice st =
     (case core_platform st of
        None \<Rightarrow> 0
      | Some p \<Rightarrow>
          (case get_hashprice_sats_per_ghs_day p of
             Some v \<Rightarrow> if 0 < v then mining_calc_hashprice_override v
                       else mining_get_current_hashprice (core_mining st)
           | None \<Rightarrow> mining_get_current_hashprice (core_mining st)))"

definition share_allotment :: "tollgate_platform \<Rightarrow> string \<Rightarrow> rat \<Rightarrow> rat \<Rightarrow> u64 cres" where
  "share_allotment p metric ghs hashprice =
     (let price = (case get_price_sats p of Some v \<Rightarrow> uint v | None \<Rightarrow> 21) in
      if metric = ''bytes''
      then mining_shares_to_allotment_bytes ghs hashprice price
             (case get_step_bytes p of Some v \<Rightarrow> sint v | None \<Rightarrow> 22020096)
      else mining_shares_to_allotment_ms ghs hashprice price
             (case get_step_ms p of Some v \<Rightarrow> sint v | None \<Rightarrow> 60000))"

definition credit_share :: "op_env \<Rightarrow> string \<Rightarrow> u32 \<Rightarrow> u64 \<Rightarrow> sess_state \<Rightarrow> sess_state" where
  "credit_share env metric ip allotment g =
     (case session_find_by_ip g ip of
        None \<Rightarrow>
          (case create_metered env metric ip allotment g of
             (Some i, g1) \<Rightarrow> g1\<lparr>s_sessions := (s_sessions g1)[i := (s_sessions g1 ! i)\<lparr>
                payment_method := TG_PAYMENT_MINING\<rparr>]\<rparr>
           | (None, g1) \<Rightarrow> g1)
      | Some i \<Rightarrow> session_extend i allotment g)"

definition core_on_share_accepted :: "op_env \<Rightarrow> u32 \<Rightarrow> rat \<Rightarrow> core_state \<Rightarrow> core_state cres" where
  "core_on_share_accepted env ip difficulty st =
     (case core_platform st of
        None \<Rightarrow> Ok st
      | Some p \<Rightarrow>
          (let st1 = st\<lparr>core_mining := mining_update_hashrate (env_ticks_ms env) ip True (core_mining st)\<rparr> in
           case mining_get_client_stats (core_mining st1) ip of
             None \<Rightarrow> Ok st1
           | Some stats \<Rightarrow>
               (let hashprice = core_calc_hashprice st1 in
                if hashprice \<le> 0 then Ok st1
                else
                  cbind (core_metric p) (\<lambda>metric.
                  cbind (share_allotment p metric (hashrate_ghs stats) hashprice) (\<lambda>allotment.
                    if allotment = 0 then Ok st1
                    else Ok (st1\<lparr>core_sess := credit_share env metric ip allotment (core_sess st1),
                       core_share_events := core_share_events st1 @
                         (if has_on_share_accepted p then [difficulty] else [])\<rparr>))))))"

definition core_set_nbits :: "u32 \<Rightarrow> core_state \<Rightarrow> core_state cres" where
  "core_set_nbits nbits st =
     cbind (mining_set_current_nbits nbits (core_mining st)) (\<lambda>m. Ok (st\<lparr>core_mining := m\<rparr>))"

section \<open>The portal handlers that change access\<close>

definition portal_grant_access :: "op_env \<Rightarrow> u32 \<Rightarrow> core_state \<Rightarrow> core_state" where
  "portal_grant_access env ip st = st\<lparr>core_sess := (core_sess st)\<lparr>sess_net :=
     fw_grant (env_mac_of env) ip (core_net st)\<rparr>\<rparr>"

definition portal_reset_auth :: "core_state \<Rightarrow> core_state" where
  "portal_reset_auth st =
     (let g = session_revoke_all (core_sess st)
      in st\<lparr>core_sess := g\<lparr>sess_net := fw_revoke_all (sess_net g)\<rparr>\<rparr>)"

section \<open>Invariant\<close>

definition core_inv :: "core_state \<Rightarrow> bool" where
  "core_inv st \<longleftrightarrow> sess_inv (core_sess st) \<and> in_sync (core_sess st) \<and> mining_inv (core_mining st) \<and>
     sess_platform (core_sess st) = core_platform st"

lemma core_invI [inv_intros]:
  assumes "sess_inv g" "in_sync g" "mining_inv m" "sess_platform g = core_platform st"
    and "core_sess st = g" "core_mining st = m"
  shows "core_inv st"
  using assms by (simp add: core_inv_def)

lemma core_invD:
  assumes "core_inv st"
  shows "sess_inv (core_sess st)" "in_sync (core_sess st)" "mining_inv (core_mining st)"
    "sess_platform (core_sess st) = core_platform st"
  using assms by (simp_all add: core_inv_def)

lemma core_inv_init:
  assumes "core_init (Some p) ap core_boot = (b, st)"
  shows "core_inv st" "b"
proof -
  have n: "net_inv (fw_init ap net_boot)" "fw_ips (fw_init ap net_boot) = {}"
    by (rule fw_init_spec[OF net_inv_boot], simp)+
  show "core_inv st" "b"
    using assms n
    by (auto simp: core_init_def core_boot_def sess_boot_def session_init_def session_set_platform_def
      core_inv_def sess_inv_def in_sync_def active_ips_def Let_def mining_inv_init)
qed

lemma create_metered_spec:
  assumes "sess_inv g" "create_metered env metric ip a g = (r, g')"
  shows "sess_inv g'" "in_sync g \<Longrightarrow> in_sync g'" "sess_platform g' = sess_platform g"
    "r = Some i \<Longrightarrow> i < length (s_sessions g') \<and> active (s_sessions g' ! i) \<and> client_ip (s_sessions g' ! i) = ip"
    "active_ips g' \<subseteq> insert ip (active_ips g)"
  using assms session_create_spec[of g env ip a r g'] session_create_bytes_spec[of g env ip a r g']
  by (auto simp: create_metered_def split: if_splits)

lemma credit_share_spec:
  assumes inv: "sess_inv g"
  shows "sess_inv (credit_share env metric ip a g)" "in_sync g \<Longrightarrow> in_sync (credit_share env metric ip a g)"
    "sess_platform (credit_share env metric ip a g) = sess_platform g"
    "active_ips (credit_share env metric ip a g) \<subseteq> insert ip (active_ips g)"
proof -
  let ?h = "credit_share env metric ip a g"
  have "sess_inv ?h \<and> (in_sync g \<longrightarrow> in_sync ?h) \<and> sess_platform ?h = sess_platform g \<and>
    active_ips ?h \<subseteq> insert ip (active_ips g)"
  proof (cases "session_find_by_ip g ip")
    case (Some i)
    then show ?thesis using session_extend_spec[OF inv find_by_ip_Some(1)[OF Some], of a]
      by (auto simp: credit_share_def in_sync_def)
  next
    case None
    obtain r g1 where c: "create_metered env metric ip a g = (r, g1)" by fastforce
    note cs = create_metered_spec[OF inv c]
    show ?thesis
    proof (cases r)
      case None
      then show ?thesis using cs c \<open>session_find_by_ip g ip = None\<close> by (simp add: credit_share_def)
    next
      case (Some i)
      have i: "i < length (s_sessions g1)" using cs(4) Some by blast
      let ?s = "(s_sessions g1 ! i)\<lparr>payment_method := TG_PAYMENT_MINING\<rparr>"
      have "sess_inv (g1\<lparr>s_sessions := (s_sessions g1)[i := ?s]\<rparr>)"
        "active_ips (g1\<lparr>s_sessions := (s_sessions g1)[i := ?s]\<rparr>) = active_ips g1"
        by (rule edit_slot[OF cs(1) i]; simp)+
      then show ?thesis using cs c Some \<open>session_find_by_ip g ip = None\<close>
        by (simp add: credit_share_def in_sync_def)
    qed
  qed
  then show "sess_inv ?h" "in_sync g \<Longrightarrow> in_sync ?h" "sess_platform ?h = sess_platform g"
    "active_ips ?h \<subseteq> insert ip (active_ips g)" by blast+
qed

lemma mining_update_inv:
  assumes "mining_inv m"
  shows "mining_inv (mining_update_hashrate now ip acc m)"
proof -
  obtain r m1 where c: "mining_get_or_create_client now ip m = (r, m1)" by fastforce
  note sp = get_or_create_spec[OF assms c]
  show ?thesis
  proof (cases r)
    case None
    then show ?thesis using c sp(1) by (simp add: mining_update_hashrate_def)
  next
    case (Some i)
    have "mining_inv (m1\<lparr>m_clients := (m_clients m1)[i := d]\<rparr>)" if "mc_ip d = mc_ip (m_clients m1 ! i)" for d
      using mining_edit[OF sp(1)] that .
    then show ?thesis using c Some by (simp add: mining_update_hashrate_def Let_def)
  qed
qed

section \<open>Steps of the running gate\<close>

text \<open>
  What can happen to the running gate: a token is posted, stations come and go, the clock ticks, the
  stratum proxy accepts a share, traffic is counted, the DNS server is started or stopped, a new
  \<open>nbits\<close> arrives, somebody calls the reset page, and the values the platform callbacks return
  (clock, price, metric) change. Executions that C leaves undefined have no step.
\<close>

datatype core_event =
    Ev_Payment op_env u32 string
  | Ev_Connected "u8 list option" u32
  | Ev_Disconnected "u8 list option"
  | Ev_Tick op_env
  | Ev_Share op_env u32 rat
  | Ev_Bytes u32 u64
  | Ev_Dns_Start u32
  | Ev_Dns_Stop
  | Ev_Nbits u32
  | Ev_Reset
  | Ev_Platform tollgate_platform

inductive core_step :: "cashu_ext \<Rightarrow> core_event \<Rightarrow> core_state \<Rightarrow> core_state \<Rightarrow> bool" for ext where
  payment: "core_process_payment ext env ip (Some tok) st = Ok (b, st') \<Longrightarrow> core_step ext (Ev_Payment env ip tok) st st'"
| connected: "core_step ext (Ev_Connected hw ip) st (core_client_connected hw ip st)"
| disconnected: "core_step ext (Ev_Disconnected hw) st (core_client_disconnected hw st)"
| tick: "core_step ext (Ev_Tick env) st (core_tick env st)"
| share: "core_on_share_accepted env ip d st = Ok st' \<Longrightarrow> core_step ext (Ev_Share env ip d) st st'"
| bytes: "core_step ext (Ev_Bytes ip n) st (st\<lparr>core_sess := session_add_bytes ip n (core_sess st)\<rparr>)"
| dns_start: "core_step ext (Ev_Dns_Start up) st (core_dns_start up st)"
| dns_stop: "core_step ext Ev_Dns_Stop st (core_dns_stop st)"
| nbits: "core_set_nbits n st = Ok st' \<Longrightarrow> core_step ext (Ev_Nbits n) st st'"
| reset: "core_step ext Ev_Reset st (portal_reset_auth st)"
| platform: "core_step ext (Ev_Platform p) st
    (st\<lparr>core_platform := Some p, core_sess := session_set_platform (Some p) (core_sess st)\<rparr>)"

inductive_simps core_step_simps:
  "core_step ext (Ev_Payment env ip tok) st st'"
  "core_step ext (Ev_Tick env) st st'"
  "core_step ext (Ev_Share env ip d) st st'"

inductive core_reach :: "cashu_ext \<Rightarrow> core_state \<Rightarrow> bool" for ext where
  start: "core_init (Some p) ap core_boot = (b, st) \<Longrightarrow> core_reach ext st"
| step: "core_reach ext st \<Longrightarrow> core_step ext ev st st' \<Longrightarrow> core_reach ext st'"

text \<open>
  The abstract gate: its state is the set of clients that have paid. A purchase admits at most the
  buyer (and may drop clients whose session ran out), an expiry only removes, anything else leaves
  the set as it is.
\<close>

inductive gate_step :: "core_event \<Rightarrow> u32 set \<Rightarrow> u32 set \<Rightarrow> bool" where
  buy: "S' \<subseteq> insert ip S \<Longrightarrow> gate_step (Ev_Payment env ip tok) S S'"
| mine: "S' \<subseteq> insert ip S \<Longrightarrow> gate_step (Ev_Share env ip d) S S'"
| expire: "S' \<subseteq> S \<Longrightarrow> gate_step (Ev_Tick env) S S'"
| reset_all: "gate_step Ev_Reset S {}"
| other: "\<nexists>env ip tok d. ev = Ev_Payment env ip tok \<or> ev = Ev_Share env ip d \<or> ev = Ev_Tick env \<or> ev = Ev_Reset \<Longrightarrow>
    gate_step ev S S"

inductive_cases gate_buyE: "gate_step ev S S'"

definition paid :: "core_state \<Rightarrow> u32 set" where
  "paid st = active_ips (core_sess st)"

lemma process_payment_spec:
  assumes inv: "core_inv st" and eq: "core_process_payment ext env ip t st = Ok (b, st')"
  shows "core_inv st' \<and> paid st' \<subseteq> insert ip (paid st) \<and> (b \<longrightarrow> ip \<in> paid st')"
proof -
  have "(st' = st \<and> \<not> b) \<or> (\<exists>metric a r g. create_metered env metric ip a (core_sess st) = (r, g) \<and>
      st' = st\<lparr>core_sess := g\<rparr> \<and> b = (r \<noteq> None))"
    using eq unfolding core_process_payment_def
    by (cases "core_platform st"; cases t)
       (auto simp: Let_def cbind_Ok_iff split: cres.splits if_splits prod.splits)
  then show ?thesis
  proof (elim disjE exE conjE)
    assume "st' = st" "\<not> b"
    then show ?thesis using inv by (auto simp: paid_def)
  next
    fix metric a r g
    assume c: "create_metered env metric ip a (core_sess st) = (r, g)" "st' = st\<lparr>core_sess := g\<rparr>" "b = (r \<noteq> None)"
    note sp = create_metered_spec[OF core_invD(1)[OF inv] c(1)]
    have "ip \<in> active_ips g" if "r = Some i" for i
      using sp(4)[OF that] by (auto simp: active_ips_def in_used_iff)
    then show ?thesis using inv sp(1-3,5) c by (auto simp: core_inv_def paid_def)
  qed
qed

lemma share_spec:
  assumes inv: "core_inv st" and eq: "core_on_share_accepted env ip d st = Ok st'"
  shows "core_inv st' \<and> paid st' \<subseteq> insert ip (paid st)"
proof -
  let ?m = "mining_update_hashrate (env_ticks_ms env) ip True (core_mining st)"
  have m: "mining_inv ?m" using mining_update_inv core_invD(3)[OF inv] .
  note cr = credit_share_spec[OF core_invD(1)[OF inv]]
  have "st' = st \<or> (core_mining st' = ?m \<and> core_platform st' = core_platform st \<and>
      (core_sess st' = core_sess st \<or> (\<exists>metric a. core_sess st' = credit_share env metric ip a (core_sess st))))"
    using eq unfolding core_on_share_accepted_def Let_def
    by ((auto simp: cbind_Ok_iff split: option.splits if_splits); blast)
  then show ?thesis
  proof (elim disjE conjE exE)
    assume "st' = st"
    then show ?thesis using inv by (auto simp: paid_def)
  qed (use inv m cr in \<open>auto simp: core_inv_def paid_def\<close>)
qed

lemma dns_run_frame:
  assumes "sess_inv g" "auth_ips d = auth_ips (net_dns (sess_net g))" "dns_inv d"
  shows "sess_inv (g\<lparr>sess_net := (sess_net g)\<lparr>net_dns := d\<rparr>\<rparr>)"
    "fw_ips ((sess_net g)\<lparr>net_dns := d\<rparr>) = fw_ips (sess_net g)"
  using assms by (simp_all add: sess_inv_def net_inv_def fw_ips_def)

lemma dns_run_spec:
  assumes "core_inv st"
  shows "core_inv (core_dns_start up st)" "paid (core_dns_start up st) = paid st"
    "core_inv (core_dns_stop st)" "paid (core_dns_stop st) = paid st"
proof -
  have d: "dns_inv (net_dns (core_net st))" using assms by (simp add: core_inv_def sess_inv_def net_inv_def)
  note f = dns_run_frame[OF core_invD(1)[OF assms]]
  have "dns_inv (dns_start_internal a b (net_dns (core_net st)))" "dns_inv (dns_stop (net_dns (core_net st)))" for a b
    using d by (simp_all add: dns_inv_def dns_start_internal_def dns_stop_def)
  then show "core_inv (core_dns_start up st)" "paid (core_dns_start up st) = paid st"
    "core_inv (core_dns_stop st)" "paid (core_dns_stop st) = paid st"
    using assms f by (simp_all add: core_inv_def core_dns_start_def core_dns_stop_def in_sync_def paid_def active_ips_def)
qed

lemma reset_spec:
  assumes "core_inv st"
  shows "core_inv (portal_reset_auth st)" "paid (portal_reset_auth st) = {}"
proof -
  let ?g = "session_revoke_all (core_sess st)"
  note c = core_invD[OF assms]
  have n: "TG_SESSION_MAX_CLIENTS \<le> length (s_sessions (core_sess st))" using c(1) by (simp add: sess_inv_def)
  note r = revoke_upto_spec[OF c(1) n, of "\<lambda>_. True", folded session_revoke_all_revoke_upto]
  have "client_ip ` {s \<in> set (take TG_SESSION_MAX_CLIENTS (s_sessions (core_sess st))). active s} =
      active_ips (core_sess st)"
    using c(1) by (auto simp: active_ips_def used_def sess_inv_def)
  then have a: "active_ips ?g = {}" using r by simp
  have ni: "net_inv (sess_net ?g)" using r by (simp add: sess_inv_def)
  note f = fw_revoke_all_spec[OF ni]
  show "core_inv (portal_reset_auth st)" "paid (portal_reset_auth st) = {}"
    using r a f c by (simp_all add: portal_reset_auth_def core_inv_def sess_inv_def in_sync_def active_ips_def
      Let_def paid_def)
qed

lemma tick_spec:
  assumes "core_inv st"
  shows "core_inv (core_tick env st)" "paid (core_tick env st) \<subseteq> paid st"
proof -
  note c = core_invD[OF assms]
  have n: "TG_SESSION_MAX_CLIENTS \<le> length (s_sessions (core_sess st))" using c(1) by (simp add: sess_inv_def)
  note r = revoke_upto_spec[OF c(1) n, of "session_is_expired env (core_sess st)",
      folded check_expiry_revoke_upto session_tick_def]
  show "core_inv (core_tick env st)" "paid (core_tick env st) \<subseteq> paid st"
    using r c by (auto simp: core_tick_def core_inv_def in_sync_def paid_def)
qed

lemma core_step_sound:
  assumes "core_step ext ev st st'" "core_inv st"
  shows "core_inv st' \<and> gate_step ev (paid st) (paid st')"
  using assms
proof cases
  case payment
  then show ?thesis by (auto dest!: process_payment_spec[OF assms(2)] intro!: gate_step.buy)
next
  case share
  then show ?thesis by (auto dest!: share_spec[OF assms(2)] intro!: gate_step.mine)
next
  case tick
  then show ?thesis using tick_spec[OF assms(2)] by (auto intro!: gate_step.expire)
next
  case reset
  then show ?thesis using reset_spec[OF assms(2)] by (simp add: gate_step.reset_all)
next
  case bytes
  then show ?thesis using session_add_bytes_spec[OF core_invD(1)[OF assms(2)]] assms(2)
    by (auto simp: core_inv_def in_sync_def paid_def session_add_bytes_platform intro!: gate_step.other)
next
  case nbits
  then show ?thesis using assms(2)
    by (auto simp: core_set_nbits_def cbind_Ok_iff mining_set_current_nbits_def core_inv_def paid_def mining_inv_def
      mining_table_def intro!: gate_step.other)
next
  case platform
  then show ?thesis using assms(2)
    by (auto simp: core_inv_def session_set_platform_def sess_inv_def in_sync_def active_ips_def paid_def
      intro!: gate_step.other)
next
  case dns_start
  then show ?thesis using dns_run_spec(1,2)[OF assms(2)] by (auto intro!: gate_step.other)
next
  case dns_stop
  then show ?thesis using dns_run_spec(3,4)[OF assms(2)] by (auto intro!: gate_step.other)
next
  case connected
  then show ?thesis using assms(2)
    by (auto simp: core_client_connected_def core_inv_def paid_def intro!: gate_step.other)
next
  case disconnected
  then show ?thesis using assms(2)
    by (auto simp: core_client_disconnected_def core_inv_def paid_def Let_def split: option.splits
      intro!: gate_step.other)
qed

lemma core_reach_inv: "core_reach ext st \<Longrightarrow> core_inv st"
  by (induction rule: core_reach.induct) (auto simp: core_inv_init core_step_sound)

section \<open>Properties\<close>

lemma allowed_iff_paid:
  assumes "core_inv st"
  shows "core_is_client_allowed st ip \<longleftrightarrow> ip \<in> paid st" "is_authenticated (net_dns (core_net st)) ip \<longleftrightarrow> ip \<in> paid st"
  using assms
  by (auto simp: core_is_client_allowed_def fw_is_allowed_iff is_authenticated_iff paid_def core_inv_def in_sync_def
    sess_inv_def net_inv_def)

text \<open>A small run: the gate is initialised and one client pays 42 sat for two minutes.\<close>

definition demo_core0 :: core_state where
  "demo_core0 = snd (core_init (Some demo_platform) 1 core_boot)"

lemma demo_core0_simps:
  "core_platform demo_core0 = Some demo_platform" "core_sess demo_core0 =
     sess_boot\<lparr>sess_platform := Some demo_platform, sess_net := fw_init 1 net_boot\<rparr>"
  by (simp_all add: demo_core0_def core_init_def core_boot_def session_init_def session_set_platform_def Let_def
    sess_boot_def)

lemma demo_core0_reach: "core_reach demo_ext demo_core0"
  unfolding demo_core0_def
  by (rule core_reach.start[of demo_platform 1 "fst (core_init (Some demo_platform) 1 core_boot)"]) simp





text \<open>What an accepted token has passed.\<close>

lemma accept_token_Ok:
  assumes "core_accept_token ext p s = Ok tok"
  shows "cashu_decode_token ext s = Ok tok" "core_mint p = Some (tok_mint_url tok)"
    "\<exists>sts. cashu_check_proof_states ext (tok_mint_url tok) tok = Some sts \<and> (\<forall>x \<in> set sts. \<not> spent x)"
    "spend_proofs p = Some f \<Longrightarrow> f s"
  using assms
  by (auto simp: core_accept_token_def cbind_Ok_iff cashu_is_mint_accepted_def list_ex_iff
    split: option.splits if_splits)

lemma allotment_nonzero_price:
  assumes "cashu_calculate_allotment amount price step \<noteq> 0"
  shows "price \<noteq> 0" "price \<le> amount"
proof -
  show "price \<noteq> 0" using assms by (auto simp: cashu_calculate_allotment_def)
  then have "amount div price \<noteq> 0" using assms by (auto simp: cashu_calculate_allotment_def)
  then show "price \<le> amount"
    by (metis div_word_less linorder_not_less)
qed

lemma create_metered_None:
  assumes "sess_inv g"
  shows "fst (create_metered env metric ip a g) = None \<longleftrightarrow>
      ip \<notin> active_ips g \<and> (\<forall>s \<in> set (s_sessions g). active s \<and> \<not> session_is_expired env g s)"
    "fst (create_metered env metric ip a g) = None \<Longrightarrow> snd (create_metered env metric ip a g) = g"
proof -
  let ?c = "session_create env ip (if metric = ''bytes'' then 0 else a) g"
  have e: "fst (create_metered env metric ip a g) = None \<longleftrightarrow> fst ?c = None"
    "fst ?c = None \<Longrightarrow> create_metered env metric ip a g = ?c"
    by (cases ?c; auto simp: create_metered_def session_create_bytes_def split: option.splits)+
  show "fst (create_metered env metric ip a g) = None \<longleftrightarrow>
      ip \<notin> active_ips g \<and> (\<forall>s \<in> set (s_sessions g). active s \<and> \<not> session_is_expired env g s)"
    unfolding e(1) by (rule session_create_None_iff[OF assms])
  show "snd (create_metered env metric ip a g) = g" if "fst (create_metered env metric ip a g) = None"
    using e that session_create_None_state[OF assms] by metis
qed

text \<open>
  (C3) A payment succeeds only with a valid token and then opens the gate: the token decoded, it
  names the configured mint, the mint listed none of its proofs as spent, the wallet callback (if
  any) took it, its total covers at least one step, and the client is allowed afterwards. A payment
  that is refused leaves the state as it was. With an accepted token worth at least one step, the
  payment is refused only if all ten slots are held by other live sessions.
\<close>

theorem core_payment_outcome:
  assumes "core_reach ext st" "core_platform st = Some p"
    and "core_process_payment ext env ip (Some s) st = Ok (b, st')"
  shows "(b \<longrightarrow> core_is_client_allowed st' ip \<and>
      (\<exists>tok sts. cashu_decode_token ext s = Ok tok \<and> core_mint p = Some (tok_mint_url tok) \<and>
        cashu_check_proof_states ext (tok_mint_url tok) tok = Some sts \<and> (\<forall>x \<in> set sts. \<not> spent x) \<and>
        (\<forall>f. spend_proofs p = Some f \<longrightarrow> f s) \<and> core_price p \<noteq> 0 \<and> core_price p \<le> tok_total_amount tok)) \<and>
    (\<not> b \<longrightarrow> st' = st \<and> (\<forall>tok metric. core_accept_token ext p s = Ok tok \<and> core_metric p = Ok metric \<and>
        cashu_calculate_allotment (tok_total_amount tok) (core_price p) (core_step_size p metric) \<noteq> 0 \<longrightarrow>
        \<not> core_is_client_allowed st ip \<and>
        (\<forall>x \<in> set (s_sessions (core_sess st)). active x \<and> \<not> session_is_expired env (core_sess st) x)))"
proof -
  have inv: "core_inv st" using assms(1) by (rule core_reach_inv)
  note si = core_invD(1)[OF inv]
  note sp = process_payment_spec[OF inv assms(3)]
  show ?thesis
  proof (cases "core_accept_token ext p s")
    case (Ok tok)
    obtain metric where m: "core_metric p = cres.Ok metric"
      using assms(2,3) Ok by (auto simp: core_process_payment_def cbind_Ok_iff)
    let ?a = "cashu_calculate_allotment (tok_total_amount tok) (core_price p) (core_step_size p metric)"
    let ?c = "create_metered env metric ip ?a (core_sess st)"
    have e: "b \<longleftrightarrow> ?a \<noteq> 0 \<and> fst ?c \<noteq> None" "st' = (if ?a = 0 then st else st\<lparr>core_sess := snd ?c\<rparr>)"
      using assms(2,3) Ok m by (auto simp: core_process_payment_def Let_def split: if_splits prod.splits)
    have nb: "st' = st" if "\<not> b"
      using e that create_metered_None(2)[OF si, of env metric ip ?a] by auto
    show ?thesis
      using accept_token_Ok[OF Ok] allotment_nonzero_price[of "tok_total_amount tok" "core_price p"] Ok m e(1) nb sp
        allowed_iff_paid[of st' ip] allowed_iff_paid(1)[OF inv, of ip]
        create_metered_None(1)[OF si, of env metric ip ?a]
      by (auto simp: paid_def)
  qed (use assms(2,3) in \<open>auto simp: core_process_payment_def\<close>)
qed

lemma demo_accepts: "core_accept_token demo_ext demo_platform ''cashuAabc'' = Ok demo_token"
proof -
  have "set (map spent demo_sts) = {False}" unfolding demo_states(2) by simp
  then have "\<not> list_ex spent demo_sts" by (auto simp: list_ex_iff)
  moreover have "tok_mint_url demo_token = ''https://mint''" by (simp add: demo_token_def)
  moreover have "core_mint demo_platform = Some ''https://mint''" "spend_proofs demo_platform = None"
    by (simp_all add: core_mint_def demo_platform_def)
  ultimately show ?thesis
    by (simp add: core_accept_token_def demo_token_decodes demo_states(1) cashu_is_mint_accepted_def)
qed

lemma demo_core0_fresh:
  "session_find_by_ip (core_sess demo_core0) ip = None" "s_session_count (core_sess demo_core0) < 10"
  "first_idx (\<lambda>s. \<not> active s) (s_sessions (core_sess demo_core0)) = Some 0"
  by (simp_all add: demo_core0_simps session_find_by_ip_def sess_boot_def first_idx_None_iff TG_SESSION_MAX_CLIENTS_def
    eval_nat_numeral)

theorem core_payment_outcome_witness:
  "\<exists>st'. core_process_payment demo_ext demo_env 5 (Some ''cashuAabc'') demo_core0 = Ok (True, st') \<and>
     core_is_client_allowed st' 5"
proof -
  have a: "cashu_calculate_allotment (tok_total_amount demo_token) (core_price demo_platform)
      (core_step_size demo_platform ''milliseconds'') = 120000"
    by (simp add: cashu_calculate_allotment_def demo_token_def core_price_def core_step_size_def demo_platform_def)
  have m: "core_metric demo_platform = Ok ''milliseconds''" by (simp add: core_metric_def demo_platform_def)
  have r: "fst (session_create demo_env 5 120000 (core_sess demo_core0)) = Some 0"
    using session_create_fresh[OF demo_core0_fresh, of demo_env] by simp
  let ?st = "demo_core0\<lparr>core_sess := snd (session_create demo_env 5 120000 (core_sess demo_core0))\<rparr>"
  have p: "core_process_payment demo_ext demo_env 5 (Some ''cashuAabc'') demo_core0 = Ok (True, ?st)"
    using r by (simp add: core_process_payment_def demo_core0_simps(1) demo_accepts m a create_metered_def case_prod_beta)
  from core_payment_outcome[OF demo_core0_reach demo_core0_simps(1) p] have "core_is_client_allowed ?st 5" by simp
  with p show ?thesis by (intro exI conjI)
qed

section \<open>Three ways around the toll\<close>

lemma tick_keeps_unpaid:
  assumes "sess_inv (core_sess st)" "ip \<notin> paid st" "ip \<in> fw_ips (core_net st)"
  shows "sess_inv (core_sess (core_tick env st)) \<and> ip \<notin> paid (core_tick env st) \<and> ip \<in> fw_ips (core_net (core_tick env st))"
proof -
  have n: "TG_SESSION_MAX_CLIENTS \<le> length (s_sessions (core_sess st))" using assms(1) by (simp add: sess_inv_def)
  have t: "take TG_SESSION_MAX_CLIENTS (s_sessions (core_sess st)) = s_sessions (core_sess st)"
    using assms(1) by (simp add: sess_inv_def)
  have "ip \<notin> client_ip ` {s \<in> set (s_sessions (core_sess st)). active s \<and> session_is_expired env (core_sess st) s}"
    using assms(2) by (auto simp: paid_def active_ips_def used_def)
  then show ?thesis
    using revoke_upto_spec[OF assms(1) n, of "session_is_expired env (core_sess st)",
        folded check_expiry_revoke_upto session_tick_def] assms(2,3)
    by (auto simp: core_tick_def paid_def t)
qed

text \<open>
  (C22) The portal page \<open>/grant_access\<close> opens the gate for free: for a client that has not paid, while
  fewer than ten clients are allowed, the handler makes the client allowed without a session, and no
  number of ticks takes that access away again.
\<close>

theorem portal_grant_access_free:
  assumes "core_reach ext st" "\<not> core_is_client_allowed st ip" "core_allowed_client_count st < 10"
  shows "core_is_client_allowed (fold core_tick envs (portal_grant_access env ip st)) ip \<and>
    session_find_by_ip (core_sess (fold core_tick envs (portal_grant_access env ip st))) ip = None"
proof -
  have inv: "core_inv st" using assms(1) by (rule core_reach_inv)
  have n: "net_inv (core_net st)" using core_invD(1)[OF inv] by (simp add: sess_inv_def)
  let ?s = "portal_grant_access env ip st"
  have np: "ip \<notin> paid st" using allowed_iff_paid(1)[OF inv] assms(2) by blast
  have "card (fw_ips (core_net st)) < MAX_CLIENTS"
    using card_fw_ips[OF n] assms(3) by (simp add: core_allowed_client_count_def fw_client_count_def MAX_CLIENTS_def)
  then have f: "net_inv (core_net ?s)" "ip \<in> fw_ips (core_net ?s)"
    using fw_grant_spec[OF n, of "env_mac_of env" ip] by (simp_all add: portal_grant_access_def)
  have "sess_inv (core_sess ?s) \<and> ip \<notin> paid ?s \<and> ip \<in> fw_ips (core_net ?s)"
    using f np core_invD(1)[OF inv]
    by (simp add: portal_grant_access_def sess_inv_def paid_def active_ips_def)
  then have "sess_inv (core_sess (fold core_tick envs ?s)) \<and> ip \<notin> paid (fold core_tick envs ?s) \<and>
      ip \<in> fw_ips (core_net (fold core_tick envs ?s))"
    by (induction envs arbitrary: st rule: rev_induct) (auto dest: tick_keeps_unpaid)
  then show ?thesis
    by (auto simp: core_is_client_allowed_def fw_is_allowed_iff find_by_ip_None paid_def)
qed

theorem portal_grant_access_free_witness:
  "core_is_client_allowed (fold core_tick [demo_env, demo_env] (portal_grant_access demo_env 9 demo_core0)) 9"
proof -
  have e: "fw_client_count (fw_init 1 net_boot) = 0" "\<not> fw_is_allowed (fw_init 1 net_boot) 9"
    by (simp_all add: fw_client_count_def fw_init_def fw_is_allowed_def find_client_by_ip_def)
  show ?thesis
    using portal_grant_access_free[OF demo_core0_reach, of 9 "[demo_env, demo_env]" demo_env] e
    by (simp add: core_is_client_allowed_def core_allowed_client_count_def demo_core0_simps)
qed

text \<open>
  A departing owner can remain the owner: the check that should skip the owner's own session
  compares the text of the session's MAC with the raw address. If the owner's session is the first
  active one with a MAC, then after the owner's disconnect the owner is still its own successor
  (whenever the raw address does not happen to spell the first six characters of its own text).
\<close>

theorem core_owner_reelected:
  assumes "s_owner_connected st" "s_owner_mac st = m" "0 < fw_client_count (core_net st)"
    and "s_sessions (core_sess st) = x # rest" "active x" "mac x = format_mac m" "client_ip x = ip"
    and "mac_text6 (format_mac m) \<noteq> m"
  shows "core_is_owner (core_client_disconnected (Some m) st) ip"
proof -
  have "format_mac m \<noteq> []" by (simp add: format_mac_def hex2_def)
  then show ?thesis using assms by (simp add: core_client_disconnected_def core_is_owner_def Let_def)
qed

definition demo_owner :: core_state where
  "demo_owner = core_boot\<lparr>s_owner_connected := True, s_owner_mac := [1, 2, 3, 4, 5, 6], s_owner_ip := 5,
     core_sess := sess_boot\<lparr>s_sessions := [demo_time_session\<lparr>mac := format_mac [1, 2, 3, 4, 5, 6]\<rparr>],
       sess_net := net_boot\<lparr>net_fw := fw_boot\<lparr>s_client_count := 1\<rparr>\<rparr>\<rparr>\<rparr>"

theorem core_owner_reelected_witness:
  "core_is_owner (core_client_disconnected (Some [1, 2, 3, 4, 5, 6]) demo_owner) 5"
proof -
  have "mac_text6 (format_mac [1, 2, 3, 4, 5, 6]) \<noteq> [1, 2, 3, 4, 5, 6]"
    by (simp add: mac_text6_def format_mac_def hex2_def hex_digit_def)
  then show ?thesis
    by (intro core_owner_reelected[where x = "demo_time_session\<lparr>mac := format_mac [1, 2, 3, 4, 5, 6]\<rparr>" and rest = "[]"])
       (simp_all add: demo_owner_def fw_client_count_def demo_time_session_def)
qed

text \<open>
  With the bytes metric, a miner that already has a session earns nothing: every further share
  adds to the session's milliseconds, which the bytes metric never looks at, so the bytes left stay
  the same however many shares are credited.
\<close>

theorem core_bytes_mining_no_credit:
  assumes "sess_inv g" "session_find_by_ip g ip = Some i"
  shows "let s = s_sessions g ! i; s' = s_sessions (credit_share env metric ip a g) ! i in
    allotment_bytes s' = allotment_bytes s \<and> bytes_consumed s' = bytes_consumed s \<and>
    (metric_is_bytes g \<longrightarrow> session_is_expired env' (credit_share env metric ip a g) s' = session_is_expired env' g s)"
  using find_by_ip_Some[OF assms(2)] assms(2)
  by (simp add: credit_share_def session_extend_def Let_def session_is_expired_def metric_is_bytes_def)

theorem core_bytes_mining_no_credit_witness:
  "allotment_bytes (s_sessions (credit_share demo_env ''bytes'' 6 1000 demo_gate) ! 1) = 500"
proof -
  have f: "session_find_by_ip demo_gate 6 = Some 1"
    by (simp add: session_find_by_ip_def demo_gate_sessions demo_time_session_def demo_bytes_session_def)
  from core_bytes_mining_no_credit[OF demo_gate_inv(1) this, of demo_env "''bytes''" 1000 demo_env]
  show ?thesis by (simp add: Let_def demo_gate_sessions demo_bytes_session_def)
qed

end
