(* ===== verification/TG_PortalServer.thy ===== *)
theory TG_PortalServer
  imports TG_Config TG_Portal TG_Core "HOL-Library.Multiset"
begin

text \<open>
  The web server of the captive portal (\<^verbatim>\<open>main/captive_portal.c\<close>): starting and stopping it, its table of
  paths, and its handlers. The two handlers that change the access of a client are in \<open>TG_Core\<close>; the
  handlers here show pages, report the state and let the visitor choose the upstream network. The HTML
  templates are arguments; the peer address of a request, the body received, the result of a WiFi scan
  and cJSON are parameters.
\<close>

unbundle bit_operations_syntax

section \<open>The server\<close>

record portal_server =
  ps_running :: bool
  ps_ap_ip :: string
  ps_start_called :: bool
  ps_start_ok :: bool

definition portal_boot :: portal_server where
  "portal_boot = \<lparr>ps_running = False, ps_ap_ip = ''10.0.0.1'', ps_start_called = False, ps_start_ok = True\<rparr>"

text \<open>\<open>httpd_ok\<close>: whether \<open>httpd_start\<close> succeeds.\<close>

definition captive_portal_start :: "bool \<Rightarrow> string option \<Rightarrow> portal_server \<Rightarrow> bool \<times> portal_server" where
  "captive_portal_start httpd_ok ip ps =
     (let ps1 = ps\<lparr>ps_start_called := True\<rparr> in
      if ps_running ps then (True, ps1)
      else (case ip of
         None \<Rightarrow> (False, ps1)
       | Some s \<Rightarrow> (httpd_ok, ps1\<lparr>ps_ap_ip := c_strncpy 16 s, ps_start_ok := httpd_ok, ps_running := httpd_ok\<rparr>)))"

definition captive_portal_stop :: "portal_server \<Rightarrow> portal_server" where
  "captive_portal_stop ps = ps\<lparr>ps_running := False\<rparr>"

datatype http_method = HTTP_GET | HTTP_POST

datatype portal_route = R_portal | R_grant | R_status | R_whoami | R_usage | R_reset | R_redirect | R_setup | R_wifi_scan
  | R_wifi_connect | R_wifi_status | R_not_found

definition portal_uris :: "(string \<times> http_method \<times> portal_route) list" where
  "portal_uris =
    [(''/'', HTTP_GET, R_portal), (''/grant_access'', HTTP_GET, R_grant), (''/api/status'', HTTP_GET, R_status),
     (''/whoami'', HTTP_GET, R_whoami), (''/usage'', HTTP_GET, R_usage), (''/reset_authentication'', HTTP_GET, R_reset),
     (''/generate_204'', HTTP_GET, R_redirect), (''/hotspot-detect.html'', HTTP_GET, R_redirect),
     (''/canonical.html'', HTTP_GET, R_redirect), (''/success.txt'', HTTP_GET, R_redirect), (''/ncsi.txt'', HTTP_GET, R_redirect),
     (''/connecttest.txt'', HTTP_GET, R_redirect), (''/wpad.dat'', HTTP_GET, R_redirect), (''/setup'', HTTP_GET, R_setup),
     (''/wifi/scan'', HTTP_GET, R_wifi_scan), (''/wifi/connect'', HTTP_POST, R_wifi_connect), (''/wifi/status'', HTTP_GET, R_wifi_status)]"

definition portal_route_of :: "string \<Rightarrow> http_method \<Rightarrow> portal_route" where
  "portal_route_of uri m = (case find (\<lambda>(u, m', _). u = uri \<and> m' = m) portal_uris of
       Some (_, _, r) \<Rightarrow> r
     | None \<Rightarrow> R_not_found)"

section \<open>Pages\<close>

record page =
  pg_status :: string
  pg_type :: string
  pg_location :: "string option"
  pg_body :: string

definition page_200 :: "string \<Rightarrow> string \<Rightarrow> page" where
  "page_200 t body = \<lparr>pg_status = ''200 OK'', pg_type = t, pg_location = None, pg_body = body\<rparr>"

definition page_500 :: page where
  "page_500 = \<lparr>pg_status = ''500 Internal Server Error'', pg_type = ''text/html'', pg_location = None, pg_body = []\<rparr>"

definition page_302 :: "portal_server \<Rightarrow> page" where
  "page_302 ps = \<lparr>pg_status = ''302 Found'', pg_type = ''text/html'',
     pg_location = Some (c_strncpy 64 (''http://'' @ ps_ap_ip ps @ ''/'')), pg_body = []\<rparr>"

definition mining_tabs :: string where
  "mining_tabs = ''<div class='' @ [CHR 0x27] @ ''tabs'' @ [CHR 0x27] @ ''>'' @
     ''<button class='' @ [CHR 0x27] @ ''tab active'' @ [CHR 0x27] @ '' onclick='' @ dq @ ''switchTab('' @ [CHR 0x27] @ ''cashu'' @ [CHR 0x27] @ '')'' @ dq @ ''>Cashu</button>'' @
     ''<button class='' @ [CHR 0x27] @ ''tab'' @ [CHR 0x27] @ '' onclick='' @ dq @ ''switchTab('' @ [CHR 0x27] @ ''mining'' @ [CHR 0x27] @ '')'' @ dq @ ''>Mine</button>'' @
     ''</div>''"

definition portal_subs :: "tollgate_config \<Rightarrow> portal_server \<Rightarrow> (string \<times> string) list" where
  "portal_subs cfg ps =
     [(''__AP_IP__'', ps_ap_ip ps),
      (''__PRICE__'', c_strncpy 16 (dec_of_int (cfg_price_per_step cfg))),
      (''__MINT_URL__'', cfg_mint_url cfg),
      (''__MINING_TABS__'', if cfg_mining_enabled cfg then mining_tabs else []),
      (''__MINING_PORT__'', if cfg_mining_enabled cfg then c_strncpy 8 (dec_of_nat (unat (cfg_mining_port cfg))) else ''3333''),
      (''__CASHU_ACTIVE__'', ''active''),
      (''__MINING_ACTIVE__'', [])]"

text \<open>\<open>None\<close>: the template engine does not return.\<close>

definition portal_handler :: "string \<Rightarrow> tollgate_config \<Rightarrow> portal_server \<Rightarrow> page cres option" where
  "portal_handler tpl cfg ps = map_option (\<lambda>r. cbind r (\<lambda>html. Ok (page_200 ''text/html'' html))) (portal_render tpl (portal_subs cfg ps))"

definition portal_status_handler :: "(json \<Rightarrow> string) \<Rightarrow> tollgate_config \<Rightarrow> page" where
  "portal_status_handler print cfg =
     page_200 ''application/json'' (print (JObj [(''connected'', JBool True), (''price'', json_int (cfg_price_per_step cfg))]))"

definition ipv4_text :: "u32 \<Rightarrow> string" where
  "ipv4_text ip = ip4_text (ucast ip) (ucast (drop_bit 8 ip)) (ucast (drop_bit 16 ip)) (ucast (drop_bit 24 ip))"

definition portal_whoami_handler :: "u32 option \<Rightarrow> (u32 \<Rightarrow> string option) \<Rightarrow> page" where
  "portal_whoami_handler peer mac_of =
     page_200 ''text/plain'' (c_strncpy 96 (case peer of
        None \<Rightarrow> ''ip=unknown mac=unknown''
      | Some ip \<Rightarrow> ''ip='' @ ipv4_text ip @ '' mac='' @
          (case mac_of ip of Some m \<Rightarrow> m | None \<Rightarrow> ''unknown'')))"

definition portal_usage_handler :: "u32 option \<Rightarrow> tollgate_config \<Rightarrow> i64 \<Rightarrow> core_state \<Rightarrow> page cres" where
  "portal_usage_handler peer cfg now st =
     (case peer of
        None \<Rightarrow> Ok (page_200 ''text/plain'' ''-1/-1'')
      | Some ip \<Rightarrow>
          (case session_find_by_ip (core_sess st) ip of
             None \<Rightarrow> Ok (page_200 ''text/plain'' ''-1/-1'')
           | Some i \<Rightarrow>
               if \<not> active (s_sessions (core_sess st) ! i) then Ok (page_200 ''text/plain'' ''-1/-1'')
               else cbind (portal_format_usage (s_sessions (core_sess st) ! i) (cfg_metric cfg) now 64) (\<lambda>t.
                 Ok (page_200 ''text/plain'' t))))"

definition catchall_err_handler :: "bool \<Rightarrow> portal_server \<Rightarrow> page cres" where
  "catchall_err_handler is_404 ps = (if is_404 then Ok (page_302 ps) else Fail)"

section \<open>Choosing the upstream network\<close>

definition is_setup_available :: "tollgate_config \<Rightarrow> bool" where
  "is_setup_available cfg \<longleftrightarrow> cfg_network_count cfg = 0"

definition setup_page_handler :: "string \<Rightarrow> tollgate_config \<Rightarrow> portal_server \<Rightarrow> page cres option" where
  "setup_page_handler tpl cfg ps =
     (if \<not> is_setup_available cfg then Some (Ok (page_302 ps))
      else map_option (\<lambda>r. cbind r (\<lambda>html. Ok (page_200 ''text/html'' html))) (portal_template_replace tpl ''__AP_IP__'' (ps_ap_ip ps)))"

record wifi_ap =
  wa_ssid :: string
  wa_rssi :: int
  wa_open :: bool

text \<open>The two nested loops that bring the strongest access points to the front.\<close>

definition swap_at :: "nat \<Rightarrow> nat \<Rightarrow> 'a list \<Rightarrow> 'a list" where
  "swap_at i j xs = xs[i := xs ! j, j := xs ! i]"

definition rssi_pass :: "wifi_ap list \<Rightarrow> nat \<Rightarrow> wifi_ap list" where
  "rssi_pass aps i = foldl (\<lambda>xs j. if wa_rssi (xs ! i) < wa_rssi (xs ! j) then swap_at i j xs else xs) aps [i + 1..<length aps]"

definition rssi_sort :: "wifi_ap list \<Rightarrow> wifi_ap list" where
  "rssi_sort aps = foldl rssi_pass aps [0..<length aps - 1]"

definition ap_json :: "wifi_ap \<Rightarrow> json" where
  "ap_json a = JObj [(''ssid'', JStr (wa_ssid a)), (''rssi'', json_int (wa_rssi a)), (''secured'', JBool (\<not> wa_open a))]"

text \<open>
  The scan first drops the upstream connection. The result is the page and the network that the station
  is told to connect to afterwards. \<open>scan\<close> is \<open>None\<close> when \<open>esp_wifi_scan_start\<close> fails.
\<close>

definition wifi_scan_handler :: "(json \<Rightarrow> string) \<Rightarrow> wifi_ap list option \<Rightarrow> tollgate_config \<Rightarrow> page \<times> wifi_sta_config option" where
  "wifi_scan_handler print scan cfg =
     (case scan of
        None \<Rightarrow> (page_200 ''application/json'' ''[]'', None)
      | Some aps \<Rightarrow>
          (page_200 ''application/json'' (print (JArr (map ap_json (filter (\<lambda>a. wa_ssid a \<noteq> []) (rssi_sort (take 20 aps)))))),
           if cfg_network_count cfg > 0
           then (case tollgate_config_get_wifi cfg of Ok w \<Rightarrow> Some w | _ \<Rightarrow> None)
           else None))"

definition ok_false :: "string \<Rightarrow> string" where
  "ok_false err = ''{'' @ dq @ ''ok'' @ dq @ '':false,'' @ dq @ ''error'' @ dq @ '':'' @ dq @ err @ dq @ ''}''"

definition ok_true :: string where
  "ok_true = ''{'' @ dq @ ''ok'' @ dq @ '':true}''"

text \<open>\<open>body\<close> is what \<open>httpd_req_recv\<close> delivers, \<open>None\<close> when it fails before the announced length.\<close>

definition wifi_connect_handler ::
  "config_env \<Rightarrow> int \<Rightarrow> string option \<Rightarrow> tollgate_config \<Rightarrow> string option
     \<Rightarrow> page \<times> tollgate_config \<times> string option \<times> wifi_sta_config option" where
  "wifi_connect_handler e content_len body cfg disk =
     (let refuse = (\<lambda>err. (page_200 ''application/json'' (ok_false err), cfg, disk, None)) in
      if content_len \<le> 0 \<or> 1024 < content_len then refuse ''invalid request''
      else (case body of
         None \<Rightarrow> (page_500, cfg, disk, None)
       | Some b \<Rightarrow>
          (case fe_parse e b of
             None \<Rightarrow> refuse ''invalid JSON''
           | Some j \<Rightarrow>
              (case json_str (json_get_ci j ''ssid'') of
                 None \<Rightarrow> refuse ''missing ssid''
               | Some ssid \<Rightarrow>
                   let pass = (case json_str (json_get_ci j ''password'') of Some p \<Rightarrow> p | None \<Rightarrow> []) in
                   (case tollgate_config_add_wifi e (Some ssid) (Some pass) cfg disk of
                      (Ok _, cfg', disk') \<Rightarrow>
                        (page_200 ''application/json'' ok_true, cfg', disk',
                         Some \<lparr>sta_ssid = c_strncpy 32 ssid, sta_password = c_strncpy 64 pass, sta_authmode = WIFI_AUTH_WPA2_PSK\<rparr>)
                    | (_, cfg', disk') \<Rightarrow> (page_200 ''application/json'' (ok_false ''save failed''), cfg', disk', None))))))"

text \<open>\<open>conn\<close>: the name of the network the station is connected to and, if known, its own address.\<close>

definition wifi_status_handler :: "(json \<Rightarrow> string) \<Rightarrow> (string \<times> u32 option) option \<Rightarrow> page" where
  "wifi_status_handler print conn =
     page_200 ''application/json'' (print (JObj
       (case conn of
          None \<Rightarrow> [(''connected'', JBool False)]
        | Some (ssid, ip) \<Rightarrow> [(''connected'', JBool True)] @
            (case ip of Some a \<Rightarrow> [(''ip'', JStr (c_strncpy 16 (ipv4_text a)))] | None \<Rightarrow> []) @
            [(''ssid'', JStr ssid)])))"

section \<open>The scan result is sorted\<close>

lemma swap_at_props:
  assumes "i < j" "j < length xs"
  shows "length (swap_at i j xs) = length xs" "mset (swap_at i j xs) = mset xs" "take i (swap_at i j xs) = take i xs"
    "swap_at i j xs ! i = xs ! j" "swap_at i j xs ! j = xs ! i" "k \<noteq> i \<Longrightarrow> k \<noteq> j \<Longrightarrow> swap_at i j xs ! k = xs ! k"
  using assms mset_swap[of j xs i] by (simp_all add: swap_at_def)

lemma rssi_pass_upto:
  assumes "i < k" "k \<le> length aps"
  defines "r \<equiv> foldl (\<lambda>xs j. if wa_rssi (xs ! i) < wa_rssi (xs ! j) then swap_at i j xs else xs) aps [i + 1..<k]"
  shows "length r = length aps \<and> mset r = mset aps \<and> take i r = take i aps \<and> (\<forall>j. i \<le> j \<and> j < k \<longrightarrow> wa_rssi (r ! j) \<le> wa_rssi (r ! i))"
  using assms(1,2) unfolding r_def
proof (induction k)
  case (Suc k)
  show ?case
  proof (cases "i < k")
    case True
    define q where "q = foldl (\<lambda>xs j. if wa_rssi (xs ! i) < wa_rssi (xs ! j) then swap_at i j xs else xs) aps [i + 1..<k]"
    have q: "length q = length aps" "mset q = mset aps" "take i q = take i aps" "\<And>j. i \<le> j \<Longrightarrow> j < k \<Longrightarrow> wa_rssi (q ! j) \<le> wa_rssi (q ! i)"
      using Suc.IH True Suc.prems by (simp_all add: q_def)
    have u: "foldl (\<lambda>xs j. if wa_rssi (xs ! i) < wa_rssi (xs ! j) then swap_at i j xs else xs) aps [i + 1..<Suc k] =
        (if wa_rssi (q ! i) < wa_rssi (q ! k) then swap_at i k q else q)"
      using True by (simp add: q_def)
    have k: "k < length q" using Suc.prems(2) q(1) by simp
    have "wa_rssi (swap_at i k q ! j) \<le> wa_rssi (swap_at i k q ! i)"
      if "wa_rssi (q ! i) < wa_rssi (q ! k)" "i \<le> j" "j < Suc k" for j
    proof -
      note jk = that
      consider "j = i" | "j = k" "k \<noteq> i" | "j \<noteq> i" "j \<noteq> k" "j < k" using jk(3) True by linarith
      then show ?thesis
      proof cases
        case 3
        then show ?thesis using swap_at_props(4,6)[OF True k] q(4)[of j] jk(1,2) by simp
      qed (use swap_at_props[OF True k] jk True in auto)
    qed
    moreover have "wa_rssi (q ! j) \<le> wa_rssi (q ! i)" if "\<not> wa_rssi (q ! i) < wa_rssi (q ! k)" "i \<le> j" "j < Suc k" for j
      using that q(4)[of j] by (cases "j = k") auto
    ultimately show ?thesis unfolding u using q(1-3) swap_at_props(1-3)[OF True k] by simp
  next
    case False
    then have "i = k" using Suc.prems(1) by simp
    then show ?thesis by (auto simp: less_Suc_eq)
  qed
qed simp

lemma rssi_sort_upto:
  assumes "m \<le> length aps - 1"
  defines "r \<equiv> foldl rssi_pass aps [0..<m]"
  shows "length r = length aps \<and> mset r = mset aps \<and> (\<forall>a b. a < m \<and> a < b \<and> b < length aps \<longrightarrow> wa_rssi (r ! b) \<le> wa_rssi (r ! a))"
  using assms(1) unfolding r_def
proof (induction m)
  case (Suc m)
  define q where "q = foldl rssi_pass aps [0..<m]"
  have q: "length q = length aps" "mset q = mset aps" "\<And>a b. a < m \<Longrightarrow> a < b \<Longrightarrow> b < length aps \<Longrightarrow> wa_rssi (q ! b) \<le> wa_rssi (q ! a)"
    using Suc by (simp_all add: q_def)
  define p where "p = rssi_pass q m"
  have m: "m < length q" using Suc.prems q(1) by simp
  have p: "length p = length q" "mset p = mset q" "take m p = take m q" "\<And>j. m \<le> j \<Longrightarrow> j < length q \<Longrightarrow> wa_rssi (p ! j) \<le> wa_rssi (p ! m)"
    using rssi_pass_upto[OF m order_refl] by (simp_all add: p_def rssi_pass_def)
  have "mset (take m p) + mset (drop m p) = mset (take m q) + mset (drop m q)"
    using p(2) by (simp flip: mset_append)
  then have d: "set (drop m p) = set (drop m q)" using p(3) by (metis add_left_cancel mset_eq_setD)
  have "wa_rssi (p ! b) \<le> wa_rssi (p ! a)" if "a < Suc m" "a < b" "b < length aps" for a b
  proof (cases "a = m")
    case True
    then show ?thesis using p(4)[of b] that q(1) by simp
  next
    case False
    then have a: "a < m" using that by simp
    have pa: "p ! a = q ! a" using p(3) a m by (metis nth_take)
    show ?thesis
    proof (cases "b < m")
      case True
      then have "p ! b = q ! b" using p(3) by (metis nth_take)
      then show ?thesis using pa q(3)[OF a that(2,3)] by simp
    next
      case False
      have "p ! b = drop m p ! (b - m)" using False that(3) p(1) q(1) m by simp
      moreover have "b - m < length (drop m p)" using False that(3) p(1) q(1) by simp
      ultimately have "p ! b \<in> set (drop m q)" using d nth_mem by metis
      then obtain k where "k < length (drop m q)" "drop m q ! k = p ! b" by (metis in_set_conv_nth)
      then have "m + k < length aps" "q ! (m + k) = p ! b" using m q(1) by simp_all
      then show ?thesis using pa q(3)[OF a, of "m + k"] a by simp
    qed
  qed
  moreover have "foldl rssi_pass aps [0..<Suc m] = p" by (simp add: p_def q_def)
  ultimately show ?case using p(1,2) q(1,2) by simp
qed simp

text \<open>
  The list of networks offered to the visitor is a rearrangement of what the scan found, strongest first.
\<close>

theorem wifi_scan_sorted:
  "mset (rssi_sort aps) = mset aps \<and> sorted_wrt (\<lambda>a b. wa_rssi b \<le> wa_rssi a) (rssi_sort aps)"
  using rssi_sort_upto[of "length aps - 1" aps]
  by (auto simp: rssi_sort_def sorted_wrt_iff_nth_less)

section \<open>Who may change the upstream network\<close>

text \<open>
  The setup page is hidden once a network is configured, but the request it sends is not refused: on a gate
  that is configured and has a free entry, a posted network name is accepted from any visitor. The file
  is rewritten, and after the next start the profits go to the built-in address.
\<close>

theorem portal_wifi_connect_open:
  assumes "config_wf c" "0 < cfg_network_count c" "cfg_network_count c < TOLLGATE_MAX_WIFI_NETWORKS"
    and "0 < len" "len \<le> 1024" "fe_parse e b = Some j"
    and "json_get_ci j ''ssid'' = Some (JStr ssid)" "json_get_ci j ''password'' = Some (JStr pass)"
    and "tollgate_config_add_wifi e (Some ssid) (Some pass) c disk = (Ok (), c', disk')"
    and "fe_mounts e" "fe_writable e" "fe_parse e (fe_print e (config_object c')) = Some (config_object c')"
  shows "\<not> is_setup_available c \<and>
    wifi_connect_handler e len (Some b) c disk = (page_200 ''application/json'' ok_true, c', disk',
      Some \<lparr>sta_ssid = take 31 ssid, sta_password = take 63 pass, sta_authmode = WIFI_AUTH_WPA2_PSK\<rparr>) \<and>
    cfg_network_count c' = cfg_network_count c + 1 \<and>
    (\<exists>c2. tollgate_config_init e disk' = (Ok c2, disk') \<and> po_recipients (cfg_payout c2) ! 0 = default_recipient \<and>
      po_recipient_count (cfg_payout c2) = 1)"
proof -
  note r = add_wifi_restart[OF assms(1,9,10,11,12)]
  have "cfg_payout (saved_part c') = payout_defaults" by (simp add: saved_part_def config_defaults_def)
  note p = restart_payout[OF this]
  have n: "cfg_network_count c' = cfg_network_count c + 1"
    using assms(3,9) by (auto simp: tollgate_config_add_wifi_def Let_def)
  have "wifi_connect_handler e len (Some b) c disk = (page_200 ''application/json'' ok_true, c', disk',
      Some \<lparr>sta_ssid = take 31 ssid, sta_password = take 63 pass, sta_authmode = WIFI_AUTH_WPA2_PSK\<rparr>)"
    using assms(4-9) by (simp add: wifi_connect_handler_def json_str_def Let_def c_strncpy_def)
  then show ?thesis using assms(2) n r(1) p by (simp add: is_setup_available_def)
qed

definition demo_post :: json where
  "demo_post = JObj [(''ssid'', JStr ''cafe''), (''password'', JStr [])]"

definition demo_portal_env :: config_env where
  "demo_portal_env = \<lparr>fe_mounts = True, fe_writable = True,
     fe_parse = (\<lambda>t. if t = ''post'' then Some demo_post else Some (config_object demo_added)), fe_print = (\<lambda>j. ''{}'')\<rparr>"

lemma demo_post_get: "json_get_ci demo_post ''ssid'' = Some (JStr ''cafe'')" "json_get_ci demo_post ''password'' = Some (JStr [])"
  using network_object_get[of "\<lparr>wn_ssid = ''cafe'', wn_password = []\<rparr>"] by (simp_all add: demo_post_def network_object_def)

theorem portal_wifi_connect_open_witness:
  "\<exists>c2. fst (wifi_connect_handler demo_portal_env 31 (Some ''post'') demo_start None) = page_200 ''application/json'' ok_true \<and>
     tollgate_config_init demo_portal_env (Some ''{}'') = (Ok c2, Some ''{}'') \<and> po_recipients (cfg_payout c2) ! 0 = default_recipient"
proof -
  have add: "tollgate_config_add_wifi demo_portal_env (Some ''cafe'') (Some []) demo_start None = (Ok (), demo_added, Some ''{}'')"
    by (simp add: tollgate_config_add_wifi_def demo_start_def demo_added_def demo_portal_env_def config_limits numeral_2_eq_2)
  have c: "0 < cfg_network_count demo_start" "cfg_network_count demo_start < TOLLGATE_MAX_WIFI_NETWORKS"
    by (simp_all add: demo_start_def config_limits)
  have e: "fe_parse demo_portal_env ''post'' = Some demo_post" "fe_mounts demo_portal_env" "fe_writable demo_portal_env"
    "fe_parse demo_portal_env (fe_print demo_portal_env (config_object demo_added)) = Some (config_object demo_added)"
    by (simp_all add: demo_portal_env_def)
  from portal_wifi_connect_open[OF demo_start_wf c _ _ e(1) demo_post_get add e(2-4), of 31] show ?thesis by auto
qed

text \<open>
  A network without a password is stored as open but joined with the demand for WPA2: the handler
  and \<open>tollgate_config_get_wifi\<close> disagree on the same entry.
\<close>

theorem portal_open_network_refused:
  assumes "config_wf c" "0 < len" "len \<le> 1024" "fe_parse e b = Some j" "json_get_ci j ''ssid'' = Some (JStr ssid)"
    and "json_get_ci j ''password'' = None" "cfg_network_count c = 0" "cfg_current_network c = 0"
  shows "\<exists>c' disk' w w'. wifi_connect_handler e len (Some b) c disk = (page_200 ''application/json'' ok_true, c', disk', Some w) \<and>
    sta_authmode w = WIFI_AUTH_WPA2_PSK \<and> tollgate_config_get_wifi c' = Ok w' \<and> sta_ssid w' = sta_ssid w \<and> sta_authmode w' = WIFI_AUTH_OPEN"
proof -
  have l: "length (cfg_networks c) = 5" using assms(1) by (simp add: config_wf_def networks_ok_def config_limits)
  then have "0 < length (cfg_networks c)" by simp
  then show ?thesis using assms l
    by (auto simp: wifi_connect_handler_def json_str_def Let_def tollgate_config_add_wifi_def config_limits
      tollgate_config_get_wifi_def c_strncpy_def)
qed

definition demo_open_post :: json where
  "demo_open_post = JObj [(''ssid'', JStr ''cafe'')]"

theorem portal_open_network_refused_witness:
  "\<exists>w. snd (snd (snd (wifi_connect_handler (demo_portal_env\<lparr>fe_parse := (\<lambda>t. Some demo_open_post)\<rparr>) 15 (Some ''post'') config_defaults None))) = Some w \<and>
     sta_authmode w = WIFI_AUTH_WPA2_PSK"
proof -
  have l: "list_all (\<lambda>m. map to_lower (fst m) = fst m) [(''ssid'', JStr ''cafe'')]" using lower_written_keys by simp
  have g: "json_get_ci demo_open_post ''ssid'' = Some (JStr ''cafe'')" "json_get_ci demo_open_post ''password'' = None"
    unfolding demo_open_post_def get_ci_lower[OF l lower_written_keys(10)] get_ci_lower[OF l lower_written_keys(11)] by simp_all
  have z: "cfg_network_count config_defaults = 0" "cfg_current_network config_defaults = 0" by (simp_all add: config_defaults_def)
  have p: "fe_parse (demo_portal_env\<lparr>fe_parse := (\<lambda>t. Some demo_open_post)\<rparr>) ''post'' = Some demo_open_post" by simp
  from portal_open_network_refused[OF defaults_wf _ _ p g z, of 15 None] show ?thesis by auto
qed

end
