(* ===== verification/TG_Main.thy ===== *)
theory TG_Main
  imports TG_PortalServer TG_Client
begin

text \<open>
  The start of the firmware and its reactions to the network (\<^verbatim>\<open>main/tollgate_main.c\<close>): \<open>app_main\<close>, the
  handlers of WiFi and IP events, the starting and stopping of the services, and the main loop. The
  parts of the gate modelled in other theories are changed by their own operations (configuration,
  gate core with firewall and DNS server, upstream client, portal server); every other service that is
  started or stopped is an entry of the list of calls. The tasks created for \<open>services_start_task\<close> that
  have not run yet are counted. Event delivery, the network interfaces and the DNS table of lwIP are
  parameters.
\<close>

section \<open>State\<close>

datatype service_call =
    Call_cvm_server_init | Call_cvm_server_start | Call_cvm_server_stop
  | Call_mint_health_init "string list" nat | Call_mint_health_start
  | Call_wallet_init_multi "string list" nat | Call_wallet_init string
  | Call_lightning_payout_init payout_config
  | Call_tollgate_api_start | Call_tollgate_api_stop | Call_beacon_price_start | Call_beacon_price_stop | Call_market_init
  | Call_relay_selector_init | Call_relay_selector_seed | Call_relay_selector_destroy
  | Call_sync_manager_start | Call_sync_manager_stop | Call_wifistr_task
  | Call_stratum_client_init | Call_stratum_proxy_init u16 bool | Call_stratum_client_start
  | Call_asic_miner_init | Call_asic_miner_start | Call_sw_miner_start | Call_faucet_client_start
  | Call_local_relay_start | Call_local_relay_stop
  | Call_sntp_restart
  | Call_display_boot | Call_display_ready string string string int

record gate_main =
  gm_cfg :: tollgate_config
  gm_core :: core_state
  gm_client :: client_machine
  gm_portal :: portal_server
  gm_dns0 :: u32
  gm_retry_count :: nat
  gm_services_running :: bool
  gm_ap_services_running :: bool
  gm_sta_connecting :: bool
  gm_svc_task :: bool
  gm_pending_tasks :: nat
  gm_sta :: "wifi_sta_config option"
  gm_attempts :: "wifi_sta_config option list"
  gm_sta_got_ip :: bool
  gm_sta_ip :: u32
  gm_sta_gw :: u32
  gm_connected_bit :: bool
  gm_ap_started :: bool
  gm_calls :: "service_call list"

text \<open>The surroundings of the services: interfaces, name servers, web server, hardware.\<close>

record svc_env =
  se_platform :: "tollgate_platform option"
  se_ap_netif_ip :: u32
  se_dns1 :: u32
  se_sta_dns :: "u32 option"
  se_httpd_ok :: bool
  se_asic :: bool

definition MAX_STA_RETRY :: nat where
  "MAX_STA_RETRY = 5"

definition call :: "service_call list \<Rightarrow> gate_main \<Rightarrow> gate_main" where
  "call cs m = m\<lparr>gm_calls := gm_calls m @ cs\<rparr>"

definition wifi_connect :: "gate_main \<Rightarrow> gate_main" where
  "wifi_connect m = m\<lparr>gm_attempts := gm_attempts m @ [gm_sta m]\<rparr>"

definition map_net :: "(net_state \<Rightarrow> net_state) \<Rightarrow> gate_main \<Rightarrow> gate_main" where
  "map_net f m = m\<lparr>gm_core := (gm_core m)\<lparr>core_sess := (core_sess (gm_core m))\<lparr>sess_net := f (core_net (gm_core m))\<rparr>\<rparr>\<rparr>"

definition portal_start :: "svc_env \<Rightarrow> gate_main \<Rightarrow> gate_main" where
  "portal_start e m = m\<lparr>gm_portal := snd (captive_portal_start (se_httpd_ok e) (Some (cfg_ap_ip_str (gm_cfg m))) (gm_portal m))\<rparr>"

section \<open>Services\<close>

definition set_sandbox :: "gate_main \<Rightarrow> gate_main" where
  "set_sandbox m = (if cfg_mining_enabled (gm_cfg m) then
       map_net (\<lambda>s. fw_set_sandbox_mint_access (cfg_mining_sandbox_mint_access (gm_cfg m))
                      (fw_set_sandbox_ports (cfg_mining_port (gm_cfg m)) s)) m
     else m)"

definition start_ap_services :: "svc_env \<Rightarrow> gate_main \<Rightarrow> gate_main" where
  "start_ap_services e m =
     (if gm_ap_services_running m then m
      else (set_sandbox (call [Call_tollgate_api_start, Call_beacon_price_start, Call_market_init] (portal_start e m)))
             \<lparr>gm_ap_services_running := True\<rparr>)"

text \<open>
  The upstream name server: the first of the table, unless that is the access point itself; then the
  second, or the one of the station interface, which also replaces the first.
\<close>

definition choose_upstream_dns :: "svc_env \<Rightarrow> u32 \<Rightarrow> u32 \<times> u32" where
  "choose_upstream_dns e dns0 =
     (let ap = se_ap_netif_ip e in
      if dns0 \<noteq> ap then (dns0, dns0)
      else if se_dns1 e \<noteq> 0 \<and> se_dns1 e \<noteq> ap then (se_dns1 e, se_dns1 e)
      else (case se_sta_dns e of
          Some d \<Rightarrow> if d \<noteq> 0 \<and> d \<noteq> ap then (d, d) else (dns0, dns0)
        | None \<Rightarrow> (dns0, dns0)))"

definition early_services :: "tollgate_config \<Rightarrow> service_call list" where
  "early_services cfg =
     (if cfg_cvm_enabled cfg then [Call_cvm_server_init, Call_cvm_server_start] else []) @
     (if cfg_mint_health_enabled cfg
      then [Call_mint_health_init (cfg_accepted_mints cfg) (cfg_accepted_mint_count cfg), Call_mint_health_start] else []) @
     (if cfg_accepted_mint_count cfg > 1
      then [Call_wallet_init_multi (cfg_accepted_mints cfg) (cfg_accepted_mint_count cfg)]
      else [Call_wallet_init (cfg_mint_url cfg)])"

definition late_services :: "svc_env \<Rightarrow> bool \<Rightarrow> tollgate_config \<Rightarrow> service_call list" where
  "late_services e ap_running cfg =
     (if \<not> ap_running then [Call_tollgate_api_start, Call_beacon_price_start, Call_market_init] else []) @
     (if cfg_sync_enabled cfg \<or> cfg_wifistr_enabled cfg then [Call_relay_selector_init, Call_relay_selector_seed] else []) @
     (if cfg_sync_enabled cfg then [Call_sync_manager_start] else []) @
     (if cfg_wifistr_enabled cfg then [Call_wifistr_task] else []) @
     (if cfg_mining_enabled cfg then
        [Call_stratum_client_init, Call_stratum_proxy_init (cfg_mining_port cfg) (cfg_proxy_self_test cfg)] @
        (if cfg_mining_payout_mode cfg \<noteq> MINING_PAYOUT_UPSTREAM then [Call_stratum_client_start] else []) @
        [Call_asic_miner_init, if se_asic e then Call_asic_miner_start else Call_sw_miner_start]
      else []) @
     (if cfg_faucet_url cfg \<noteq> [] then [Call_faucet_client_start] else [])"

definition start_services :: "svc_env \<Rightarrow> gate_main \<Rightarrow> gate_main" where
  "start_services e m =
     (if gm_services_running m then m
      else
        let cfg = gm_cfg m;
            (upstream, dns0) = choose_upstream_dns e (gm_dns0 m);
            m1 = m\<lparr>gm_dns0 := dns0, gm_core := snd (core_init (se_platform e) (se_ap_netif_ip e) (gm_core m))\<rparr>;
            m2 = set_sandbox (call (early_services cfg) m1);
            m3 = map_net (\<lambda>s. s\<lparr>net_dns := dns_start_internal (se_ap_netif_ip e) upstream (net_dns s)\<rparr>)
                   (call [Call_lightning_payout_init (cfg_payout cfg)] m2);
            m4 = (call (late_services e (gm_ap_services_running m) cfg) (portal_start e m3))\<lparr>gm_services_running := True\<rparr>
        in if cfg_display_enabled cfg
           then call [Call_display_ready (cfg_ap_ssid cfg) (c_strncpy 128 (''http://'' @ cfg_ap_ip_str cfg @ ''/''))
                        (cfg_mint_url cfg) (cfg_price_per_step cfg)] m4
           else m4)"

definition stop_services :: "gate_main \<Rightarrow> gate_main" where
  "stop_services m =
     (if \<not> gm_services_running m then m
      else
        let cfg = gm_cfg m;
            m1 = m\<lparr>gm_portal := captive_portal_stop (gm_portal m)\<rparr>;
            m2 = call (if \<not> gm_ap_services_running m then [Call_tollgate_api_stop, Call_beacon_price_stop] else []) m1;
            m3 = map_net (\<lambda>s. s\<lparr>net_dns := dns_stop (net_dns s)\<rparr>) m2;
            m4 = call ([Call_cvm_server_stop] @ (if cfg_sync_enabled cfg then [Call_sync_manager_stop] else []) @
                   (if cfg_local_relay_enabled cfg then [Call_local_relay_stop] else []) @
                   (if cfg_sync_enabled cfg \<or> cfg_wifistr_enabled cfg then [Call_relay_selector_destroy] else [])) m3
        in (map_net fw_revoke_all m4)\<lparr>gm_services_running := False\<rparr>)"

section \<open>Events\<close>

datatype wifi_event = WIFI_EVENT_STA_START | WIFI_EVENT_STA_DISCONNECTED | WIFI_EVENT_AP_STACONNECTED
  | WIFI_EVENT_AP_STADISCONNECTED | WIFI_EVENT_AP_START | WIFI_EVENT_OTHER

definition on_sta_start :: "gate_main \<Rightarrow> gate_main cres" where
  "on_sta_start m =
     (if gm_sta_connecting m then Ok m
      else (case tollgate_config_get_wifi (gm_cfg m) of
          Undef \<Rightarrow> Undef
        | Fail \<Rightarrow> Ok (wifi_connect (m\<lparr>gm_sta_connecting := True\<rparr>))
        | Ok w \<Rightarrow> Ok (wifi_connect (m\<lparr>gm_sta := Some w, gm_sta_connecting := True\<rparr>))))"

definition sta_down :: "gate_main \<Rightarrow> gate_main" where
  "sta_down m =
     (let m1 = m\<lparr>gm_retry_count := gm_retry_count m + 1, gm_sta_connecting := False,
                 gm_client := client_on_sta_disconnected (gm_client m)\<rparr> in
      if gm_services_running m1 then stop_services m1 else m1)"

definition on_sta_disconnected :: "gate_main \<Rightarrow> gate_main cres" where
  "on_sta_disconnected m =
     (let m2 = sta_down m in
      if gm_retry_count m2 < MAX_STA_RETRY then Ok (wifi_connect (m2\<lparr>gm_sta_connecting := True\<rparr>))
      else (case tollgate_config_get_next_wifi (gm_cfg m2) of
          (Undef, _) \<Rightarrow> Undef
        | (Fail, cfg) \<Rightarrow> Ok (m2\<lparr>gm_cfg := cfg\<rparr>)
        | (Ok w, cfg) \<Rightarrow> Ok (wifi_connect (m2\<lparr>gm_cfg := cfg, gm_sta := Some w, gm_retry_count := 0, gm_sta_connecting := True\<rparr>))))"

definition wifi_event_handler :: "svc_env \<Rightarrow> wifi_event \<Rightarrow> gate_main \<Rightarrow> gate_main cres" where
  "wifi_event_handler e ev m =
     (case ev of
        WIFI_EVENT_STA_START \<Rightarrow> on_sta_start m
      | WIFI_EVENT_STA_DISCONNECTED \<Rightarrow> on_sta_disconnected m
      | WIFI_EVENT_AP_START \<Rightarrow> Ok (start_ap_services e (m\<lparr>gm_ap_started := True\<rparr>))
      | _ \<Rightarrow> Ok m)"

text \<open>
  A new address: the task that starts the services is created only while its handle is still \<open>NULL\<close>.
\<close>

definition on_got_ip :: "client_env \<Rightarrow> u32 \<Rightarrow> u32 \<Rightarrow> gate_main \<Rightarrow> gate_main cres" where
  "on_got_ip ce ip gw m =
     (let m1 = m\<lparr>gm_retry_count := 0, gm_sta_got_ip := True, gm_sta_ip := ip, gm_sta_gw := gw, gm_connected_bit := True\<rparr>;
          m2 = (if \<not> gm_svc_task m1 then m1\<lparr>gm_svc_task := True, gm_pending_tasks := gm_pending_tasks m1 + 1\<rparr> else m1);
          m3 = call [Call_sntp_restart] m2 in
      cbind (client_on_sta_connected ce (c_strncpy 16 (ipv4_text gw)) (gm_client m3)) (\<lambda>c. Ok (m3\<lparr>gm_client := c\<rparr>)))"

definition on_lost_ip :: "gate_main \<Rightarrow> gate_main" where
  "on_lost_ip m = stop_services (m\<lparr>gm_connected_bit := False\<rparr>)"

text \<open>\<open>services_start_task\<close>, when one of the created tasks gets to run.\<close>

definition run_services_task :: "svc_env \<Rightarrow> gate_main \<Rightarrow> gate_main" where
  "run_services_task e m =
     (if gm_pending_tasks m = 0 then m else start_services e (m\<lparr>gm_pending_tasks := gm_pending_tasks m - 1\<rparr>))"

text \<open>One round of the main loop, as far as the parts modelled here go.\<close>

definition main_loop_tick :: "op_env \<Rightarrow> client_env \<Rightarrow> gate_main \<Rightarrow> gate_main cres" where
  "main_loop_tick oe ce m =
     cbind (client_tick ce (gm_client m)) (\<lambda>c. Ok (m\<lparr>gm_core := core_tick oe (gm_core m), gm_client := c\<rparr>))"

section \<open>Boot\<close>

record wifi_ap_config =
  wac_ssid :: string
  wac_password :: string
  wac_authmode :: wifi_authmode
  wac_channel :: u8
  wac_max_connection :: u8

definition wifi_configure_ap :: "tollgate_config \<Rightarrow> wifi_ap_config" where
  "wifi_configure_ap cfg =
     \<lparr>wac_ssid = c_strncpy 32 (cfg_ap_ssid cfg),
      wac_password = (if cfg_ap_password cfg \<noteq> [] then c_strncpy 64 (cfg_ap_password cfg) else []),
      wac_authmode = (if cfg_ap_password cfg \<noteq> [] then WIFI_AUTH_WPA2_PSK else WIFI_AUTH_OPEN),
      wac_channel = cfg_ap_channel cfg, wac_max_connection = cfg_ap_max_conn cfg\<rparr>"

text \<open>
  \<open>app_main\<close> up to the main loop: an error of the configuration or of the identity aborts. The network
  interface of the access point gets the address of the configuration; without a configured
  network a task for the services is created at once.
\<close>

definition app_main :: "config_env \<Rightarrow> identity_env \<Rightarrow> bool \<Rightarrow> string option \<Rightarrow> u32 \<Rightarrow> gate_main cres" where
  "app_main fe ie display_ok disk dns0 =
     cbind (fst (tollgate_config_init fe disk)) (\<lambda>cfg0.
     cbind (identity_init ie (Some (cfg_nsec cfg0))) (\<lambda>ident.
       let cfg = tollgate_config_derive_unique (Some ident) cfg0;
           m = \<lparr>gm_cfg = cfg, gm_core = core_boot, gm_client = client_boot, gm_portal = portal_boot, gm_dns0 = dns0,
                gm_retry_count = 0, gm_services_running = False, gm_ap_services_running = False, gm_sta_connecting = False,
                gm_svc_task = False, gm_pending_tasks = 0, gm_sta = None, gm_attempts = [], gm_sta_got_ip = False,
                gm_sta_ip = 0, gm_sta_gw = 0, gm_connected_bit = False, gm_ap_started = False,
                gm_calls = (if cfg_display_enabled cfg \<and> display_ok then [Call_display_boot] else []) @
                  (if cfg_local_relay_enabled cfg then [Call_local_relay_start] else [])\<rparr> in
       (case tollgate_config_get_wifi cfg of
          Undef \<Rightarrow> Undef
        | Ok w \<Rightarrow> Ok (m\<lparr>gm_sta := Some w\<rparr>)
        | Fail \<Rightarrow> Ok (m\<lparr>gm_pending_tasks := 1\<rparr>))))"

section \<open>Runs\<close>

text \<open>
  What happens to the running firmware: events of the network, a created task that gets to run, a round
  of the main loop, and the two requests to the portal that touch the upstream connection. The scan
  disconnects the station, which the network reports with its own event.
\<close>

datatype gate_event =
    GE_Wifi wifi_event
  | GE_Got_Ip client_env u32 u32
  | GE_Lost_Ip
  | GE_Services_Task
  | GE_Tick op_env client_env
  | GE_Scan "wifi_ap list option"
  | GE_Post config_env int "string option" "string option"

definition gate_event_step :: "svc_env \<Rightarrow> gate_event \<Rightarrow> gate_main \<Rightarrow> gate_main cres" where
  "gate_event_step e ev m =
     (case ev of
        GE_Wifi w \<Rightarrow> wifi_event_handler e w m
      | GE_Got_Ip ce ip gw \<Rightarrow> on_got_ip ce ip gw m
      | GE_Lost_Ip \<Rightarrow> Ok (on_lost_ip m)
      | GE_Services_Task \<Rightarrow> Ok (run_services_task e m)
      | GE_Tick oe ce \<Rightarrow> main_loop_tick oe ce m
      | GE_Scan scan \<Rightarrow>
          (case snd (wifi_scan_handler (\<lambda>j. []) scan (gm_cfg m)) of
             None \<Rightarrow> Ok m
           | Some w \<Rightarrow> Ok (wifi_connect (m\<lparr>gm_sta := Some w\<rparr>)))
      | GE_Post fe len body disk \<Rightarrow>
          (case wifi_connect_handler fe len body (gm_cfg m) disk of
             (_, cfg, _, None) \<Rightarrow> Ok (m\<lparr>gm_cfg := cfg\<rparr>)
           | (_, cfg, _, Some w) \<Rightarrow> Ok (wifi_connect (m\<lparr>gm_cfg := cfg, gm_sta := Some w\<rparr>))))"

primrec gate_run :: "svc_env \<Rightarrow> gate_event list \<Rightarrow> gate_main \<Rightarrow> gate_main cres" where
  "gate_run e [] m = Ok m"
| "gate_run e (ev # evs) m = cbind (gate_event_step e ev m) (gate_run e evs)"

section \<open>Once stopped, never started again\<close>

abbreviation gate_net :: "gate_main \<Rightarrow> net_state" where
  "gate_net m \<equiv> core_net (gm_core m)"

definition services_dead :: "gate_main \<Rightarrow> bool" where
  "services_dead m \<longleftrightarrow> gm_svc_task m \<and> gm_pending_tasks m = 0 \<and> \<not> gm_services_running m \<and> gm_ap_services_running m \<and>
     \<not> ps_running (gm_portal m) \<and> \<not> s_dns_running (net_dns (gate_net m))"

lemma set_authenticated_running [simp]: "s_dns_running (dns_set_authenticated ip b d) = s_dns_running d"
  by (simp add: dns_set_authenticated_def split: option.split)

lemma fw_revoke_running [simp]: "s_dns_running (net_dns (fw_revoke ip s)) = s_dns_running (net_dns s)"
  by (simp add: fw_revoke_def Let_def split: option.split)

lemma session_revoke_running [simp]: "s_dns_running (net_dns (sess_net (session_revoke i g))) = s_dns_running (net_dns (sess_net g))"
  by (simp add: session_revoke_def Let_def)

lemma check_expiry_running [simp]: "s_dns_running (net_dns (sess_net (check_expiry env g))) = s_dns_running (net_dns (sess_net g))"
proof -
  have "s_dns_running (net_dns (sess_net (fold (\<lambda>i g. if active (s_sessions g ! i) \<and> session_is_expired env g (s_sessions g ! i)
      then session_revoke i g else g) is g))) = s_dns_running (net_dns (sess_net g))" for "is"
    by (induction "is" arbitrary: g) simp_all
  then show ?thesis by (simp add: check_expiry_def)
qed

lemma core_tick_running [simp]: "s_dns_running (net_dns (core_net (core_tick env st))) = s_dns_running (net_dns (core_net st))"
  by (simp add: core_tick_def session_tick_def)

lemmas dead_defs = services_dead_def wifi_connect_def call_def

lemma dead_step:
  assumes "services_dead m" "gate_event_step e ev m = Ok m'"
  shows "services_dead m'"
proof (cases ev)
  case (GE_Wifi w)
  then show ?thesis using assms
    by (cases w) (auto simp: gate_event_step_def wifi_event_handler_def on_sta_start_def on_sta_disconnected_def sta_down_def start_ap_services_def
      dead_defs Let_def split: cres.splits if_splits prod.splits)
next
  case (GE_Got_Ip ce ip gw)
  then show ?thesis using assms by (auto simp: gate_event_step_def on_got_ip_def dead_defs Let_def cbind_Ok_iff)
next
  case GE_Lost_Ip
  then show ?thesis using assms by (auto simp: gate_event_step_def on_lost_ip_def stop_services_def dead_defs)
next
  case GE_Services_Task
  then show ?thesis using assms by (auto simp: gate_event_step_def run_services_task_def dead_defs)
next
  case (GE_Tick oe ce)
  then show ?thesis using assms by (auto simp: gate_event_step_def main_loop_tick_def dead_defs cbind_Ok_iff)
next
  case (GE_Scan scan)
  then show ?thesis using assms by (auto simp: gate_event_step_def dead_defs split: option.splits)
next
  case (GE_Post fe len body disk)
  then show ?thesis using assms by (auto simp: gate_event_step_def dead_defs split: option.splits prod.splits)
qed

lemma dead_run: "services_dead m \<Longrightarrow> gate_run e evs m = Ok m' \<Longrightarrow> services_dead m'"
  by (induction evs arbitrary: m) (auto simp: cbind_Ok_iff dest: dead_step)

lemma start_services_frame:
  "gm_svc_task (start_services e m) = gm_svc_task m" "gm_pending_tasks (start_services e m) = gm_pending_tasks m"
  "gm_ap_services_running (start_services e m) = gm_ap_services_running m" "gm_services_running (start_services e m)"
  "gm_cfg (start_services e m) = gm_cfg m"
  by (simp_all add: start_services_def Let_def call_def portal_start_def set_sandbox_def map_net_def split: prod.split)

lemma start_ap_services_frame:
  "gm_svc_task (start_ap_services e m) = gm_svc_task m" "gm_pending_tasks (start_ap_services e m) = gm_pending_tasks m"
  "gm_services_running (start_ap_services e m) = gm_services_running m" "gm_ap_services_running (start_ap_services e m)"
  by (simp_all add: start_ap_services_def call_def portal_start_def set_sandbox_def map_net_def)

lemma fw_revoke_all_running [simp]: "s_dns_running (net_dns (fw_revoke_all s)) = s_dns_running (net_dns s)"
proof -
  have "s_dns_running (fold (\<lambda>c. dns_set_authenticated (fwc_ip c) False) cs d) = s_dns_running d" for cs d
    by (induction cs arbitrary: d) simp_all
  then show ?thesis by (simp add: fw_revoke_all_def)
qed

lemma stop_services_frame:
  assumes "gm_services_running m"
  shows "gm_svc_task (stop_services m) = gm_svc_task m" "gm_pending_tasks (stop_services m) = gm_pending_tasks m"
    "gm_ap_services_running (stop_services m) = gm_ap_services_running m" "\<not> gm_services_running (stop_services m)"
    "\<not> ps_running (gm_portal (stop_services m))" "\<not> s_dns_running (net_dns (gate_net (stop_services m)))"
    "gm_retry_count (stop_services m) = gm_retry_count m" "gm_cfg (stop_services m) = gm_cfg m"
    "core_sess (gm_core (stop_services m)) = (core_sess (gm_core m))\<lparr>sess_net :=
       fw_revoke_all ((gate_net m)\<lparr>net_dns := dns_stop (net_dns (gate_net m))\<rparr>)\<rparr>"
    "core_platform (gm_core (stop_services m)) = core_platform (gm_core m)"
  using assms by (simp_all add: stop_services_def Let_def call_def map_net_def captive_portal_stop_def dns_stop_def)

lemma disconnect_kills:
  assumes "gm_services_running m" "gm_svc_task m" "gm_pending_tasks m = 0" "gm_ap_services_running m" "on_sta_disconnected m = Ok m'"
  shows "services_dead m'"
proof -
  define m1 where "m1 = m\<lparr>gm_retry_count := gm_retry_count m + 1, gm_sta_connecting := False,
                 gm_client := client_on_sta_disconnected (gm_client m)\<rparr>"
  have r: "gm_services_running m1" "gm_svc_task m1" "gm_pending_tasks m1 = 0" "gm_ap_services_running m1"
    using assms(1-4) by (simp_all add: m1_def)
  have "services_dead (stop_services m1)" using stop_services_frame[OF r(1)] r by (simp add: services_dead_def)
  then show ?thesis using assms(5) r(1) unfolding on_sta_disconnected_def sta_down_def m1_def[symmetric] Let_def
    by (auto simp: dead_defs split: if_splits cres.splits prod.splits)
qed


definition demo_idle_client :: client_env where
  "demo_idle_client = demo_client_env\<lparr>ce_cfg := (ce_cfg demo_client_env)\<lparr>cc_client_enabled := False\<rparr>\<rparr>"

definition demo_svc_env :: svc_env where
  "demo_svc_env = \<lparr>se_platform = Some demo_platform, se_ap_netif_ip = 0x0100000A, se_dns1 = 0x08080808, se_sta_dns = None,
     se_httpd_ok = True, se_asic = False\<rparr>"

lemma demo_app_main:
  "\<exists>m0. app_main demo_config_env demo_identity_env True (Some ''{}'') 0x0100000A = Ok m0 \<and> cfg_network_count (gm_cfg m0) = 2 \<and>
     gm_retry_count m0 = 0 \<and> config_wf (gm_cfg m0)"
proof -
  have "id_hex_to_bytes default_nsec 32 \<noteq> None" by code_simp
  moreover have "length default_nsec = 64" by (simp add: default_nsec_def)
  ultimately obtain i where i: "identity_init demo_identity_env (Some default_nsec) = Ok i"
    by (auto simp: identity_init_def demo_identity_env_def Let_def)
  define c where "c = fill_defaults (default_payout_mint (saved_part demo_added))"
  have c: "fst (tollgate_config_init demo_config_env (Some ''{}'')) = Ok c"
    using add_wifi_restart(1)[OF demo_start_wf demo_add] by (simp add: demo_config_env_def c_def)
  have n: "cfg_nsec c = default_nsec" "cfg_network_count c = 2" "cfg_current_network c = 0"
    by (simp_all add: c_def restart_keeps rest_networks saved_part_def demo_added_def demo_start_def config_defaults_def)
  define d where "d = tollgate_config_derive_unique (Some i) c"
  have d: "config_wf d" "cfg_network_count d = 2" "cfg_current_network d = 0"
    using derive_unique_wf[OF config_init_wf[OF c]] n by (simp_all add: d_def tollgate_config_derive_unique_def)
  then obtain w where "tollgate_config_get_wifi d = Ok w" using get_wifi_current[of d] by auto
  then show ?thesis using c i n d by (simp add: app_main_def Let_def d_def)
qed

lemma idle_got_ip: "\<exists>m'. on_got_ip demo_idle_client ip gw m = Ok m' \<and> gm_retry_count m' = 0"
  by (simp add: on_got_ip_def Let_def demo_idle_client_def client_on_sta_connected_def call_def)

lemma run_services_retry: "gm_retry_count (run_services_task e m) = gm_retry_count m"
  by (simp add: run_services_task_def start_services_def Let_def call_def portal_start_def set_sandbox_def map_net_def split: prod.split)


section \<open>Every configured network is tried\<close>

text \<open>A row of disconnections, with nothing in between.\<close>

primrec disconnects :: "nat \<Rightarrow> gate_main \<Rightarrow> gate_main cres" where
  "disconnects 0 m = Ok m"
| "disconnects (Suc k) m = cbind (on_sta_disconnected m) (disconnects k)"

lemma disconnects_add: "disconnects (a + b) m = cbind (disconnects a m) (disconnects b)"
proof (induction a arbitrary: m)
  case (Suc a)
  then show ?case by (cases "on_sta_disconnected m") simp_all
qed simp

lemma stop_services_core:
  "gm_retry_count (stop_services m) = gm_retry_count m" "gm_cfg (stop_services m) = gm_cfg m" "gm_attempts (stop_services m) = gm_attempts m"
  by (simp_all add: stop_services_def Let_def call_def map_net_def)

lemma sta_down_core:
  "gm_retry_count (sta_down m) = gm_retry_count m + 1" "gm_cfg (sta_down m) = gm_cfg m" "gm_attempts (sta_down m) = gm_attempts m"
  by (simp_all add: sta_down_def Let_def stop_services_core)

lemma disconnect_retry:
  assumes "gm_retry_count m + 1 < MAX_STA_RETRY"
  obtains m' where "on_sta_disconnected m = Ok m'" "gm_retry_count m' = gm_retry_count m + 1" "gm_cfg m' = gm_cfg m"
  using assms that[of "wifi_connect ((sta_down m)\<lparr>gm_sta_connecting := True\<rparr>)"]
  by (simp add: on_sta_disconnected_def sta_down_core wifi_connect_def Let_def)

lemma disconnect_next:
  assumes "MAX_STA_RETRY \<le> gm_retry_count m + 1" "config_wf (gm_cfg m)" "0 < cfg_network_count (gm_cfg m)"
  obtains m' w where "on_sta_disconnected m = Ok m'" "gm_retry_count m' = 0" "gm_cfg m' = next_network (gm_cfg m)"
    "gm_attempts m' \<noteq> []" "last (gm_attempts m') = Some w" "tollgate_config_get_wifi (gm_cfg m') = Ok w"
proof -
  let ?c = "next_network (gm_cfg m)"
  have c: "cfg_current_network ?c < cfg_network_count ?c"
    using assms(3) by (simp add: next_network_def tollgate_config_get_next_wifi_def Let_def)
  have "config_wf ?c" unfolding next_network_def using assms(2) by (rule next_wifi_wf)
  then obtain w where w: "tollgate_config_get_wifi ?c = Ok w" using get_wifi_current c by blast
  have g: "tollgate_config_get_next_wifi (gm_cfg m) = (Ok w, ?c)"
    using assms(3) w by (simp add: next_network_def tollgate_config_get_next_wifi_def Let_def)
  let ?m = "wifi_connect ((sta_down m)\<lparr>gm_cfg := ?c, gm_sta := Some w, gm_retry_count := 0, gm_sta_connecting := True\<rparr>)"
  have "on_sta_disconnected m = Ok ?m" using assms(1) g by (simp add: on_sta_disconnected_def sta_down_core Let_def)
  then show ?thesis using that[of ?m w] w by (simp add: wifi_connect_def)
qed

text \<open>From any retry count at most five disconnections lead to the next network.\<close>

lemma disconnects_to_next:
  assumes "config_wf (gm_cfg m)" "0 < cfg_network_count (gm_cfg m)"
  obtains k m' w where "0 < k" "k \<le> MAX_STA_RETRY" "disconnects k m = Ok m'" "gm_retry_count m' = 0" "gm_cfg m' = next_network (gm_cfg m)"
    "gm_attempts m' \<noteq> []" "last (gm_attempts m') = Some w" "tollgate_config_get_wifi (gm_cfg m') = Ok w"
proof -
  have "\<exists>k m' w. 0 < k \<and> k \<le> max 1 (MAX_STA_RETRY - gm_retry_count m) \<and> disconnects k m = Ok m' \<and> gm_retry_count m' = 0 \<and>
      gm_cfg m' = next_network (gm_cfg m) \<and> gm_attempts m' \<noteq> [] \<and> last (gm_attempts m') = Some w \<and> tollgate_config_get_wifi (gm_cfg m') = Ok w"
    using assms
  proof (induction "MAX_STA_RETRY - gm_retry_count m" arbitrary: m rule: less_induct)
    case less
    show ?case
    proof (cases "gm_retry_count m + 1 < MAX_STA_RETRY")
      case True
      obtain m1 where m1: "on_sta_disconnected m = Ok m1" "gm_retry_count m1 = gm_retry_count m + 1" "gm_cfg m1 = gm_cfg m"
        using disconnect_retry[OF True] .
      have dec: "MAX_STA_RETRY - gm_retry_count m1 < MAX_STA_RETRY - gm_retry_count m" using True m1(2) by linarith
      obtain k m' w where k: "0 < k" "k \<le> max 1 (MAX_STA_RETRY - gm_retry_count m1)" "disconnects k m1 = Ok m'" "gm_retry_count m' = 0"
        "gm_cfg m' = next_network (gm_cfg m1)" "gm_attempts m' \<noteq> []" "last (gm_attempts m') = Some w" "tollgate_config_get_wifi (gm_cfg m') = Ok w"
        using less.hyps[of m1] less.prems m1(2,3) dec by auto
      have "disconnects (Suc k) m = Ok m'" using m1(1) k(3) by simp
      moreover have "Suc k \<le> max 1 (MAX_STA_RETRY - gm_retry_count m)" using k(2) m1(2) True by simp
      ultimately show ?thesis using k(4-8) m1(3) by (metis zero_less_Suc)
    next
      case False
      then obtain m' w where "on_sta_disconnected m = Ok m'" "gm_retry_count m' = 0" "gm_cfg m' = next_network (gm_cfg m)"
        "gm_attempts m' \<noteq> []" "last (gm_attempts m') = Some w" "tollgate_config_get_wifi (gm_cfg m') = Ok w"
        using disconnect_next[of m] less.prems by (metis not_less)
      moreover from this have "disconnects 1 m = Ok m'" by simp
      ultimately show ?thesis by (metis max.cobounded1 zero_less_one)
    qed
  qed
  moreover have "max 1 (MAX_STA_RETRY - gm_retry_count m) \<le> MAX_STA_RETRY" by (simp add: MAX_STA_RETRY_def)
  ultimately show ?thesis using that by (meson order_trans)
qed

lemma disconnects_to_nth_next:
  assumes "config_wf (gm_cfg m)" "0 < cfg_network_count (gm_cfg m)"
  shows "\<exists>j m' w. j \<le> MAX_STA_RETRY * Suc k \<and> disconnects j m = Ok m' \<and> gm_cfg m' = (next_network ^^ Suc k) (gm_cfg m) \<and>
    gm_attempts m' \<noteq> [] \<and> last (gm_attempts m') = Some w \<and> tollgate_config_get_wifi (gm_cfg m') = Ok w"
proof (induction k)
  case 0
  obtain j m' w where "j \<le> MAX_STA_RETRY" "disconnects j m = Ok m'" "gm_cfg m' = next_network (gm_cfg m)"
    "gm_attempts m' \<noteq> []" "last (gm_attempts m') = Some w" "tollgate_config_get_wifi (gm_cfg m') = Ok w"
    using disconnects_to_next[OF assms] .
  then show ?case by auto
next
  case (Suc k)
  then obtain j m1 where m1: "j \<le> MAX_STA_RETRY * Suc k" "disconnects j m = Ok m1" "gm_cfg m1 = (next_network ^^ Suc k) (gm_cfg m)" by blast
  have w: "config_wf ((next_network ^^ n) (gm_cfg m))" for n
    using assms(1) next_wifi_wf by (induction n) (auto simp: next_network_def)
  have "0 < cfg_network_count (gm_cfg m1)" unfolding m1(3) next_network_iter[OF assms(2)] using assms(2) by simp
  then obtain i m' w' where m': "i \<le> MAX_STA_RETRY" "disconnects i m1 = Ok m'" "gm_cfg m' = next_network (gm_cfg m1)"
    "gm_attempts m' \<noteq> []" "last (gm_attempts m') = Some w'" "tollgate_config_get_wifi (gm_cfg m') = Ok w'"
    using disconnects_to_next[of m1] w[of "Suc k"] m1(3) by metis
  have "disconnects (j + i) m = Ok m'" using m1(2) m'(2) by (simp add: disconnects_add)
  moreover have "j + i \<le> MAX_STA_RETRY * Suc (Suc k)" using m1(1) m'(1) by simp
  ultimately show ?case using m'(3-6) m1(3) by (metis funpow.simps(2) o_apply)
qed



section \<open>Stopping and the paying clients\<close>

text \<open>A client that has a session keeps the firewall as it is when it pays again.\<close>

lemma create_metered_known:
  assumes "ip \<in> active_ips g" "create_metered env metric ip a g = (r, g')"
  shows "sess_net g' = sess_net g \<and> r \<noteq> None"
proof -
  obtain i where i: "session_find_by_ip g ip = Some i" using assms(1) find_by_ip_None[of g ip] by auto
  have "sess_net (session_extend i x g) = sess_net g" for x by (simp add: session_extend_def Let_def)
  then show ?thesis using assms(2)
    by (auto simp: create_metered_def session_create_bytes_def session_create_def i split: if_splits)
qed

lemma payment_known_client:
  assumes "core_process_payment ext env ip tok st = Ok (b, st')" "ip \<in> paid st"
  shows "core_net st' = core_net st"
proof -
  have "st' = st \<or> (\<exists>metric a r g. create_metered env metric ip a (core_sess st) = (r, g) \<and> st' = st\<lparr>core_sess := g\<rparr>)"
    using assms(1) unfolding core_process_payment_def
    by (cases "core_platform st"; cases tok) (auto simp: Let_def cbind_Ok_iff split: cres.splits if_splits prod.splits)
  then show ?thesis using create_metered_known assms(2) by (auto simp: paid_def)
qed

text \<open>
  When the services stop, the firewall lets nobody through any more but the sessions stay. A client whose
  session still runs can pay as often as it likes: the payment is accepted and the client stays locked
  out, because only a new session opens the firewall.
\<close>

theorem main_stop_locks_out_payers:
  assumes "core_inv (gm_core m)" "gm_services_running m" "ip \<in> paid (gm_core m)"
    and "core_process_payment ext env ip (Some tok) (gm_core (stop_services m)) = Ok (b, st)"
  shows "ip \<in> paid (gm_core (stop_services m)) \<and> (\<forall>x. \<not> fw_is_allowed (gate_net (stop_services m)) x) \<and> \<not> fw_is_allowed (core_net st) ip"
proof -
  have n: "net_inv (gate_net m)" using assms(1) by (simp add: core_inv_def sess_inv_def)
  then have "net_inv ((gate_net m)\<lparr>net_dns := dns_stop (net_dns (gate_net m))\<rparr>)" by (simp add: net_inv_def dns_stop_def dns_inv_def auth_ips_def fw_ips_def)
  note r = fw_revoke_all_spec[OF this]
  have g: "gate_net (stop_services m) = fw_revoke_all ((gate_net m)\<lparr>net_dns := dns_stop (net_dns (gate_net m))\<rparr>)"
    using stop_services_frame(9)[OF assms(2)] by simp
  have p: "ip \<in> paid (gm_core (stop_services m))"
    using assms(3) stop_services_frame(9)[OF assms(2)] by (simp add: paid_def active_ips_def)
  show ?thesis using p payment_known_client[OF assms(4) p] g r(2) by (simp add: fw_is_allowed_iff)
qed

lemma demo_payment:
  assumes "core_platform st = Some demo_platform"
  shows "core_process_payment demo_ext demo_env 5 (Some ''cashuAabc'') st =
    Ok (fst (session_create demo_env 5 120000 (core_sess st)) \<noteq> None, st\<lparr>core_sess := snd (session_create demo_env 5 120000 (core_sess st))\<rparr>)"
proof -
  have a: "cashu_calculate_allotment (tok_total_amount demo_token) (core_price demo_platform)
      (core_step_size demo_platform ''milliseconds'') = 120000"
    by (simp add: cashu_calculate_allotment_def demo_token_def core_price_def core_step_size_def demo_platform_def)
  have m: "core_metric demo_platform = Ok ''milliseconds''" by (simp add: core_metric_def demo_platform_def)
  show ?thesis using assms a m by (simp add: core_process_payment_def demo_accepts create_metered_def case_prod_beta)
qed

theorem main_stop_locks_out_payers_witness:
  "\<exists>m b st. 5 \<in> paid (gm_core m) \<and> core_process_payment demo_ext demo_env 5 (Some ''cashuAabc'') (gm_core (stop_services m)) = Ok (b, st) \<and>
     \<not> fw_is_allowed (core_net st) 5"
proof -
  define c where "c = demo_core0\<lparr>core_sess := snd (session_create demo_env 5 120000 (core_sess demo_core0))\<rparr>"
  have p: "core_process_payment demo_ext demo_env 5 (Some ''cashuAabc'') demo_core0 = Ok (True, c)"
    using demo_payment[of demo_core0] session_create_fresh[OF demo_core0_fresh, of demo_env] by (simp add: demo_core0_simps c_def)
  note q = process_payment_spec[OF core_reach_inv[OF demo_core0_reach] p]
  obtain m0 where "app_main demo_config_env demo_identity_env True (Some ''{}'') 0x0100000A = Ok m0" using demo_app_main by blast
  define m where "m = m0\<lparr>gm_core := c, gm_services_running := True\<rparr>"
  have m: "core_inv (gm_core m)" "gm_services_running m" "5 \<in> paid (gm_core m)" using q by (simp_all add: m_def)
  have "core_platform (gm_core (stop_services m)) = Some demo_platform"
    using stop_services_frame(10)[OF m(2)] by (simp add: m_def c_def demo_core0_simps)
  from main_stop_locks_out_payers[OF m demo_payment[OF this]] m(3) demo_payment[OF this] show ?thesis by blast
qed

section \<open>The upstream name server\<close>

text \<open>
  The gate forwards queries to itself only if it has no choice: when the chosen name server is the address
  of the access point, every server it knows is that address or unset.
\<close>

theorem main_dns_not_self:
  "fst (choose_upstream_dns e dns0) = se_ap_netif_ip e \<longleftrightarrow>
     dns0 = se_ap_netif_ip e \<and> (se_dns1 e = 0 \<or> se_dns1 e = se_ap_netif_ip e) \<and>
     (se_sta_dns e = None \<or> se_sta_dns e = Some 0 \<or> se_sta_dns e = Some (se_ap_netif_ip e))"
  by (auto simp: choose_upstream_dns_def Let_def split: option.split)

end
