(* ===== verification/TG_Mcp.thy ===== *)
theory TG_Mcp
  imports TG_Config TG_Cashu TG_Session
begin

text \<open>
  The tools the owner of a gate can call from afar (\<^verbatim>\<open>main/mcp_handler.c\<close>): reading and changing the
  configuration, the sessions, and the wallet. The wallet is the external nucula library, a parameter with
  a state of its own; cJSON is a parameter too. \<open>tollgate_config_get\<close> returns the address of a static
  structure, so its null checks never fire and are left out.
\<close>

section \<open>Data\<close>

datatype mcp_tool =
    MCP_TOOL_GET_CONFIG | MCP_TOOL_SET_CONFIG | MCP_TOOL_GET_BALANCE | MCP_TOOL_WALLET_SEND
  | MCP_TOOL_GET_SESSIONS | MCP_TOOL_GET_USAGE | MCP_TOOL_SET_PAYOUT | MCP_TOOL_SET_METRIC
  | MCP_TOOL_SET_PRICE | MCP_TOOL_WALLET_MELT | MCP_TOOL_UNKNOWN

record mcp_request =
  rq_tool :: mcp_tool
  rq_method :: string
  rq_params_json :: string

record mcp_response =
  mr_success :: bool
  mr_result_json :: string
  mr_error :: string

record 'w mcp_env =
  mcp_parse :: "string \<Rightarrow> json option"
  mcp_print :: "json \<Rightarrow> string"
  wallet_balance :: "'w \<Rightarrow> u64"
  wallet_proof_count :: "'w \<Rightarrow> int"
  wallet_send :: "u64 \<Rightarrow> nat \<Rightarrow> 'w \<Rightarrow> int \<times> string \<times> 'w"
  wallet_melt :: "string \<Rightarrow> u64 \<Rightarrow> 'w \<Rightarrow> int \<times> 'w"
  err_name :: "int \<Rightarrow> string"

record 'w mcp_state =
  ms_cfg :: tollgate_config
  ms_sessions :: "tg_session list"
  ms_wallet :: 'w

text \<open>The two kinds of response; \<open>snprintf\<close> cuts the texts to their buffers.\<close>

definition mcp_ok :: "string \<Rightarrow> mcp_response" where
  "mcp_ok result = \<lparr>mr_success = True, mr_result_json = c_strncpy 2048 result, mr_error = []\<rparr>"

definition mcp_err :: "string \<Rightarrow> mcp_response" where
  "mcp_err msg = \<lparr>mr_success = False, mr_result_json = [], mr_error = c_strncpy 256 msg\<rparr>"

text \<open>In the texts of the source a backquote stands here for the escaped double quote.\<close>

definition jtext :: "string \<Rightarrow> string" where
  "jtext s = map (\<lambda>c. if c = CHR 0x60 then CHR 0x22 else c) s"

definition status_ok :: string where
  "status_ok = jtext ''{`status`:`ok`}''"

definition mcp_parse_tool :: "string option \<Rightarrow> mcp_tool" where
  "mcp_parse_tool method = (case method of
       None \<Rightarrow> MCP_TOOL_UNKNOWN
     | Some m \<Rightarrow>
         if m = ''get_config'' then MCP_TOOL_GET_CONFIG
         else if m = ''set_config'' then MCP_TOOL_SET_CONFIG
         else if m = ''get_balance'' then MCP_TOOL_GET_BALANCE
         else if m = ''wallet_send'' then MCP_TOOL_WALLET_SEND
         else if m = ''get_sessions'' then MCP_TOOL_GET_SESSIONS
         else if m = ''get_usage'' then MCP_TOOL_GET_USAGE
         else if m = ''set_payout'' then MCP_TOOL_SET_PAYOUT
         else if m = ''set_metric'' then MCP_TOOL_SET_METRIC
         else if m = ''set_price'' then MCP_TOOL_SET_PRICE
         else if m = ''wallet_melt'' then MCP_TOOL_WALLET_MELT
         else MCP_TOOL_UNKNOWN)"

section \<open>Tools that read\<close>

definition config_report :: "tollgate_config \<Rightarrow> json" where
  "config_report c = JObj
     [(''ssid'', JStr (cfg_ap_ssid c)), (''metric'', JStr (cfg_metric c)),
      (''price_per_step'', json_int (cfg_price_per_step c)), (''step_size_ms'', json_int (cfg_step_size_ms c)),
      (''step_size_bytes'', json_int (cfg_step_size_bytes c)), (''mint_url'', JStr (cfg_mint_url c)),
      (''client_enabled'', JBool (cfg_client_enabled c)), (''payout_enabled'', JBool (po_enabled (cfg_payout c))),
      (''wifi_ssid'', JStr (if 0 < cfg_network_count c then wn_ssid (cfg_networks c ! 0) else []))]"

definition mcp_handle_get_config :: "'w mcp_env \<Rightarrow> 'w mcp_state \<Rightarrow> mcp_response" where
  "mcp_handle_get_config e st = mcp_ok (mcp_print e (config_report (ms_cfg st)))"

definition mcp_handle_get_balance :: "'w mcp_env \<Rightarrow> 'w mcp_state \<Rightarrow> mcp_response" where
  "mcp_handle_get_balance e st = mcp_ok (mcp_print e (JObj
     [(''balance_sats'', JNum (Fin (u2d (wallet_balance e (ms_wallet st))))),
      (''proof_count'', json_int (wallet_proof_count e (ms_wallet st)))]))"

definition ip_of_word :: "u32 \<Rightarrow> string" where
  "ip_of_word ip = ip4_text (ucast ip) (ucast (drop_bit 8 ip)) (ucast (drop_bit 16 ip)) (ucast (drop_bit 24 ip))"

definition session_report :: "tg_session \<Rightarrow> json" where
  "session_report s = JObj
     ([(''client_ip'', JStr (c_strncpy 16 (ip_of_word (client_ip s))))] @
      (if mac s \<noteq> [] then [(''mac'', JStr (mac s))] else []) @
      [(''allotment_ms'', JNum (Fin (u2d (allotment_ms s)))),
       (''allotment_bytes'', JNum (Fin (u2d (allotment_bytes s)))),
       (''bytes_consumed'', JNum (Fin (u2d (bytes_consumed s)))), (''active'', JBool (active s))])"

definition mcp_handle_get_sessions :: "'w mcp_env \<Rightarrow> 'w mcp_state \<Rightarrow> mcp_response" where
  "mcp_handle_get_sessions e st =
     mcp_ok (mcp_print e (JArr (map session_report (filter active (ms_sessions st)))))"

definition mcp_handle_get_usage :: "'w mcp_env \<Rightarrow> 'w mcp_state \<Rightarrow> mcp_response" where
  "mcp_handle_get_usage e st = (let c = ms_cfg st in mcp_ok (mcp_print e (JObj
     [(''metric'', JStr (cfg_metric c)), (''price_per_step'', json_int (cfg_price_per_step c)),
      (''step_size_ms'', json_int (cfg_step_size_ms c)), (''step_size_bytes'', json_int (cfg_step_size_bytes c)),
      (''client_enabled'', JBool (cfg_client_enabled c))])))"

section \<open>Tools that change the configuration\<close>

definition num_or :: "json \<Rightarrow> string \<Rightarrow> int \<Rightarrow> int" where
  "num_or j k d = (case json_get_ci j k of Some (JNum n) \<Rightarrow> valueint n | _ \<Rightarrow> d)"

definition set_config_fields :: "json \<Rightarrow> tollgate_config \<Rightarrow> tollgate_config" where
  "set_config_fields j c = c\<lparr>
     cfg_price_per_step := num_or j ''price_per_step'' (cfg_price_per_step c),
     cfg_step_size_ms := num_or j ''step_size_ms'' (cfg_step_size_ms c),
     cfg_step_size_bytes := num_or j ''step_size_bytes'' (cfg_step_size_bytes c),
     cfg_client_enabled := read_bool j ''client_enabled'' (cfg_client_enabled c),
     cfg_payout := (cfg_payout c)\<lparr>po_enabled := read_bool j ''payout_enabled'' (po_enabled (cfg_payout c))\<rparr>,
     cfg_metric := read_str 16 j ''metric'' (cfg_metric c)\<rparr>"

definition mcp_handle_set_config :: "'w mcp_env \<Rightarrow> string \<Rightarrow> 'w mcp_state \<Rightarrow> mcp_response \<times> 'w mcp_state" where
  "mcp_handle_set_config e params_json st = (case mcp_parse e params_json of
       None \<Rightarrow> (mcp_err ''Invalid JSON params'', st)
     | Some j \<Rightarrow> (mcp_ok status_ok, st\<lparr>ms_cfg := set_config_fields j (ms_cfg st)\<rparr>))"

definition set_recipient :: "json \<Rightarrow> payout_recipient \<Rightarrow> payout_recipient" where
  "set_recipient j r = r\<lparr>
     pr_lightning_address := read_str 128 j ''lightning_address'' (pr_lightning_address r),
     pr_factor := (case json_get_ci j ''factor'' of Some (JNum n) \<Rightarrow> n | _ \<Rightarrow> pr_factor r)\<rparr>"

fun set_recipients :: "nat \<Rightarrow> json list \<Rightarrow> payout_recipient list \<Rightarrow> payout_recipient list" where
  "set_recipients i [] rs = rs"
| "set_recipients i (j # js) rs = set_recipients (Suc i) js (rs[i := set_recipient j (rs ! i)])"

definition set_payout_fields :: "json \<Rightarrow> payout_config \<Rightarrow> payout_config" where
  "set_payout_fields j p =
     (let p = p\<lparr>po_enabled := read_bool j ''enabled'' (po_enabled p)\<rparr> in
      case json_arr (json_get_ci j ''recipients'') of
        None \<Rightarrow> p
      | Some js \<Rightarrow> p\<lparr>po_recipients := set_recipients 0 (take PAYOUT_MAX_RECIPIENTS js) (po_recipients p),
                     po_recipient_count := length (take PAYOUT_MAX_RECIPIENTS js)\<rparr>)"

definition mcp_handle_set_payout :: "'w mcp_env \<Rightarrow> string \<Rightarrow> 'w mcp_state \<Rightarrow> mcp_response \<times> 'w mcp_state" where
  "mcp_handle_set_payout e params_json st = (case mcp_parse e params_json of
       None \<Rightarrow> (mcp_err ''Invalid JSON params'', st)
     | Some j \<Rightarrow> (mcp_ok status_ok,
         st\<lparr>ms_cfg := (ms_cfg st)\<lparr>cfg_payout := set_payout_fields j (cfg_payout (ms_cfg st))\<rparr>\<rparr>))"

definition mcp_handle_set_metric :: "'w mcp_env \<Rightarrow> string \<Rightarrow> 'w mcp_state \<Rightarrow> mcp_response \<times> 'w mcp_state" where
  "mcp_handle_set_metric e params_json st = (case mcp_parse e params_json of
       None \<Rightarrow> (mcp_err ''Invalid JSON params'', st)
     | Some j \<Rightarrow>
         (case json_str (json_get_ci j ''metric'') of
            None \<Rightarrow> (mcp_err (''Missing '' @ [CHR 0x27] @ ''metric'' @ [CHR 0x27] @ '' field''), st)
          | Some m \<Rightarrow>
              if m = ''bytes'' \<or> m = ''milliseconds''
              then (mcp_ok (jtext ''{`status`:`ok`,`metric`:`'' @ c_strncpy 16 m @ jtext ''`}''),
                    st\<lparr>ms_cfg := (ms_cfg st)\<lparr>cfg_metric := c_strncpy 16 m\<rparr>\<rparr>)
              else (mcp_err (''Invalid metric: must be '' @ [CHR 0x27] @ ''bytes'' @ [CHR 0x27] @ '' or '' @
                      [CHR 0x27] @ ''milliseconds'' @ [CHR 0x27]), st)))"

definition mcp_handle_set_price :: "'w mcp_env \<Rightarrow> string \<Rightarrow> 'w mcp_state \<Rightarrow> mcp_response \<times> 'w mcp_state" where
  "mcp_handle_set_price e params_json st = (case mcp_parse e params_json of
       None \<Rightarrow> (mcp_err ''Invalid JSON params'', st)
     | Some j \<Rightarrow>
         let bad = (mcp_err (''Missing or invalid '' @ [CHR 0x27] @ ''price_per_step'' @ [CHR 0x27] @ '' field''), st) in
         (case json_num (json_get_ci j ''price_per_step'') of
            None \<Rightarrow> bad
          | Some n \<Rightarrow>
              if 0 < valueint n
              then (mcp_ok (jtext ''{`status`:`ok`,`price_per_step`:'' @ dec_of_int (valueint n) @ ''}''),
                    st\<lparr>ms_cfg := (ms_cfg st)\<lparr>cfg_price_per_step := valueint n\<rparr>\<rparr>)
              else bad))"

section \<open>Tools that move money\<close>

definition mcp_handle_wallet_send ::
    "'w mcp_env \<Rightarrow> string \<Rightarrow> 'w mcp_state \<Rightarrow> (mcp_response \<times> 'w mcp_state) cres" where
  "mcp_handle_wallet_send e params_json st = (case mcp_parse e params_json of
       None \<Rightarrow> Ok (mcp_err ''Invalid JSON params'', st)
     | Some j \<Rightarrow>
         (case json_num (json_get_ci j ''amount'') of
            None \<Rightarrow> Ok (mcp_err (''Missing '' @ [CHR 0x27] @ ''amount'' @ [CHR 0x27] @ '' field''), st)
          | Some n \<Rightarrow> cbind (d2u64 n) (\<lambda>amount.
              (case wallet_send e amount 2048 (ms_wallet st) of (rc, token_out, w) \<Rightarrow>
                 Ok (if rc \<noteq> 0 then mcp_err (''Send failed: '' @ dec_of_int rc)
                     else mcp_ok (mcp_print e (JObj [(''token'', JStr token_out), (''amount'', JNum (Fin (u2d amount)))])),
                     st\<lparr>ms_wallet := w\<rparr>)))))"

definition mcp_handle_wallet_melt ::
    "'w mcp_env \<Rightarrow> string \<Rightarrow> 'w mcp_state \<Rightarrow> (mcp_response \<times> 'w mcp_state) cres" where
  "mcp_handle_wallet_melt e params_json st = (case mcp_parse e params_json of
       None \<Rightarrow> Ok (mcp_err ''Invalid JSON params'', st)
     | Some j \<Rightarrow>
         (case json_str (json_get_ci j ''bolt11'') of
            None \<Rightarrow> Ok (mcp_err (''Missing '' @ [CHR 0x27] @ ''bolt11'' @ [CHR 0x27] @ '' field''), st)
          | Some bolt11 \<Rightarrow>
              cbind (case json_num (json_get_ci j ''max_fee_sats'') of Some n \<Rightarrow> d2u64 n | None \<Rightarrow> Ok 10) (\<lambda>fee.
              (case wallet_melt e bolt11 fee (ms_wallet st) of (rc, w) \<Rightarrow>
                 Ok (if rc \<noteq> 0 then mcp_err (''Melt failed: '' @ err_name e rc) else mcp_ok status_ok,
                     st\<lparr>ms_wallet := w\<rparr>)))))"

section \<open>Dispatch\<close>

definition mcp_dispatch ::
    "'w mcp_env \<Rightarrow> mcp_request option \<Rightarrow> 'w mcp_state \<Rightarrow> (mcp_response \<times> 'w mcp_state) cres" where
  "mcp_dispatch e req st = (case req of
       None \<Rightarrow> Ok (mcp_err ''NULL request'', st)
     | Some r \<Rightarrow>
         (case rq_tool r of
            MCP_TOOL_GET_CONFIG \<Rightarrow> Ok (mcp_handle_get_config e st, st)
          | MCP_TOOL_SET_CONFIG \<Rightarrow> Ok (mcp_handle_set_config e (rq_params_json r) st)
          | MCP_TOOL_GET_BALANCE \<Rightarrow> Ok (mcp_handle_get_balance e st, st)
          | MCP_TOOL_WALLET_SEND \<Rightarrow> mcp_handle_wallet_send e (rq_params_json r) st
          | MCP_TOOL_GET_SESSIONS \<Rightarrow> Ok (mcp_handle_get_sessions e st, st)
          | MCP_TOOL_GET_USAGE \<Rightarrow> Ok (mcp_handle_get_usage e st, st)
          | MCP_TOOL_SET_PAYOUT \<Rightarrow> Ok (mcp_handle_set_payout e (rq_params_json r) st)
          | MCP_TOOL_SET_METRIC \<Rightarrow> Ok (mcp_handle_set_metric e (rq_params_json r) st)
          | MCP_TOOL_SET_PRICE \<Rightarrow> Ok (mcp_handle_set_price e (rq_params_json r) st)
          | MCP_TOOL_WALLET_MELT \<Rightarrow> mcp_handle_wallet_melt e (rq_params_json r) st
          | MCP_TOOL_UNKNOWN \<Rightarrow> Ok (mcp_err (''Unknown tool: '' @ rq_method r), st)))"

section \<open>What a call may change\<close>

lemma mcp_response_bounds [simp]:
  "length (mr_result_json (mcp_ok t)) < 2048" "length (mr_error (mcp_ok t)) < 256" "mr_success (mcp_ok t)" "mr_error (mcp_ok t) = []"
  "length (mr_result_json (mcp_err t)) < 2048" "length (mr_error (mcp_err t)) < 256" "\<not> mr_success (mcp_err t)"
  by (simp_all add: mcp_ok_def mcp_err_def)

lemma num_or_range: "- (2 ^ 31) \<le> d \<Longrightarrow> d < 2 ^ 31 \<Longrightarrow> - (2 ^ 31) \<le> num_or j k d \<and> num_or j k d < 2 ^ 31"
  using valueint_range by (auto simp: num_or_def split: option.split json.split)

lemma set_config_wf: "config_wf c \<Longrightarrow> config_wf (set_config_fields j c)"
  using num_or_range[of "cfg_price_per_step c" j] num_or_range[of "cfg_step_size_ms c" j]
  by (simp add: set_config_fields_def cfg_defs payout_ok_def read_str_fits)

lemma set_recipients_length [simp]: "length (set_recipients i js rs) = length rs"
  by (induction i js rs rule: set_recipients.induct) simp_all

lemma set_recipients_fit:
  "i + length js \<le> length rs \<Longrightarrow> \<forall>r \<in> set rs. length (pr_lightning_address r) < 128 \<Longrightarrow>
   \<forall>r \<in> set (set_recipients i js rs). length (pr_lightning_address r) < 128"
proof (induction i js rs rule: set_recipients.induct)
  case (2 i j js rs)
  have "length (pr_lightning_address (set_recipient j (rs ! i))) < 128"
    using 2(2,3) by (simp add: set_recipient_def read_str_fits)
  then have "\<forall>r \<in> set (rs[i := set_recipient j (rs ! i)]). length (pr_lightning_address r) < 128"
    using 2(3) set_update_subset_insert[of rs i "set_recipient j (rs ! i)"] by blast
  then show ?case using 2 by simp
qed simp

lemma set_payout_ok: "payout_ok p \<Longrightarrow> payout_ok (set_payout_fields j p)"
  using set_recipients_fit[of 0 "take PAYOUT_MAX_RECIPIENTS js" "po_recipients p" for js]
  by (auto simp: set_payout_fields_def payout_ok_def Let_def split: option.split)

lemma config_wf_update:
  assumes "config_wf c"
  shows "payout_ok p \<Longrightarrow> config_wf (c\<lparr>cfg_payout := p\<rparr>)"
    "length m < 16 \<Longrightarrow> config_wf (c\<lparr>cfg_metric := m\<rparr>)"
    "config_wf (c\<lparr>cfg_price_per_step := valueint n\<rparr>)"
  using assms valueint_range[of n] by (simp_all add: cfg_defs)

lemmas mcp_tool_defs = mcp_handle_set_config_def mcp_handle_set_payout_def mcp_handle_set_metric_def mcp_handle_set_price_def
  mcp_handle_wallet_send_def mcp_handle_wallet_melt_def mcp_handle_get_config_def mcp_handle_get_balance_def
  mcp_handle_get_sessions_def mcp_handle_get_usage_def

text \<open>The wallet tools answer with one of the two kinds of response and touch the wallet only.\<close>

lemma wallet_tool_effect:
  assumes "mcp_handle_wallet_send e params st = Ok (r, st') \<or> mcp_handle_wallet_melt e params st = Ok (r, st')"
  shows "ms_cfg st' = ms_cfg st \<and> ms_sessions st' = ms_sessions st \<and> (\<exists>t. r = mcp_ok t \<or> r = mcp_err t)"
proof -
  have "ms_cfg st' = ms_cfg st \<and> ms_sessions st' = ms_sessions st \<and> (\<exists>t. r = mcp_ok t \<or> r = mcp_err t)"
    using assms by (auto simp: mcp_handle_wallet_send_def mcp_handle_wallet_melt_def cbind_Ok_iff split_beta
      split: option.splits if_splits)
  then show ?thesis by blast
qed

text \<open>
  Every call that returns leaves a configuration that respects its array sizes and the sessions as they are; a
  call that reports an error leaves the whole configuration as it is; the response fits its buffers.
\<close>

theorem mcp_dispatch_effect:
  assumes "config_wf (ms_cfg st)" "mcp_dispatch e req st = Ok (r, st')"
  shows "config_wf (ms_cfg st') \<and> ms_sessions st' = ms_sessions st \<and>
    (\<not> mr_success r \<longrightarrow> ms_cfg st' = ms_cfg st) \<and> length (mr_result_json r) < 2048 \<and> length (mr_error r) < 256"
proof (cases req)
  case None
  then show ?thesis using assms by (auto simp: mcp_dispatch_def)
next
  case (Some q)
  have p: "payout_ok (cfg_payout (ms_cfg st))" using assms(1) by (simp add: cfg_defs)
  note w = config_wf_update[OF assms(1)] set_config_wf[OF assms(1)] set_payout_ok[OF p]
  show ?thesis
  proof (cases "rq_tool q = MCP_TOOL_WALLET_SEND \<or> rq_tool q = MCP_TOOL_WALLET_MELT")
    case True
    then have "mcp_handle_wallet_send e (rq_params_json q) st = Ok (r, st') \<or> mcp_handle_wallet_melt e (rq_params_json q) st = Ok (r, st')"
      using assms(2) by (auto simp: Some mcp_dispatch_def)
    from wallet_tool_effect[OF this] show ?thesis using assms(1) by auto
  next
    case False
    then show ?thesis using assms w
      by (cases "rq_tool q") (auto simp: Some mcp_dispatch_def mcp_tool_defs Let_def split: option.splits if_splits)
  qed
qed

definition demo_mcp :: "nat mcp_env" where
  "demo_mcp = \<lparr>mcp_parse = (\<lambda>t. Some (JObj [(''price_per_step'', json_int 0), (''amount'', json_int 7)])),
     mcp_print = (\<lambda>j. replicate 3000 CHR ''x''),
     wallet_balance = of_nat, wallet_proof_count = int, wallet_send = (\<lambda>a n w. (0, ''cashuA'', w - unat a)),
     wallet_melt = (\<lambda>b f w. (0, w)), err_name = (\<lambda>i. ''ERR'')\<rparr>"

definition demo_mcp_state :: "nat mcp_state" where
  "demo_mcp_state = \<lparr>ms_cfg = demo_start, ms_sessions = [], ms_wallet = 100\<rparr>"

theorem mcp_dispatch_effect_witness:
  "\<exists>r st'. mcp_dispatch demo_mcp (Some \<lparr>rq_tool = MCP_TOOL_SET_PRICE, rq_method = ''set_price'', rq_params_json = ''{}''\<rparr>) demo_mcp_state = Ok (r, st') \<and>
     \<not> mr_success r \<and> ms_cfg st' = demo_start"
proof -
  let ?q = "Some \<lparr>rq_tool = MCP_TOOL_SET_PRICE, rq_method = ''set_price'', rq_params_json = ''{}''\<rparr>"
  have "valueint (Fin 0) = 0" by (simp add: valueint_def clamp_signed_def)
  then obtain r st' where d: "mcp_dispatch demo_mcp ?q demo_mcp_state = Ok (r, st')" "\<not> mr_success r"
    by (auto simp: mcp_dispatch_def mcp_handle_set_price_def demo_mcp_def Let_def json_num_def json_get_ci_def json_int_def)
  moreover have "ms_cfg st' = demo_start"
    using mcp_dispatch_effect[OF _ d(1)] d(2) demo_start_wf by (simp add: demo_mcp_state_def)
  ultimately show ?thesis by blast
qed

text \<open>
  \<open>set_price\<close> refuses a price that is not positive, \<open>set_config\<close> stores it; with the price 0 no token buys
  anything.
\<close>

theorem mcp_set_config_stops_sales:
  assumes "mcp_parse e params = Some j" "json_get_ci j ''price_per_step'' = Some (JNum n)" "valueint n = 0"
  shows "\<not> mr_success (fst (mcp_handle_set_price e params st)) \<and> mr_success (fst (mcp_handle_set_config e params st)) \<and>
    cfg_price_per_step (ms_cfg (snd (mcp_handle_set_config e params st))) = 0 \<and>
    cashu_calculate_allotment amount (of_int (cfg_price_per_step (ms_cfg (snd (mcp_handle_set_config e params st))))) step = 0"
  using assms by (simp add: mcp_tool_defs set_config_fields_def num_or_def json_num_def cashu_calculate_allotment_def Let_def)

theorem mcp_set_config_stops_sales_witness:
  "cashu_calculate_allotment 1000 (of_int (cfg_price_per_step (ms_cfg (snd (mcp_handle_set_config demo_mcp ''{}'' demo_mcp_state))))) 60000 = 0"
proof -
  let ?j = "JObj [(''price_per_step'', json_int 0), (''amount'', json_int 7)]"
  have g: "json_get_ci ?j ''price_per_step'' = Some (JNum (Fin 0))" by (simp add: json_get_ci_def json_int_def)
  have "mcp_parse demo_mcp ''{}'' = Some ?j" "valueint (Fin 0) = 0" by (simp_all add: demo_mcp_def valueint_def clamp_signed_def)
  from mcp_set_config_stops_sales[OF this(1) g this(2)] show ?thesis by blast
qed

text \<open>
  A token whose report does not fit the 2048 bytes of the result has left the wallet, and the successful
  response carries only its beginning.
\<close>

theorem mcp_send_cuts_token:
  assumes "mcp_parse e params = Some j" "json_get_ci j ''amount'' = Some (JNum n)" "d2u64 n = Ok amount"
    and "wallet_send e amount 2048 (ms_wallet st) = (0, token, w)"
    and "report = mcp_print e (JObj [(''token'', JStr token), (''amount'', JNum (Fin (u2d amount)))])" "2048 \<le> length report"
  shows "\<exists>r. mcp_handle_wallet_send e params st = Ok (r, st\<lparr>ms_wallet := w\<rparr>) \<and> mr_success r \<and>
    mr_result_json r = take 2047 report \<and> mr_result_json r \<noteq> report"
proof -
  have "length (take 2047 report) < length report" using assms(6) by simp
  then have "take 2047 report \<noteq> report" by force
  then show ?thesis using assms by (simp add: mcp_handle_wallet_send_def json_num_def mcp_ok_def c_strncpy_def)
qed

theorem mcp_send_cuts_token_witness:
  "\<exists>r st'. mcp_handle_wallet_send demo_mcp ''{}'' demo_mcp_state = Ok (r, st') \<and> ms_wallet st' = 93 \<and> mr_success r \<and>
     mr_result_json r = replicate 2047 CHR ''x''"
proof -
  have d: "d2u64 (Fin 7) = Ok 7" by (simp add: d2u64_def)
  have g: "json_get_ci (JObj [(''price_per_step'', json_int 0), (''amount'', json_int 7)]) ''amount'' = Some (JNum (Fin 7))"
    by (simp add: json_get_ci_def json_int_def to_lower_def)
  show ?thesis
    using mcp_send_cuts_token[of demo_mcp "''{}''" _ "Fin 7" 7 demo_mcp_state "''cashuA''" 93, OF _ g d _ refl]
    by (auto simp: demo_mcp_def demo_mcp_state_def)
qed

end
