(* ===== verification/TG_Cvm.thy ===== *)
theory TG_Cvm
  imports TG_Mcp TG_Identity
begin

text \<open>
  Remote control over Nostr (\<^verbatim>\<open>main/cvm_server.c\<close>): WebSocket frames in both directions, the
  connection to a relay, the JSON-RPC messages of the tool protocol, the task that serves one relay, and
  the announcements of the gate. The TLS transport, cJSON, the random mask and the clock are parameters.
\<close>

unbundle bit_operations_syntax

section \<open>Frames\<close>

text \<open>
  \<open>parse_ws_text_frame\<close>: the sum of offset and length is formed in 64 bits and may wrap; the allocation is
  of the low 32 bits of the length plus one, as \<open>size_t\<close> has 32 bits. \<open>alloc\<close> says which sizes \<open>malloc\<close>
  serves; a copy that leaves the received bytes or the allocated block is undefined.
\<close>

definition ws_length :: "u8 list \<Rightarrow> (u64 \<times> nat) option" where
  "ws_length buf =
     (let l7 = buf ! 1 AND 0x7F in
      if l7 = 126 then (if length buf < 4 then None else Some (ucast (of_be16 (buf ! 2) (buf ! 3)), 4))
      else if l7 = 127 then
        (if length buf < 10 then None
         else Some (foldl (\<lambda>acc b. push_bit 8 acc OR ucast b) 0 (take 8 (drop 2 buf)), 10))
      else Some (ucast l7, 2))"

definition unmask :: "u8 list \<Rightarrow> u8 list \<Rightarrow> u8 list" where
  "unmask mkey bs = map (\<lambda>i. bs ! i XOR mkey ! (i mod 4)) [0..<length bs]"

definition ws_payload :: "bool \<Rightarrow> u8 list \<Rightarrow> nat \<Rightarrow> nat \<Rightarrow> u8 list" where
  "ws_payload masked buf offset n =
     (let data = take n (drop offset buf) in
      if masked then unmask (take 4 (drop (offset - 4) buf)) data else data)"

definition parse_ws_text_frame :: "(nat \<Rightarrow> bool) \<Rightarrow> u8 list \<Rightarrow> u8 list option cres" where
  "parse_ws_text_frame alloc buf =
     (if length buf < 2 then Ok None
      else (case ws_length buf of
         None \<Rightarrow> Ok None
       | Some (payload_len, offset) \<Rightarrow>
           let masked = buf ! 1 AND 0x80 \<noteq> 0;
               offset = (if masked then offset + 4 else offset);
               size = unat (ucast payload_len + 1 :: u32) in
           if of_nat (length buf) < of_nat offset + payload_len then Ok None
           else if \<not> alloc size then Ok None
           else if length buf < offset + unat payload_len \<or> size \<le> unat payload_len then Undef
           else Ok (Some (ws_payload masked buf offset (unat payload_len)))))"

text \<open>
  The frame \<open>ws_send_text\<close> writes. For more than 65535 bytes the code shifts the 32-bit length by 56 bits
  and more, which C leaves undefined.
\<close>

definition ws_header :: "nat \<Rightarrow> u8 list" where
  "ws_header len =
     (if len \<le> 125 then [0x81, 0x80 OR of_nat len]
      else [0x81, 0xFE] @ be16 (of_nat len))"

definition ws_frame :: "u8 list \<Rightarrow> u8 list \<Rightarrow> u8 list cres" where
  "ws_frame mkey msg =
     (if 65535 < length msg then Undef
      else Ok (ws_header (length msg) @ mkey @ unmask mkey msg))"

text \<open>
  The loop over \<open>esp_tls_conn_write\<close>: \<open>rs\<close> are the values the calls return. The result is whether all was
  written and what was; \<open>None\<close> means that the loop has not ended with these calls.
\<close>

fun write_loop :: "int list \<Rightarrow> u8 list \<Rightarrow> (bool \<times> u8 list) option" where
  "write_loop rs [] = Some (True, [])"
| "write_loop [] (b # bs) = None"
| "write_loop (w # rs) (b # bs) =
     (if w < 0 then Some (False, [])
      else map_option (\<lambda>(ok, out). (ok, take (nat w) (b # bs) @ out)) (write_loop rs (drop (nat w) (b # bs))))"

definition ws_send_text :: "u8 list \<Rightarrow> int list \<Rightarrow> string \<Rightarrow> (bool \<times> u8 list) option cres" where
  "ws_send_text mkey rs msg = cbind (ws_frame mkey (map of_char msg)) (\<lambda>frame. Ok (write_loop rs frame))"

section \<open>Connecting to a relay\<close>

text \<open>Host, port and path of a relay address; every buffer has 128 bytes.\<close>

definition split_port :: "string \<Rightarrow> string \<times> int" where
  "split_port host = (case c_strchr CHR '':'' host of
       None \<Rightarrow> (host, 443)
     | Some i \<Rightarrow> (take i host, c_atoi (drop (i + 1) host)))"

definition url_parts :: "string \<Rightarrow> string \<times> int \<times> string" where
  "url_parts url =
     (let (h, path) = (case c_strchr CHR ''/'' url of
            Some i \<Rightarrow> (take (min i 127) url, c_strncpy 128 (drop i url))
          | None \<Rightarrow> (c_strncpy 128 url, ''/''));
          (host, port) = split_port h in
      (host, port, path))"

definition ws_parse_url :: "string \<Rightarrow> (string \<times> int \<times> string) option" where
  "ws_parse_url relay_url = (if take 6 relay_url \<noteq> ''wss://'' then None else Some (url_parts (drop 6 relay_url)))"

definition crlf :: string where
  "crlf = [CHR 0x0D, CHR 0x0A]"

definition ws_upgrade :: "string \<Rightarrow> string \<Rightarrow> string" where
  "ws_upgrade host path = c_strncpy 512
     (''GET '' @ path @ '' HTTP/1.1'' @ crlf @ ''Host: '' @ host @ crlf @ ''Upgrade: websocket'' @ crlf @
      ''Connection: Upgrade'' @ crlf @ ''Sec-WebSocket-Key: dGhlIHNhbXBsZSBub25jZQ=='' @ crlf @
      ''Sec-WebSocket-Version: 13'' @ crlf @ crlf)"

text \<open>
  The transport: whether TLS to a host and port succeeds, and the answer to the upgrade request. The buffer
  of the answer is not terminated, so \<open>strstr\<close> runs on into \<open>tls_stale\<close>, what the stack held before.
\<close>

record tls_env =
  tls_connects :: "string \<Rightarrow> int \<Rightarrow> bool"
  tls_answer :: "string \<Rightarrow> string option"
  tls_stale :: string

definition ws_open :: "tls_env \<Rightarrow> string \<times> int \<times> string \<Rightarrow> (string \<times> int) cres" where
  "ws_open t addr = (case addr of (host, port, path) \<Rightarrow>
     if \<not> tls_connects t host port then Fail
     else (case tls_answer t (ws_upgrade host path) of
        None \<Rightarrow> Fail
      | Some resp \<Rightarrow>
          if resp = [] \<or> c_strstr (c_str (take 1023 resp @ tls_stale t)) ''101'' = None then Fail
          else Ok (host, port)))"

definition ws_connect :: "tls_env \<Rightarrow> string \<Rightarrow> (string \<times> int) cres" where
  "ws_connect t relay_url = (case ws_parse_url relay_url of None \<Rightarrow> Fail | Some addr \<Rightarrow> ws_open t addr)"

section \<open>Messages of the tool protocol\<close>

text \<open>\<open>atof\<close> on the decimal texts that cJSON prints.\<close>

definition digit_run :: "string \<Rightarrow> string" where
  "digit_run s = takeWhile (\<lambda>c. digit_in 10 c \<noteq> None) s"

definition atof_fraction :: "string \<Rightarrow> string \<times> string" where
  "atof_fraction r = (case r of
       c # t \<Rightarrow> if c = CHR ''.'' then (digit_run t, drop (length (digit_run t)) t) else ([], r)
     | [] \<Rightarrow> ([], []))"

definition atof_exponent :: "string \<Rightarrow> int" where
  "atof_exponent r = (case r of
       c # t \<Rightarrow> if c = CHR ''e'' \<or> c = CHR ''E''
         then (case skip_sign t of (neg, u) \<Rightarrow>
                 let v = int (digits_value 10 (digit_run u)) in if neg then - v else v)
         else 0
     | [] \<Rightarrow> 0)"

definition c_atof :: "string \<Rightarrow> rat" where
  "c_atof s =
     (case skip_sign (dropWhile is_space s) of (neg, r) \<Rightarrow>
        let whole = digit_run r;
            (frac, rest) = atof_fraction (drop (length whole) r);
            v = of_nat (digits_value 10 (whole @ frac)) * 10 powi (atof_exponent rest - int (length frac)) in
        fl (if neg then - v else v))"

definition rpc_envelope :: "string \<Rightarrow> json \<Rightarrow> string \<Rightarrow> json" where
  "rpc_envelope id_str body key =
     JObj [(''jsonrpc'', JStr ''2.0''), (''id'', JNum (Fin (c_atof id_str))), (key, body)]"

definition server_info :: json where
  "server_info = JObj [(''name'', JStr ''TollGate''), (''version'', JStr ''1.0.0'')]"

definition build_initialize_response :: "'w mcp_env \<Rightarrow> string \<Rightarrow> string" where
  "build_initialize_response e id_str = mcp_print e (rpc_envelope id_str
     (JObj [(''protocolVersion'', JStr ''2025-07-02''), (''capabilities'', JObj [(''tools'', JObj [])]),
            (''serverInfo'', server_info)]) ''result'')"

definition no_params :: string where
  "no_params = ''{`type`:`object`,`properties`:{},`required`:[]}''"

definition tool_defs :: "(string \<times> string \<times> string) list" where
  "tool_defs =
     [(''get_config'', ''Get current device configuration'', no_params),
      (''set_config'', ''Update device configuration'',
       ''{`type`:`object`,`properties`:{`price_per_step`:{`type`:`integer`},`step_size_ms`:{`type`:`integer`},'' @
       ''`step_size_bytes`:{`type`:`integer`},`metric`:{`type`:`string`},`client_enabled`:{`type`:`boolean`},'' @
       ''`payout_enabled`:{`type`:`boolean`}}}''),
      (''get_balance'', ''Get wallet balance and proof count'', no_params),
      (''wallet_send'', ''Send e-cash tokens from wallet'',
       ''{`type`:`object`,`properties`:{`amount`:{`type`:`integer`,`description`:`Amount in sats`}},`required`:[`amount`]}''),
      (''get_sessions'', ''Get active client sessions'', no_params),
      (''get_usage'', ''Get current billing usage info'', no_params),
      (''set_payout'', ''Configure payout recipients'',
       ''{`type`:`object`,`properties`:{`enabled`:{`type`:`boolean`},`recipients`:{`type`:`array`}}}''),
      (''set_metric'', ''Set billing metric'',
       ''{`type`:`object`,`properties`:{`metric`:{`type`:`string`,`enum`:[`bytes`,`milliseconds`]}},`required`:[`metric`]}''),
      (''set_price'', ''Set price per step'',
       ''{`type`:`object`,`properties`:{`price_per_step`:{`type`:`integer`,`minimum`:1}},`required`:[`price_per_step`]}''),
      (''wallet_melt'', ''Melt tokens for lightning payment'',
       ''{`type`:`object`,`properties`:{`bolt11`:{`type`:`string`},`max_fee_sats`:{`type`:`integer`}},`required`:[`bolt11`]}'')]"

definition build_tools_list :: "'w mcp_env \<Rightarrow> json" where
  "build_tools_list e = JArr (map (\<lambda>(name, descr, schema). JObj
     ([(''name'', JStr name), (''description'', JStr descr)] @
      (case mcp_parse e (jtext schema) of Some j \<Rightarrow> [(''inputSchema'', j)] | None \<Rightarrow> []))) tool_defs)"

definition build_tools_list_response :: "'w mcp_env \<Rightarrow> string \<Rightarrow> string" where
  "build_tools_list_response e id_str =
     mcp_print e (rpc_envelope id_str (JObj [(''tools'', build_tools_list e)]) ''result'')"

definition build_tool_call_response :: "'w mcp_env \<Rightarrow> string \<Rightarrow> mcp_response \<Rightarrow> string" where
  "build_tool_call_response e id_str r = mcp_print e
     (if mr_success r
      then rpc_envelope id_str (JObj
        [(''content'', JArr [JObj [(''type'', JStr ''text''), (''text'', JStr (mr_result_json r))]]),
         (''isError'', JBool False)]) ''result''
      else rpc_envelope id_str (JObj [(''code'', json_int (- 32603)), (''message'', JStr (mr_error r))]) ''error'')"

definition build_ping_response :: "'w mcp_env \<Rightarrow> string \<Rightarrow> string" where
  "build_ping_response e id_str = mcp_print e (rpc_envelope id_str (JObj []) ''result'')"

section \<open>Publishing\<close>

text \<open>
  What the publishing code reads beside its arguments. \<open>cv_freed\<close> gives what is found at the address of a
  text after it has been freed: the tags of a response are read again after \<open>free(tags_str)\<close>.
\<close>

record cvm_env =
  cv_event :: event_env
  cv_tls :: tls_env
  cv_now :: u64
  cv_freed :: "string \<Rightarrow> string"
  cv_identity :: tollgate_identity

definition event_message :: "string \<Rightarrow> string" where
  "event_message event_json = jtext ''[`EVENT`,'' @ event_json @ '']''"

definition publish_event_to_relay :: "tls_env \<Rightarrow> string \<Rightarrow> string \<Rightarrow> string cres" where
  "publish_event_to_relay t relay_url event_json = cbind (ws_connect t relay_url) (\<lambda>_. Ok (event_message event_json))"

text \<open>The result of signing is not looked at; an event that could not be signed goes out without signature.\<close>

definition sign_or_keep :: "event_env \<Rightarrow> nostr_event \<Rightarrow> u8 list \<Rightarrow> nostr_event cres" where
  "sign_or_keep e ev nsec = (case nostr_event_sign e ev nsec of Ok ev' \<Rightarrow> Ok ev' | Fail \<Rightarrow> Ok ev | Undef \<Rightarrow> Undef)"

definition response_tags :: "string option \<Rightarrow> json" where
  "response_tags request_event_id =
     JArr [JArr ([JStr ''e''] @ (case request_event_id of Some i \<Rightarrow> [JStr i] | None \<Rightarrow> []))]"

definition publish_kind_25910_response :: "cvm_env \<Rightarrow> string \<Rightarrow> string \<Rightarrow> string option \<Rightarrow> string cres" where
  "publish_kind_25910_response cv relay_url content_json request_event_id =
     (let e = cv_event cv; i = cv_identity cv; tags = ev_print e (response_tags request_event_id) in
      if \<not> id_initialized i then Fail
      else cbind (sign_or_keep e (nostr_event_init e (cv_now cv) (id_npub_hex i) 25910 (Some tags) (Some content_json)) (id_nsec i)) (\<lambda>ev.
           cbind (nostr_event_to_json e (ev\<lparr>ne_tags_json := cv_freed cv tags\<rparr>) 8192)
             (publish_event_to_relay (cv_tls cv) relay_url)))"

definition publish_event_via_ws :: "cvm_env \<Rightarrow> int \<Rightarrow> string \<Rightarrow> string \<Rightarrow> string cres" where
  "publish_event_via_ws cv kind content tags_json =
     (let e = cv_event cv; i = cv_identity cv in
      if \<not> id_initialized i then Fail
      else cbind (sign_or_keep e (nostr_event_init e (cv_now cv) (id_npub_hex i) kind (Some tags_json) (Some content)) (id_nsec i)) (\<lambda>ev.
           cbind (nostr_event_to_json e ev 4096) (\<lambda>json. Ok (event_message json))))"

text \<open>A caller that ignores the error: the messages that went out.\<close>

definition sent :: "string cres \<Rightarrow> string list cres" where
  "sent r = (case r of Ok m \<Rightarrow> Ok [m] | Fail \<Rightarrow> Ok [] | Undef \<Rightarrow> Undef)"

definition announcement :: json where
  "announcement = JObj [(''protocolVersion'', JStr ''2025-07-02''),
     (''capabilities'', JObj [(''tools'', JObj [(''listChanged'', JBool True)])]), (''serverInfo'', server_info)]"

definition str_list :: "string list \<Rightarrow> json" where
  "str_list ss = JArr (map JStr ss)"

definition publish_announcements_via_ws :: "'w mcp_env \<Rightarrow> cvm_env \<Rightarrow> string list cres" where
  "publish_announcements_via_ws e cv =
     (if \<not> id_initialized (cv_identity cv) then Ok []
      else cbind (sent (publish_event_via_ws cv 11316 (mcp_print e announcement)
             (mcp_print e (JArr [str_list [''name'', ''TollGate''],
                str_list [''about'', ''ESP32 TollGate WiFi hotspot with Cashu e-cash payments'']])))) (\<lambda>a.
           cbind (sent (publish_event_via_ws cv 11317 (mcp_print e (JObj [(''tools'', build_tools_list e)])) ''[]'')) (\<lambda>b.
           cbind (sent (publish_event_via_ws cv 10002 []
             (mcp_print e (JArr [str_list [''r'', ''wss://relay.primal.net''], str_list [''r'', ''wss://nostr-pub.wellorder.net'']])))) (\<lambda>c.
           Ok (a @ b @ c)))))"

section \<open>Requests\<close>

definition is_owner_pubkey :: "tollgate_identity \<Rightarrow> string option \<Rightarrow> bool" where
  "is_owner_pubkey i pubkey_hex \<longleftrightarrow> id_initialized i \<and> pubkey_hex = Some (id_npub_hex i)"

definition tool_request :: "'w mcp_env \<Rightarrow> string \<Rightarrow> json option \<Rightarrow> mcp_request" where
  "tool_request e name arguments = \<lparr>rq_tool = mcp_parse_tool (Some name), rq_method = c_strncpy 64 name,
     rq_params_json = (case arguments of Some a \<Rightarrow> c_strncpy 1024 (mcp_print e a) | None \<Rightarrow> [])\<rparr>"

definition request_id :: "'w mcp_env \<Rightarrow> json \<Rightarrow> string" where
  "request_id e msg = (case json_get_ci msg ''id'' of Some (JNum n) \<Rightarrow> mcp_print e (JNum n) | _ \<Rightarrow> ''0'')"

definition handle_tool_call :: "'w mcp_env \<Rightarrow> cvm_env \<Rightarrow> string \<Rightarrow> string option \<Rightarrow> json \<Rightarrow> 'w mcp_state \<Rightarrow>
    (string list \<times> 'w mcp_state) cres" where
  "handle_tool_call e cv relay_url event_id msg st =
     (let params = json_get_ci msg ''params'';
          member = (\<lambda>k. Option.bind params (\<lambda>p. json_get_ci p k)) in
      case json_str (member ''name'') of
        None \<Rightarrow> Ok ([], st)
      | Some name \<Rightarrow>
          cbind (mcp_dispatch e (Some (tool_request e name (member ''arguments''))) st) (\<lambda>(r, st').
          cbind (sent (publish_kind_25910_response cv relay_url (build_tool_call_response e (request_id e msg) r) event_id)) (\<lambda>out.
          Ok (out, st'))))"

definition handle_mcp_message :: "'w mcp_env \<Rightarrow> cvm_env \<Rightarrow> string \<Rightarrow> string option \<Rightarrow> string option \<Rightarrow> 'w mcp_state \<Rightarrow>
    (string list \<times> 'w mcp_state) cres" where
  "handle_mcp_message e cv relay_url event_id content st =
     (case Option.bind content (mcp_parse e) of
        None \<Rightarrow> Ok ([], st)
      | Some msg \<Rightarrow>
          let reply = (\<lambda>text. cbind (sent (publish_kind_25910_response cv relay_url text event_id)) (\<lambda>out. Ok (out, st)));
              id_str = request_id e msg in
          (case json_str (json_get_ci msg ''method'') of
             None \<Rightarrow> Ok ([], st)
           | Some m \<Rightarrow>
               if m = ''initialize'' then reply (build_initialize_response e id_str)
               else if m = ''notifications/initialized'' then Ok ([], st)
               else if m = ''tools/list'' then reply (build_tools_list_response e id_str)
               else if m = ''tools/call'' then handle_tool_call e cv relay_url event_id msg st
               else if m = ''ping'' then reply (build_ping_response e id_str)
               else Ok ([], st)))"

definition process_relay_message :: "'w mcp_env \<Rightarrow> cvm_env \<Rightarrow> string \<Rightarrow> string \<Rightarrow> 'w mcp_state \<Rightarrow>
    (string list \<times> 'w mcp_state) cres" where
  "process_relay_message e cv relay_url msg_str st = (case mcp_parse e msg_str of
       Some (JArr (JStr cmd # _ # event # _)) \<Rightarrow>
         if cmd \<noteq> ''EVENT'' then Ok ([], st)
         else (case (json_get_ci event ''kind'', json_get_ci event ''pubkey'', json_get_ci event ''id'', json_get_ci event ''content'') of
            (Some kind, Some pubkey, Some event_id, Some content) \<Rightarrow>
              if json_valueint kind \<noteq> 25910 \<or> \<not> is_owner_pubkey (cv_identity cv) (json_str (Some pubkey)) then Ok ([], st)
              else handle_mcp_message e cv relay_url (json_str (Some event_id)) (json_str (Some content)) st
          | _ \<Rightarrow> Ok ([], st))
     | _ \<Rightarrow> Ok ([], st))"

section \<open>The task of a relay\<close>

definition cvm_subscription :: "string \<Rightarrow> json" where
  "cvm_subscription npub = JArr [JStr ''REQ'', JStr ''cvm_sub'',
     JObj [(''kinds'', JArr [json_int 25910]), (''#p'', JArr [JStr npub]), (''limit'', json_int 100)]]"

text \<open>Connecting, subscribing and announcing: the texts sent on the new connection.\<close>

definition cvm_open_relay :: "'w mcp_env \<Rightarrow> cvm_env \<Rightarrow> string \<Rightarrow> string list cres" where
  "cvm_open_relay e cv relay_url =
     cbind (ws_connect (cv_tls cv) relay_url) (\<lambda>_.
     cbind (publish_announcements_via_ws e cv) (\<lambda>msgs.
     Ok (mcp_print e (cvm_subscription (id_npub_hex (cv_identity cv))) # msgs)))"

record 'w cvm_turn =
  ct_continue :: bool
  ct_writes :: "u8 list list"
  ct_published :: "string list"
  ct_last_ping :: int
  ct_state :: "'w mcp_state"

definition cvm_ping :: "int \<Rightarrow> 'w cvm_turn \<Rightarrow> 'w cvm_turn" where
  "cvm_ping now t =
     (if 30 \<le> now - ct_last_ping t then t\<lparr>ct_writes := ct_writes t @ [[0x89, 0x00]], ct_last_ping := now\<rparr> else t)"

definition cvm_on_text :: "'w mcp_env \<Rightarrow> cvm_env \<Rightarrow> (nat \<Rightarrow> bool) \<Rightarrow> string \<Rightarrow> u8 list \<Rightarrow> 'w mcp_state \<Rightarrow>
    (string list \<times> 'w mcp_state) cres" where
  "cvm_on_text e cv alloc relay_url buf st =
     cbind (parse_ws_text_frame alloc buf) (\<lambda>payload.
       case payload of
         None \<Rightarrow> Ok ([], st)
       | Some bs \<Rightarrow>
           let text = c_str (map (\<lambda>b. char_of (unat b)) bs) in
           if text = [] then Ok ([], st) else process_relay_message e cv relay_url text st)"

text \<open>One pass of the inner loop: \<open>None\<close> is a negative result of the read, an empty list the end of the connection.\<close>

definition cvm_turn_of :: "'w mcp_env \<Rightarrow> cvm_env \<Rightarrow> (nat \<Rightarrow> bool) \<Rightarrow> string \<Rightarrow> int \<Rightarrow> u8 list option \<Rightarrow> int \<Rightarrow>
    'w mcp_state \<Rightarrow> 'w cvm_turn cres" where
  "cvm_turn_of e cv alloc relay_url now rd last_ping st =
     (let t = \<lparr>ct_continue = True, ct_writes = [], ct_published = [], ct_last_ping = last_ping, ct_state = st\<rparr>;
          stop = t\<lparr>ct_continue := False, ct_writes := [[0x88, 0x00]]\<rparr> in
      case rd of
        None \<Rightarrow> Ok t
      | Some [] \<Rightarrow> Ok stop
      | Some (b # bs) \<Rightarrow>
          let opcode = b AND 0x0F in
          if opcode = 0x01 then
            cbind (cvm_on_text e cv alloc relay_url (b # bs) st) (\<lambda>(out, st').
              Ok (cvm_ping now (t\<lparr>ct_published := out, ct_state := st'\<rparr>)))
          else if opcode = 0x09 then Ok (cvm_ping now (t\<lparr>ct_writes := [[0x8A, 0x00]]\<rparr>))
          else if opcode = 0x08 then Ok stop
          else Ok (cvm_ping now t))"

section \<open>Start and stop\<close>

record cvm_server =
  cs_running :: bool
  cs_task :: bool
  cs_created :: "string list"

definition cvm_relay_of :: "tollgate_config \<Rightarrow> string" where
  "cvm_relay_of c = (if cfg_cvm_relays c \<noteq> [] then cfg_cvm_relays c else ''wss://relay.primal.net'')"

definition cvm_server_start :: "bool \<Rightarrow> tollgate_config \<Rightarrow> cvm_server \<Rightarrow> cvm_server" where
  "cvm_server_start task_ok c s =
     (if cs_running s then s
      else if task_ok then s\<lparr>cs_running := True, cs_task := True, cs_created := cs_created s @ [cvm_relay_of c]\<rparr>
      else s\<lparr>cs_running := False\<rparr>)"

definition cvm_server_stop :: "cvm_server \<Rightarrow> cvm_server" where
  "cvm_server_stop s = s\<lparr>cs_running := False, cs_task := False\<rparr>"

definition cvm_get_pubkey_hex :: "tollgate_identity \<Rightarrow> string option" where
  "cvm_get_pubkey_hex i = (if id_initialized i then Some (id_npub_hex i) else None)"

section \<open>Frames: round trip and bounds\<close>

lemma length_unmask [simp]: "length (unmask mkey bs) = length bs"
  by (simp add: unmask_def)

lemma unmask_unmask: "unmask mkey (unmask mkey bs) = bs"
  by (rule nth_equalityI) (simp_all add: unmask_def xor.assoc)

lemma small_byte_bits: "n < 128 \<Longrightarrow> bit n k \<Longrightarrow> k < 7" for n k :: nat
proof (rule ccontr)
  assume n: "n < 128" and b: "bit n k" and k: "\<not> k < 7"
  have "(2::nat) ^ 7 \<le> 2 ^ k" using k by (intro power_increasing) auto
  then have "n div 2 ^ k = 0" using n by simp
  then show False using b by (simp add: bit_iff_odd)
qed

lemma bit_top_of_byte: "bit (0x80 :: u8) k \<longleftrightarrow> k = 7"
proof -
  have "(0x80 :: u8) = push_bit 7 1" by simp
  then have "bit (0x80 :: u8) k = bit (push_bit 7 1 :: u8) k" by (rule arg_cong)
  also have "\<dots> \<longleftrightarrow> k = 7" unfolding bit_push_bit_iff by (auto simp: bit_1_iff)
  finally show ?thesis .
qed

lemma ws_len_byte:
  assumes "n < 128"
  shows "(0x80 OR of_nat n :: u8) AND 0x7F = of_nat n" "(0x80 OR of_nat n :: u8) AND 0x80 = 0x80"
proof -
  have m: "(0x7F :: u8) = mask 7" by (simp add: mask_eq_exp_minus_1)
  have "bit ((0x80 OR of_nat n :: u8) AND mask 7) k = bit (of_nat n :: u8) k" for k
    using small_byte_bits[OF assms, of k] bit_top_of_byte[of k]
    by (auto simp: bit_and_iff bit_or_iff bit_mask_iff bit_of_nat_iff)
  then show "(0x80 OR of_nat n :: u8) AND 0x7F = of_nat n" unfolding m by (intro bit_word_eqI) blast
  show "(0x80 OR of_nat n :: u8) AND 0x80 = 0x80" by (intro bit_word_eqI) (auto simp: bit_and_iff bit_or_iff)
qed

lemma ws_payload_masked:
  assumes "length mkey = 4"
  shows "ws_payload True (h @ mkey @ unmask mkey msg @ rest) (length h + 4) (length msg) = msg"
  using assms by (simp add: ws_payload_def Let_def unmask_unmask)

lemma ws_length_header:
  assumes "n \<le> 65535"
  shows "ws_length (ws_header n @ r) = Some (of_nat n, length (ws_header n)) \<and> (ws_header n @ r) ! 1 AND 0x80 \<noteq> 0 \<and>
    length (ws_header n) \<le> 4 \<and> 2 \<le> length (ws_header n)"
proof (cases "n \<le> 125")
  case True
  have l: "(0x80 OR of_nat n :: u8) AND 0x7F = of_nat n" "(0x80 OR of_nat n :: u8) AND 0x80 = 0x80" using ws_len_byte[of n] True by simp_all
  have u: "unat (of_nat n :: u8) = n" using True by (simp add: unat_of_nat take_bit_nat_eq_self)
  have "(of_nat n :: u8) \<noteq> 126" "(of_nat n :: u8) \<noteq> 127" using u True by auto
  moreover have "ucast (of_nat n :: u8) = (of_nat n :: u64)" using u by (metis of_nat_unat)
  ultimately show ?thesis using True l by (simp add: ws_header_def ws_length_def Let_def)
next
  case False
  have "(0xFE :: u8) AND 0x7F = 126" "(0xFE :: u8) AND 0x80 = 0x80" by simp_all
  moreover have "ucast (of_be16 (be16 (of_nat n) ! 0) (be16 (of_nat n) ! 1)) = (of_nat n :: u64)"
  proof -
    have "unat (of_nat n :: u16) = n" using assms by (simp add: unat_of_nat take_bit_nat_eq_self)
    then show ?thesis by (simp del: of_be16_nth add: of_be16_nth[simplified]) (metis of_nat_unat)
  qed
  ultimately show ?thesis using False
    by (simp add: ws_header_def ws_length_def Let_def nth_append be16_def)
qed

lemma parse_ws_frame:
  assumes "length mkey = 4" "ws_frame mkey msg = Ok f" "alloc (length msg + 1)" "length (f @ rest) < 2 ^ 31"
  shows "parse_ws_text_frame alloc (f @ rest) = Ok (Some msg)"
proof -
  define h where "h = ws_header (length msg)"
  have n: "length msg \<le> 65535" using assms(2) by (auto simp: ws_frame_def split: if_splits)
  have f: "f @ rest = h @ mkey @ unmask mkey msg @ rest" using assms(2) n by (auto simp: ws_frame_def h_def)
  note l = ws_length_header[OF n, of "mkey @ unmask mkey msg @ rest", folded h_def]
  have u: "unat (of_nat (length msg) :: u64) = length msg" using n by (simp add: unat_of_nat take_bit_nat_eq_self)
  have "unat (of_nat (length msg + 1) :: u32) = length msg + 1" using n unfolding unat_of_nat by (simp add: take_bit_nat_eq_self)
  moreover have "ucast (of_nat (length msg) :: u64) = (of_nat (length msg) :: u32)" using u by (metis of_nat_unat)
  ultimately have v: "unat (ucast (of_nat (length msg) :: u64) + 1 :: u32) = length msg + 1" by (simp add: add.commute)
  have w: "\<not> of_nat (length (f @ rest)) < of_nat (length h + 4) + (of_nat (length msg) :: u64)"
    using assms(1,4) l n by (simp add: f word_less_nat_alt unat_of_nat take_bit_nat_eq_self flip: of_nat_add)
  show ?thesis using assms(1,3) l u v w ws_payload_masked[OF assms(1), of h msg rest]
    by (simp add: f parse_ws_text_frame_def Let_def)
qed

lemma write_loop_all: "write_loop rs bs = Some (True, out) \<Longrightarrow> out = bs"
  by (induction rs bs arbitrary: out rule: write_loop.induct) (auto split: if_splits)

text \<open>
  (C30) A text that \<open>ws_send_text\<close> reports as sent, in however many pieces the transport took it, is what the
  frame parser reads from the bytes that arrived.
\<close>

theorem ws_text_delivered:
  assumes "length mkey = 4" "ws_send_text mkey rs msg = Ok (Some (True, out))" "alloc (length msg + 1)"
  shows "parse_ws_text_frame alloc out = Ok (Some (map of_char msg))"
proof -
  obtain f where f: "ws_frame mkey (map of_char msg) = Ok f" "write_loop rs f = Some (True, out)"
    using assms(2) by (auto simp: ws_send_text_def cbind_Ok_iff)
  have "length msg \<le> 65535" using f(1) by (auto simp: ws_frame_def split: if_splits)
  then have "length f \<le> 65543" using f(1) assms(1) by (auto simp: ws_frame_def ws_header_def)
  then show ?thesis using parse_ws_frame[OF assms(1) f(1), of alloc "[]"] assms(3) write_loop_all[OF f(2)] by simp
qed

theorem ws_text_delivered_witness:
  "ws_send_text [1, 2, 3, 4] [3, 0, 5] ''hi'' = Ok (Some (True, [0x81, 0x82, 1, 2, 3, 4, 0x69, 0x6B])) \<and>
   parse_ws_text_frame (\<lambda>n. True) [0x81, 0x82, 1, 2, 3, 4, 0x69, 0x6B] = Ok (Some [0x68, 0x69])"
proof -
  have s: "ws_send_text [1, 2, 3, 4] [3, 0, 5] ''hi'' = Ok (Some (True, [0x81, 0x82, 1, 2, 3, 4, 0x69, 0x6B]))"
    by (simp add: ws_send_text_def ws_frame_def ws_header_def unmask_def upt_rec)
  from ws_text_delivered[OF _ s, of "\<lambda>n. True"] s show ?thesis by simp
qed

lemma ws_length_offset: "ws_length buf = Some (p, off) \<Longrightarrow> off \<le> 10"
  by (auto simp: ws_length_def Let_def split: if_splits)

lemma wrapped_sum_size:
  fixes p :: u64
  assumes "k \<le> 14" "2 ^ 64 \<le> k + unat p"
  shows "unat (ucast p + 1 :: u32) = 0 \<or> 2 ^ 32 - 14 \<le> unat (ucast p + 1 :: u32)"
proof -
  define d where "d = 2 ^ 64 - unat p"
  have lt: "unat p < 2 ^ 64" by (rule order.strict_trans2[OF unsigned_less]) simp
  have d: "1 \<le> d" "d \<le> 14" "unat p = 2 ^ 64 - d" using assms lt by (simp_all add: d_def)
  have "unat (ucast p :: u32) = (2 ^ 64 - d) mod 2 ^ 32" unfolding unsigned_ucast_eq d(3)[symmetric] by (simp add: take_bit_eq_mod)
  also have "\<dots> = 2 ^ 32 - d"
  proof -
    have "(2 :: nat) ^ 64 - d = (2 ^ 32 - d) + (2 ^ 32 - 1) * 2 ^ 32" using d by simp
    then show ?thesis using d by (simp del: power_numeral)
  qed
  finally have q: "unat (ucast p + 1 :: u32) = (2 ^ 32 - d + 1) mod 2 ^ 32" by (simp add: unat_word_ariths)
  show ?thesis
  proof (cases "d = 1")
    case False
    then have "(2 ^ 32 - d + 1) mod 2 ^ 32 = 2 ^ 32 - d + (1 :: nat)" using d by (intro mod_less) simp
    then show ?thesis using q d by simp
  qed (use q in simp)
qed

text \<open>
  (C31) The parser never leaves the received bytes or the block it allocates, as long as the heap cannot serve an
  empty block or one of nearly four gigabytes. The bound check itself does not ensure this: for a length
  close to \<open>2\<^sup>6\<^sup>4\<close> the sum wraps, the check passes, and only the failing allocation stops the copy.
\<close>

theorem parse_ws_memory_safe:
  assumes "length buf < 2 ^ 31" "\<And>n. alloc n \<Longrightarrow> 0 < n \<and> n < 2 ^ 32 - 14"
  shows "parse_ws_text_frame alloc buf \<noteq> Undef"
proof (cases "ws_length buf")
  case None
  then show ?thesis by (simp add: parse_ws_text_frame_def)
next
  case (Some x)
  obtain p o1 where x: "x = (p, o1)" by force
  define off where "off = (if buf ! 1 AND 0x80 \<noteq> 0 then o1 + 4 else o1)"
  have o: "off \<le> 14" using ws_length_offset[of buf p o1] Some x by (simp add: off_def)
  have safe: "off + unat p \<le> length buf \<and> unat p < unat (ucast p + 1 :: u32)"
    if c: "\<not> of_nat (length buf) < of_nat off + p" and a: "alloc (unat (ucast p + 1 :: u32))"
  proof -
    have nw: "off + unat p < 2 ^ 64" using wrapped_sum_size[OF o, of p] assms(2)[OF a] by fastforce
    have "unat (of_nat off + p) = off + unat p"
      using nw o by (simp add: unat_word_ariths unat_of_nat take_bit_nat_eq_self)
    moreover have "unat (of_nat (length buf) :: u64) = length buf" using assms(1) by (simp add: unat_of_nat take_bit_nat_eq_self)
    ultimately have le: "off + unat p \<le> length buf" using c by (simp add: word_less_nat_alt)
    then have "unat p < 2 ^ 31" using assms(1) by simp
    then have "unat (ucast p :: u32) = unat p" by (simp add: unsigned_ucast_eq take_bit_nat_eq_self)
    then have "unat (ucast p + 1 :: u32) = unat p + 1" using \<open>unat p < 2 ^ 31\<close> by (simp add: unat_word_ariths)
    then show ?thesis using le by simp
  qed
  show ?thesis using safe unfolding parse_ws_text_frame_def Some x Let_def option.case prod.case off_def[symmetric] by auto
qed

theorem parse_ws_memory_safe_witness:
  "parse_ws_text_frame (\<lambda>n. 0 < n \<and> n < 300000) ([0x81, 0x7F] @ replicate 8 0xFF) \<noteq> Undef"
  by (rule parse_ws_memory_safe) simp_all

lemma parse_ws_zero_block: "parse_ws_text_frame (\<lambda>n. True) [0x81, 0x7F, 0xFF, 0xFF, 0xFF, 0xFF, 0xFF, 0xFF, 0xFF, 0xFF] = Undef"
  by (simp add: parse_ws_text_frame_def ws_length_def Let_def)

text \<open>
  What a read delivers is taken for one frame: when two frames arrive together, the second is dropped, however
  valid it is.
\<close>

theorem cvm_drops_second_frame:
  assumes "length mkey = 4" "ws_frame mkey msg = Ok f" "\<And>n. n \<le> 65536 \<Longrightarrow> alloc n" "length (f @ second) < 8192"
  shows "cvm_turn_of e cv alloc relay_url now (Some (f @ second)) last_ping st = cvm_turn_of e cv alloc relay_url now (Some f) last_ping st"
proof -
  have "length msg \<le> 65535" using assms(2) by (auto simp: ws_frame_def split: if_splits)
  then have a: "alloc (length msg + 1)" using assms(3) by simp
  have "parse_ws_text_frame alloc (f @ second) = parse_ws_text_frame alloc f"
    using parse_ws_frame[of mkey msg f alloc second] parse_ws_frame[of mkey msg f alloc "[]"] assms(1,2,4) a by simp
  moreover obtain r where "f = 0x81 # r" using assms(2) by (auto simp: ws_frame_def ws_header_def split: if_splits)
  ultimately show ?thesis by (simp add: cvm_turn_of_def cvm_on_text_def Let_def)
qed

section \<open>Addresses and numbers\<close>

lemma strchr_found: "c \<notin> set a \<Longrightarrow> c_strchr c (a @ c # b) = Some (length a)"
  by (auto simp: c_strchr_def first_idx_Some_iff nth_append dest: nth_mem)

lemma dec_no_punct: "CHR ''/'' \<notin> set (dec_of_nat n)" "CHR '':'' \<notin> set (dec_of_nat n)" "CHR ''.'' \<notin> set (dec_of_nat n)"
proof -
  have d: "digit_in 10 c \<noteq> None" if "c \<in> set (dec_of_nat n)" for c using dec_of_nat_digits[OF that] by fastforce
  have "digit_in 10 CHR ''/'' = None" "digit_in 10 CHR '':'' = None" "digit_in 10 CHR ''.'' = None"
    by (simp_all add: digit_in_def hex_val_def)
  then show "CHR ''/'' \<notin> set (dec_of_nat n)" "CHR '':'' \<notin> set (dec_of_nat n)" "CHR ''.'' \<notin> set (dec_of_nat n)"
    using d by metis+
qed

lemma atoi_dec: "n < 2 ^ 31 \<Longrightarrow> c_atoi (dec_of_nat n) = int n"
  using number_prefix_dec[of "[]" n] by (simp add: c_atoi_def clamp_signed_def)

text \<open>A relay address with a port and a path is taken apart into exactly these.\<close>

theorem ws_url_roundtrip:
  assumes "CHR '':'' \<notin> set host" "CHR ''/'' \<notin> set host" "port < 2 ^ 31"
    and "length host + 1 + length (dec_of_nat port) < 128" "length path < 127"
  shows "ws_parse_url (''wss://'' @ host @ '':'' @ dec_of_nat port @ ''/'' @ path) = Some (host, int port, ''/'' @ path)"
proof -
  let ?h = "host @ '':'' @ dec_of_nat port"
  have "CHR ''/'' \<notin> set ?h" using assms(2) dec_no_punct by auto
  then have "c_strchr CHR ''/'' (?h @ ''/'' @ path) = Some (length ?h)" using strchr_found[of "CHR ''/''" ?h path] by simp
  moreover have "c_strchr CHR '':'' ?h = Some (length host)" using strchr_found[OF assms(1)] by simp
  moreover have "min (length ?h) 127 = length ?h" using assms(4) by simp
  ultimately show ?thesis using assms(3,5) atoi_dec[OF assms(3)]
    by (simp add: ws_parse_url_def url_parts_def split_port_def c_strncpy_def Let_def)
qed

theorem ws_url_roundtrip_witness: "ws_parse_url ''wss://nos.lol:77/sub'' = Some (''nos.lol'', 77, ''/sub'')"
proof -
  have "hex_digit 7 = CHR ''7''" by code_simp
  then have "dec_of_nat 77 = ''77''" by (simp add: dec_of_nat.simps)
  then show ?thesis using ws_url_roundtrip[of "''nos.lol''" 77 "''sub''"] by simp
qed

lemma atof_dec:
  assumes "n < 2 ^ 53"
  shows "c_atof (dec_of_nat n) = of_nat n"
proof -
  let ?d = "dec_of_nat n"
  have a: "\<forall>c \<in> set ?d. digit_in 10 c \<noteq> None" using dec_of_nat_digits by fastforce
  then have r: "digit_run ?d = ?d" by (simp add: digit_run_def takeWhile_eq_all_conv)
  obtain c cs where c: "?d = c # cs" using dec_of_nat_nonempty by (cases ?d) blast+
  then obtain k where "c = hex_digit k" "k < 10" using dec_of_nat_digits[of c n] by auto
  then have "\<not> is_space c" "c \<noteq> CHR ''-''" "c \<noteq> CHR ''+''" using hex_digit_props[of k] by auto
  then have s: "skip_sign (dropWhile is_space ?d) = (False, ?d)" using c by (simp add: skip_sign_def)
  have "fl (of_int (int n)) = of_int (int n)" by (rule fl_int) (use assms in simp)
  then show ?thesis
    unfolding c_atof_def s by (simp add: r atof_fraction_def atof_exponent_def digits_value_dec Let_def)
qed

section \<open>Requests\<close>

lemma cbind_Undef_iff: "cbind m f = Undef \<longleftrightarrow> m = Undef \<or> (\<exists>x. m = Ok x \<and> f x = Undef)"
  by (cases m) auto

lemma sent_not_Fail: "sent r \<noteq> Fail"
  by (simp add: sent_def split: cres.split)

lemma to_json_not_Undef: "nostr_event_to_json e ev n \<noteq> Undef"
  by (simp add: nostr_event_to_json_def Let_def)

lemma ws_connect_not_Undef: "ws_connect t url \<noteq> Undef"
  by (auto simp: ws_connect_def ws_open_def split: option.split prod.split)

lemma sign_init:
  assumes "\<And>t. length (ev_sha256 e t) = 32"
  shows "sign_or_keep e (nostr_event_init e now npub kind tags content) nsec \<noteq> Undef"
proof -
  have "hex_bytes_at (ne_id (nostr_event_init e now npub kind tags content)) 32 \<noteq> None"
    using hex_bytes_at_hex[of _ "[]"] assms by (auto simp: nostr_event_init_def Let_def) (metis append_Nil2 option.distinct(1))
  then show ?thesis by (auto simp: sign_or_keep_def nostr_event_sign_def split: option.splits)
qed

lemma response_published:
  assumes "\<And>t. length (ev_sha256 (cv_event cv) t) = 32"
  shows "\<exists>out. sent (publish_kind_25910_response cv url text eid) = Ok out"
proof -
  have "publish_kind_25910_response cv url text eid \<noteq> Undef"
    using sign_init[OF assms] to_json_not_Undef ws_connect_not_Undef
    by (auto simp: publish_kind_25910_response_def publish_event_to_relay_def Let_def cbind_Undef_iff split: if_splits)
  then show ?thesis by (cases "publish_kind_25910_response cv url text eid") (simp_all add: sent_def)
qed

lemma sent_length: "sent r = Ok out \<Longrightarrow> length out \<le> 1"
  by (auto simp: sent_def split: cres.splits)

lemma tool_call_effect:
  assumes "config_wf (ms_cfg st)" "handle_tool_call e cv url eid msg st = Ok (out, st')"
  shows "config_wf (ms_cfg st') \<and> ms_sessions st' = ms_sessions st \<and> length out \<le> 1"
proof -
  consider (none) "out = []" "st' = st"
    | (call) q r where "mcp_dispatch e (Some q) st = Ok (r, st')" "length out \<le> 1"
    using assms(2) sent_length by (auto simp: handle_tool_call_def Let_def cbind_Ok_iff split: option.splits)
  then show ?thesis
  proof cases
    case call
    then show ?thesis using mcp_dispatch_effect[OF assms(1)] by blast
  qed (use assms(1) in simp)
qed

lemma mcp_message_effect:
  assumes "config_wf (ms_cfg st)" "handle_mcp_message e cv url eid content st = Ok (out, st')"
  shows "config_wf (ms_cfg st') \<and> ms_sessions st' = ms_sessions st \<and> length out \<le> 1"
  using assms sent_length tool_call_effect[OF assms(1)]
  by (auto simp: handle_mcp_message_def Let_def cbind_Ok_iff split: option.splits if_splits)

text \<open>
  A message of the relay changes the state or is answered only if it carries an event of kind 25910 that names
  the gate's own public key as its author; then the configuration still respects its array sizes, the sessions
  are as before, and at most one response goes out.
\<close>

theorem cvm_request_effect:
  assumes "config_wf (ms_cfg st)" "process_relay_message e cv url text st = Ok (out, st')"
  shows "config_wf (ms_cfg st') \<and> ms_sessions st' = ms_sessions st \<and> length out \<le> 1 \<and>
    ((st', out) = (st, []) \<or> (\<exists>sub ev rest kind. mcp_parse e text = Some (JArr (JStr ''EVENT'' # sub # ev # rest)) \<and>
       json_get_ci ev ''kind'' = Some kind \<and> json_valueint kind = 25910 \<and>
       json_get_ci ev ''pubkey'' = Some (JStr (id_npub_hex (cv_identity cv)))))"
proof (cases "(st', out) = (st, [])")
  case False
  then obtain sub ev rest kind pk i c where m: "mcp_parse e text = Some (JArr (JStr ''EVENT'' # sub # ev # rest))"
      "json_get_ci ev ''kind'' = Some kind" "json_get_ci ev ''pubkey'' = Some pk" "json_valueint kind = 25910"
      "is_owner_pubkey (cv_identity cv) (json_str (Some pk))"
      "handle_mcp_message e cv url i c st = Ok (out, st')"
    using assms(2) unfolding process_relay_message_def
    by (auto split: option.splits json.splits list.splits if_splits)
  then have "pk = JStr (id_npub_hex (cv_identity cv))" by (auto simp: is_owner_pubkey_def json_str_def split: json.splits)
  then show ?thesis using m mcp_message_effect[OF assms(1) m(6)] by blast
qed (use assms(1) in simp)


definition demo_gate_id :: tollgate_identity where
  "demo_gate_id = \<lparr>id_nsec = replicate 32 1, id_nsec_hex = [], id_npub_hex = ''ab'', id_sta_mac = [], id_ap_mac = [], id_ap_ssid = [],
     id_ap_ip = 0, id_ap_ip_str = [], id_locking_privkey = [], id_locking_pubkey = [], id_locking_pubkey_hex = [], id_initialized = True\<rparr>"

definition demo_cvm :: cvm_env where
  "demo_cvm = \<lparr>cv_event = \<lparr>ev_parse = (\<lambda>t. None), ev_print = (\<lambda>j. ''{}''), ev_sha256 = (\<lambda>t. replicate 32 0),
       ev_context_ok = True, ev_sign = (\<lambda>k m. Some (replicate 64 2))\<rparr>,
     cv_tls = \<lparr>tls_connects = (\<lambda>h p. True), tls_answer = (\<lambda>r. Some ''HTTP/1.1 101''), tls_stale = []\<rparr>,
     cv_now = 1700000000, cv_freed = (\<lambda>t. []), cv_identity = demo_gate_id\<rparr>"

definition demo_forged :: json where
  "demo_forged = JObj [(''kind'', json_int 25910), (''pubkey'', JStr ''ab''), (''id'', JStr ''00''), (''content'', JStr ''call'')]"

definition demo_call_params :: json where
  "demo_call_params = JObj [(''name'', JStr ''wallet_send''), (''arguments'', JObj [(''amount'', json_int 7)])]"

definition demo_call :: json where
  "demo_call = JObj [(''method'', JStr ''tools/call''), (''params'', demo_call_params)]"

definition demo_cvm_mcp :: "nat mcp_env" where
  "demo_cvm_mcp = demo_mcp\<lparr>mcp_print := (\<lambda>j. ''args''),
     mcp_parse := (\<lambda>t. if t = ''event'' then Some (JArr [JStr ''EVENT'', JStr ''s'', demo_forged])
       else if t = ''call'' then Some demo_call else Some (JObj [(''amount'', json_int 7)]))\<rparr>"

lemma forged_members:
  "json_get_ci demo_forged ''kind'' = Some (json_int 25910)" "json_get_ci demo_forged ''pubkey'' = Some (JStr ''ab'')"
  "json_get_ci demo_forged ''id'' = Some (JStr ''00'')" "json_get_ci demo_forged ''content'' = Some (JStr ''call'')"
  "json_get_ci demo_call ''method'' = Some (JStr ''tools/call'')" "json_get_ci demo_call ''params'' = Some demo_call_params"
  "json_get_ci demo_call_params ''name'' = Some (JStr ''wallet_send'')"
  "json_get_ci demo_call_params ''arguments'' = Some (JObj [(''amount'', json_int 7)])"
  "json_get_ci (JObj [(''amount'', json_int 7)]) ''amount'' = Some (JNum (Fin 7))"
  by (simp_all add: demo_forged_def demo_call_def demo_call_params_def json_get_ci_def to_lower_def json_int_def)


theorem cvm_request_effect_witness:
  "\<exists>out st'. process_relay_message demo_cvm_mcp demo_cvm ''wss://a'' ''ping'' demo_mcp_state = Ok (out, st') \<and>
     config_wf (ms_cfg st') \<and> (st', out) = (demo_mcp_state, [])"
proof -
  have p: "process_relay_message demo_cvm_mcp demo_cvm ''wss://a'' ''ping'' demo_mcp_state = Ok ([], demo_mcp_state)"
    by (simp add: process_relay_message_def demo_cvm_mcp_def)
  have "config_wf (ms_cfg demo_mcp_state)" using demo_start_wf by (simp add: demo_mcp_state_def)
  from cvm_request_effect[OF this p] p show ?thesis by blast
qed

theorem cvm_drops_second_frame_witness:
  "cvm_turn_of demo_cvm_mcp demo_cvm (\<lambda>n. True) ''wss://a'' 5 (Some ([0x81, 0x82, 1, 2, 3, 4, 0x69, 0x6B] @ [0x88, 0x00])) 0 demo_mcp_state =
   cvm_turn_of demo_cvm_mcp demo_cvm (\<lambda>n. True) ''wss://a'' 5 (Some [0x81, 0x82, 1, 2, 3, 4, 0x69, 0x6B]) 0 demo_mcp_state"
proof (rule cvm_drops_second_frame[where mkey = "[1, 2, 3, 4]" and msg = "[0x68, 0x69]"])
  show "ws_frame [1, 2, 3, 4] [0x68, 0x69] = Ok [0x81, 0x82, 1, 2, 3, 4, 0x69, 0x6B]"
    by (simp add: ws_frame_def ws_header_def unmask_def upt_rec)
qed simp_all

text \<open>The response to a request with an integer id carries that id.\<close>

lemma response_id:
  assumes "json_get_ci msg ''id'' = Some (json_int (int n))" "mcp_print e (json_int (int n)) = dec_of_nat n" "n < 2 ^ 53"
  shows "rpc_envelope (request_id e msg) body key = JObj [(''jsonrpc'', JStr ''2.0''), (''id'', json_int (int n)), (key, body)]"
  using assms atof_dec[OF assms(3)] by (simp add: rpc_envelope_def request_id_def json_int_def)

end
