(* ===== verification/TG_RelayTables.thy ===== *)
theory TG_RelayTables
  imports TG_HexText
begin

text \<open>
  The tables of the Nostr relay: the rate limiter (\<^verbatim>\<open>components/wisp_relay/rate_limiter.c\<close>), the
  subscriptions (\<^verbatim>\<open>components/wisp_relay/sub_manager.c\<close>) and the WebSocket connections
  (\<^verbatim>\<open>components/wisp_relay/ws_server.c\<close>). Each is an array of slots with an \<open>active\<close> flag. Every
  operation runs under the mutex of its table, so it is one step; \<open>now\<close> is \<open>esp_timer_get_time()\<close> in
  seconds, read once per operation. Allocation failures are not modelled.
\<close>

unbundle bit_operations_syntax

section \<open>Rate limiter\<close>

datatype rate_type = RATE_TYPE_EVENT | RATE_TYPE_REQ

record rate_config =
  events_per_minute :: u16
  reqs_per_minute :: u16

record rate_bucket =
  rb_fd :: int
  rb_event_count :: u16
  rb_req_count :: u16
  rb_window_start :: u32
  rb_active :: bool

record rate_limiter =
  rl_config :: rate_config
  rl_buckets :: "rate_bucket list"

definition RATE_LIMITER_MAX_BUCKETS :: nat where
  "RATE_LIMITER_MAX_BUCKETS = 16"

definition rate_limiter_init :: "rate_config option \<Rightarrow> rate_limiter" where
  "rate_limiter_init config =
     \<lparr>rl_config = (case config of Some c \<Rightarrow> c | None \<Rightarrow> \<lparr>events_per_minute = 30, reqs_per_minute = 60\<rparr>),
      rl_buckets = replicate RATE_LIMITER_MAX_BUCKETS
        \<lparr>rb_fd = 0, rb_event_count = 0, rb_req_count = 0, rb_window_start = 0, rb_active = False\<rparr>\<rparr>"

definition bucket_is :: "int \<Rightarrow> rate_bucket \<Rightarrow> bool" where
  "bucket_is fd b \<longleftrightarrow> rb_active b \<and> rb_fd b = fd"

definition get_bucket :: "u32 \<Rightarrow> int \<Rightarrow> rate_bucket list \<Rightarrow> nat option \<times> rate_bucket list" where
  "get_bucket now fd bs =
     (case first_idx (bucket_is fd) bs of
        Some i \<Rightarrow> (Some i, bs)
      | None \<Rightarrow>
          (case first_idx (\<lambda>b. \<not> rb_active b) bs of
             Some i \<Rightarrow> (Some i, bs[i := \<lparr>rb_fd = fd, rb_event_count = 0, rb_req_count = 0, rb_window_start = now,
                                     rb_active = True\<rparr>])
           | None \<Rightarrow> (None, bs)))"

text \<open>The window test and the counting, on the bucket of the caller.\<close>

definition bucket_check :: "rate_config \<Rightarrow> u32 \<Rightarrow> rate_type \<Rightarrow> rate_bucket \<Rightarrow> bool \<times> rate_bucket" where
  "bucket_check cfg now t b =
     (let b1 = (if 60 \<le> now - rb_window_start b
                then b\<lparr>rb_event_count := 0, rb_req_count := 0, rb_window_start := now\<rparr> else b) in
      case t of
        RATE_TYPE_EVENT \<Rightarrow>
          if events_per_minute cfg \<le> rb_event_count b1 then (False, b1)
          else (True, b1\<lparr>rb_event_count := rb_event_count b1 + 1\<rparr>)
      | RATE_TYPE_REQ \<Rightarrow>
          if reqs_per_minute cfg \<le> rb_req_count b1 then (False, b1)
          else (True, b1\<lparr>rb_req_count := rb_req_count b1 + 1\<rparr>))"

definition rate_limiter_check :: "u32 \<Rightarrow> int \<Rightarrow> rate_type \<Rightarrow> rate_limiter \<Rightarrow> bool \<times> rate_limiter" where
  "rate_limiter_check now fd t rl =
     (case get_bucket now fd (rl_buckets rl) of
        (None, bs) \<Rightarrow> (False, rl\<lparr>rl_buckets := bs\<rparr>)
      | (Some i, bs) \<Rightarrow>
          (case bucket_check (rl_config rl) now t (bs ! i) of (allowed, b) \<Rightarrow> (allowed, rl\<lparr>rl_buckets := bs[i := b]\<rparr>)))"

definition rate_limiter_reset :: "int \<Rightarrow> rate_limiter \<Rightarrow> rate_limiter" where
  "rate_limiter_reset fd rl =
     (case first_idx (bucket_is fd) (rl_buckets rl) of
        Some i \<Rightarrow> rl\<lparr>rl_buckets := (rl_buckets rl)[i := (rl_buckets rl ! i)\<lparr>rb_active := False\<rparr>]\<rparr>
      | None \<Rightarrow> rl)"

section \<open>Subscriptions\<close>

datatype sub_error = SUB_OK | SUB_ERR_INVALID | SUB_ERR_TOO_MANY_FILTERS | SUB_ERR_MEMORY | SUB_ERR_NOT_FOUND

definition SUB_MAX_TOTAL :: nat where
  "SUB_MAX_TOTAL = 64"

definition SUB_MAX_PER_CONN :: nat where
  "SUB_MAX_PER_CONN = 8"

definition SUB_MAX_FILTERS :: nat where
  "SUB_MAX_FILTERS = 4"

definition SUB_MAX_ID_LEN :: nat where
  "SUB_MAX_ID_LEN = 64"

text \<open>The five \<open>SUB_MAX_FILTER_*\<close> limits are all 20.\<close>

definition SUB_MAX_FILTER_ITEMS :: nat where
  "SUB_MAX_FILTER_ITEMS = 20"

text \<open>The arrays of a filter with their counts are lists; \<open>since\<close> and \<open>until\<close> are 64-bit, \<open>kinds\<close> 32-bit.\<close>

record sub_filter =
  sf_ids :: "string list"
  sf_authors :: "string list"
  sf_kinds :: "int list"
  sf_e_tags :: "string list"
  sf_p_tags :: "string list"
  sf_since :: int
  sf_until :: int
  sf_limit :: int

record subscription =
  su_sub_id :: string
  su_conn_fd :: int
  su_filters :: "sub_filter list"
  su_events_sent :: u16
  su_active :: bool

record sub_manager =
  sm_subs :: "subscription list"
  sm_active_count :: u16

definition sub_empty :: subscription where
  "sub_empty = \<lparr>su_sub_id = [], su_conn_fd = 0, su_filters = [], su_events_sent = 0, su_active = False\<rparr>"

definition sub_manager_init :: sub_manager where
  "sub_manager_init = \<lparr>sm_subs = replicate SUB_MAX_TOTAL sub_empty, sm_active_count = 0\<rparr>"

definition filter_copy :: "sub_filter \<Rightarrow> sub_filter" where
  "filter_copy f = \<lparr>sf_ids = take SUB_MAX_FILTER_ITEMS (sf_ids f), sf_authors = take SUB_MAX_FILTER_ITEMS (sf_authors f),
     sf_kinds = take SUB_MAX_FILTER_ITEMS (sf_kinds f), sf_e_tags = take SUB_MAX_FILTER_ITEMS (sf_e_tags f),
     sf_p_tags = take SUB_MAX_FILTER_ITEMS (sf_p_tags f), sf_since = sf_since f, sf_until = sf_until f,
     sf_limit = sf_limit f\<rparr>"

definition clear_subscription :: "subscription \<Rightarrow> subscription" where
  "clear_subscription s = sub_empty"

definition sub_is :: "int \<Rightarrow> string \<Rightarrow> subscription \<Rightarrow> bool" where
  "sub_is fd sid s \<longleftrightarrow> su_active s \<and> su_conn_fd s = fd \<and> su_sub_id s = sid"

definition find_sub :: "sub_manager \<Rightarrow> int \<Rightarrow> string \<Rightarrow> nat option" where
  "find_sub m fd sid = first_idx (sub_is fd sid) (sm_subs m)"

definition sub_find_free_slot :: "sub_manager \<Rightarrow> nat option" where
  "sub_find_free_slot m = first_idx (\<lambda>s. \<not> su_active s) (sm_subs m)"

definition hex_prefix_match :: "string \<Rightarrow> string \<Rightarrow> bool" where
  "hex_prefix_match pre full =
     (if pre = [] then True else if length full < length pre then False else take (length pre) full = pre)"

definition filter_matches_event :: "sub_filter \<Rightarrow> int \<Rightarrow> string \<Rightarrow> u64 \<Rightarrow> bool" where
  "filter_matches_event f event_kind pubkey_hex created_at =
     (if sf_kinds f \<noteq> [] \<and> \<not> list_ex (\<lambda>k. k = event_kind) (sf_kinds f) then False
      else if sf_authors f \<noteq> [] \<and> \<not> list_ex (\<lambda>a. hex_prefix_match a pubkey_hex) (sf_authors f) then False
      else if 0 < sf_since f \<and> sint created_at < sf_since f then False
      else if 0 < sf_until f \<and> sf_until f < sint created_at then False
      else True)"

definition sub_manager_match_json :: "sub_manager \<Rightarrow> int \<Rightarrow> string \<Rightarrow> u64 \<Rightarrow> (int \<times> string) list" where
  "sub_manager_match_json m event_kind pubkey_hex created_at =
     concat (map (\<lambda>s. if su_active s \<and> list_ex (\<lambda>f. filter_matches_event f event_kind pubkey_hex created_at) (su_filters s)
                      then [(su_conn_fd s, su_sub_id s)] else []) (sm_subs m))"

definition conn_subs :: "int \<Rightarrow> sub_manager \<Rightarrow> nat" where
  "conn_subs fd m = count_if (\<lambda>s. su_active s \<and> su_conn_fd s = fd) (sm_subs m)"

definition sub_manager_add :: "int \<Rightarrow> string \<Rightarrow> sub_filter list \<Rightarrow> sub_manager \<Rightarrow> sub_error \<times> sub_manager" where
  "sub_manager_add fd sid filters m =
     (let fs = map filter_copy (take SUB_MAX_FILTERS filters) in
      case find_sub m fd sid of
        Some i \<Rightarrow>
          (SUB_OK, m\<lparr>sm_subs := (sm_subs m)[i := (sm_subs m ! i)\<lparr>su_events_sent := 0, su_filters := fs\<rparr>]\<rparr>)
      | None \<Rightarrow>
          if SUB_MAX_PER_CONN \<le> conn_subs fd m then (SUB_ERR_TOO_MANY_FILTERS, m)
          else
            (case sub_find_free_slot m of
               None \<Rightarrow> (SUB_ERR_MEMORY, m)
             | Some i \<Rightarrow>
                 (SUB_OK, m\<lparr>sm_subs := (sm_subs m)[i := \<lparr>su_sub_id = take SUB_MAX_ID_LEN sid, su_conn_fd = fd,
                                                      su_filters = fs, su_events_sent = 0, su_active = True\<rparr>],
                             sm_active_count := sm_active_count m + 1\<rparr>)))"

definition sub_manager_remove :: "int \<Rightarrow> string \<Rightarrow> sub_manager \<Rightarrow> sub_error \<times> sub_manager" where
  "sub_manager_remove fd sid m =
     (case find_sub m fd sid of
        None \<Rightarrow> (SUB_ERR_NOT_FOUND, m)
      | Some i \<Rightarrow> (SUB_OK, m\<lparr>sm_subs := (sm_subs m)[i := clear_subscription (sm_subs m ! i)],
                            sm_active_count := sm_active_count m - 1\<rparr>))"

definition sub_manager_remove_all :: "int \<Rightarrow> sub_manager \<Rightarrow> sub_manager" where
  "sub_manager_remove_all fd m =
     m\<lparr>sm_subs := map (\<lambda>s. if su_active s \<and> su_conn_fd s = fd then clear_subscription s else s) (sm_subs m),
       sm_active_count := sm_active_count m - of_nat (conn_subs fd m)\<rparr>"

definition sub_manager_count :: "int \<Rightarrow> sub_manager \<Rightarrow> u8" where
  "sub_manager_count fd m = of_nat (conn_subs fd m)"

section \<open>Connections\<close>

definition WS_MAX_CONNECTIONS :: nat where
  "WS_MAX_CONNECTIONS = 8"

record ws_connection =
  wc_fd :: int
  wc_active :: bool
  wc_connected_at :: u32
  wc_last_activity :: u32
  wc_remote_ip :: string

text \<open>\<open>ws_running\<close> stands for \<open>server->server != NULL\<close>.\<close>

record ws_server =
  ws_running :: bool
  ws_connections :: "ws_connection list"
  ws_connection_count :: u8

definition ws_empty :: ws_connection where
  "ws_empty = \<lparr>wc_fd = 0, wc_active = False, wc_connected_at = 0, wc_last_activity = 0, wc_remote_ip = []\<rparr>"

definition conn_is :: "int \<Rightarrow> ws_connection \<Rightarrow> bool" where
  "conn_is fd c \<longleftrightarrow> wc_active c \<and> wc_fd c = fd"

definition ws_find_free_slot :: "ws_server \<Rightarrow> nat option" where
  "ws_find_free_slot w = first_idx (\<lambda>c. \<not> wc_active c) (ws_connections w)"

definition find_connection_by_fd :: "ws_server \<Rightarrow> int \<Rightarrow> nat option" where
  "find_connection_by_fd w fd = first_idx (conn_is fd) (ws_connections w)"

definition update_connection_activity :: "u32 \<Rightarrow> int \<Rightarrow> ws_server \<Rightarrow> ws_server" where
  "update_connection_activity now fd w =
     (case find_connection_by_fd w fd of
        Some i \<Rightarrow> w\<lparr>ws_connections := (ws_connections w)[i := (ws_connections w ! i)\<lparr>wc_last_activity := now\<rparr>]\<rparr>
      | None \<Rightarrow> w)"

text \<open>The address text of a peer: \<open>getpeername\<close> and \<open>inet_ntop\<close> are the parameter \<open>peer\<close>; the buffer has 48 bytes.\<close>

definition get_client_ip :: "string option \<Rightarrow> string" where
  "get_client_ip peer = (case peer of Some ip \<Rightarrow> ip | None \<Rightarrow> ''unknown'')"

definition ws_on_open :: "u32 \<Rightarrow> string option \<Rightarrow> int \<Rightarrow> ws_server \<Rightarrow> bool \<times> ws_server" where
  "ws_on_open now peer fd w =
     (if of_nat WS_MAX_CONNECTIONS \<le> ws_connection_count w then (False, w)
      else
        (case ws_find_free_slot w of
           None \<Rightarrow> (False, w)
         | Some i \<Rightarrow>
             (True, w\<lparr>ws_connections := (ws_connections w)[i := \<lparr>wc_fd = fd, wc_active = True, wc_connected_at = now,
                                                              wc_last_activity = now, wc_remote_ip = get_client_ip peer\<rparr>],
                      ws_connection_count := ws_connection_count w + 1\<rparr>)))"

definition ws_on_close :: "int \<Rightarrow> ws_server \<Rightarrow> ws_server" where
  "ws_on_close fd w =
     (case find_connection_by_fd w fd of
        Some i \<Rightarrow> w\<lparr>ws_connections := (ws_connections w)[i := ws_empty], ws_connection_count := ws_connection_count w - 1\<rparr>
      | None \<Rightarrow> w)"

definition ws_server_init :: "bool \<Rightarrow> ws_server \<Rightarrow> bool \<times> ws_server" where
  "ws_server_init started w =
     (if ws_running w then (False, w)
      else (started, \<lparr>ws_running = started, ws_connections = replicate WS_MAX_CONNECTIONS ws_empty, ws_connection_count = 0\<rparr>))"

definition ws_server_stop :: "ws_server \<Rightarrow> ws_server" where
  "ws_server_stop w = \<lparr>ws_running = False, ws_connections = replicate WS_MAX_CONNECTIONS ws_empty, ws_connection_count = 0\<rparr>"

section \<open>The quota of a window\<close>

definition bucket_of :: "rate_limiter \<Rightarrow> int \<Rightarrow> rate_bucket option" where
  "bucket_of rl fd = find (bucket_is fd) (rl_buckets rl)"

lemma bucket_check_keeps: "rb_active (snd (bucket_check cfg now t b)) = rb_active b" "rb_fd (snd (bucket_check cfg now t b)) = rb_fd b"
  by (simp_all add: bucket_check_def Let_def split: rate_type.split)

lemma get_bucket_cases:
  assumes "get_bucket now fd bs = (Some i, bs')"
  obtains (old) "first_idx (bucket_is fd) bs = Some i" "bs' = bs"
  | (new) "find (bucket_is fd) bs = None" "i < length bs" "\<not> rb_active (bs ! i)"
      "bs' = bs[i := \<lparr>rb_fd = fd, rb_event_count = 0, rb_req_count = 0, rb_window_start = now, rb_active = True\<rparr>]"
  using assms by (auto simp: get_bucket_def find_first_idx dest: first_idx_SomeD split: option.splits)

lemma check_other:
  assumes "f \<noteq> fd"
  shows "bucket_of (snd (rate_limiter_check now f t rl)) fd = bucket_of rl fd"
proof (cases "get_bucket now f (rl_buckets rl)")
  case (Pair r bs)
  show ?thesis
  proof (cases r)
    case None
    then show ?thesis using Pair by (auto simp: rate_limiter_check_def bucket_of_def get_bucket_def split: option.splits)
  next
    case (Some i)
    obtain ok b where b: "bucket_check (rl_config rl) now t (bs ! i) = (ok, b)" by fastforce
    from Pair Some show ?thesis
      using bucket_check_keeps[of "rl_config rl" now t "bs ! i"] b assms
      by (auto elim!: get_bucket_cases simp: rate_limiter_check_def bucket_of_def bucket_is_def find_update_other dest!: first_idx_SomeD(2))
  qed
qed

lemma check_own:
  assumes "bucket_of rl fd = Some b"
  shows "fst (rate_limiter_check now fd t rl) = fst (bucket_check (rl_config rl) now t b)"
    "bucket_of (snd (rate_limiter_check now fd t rl)) fd = Some (snd (bucket_check (rl_config rl) now t b))"
proof -
  obtain i where i: "first_idx (bucket_is fd) (rl_buckets rl) = Some i" "b = rl_buckets rl ! i"
    using assms by (auto simp: bucket_of_def find_first_idx)
  obtain ok b' where c: "bucket_check (rl_config rl) now t b = (ok, b')" by fastforce
  have "bucket_is fd b'" using bucket_check_keeps[of "rl_config rl" now t b] c first_idx_SomeD(2)[OF i(1)] i(2)
    by (simp add: bucket_is_def)
  then show "fst (rate_limiter_check now fd t rl) = fst (bucket_check (rl_config rl) now t b)"
    "bucket_of (snd (rate_limiter_check now fd t rl)) fd = Some (snd (bucket_check (rl_config rl) now t b))"
    using i c by (simp_all add: rate_limiter_check_def get_bucket_def bucket_of_def find_update_first)
qed

lemma check_config: "rl_config (snd (rate_limiter_check now fd t rl)) = rl_config rl"
  by (auto simp: rate_limiter_check_def split: prod.split option.split)

text \<open>A run of checks, each with its time, connection and kind: how many of one kind pass for one connection.\<close>

fun rate_passed :: "int \<Rightarrow> rate_type \<Rightarrow> (u32 \<times> int \<times> rate_type) list \<Rightarrow> rate_limiter \<Rightarrow> nat" where
  "rate_passed fd t [] rl = 0"
| "rate_passed fd t ((now, f, u) # cs) rl =
     (case rate_limiter_check now f u rl of (ok, rl1) \<Rightarrow> (if ok \<and> f = fd \<and> u = t then 1 else 0) + rate_passed fd t cs rl1)"

definition rate_asked :: "int \<Rightarrow> rate_type \<Rightarrow> (u32 \<times> int \<times> rate_type) list \<Rightarrow> nat" where
  "rate_asked fd t cs = count_if (\<lambda>(now, f, u). f = fd \<and> u = t) cs"

definition rate_quota :: "rate_type \<Rightarrow> rate_config \<Rightarrow> nat" where
  "rate_quota t cfg = (case t of RATE_TYPE_EVENT \<Rightarrow> unat (events_per_minute cfg) | RATE_TYPE_REQ \<Rightarrow> unat (reqs_per_minute cfg))"

definition rate_counted :: "rate_type \<Rightarrow> rate_bucket \<Rightarrow> nat" where
  "rate_counted t b = (case t of RATE_TYPE_EVENT \<Rightarrow> unat (rb_event_count b) | RATE_TYPE_REQ \<Rightarrow> unat (rb_req_count b))"

lemma bucket_check_window:
  assumes "now - rb_window_start b < 60"
  shows "fst (bucket_check cfg now t b) \<longleftrightarrow> rate_counted t b < rate_quota t cfg"
    "rb_window_start (snd (bucket_check cfg now t b)) = rb_window_start b"
    "rate_counted u (snd (bucket_check cfg now t b)) =
       rate_counted u b + (if u = t \<and> rate_counted t b < rate_quota t cfg then 1 else 0)"
proof -
  have s: "\<not> unat d \<le> unat c \<Longrightarrow> unat (c + 1) = Suc (unat c)" for c d :: u16
    using unat_Suc_less[of c d] by (simp add: word_less_nat_alt)
  note simps = bucket_check_def Let_def rate_counted_def rate_quota_def word_le_nat_alt word_less_nat_alt
  show "fst (bucket_check cfg now t b) \<longleftrightarrow> rate_counted t b < rate_quota t cfg"
    "rb_window_start (snd (bucket_check cfg now t b)) = rb_window_start b"
    using assms by (auto simp: simps split: rate_type.split)
  show "rate_counted u (snd (bucket_check cfg now t b)) =
       rate_counted u b + (if u = t \<and> rate_counted t b < rate_quota t cfg then 1 else 0)"
    using assms s[of "events_per_minute cfg" "rb_event_count b"] s[of "reqs_per_minute cfg" "rb_req_count b"]
    by (auto simp: simps split: rate_type.splits)
qed

text \<open>
  The rate limiter keeps its promise inside a window: once a connection has a bucket, then in
  any run of checks, of this and other connections at any times, in which its own checks fall into the
  60 seconds from the start of its window, exactly as many of its events (or requests) pass as the
  configured quota has left.
\<close>

theorem rate_window_quota:
  assumes "bucket_of rl fd = Some b" "\<forall>(now, f, u) \<in> set checks. f = fd \<longrightarrow> now - rb_window_start b < 60"
  shows "rate_passed fd t checks rl = min (rate_asked fd t checks) (rate_quota t (rl_config rl) - rate_counted t b)"
  using assms
proof (induction checks arbitrary: rl b)
  case (Cons c cs)
  obtain now f u where c: "c = (now, f, u)" by (cases c) auto
  let ?rl = "snd (rate_limiter_check now f u rl)"
  have cfg: "rl_config ?rl = rl_config rl" by (rule check_config)
  show ?case
  proof (cases "f = fd")
    case True
    let ?b = "snd (bucket_check (rl_config rl) now u b)"
    have w: "now - rb_window_start b < 60" using Cons.prems(2) c True by auto
    note own = check_own[OF Cons.prems(1), of now u] and bw = bucket_check_window[OF w, where cfg = "rl_config rl"]
    have "rate_passed fd t cs ?rl = min (rate_asked fd t cs) (rate_quota t (rl_config rl) - rate_counted t ?b)"
      using Cons.IH[of ?rl ?b] own(2) Cons.prems(2) True bw(2)[where t = u] cfg by simp
    then show ?thesis using own(1) bw(1)[where t = u] bw(3)[where t = u and u = t] True c
      by (auto simp: rate_asked_def case_prod_beta)
  next
    case False
    then have "bucket_of ?rl fd = Some b" using check_other[OF False] Cons.prems(1) by simp
    then show ?thesis using Cons.IH[of ?rl b] Cons.prems(2) False cfg c by (auto simp: rate_asked_def case_prod_beta)
  qed
qed (simp add: rate_asked_def)

definition demo_limiter :: rate_limiter where
  "demo_limiter = snd (rate_limiter_check 100 7 RATE_TYPE_EVENT (rate_limiter_init (Some \<lparr>events_per_minute = 2, reqs_per_minute = 1\<rparr>)))"

theorem rate_window_quota_witness:
  "rate_passed 7 RATE_TYPE_EVENT [(110, 7, RATE_TYPE_EVENT), (500, 8, RATE_TYPE_EVENT), (159, 7, RATE_TYPE_EVENT)] demo_limiter = 1"
proof -
  have "bucket_of demo_limiter 7 = Some \<lparr>rb_fd = 7, rb_event_count = 1, rb_req_count = 0, rb_window_start = 100, rb_active = True\<rparr>"
    by code_simp
  moreover have "rl_config demo_limiter = \<lparr>events_per_minute = 2, reqs_per_minute = 1\<rparr>" by code_simp
  ultimately show ?thesis
    by (subst rate_window_quota) (auto simp: rate_asked_def rate_quota_def rate_counted_def)
qed

text \<open>
  A bucket is never given back: no caller in the firmware frees one, so when sixteen other
  descriptors have used the relay, a new connection is refused everything, at any later time.
\<close>

theorem rate_limiter_starves:
  assumes "\<forall>b \<in> set (rl_buckets rl). rb_active b \<and> rb_fd b \<noteq> fd"
  shows "rate_passed fd t checks rl = 0"
  using assms
proof (induction checks arbitrary: rl)
  case (Cons c cs)
  obtain now f u where c: "c = (now, f, u)" by (cases c) auto
  let ?rl = "snd (rate_limiter_check now f u rl)"
  have keep: "\<forall>b \<in> set (rl_buckets ?rl). rb_active b \<and> rb_fd b \<noteq> fd"
  proof (cases "first_idx (bucket_is f) (rl_buckets rl)")
    case None
    moreover have "first_idx (\<lambda>b. \<not> rb_active b) (rl_buckets rl) = None" using Cons.prems by (auto simp: first_idx_None_iff)
    ultimately show ?thesis using Cons.prems by (simp add: rate_limiter_check_def get_bucket_def)
  next
    case (Some i)
    then have i: "i < length (rl_buckets rl)" using first_idx_SomeD by blast
    have "rb_active (rl_buckets rl ! i)" "rb_fd (rl_buckets rl ! i) \<noteq> fd" using Cons.prems i by auto
    then show ?thesis using Some Cons.prems bucket_check_keeps[of "rl_config rl" now u "rl_buckets rl ! i"]
      by (auto simp: rate_limiter_check_def get_bucket_def split: prod.splits dest!: set_update_subset_insert[THEN subsetD])
  qed
  have "f = fd \<Longrightarrow> \<not> fst (rate_limiter_check now f u rl)"
  proof -
    assume f: "f = fd"
    have "first_idx (bucket_is f) (rl_buckets rl) = None" "first_idx (\<lambda>b. \<not> rb_active b) (rl_buckets rl) = None"
      using Cons.prems f by (auto simp: first_idx_None_iff bucket_is_def)
    then show ?thesis by (simp add: rate_limiter_check_def get_bucket_def)
  qed
  then show ?case using Cons.IH[OF keep] c by (auto simp: case_prod_beta)
qed simp

definition full_limiter :: rate_limiter where
  "full_limiter = fold (\<lambda>i rl. snd (rate_limiter_check 1 (int i) RATE_TYPE_REQ rl)) [0..<16] (rate_limiter_init None)"

theorem rate_limiter_starves_witness: "rate_passed 99 RATE_TYPE_REQ [(1000000, 99, RATE_TYPE_REQ)] full_limiter = 0"
proof -
  have "list_all (\<lambda>b. rb_active b \<and> rb_fd b \<noteq> 99) (rl_buckets full_limiter)" by code_simp
  then show ?thesis by (intro rate_limiter_starves) (simp add: list_all_iff)
qed

section \<open>The subscription table\<close>

text \<open>Subscription ids of 64 characters and more are stored cut, so only shorter ones are keys.\<close>

definition keyed :: "subscription \<Rightarrow> bool" where
  "keyed s \<longleftrightarrow> su_active s \<and> length (su_sub_id s) < SUB_MAX_ID_LEN"

definition sub_key :: "subscription \<Rightarrow> int \<times> string" where
  "sub_key s = (su_conn_fd s, su_sub_id s)"

definition sub_ok :: "subscription \<Rightarrow> bool" where
  "sub_ok s \<longleftrightarrow> length (su_sub_id s) \<le> SUB_MAX_ID_LEN \<and> length (su_filters s) \<le> SUB_MAX_FILTERS"

definition sub_inv :: "sub_manager \<Rightarrow> bool" where
  "sub_inv m \<longleftrightarrow> length (sm_subs m) = SUB_MAX_TOTAL \<and> sm_active_count m = of_nat (count_if su_active (sm_subs m)) \<and>
     (\<forall>fd. conn_subs fd m \<le> SUB_MAX_PER_CONN) \<and> list_all sub_ok (sm_subs m) \<and> distinct (used keyed sub_key (sm_subs m))"

lemmas sub_sizes = SUB_MAX_TOTAL_def SUB_MAX_PER_CONN_def SUB_MAX_FILTERS_def SUB_MAX_ID_LEN_def

lemma sub_empty_simps [simp]:
  "su_active sub_empty = False" "keyed sub_empty = False" "sub_ok sub_empty" "sub_is fd sid sub_empty = False"
  by (simp_all add: sub_empty_def keyed_def sub_ok_def sub_is_def)

lemma distinct_filter_one: "distinct xs \<Longrightarrow> length (filter (\<lambda>k. k = a) xs) \<le> 1"
  by (induction xs) (auto simp: filter_empty_conv)

lemma list_all_update: "list_all P xs \<Longrightarrow> P y \<Longrightarrow> list_all P (xs[i := y])"
  by (auto simp: list_all_iff dest!: set_update_subset_insert[THEN subsetD])

lemma sub_inv_init: "sub_inv sub_manager_init"
  by (simp add: sub_inv_def sub_manager_init_def conn_subs_def list_all_iff)

lemma sub_inv_remove:
  assumes "sub_inv m"
  shows "sub_inv (snd (sub_manager_remove fd sid m))"
proof (cases "find_sub m fd sid")
  case (Some i)
  then have i: "i < length (sm_subs m)" "sub_is fd sid (sm_subs m ! i)" by (auto simp: find_sub_def dest: first_idx_SomeD)
  have c: "count_if su_active (sm_subs m) = Suc (count_if su_active ((sm_subs m)[i := sub_empty]))"
    using count_if_update[OF i(1), of su_active sub_empty] i(2) by (simp add: sub_is_def)
  have n: "conn_subs f (m\<lparr>sm_subs := (sm_subs m)[i := sub_empty], sm_active_count := k\<rparr>) \<le> conn_subs f m" for f k
    using count_if_update[OF i(1), of "\<lambda>s. su_active s \<and> su_conn_fd s = f" sub_empty] by (simp add: conn_subs_def)
  have d: "distinct (used keyed sub_key ((sm_subs m)[i := sub_empty]))"
    using used_free(1)[OF i(1), of keyed sub_empty sub_key] used_keep[OF i(1), of keyed sub_empty sub_key] assms
    by (cases "keyed (sm_subs m ! i)") (auto simp: sub_inv_def)
  show ?thesis using assms Some c d n
    by (auto simp: sub_inv_def sub_manager_remove_def clear_subscription_def list_all_update intro: order_trans)
qed (use assms in \<open>simp add: sub_manager_remove_def\<close>)

lemma sub_inv_remove_all:
  assumes "sub_inv m"
  shows "sub_inv (sub_manager_remove_all fd m)"
proof -
  let ?Q = "\<lambda>s. su_active s \<and> su_conn_fd s = fd"
  let ?xs = "map (\<lambda>s. if ?Q s then sub_empty else s) (sm_subs m)"
  have "count_if su_active (sm_subs m) = count_if ?Q (sm_subs m) + count_if su_active ?xs"
    using count_if_split[of su_active "sm_subs m" ?Q] count_if_sweep[of su_active sub_empty ?Q "sm_subs m"] by simp
  moreover have "count_if (\<lambda>s. su_active s \<and> su_conn_fd s = f) ?xs \<le> conn_subs f m" for f
    by (subst count_if_sweep) (auto simp: conn_subs_def count_if_split[of "\<lambda>s. su_active s \<and> su_conn_fd s = f" _ "\<lambda>s. \<not> ?Q s"])
  moreover have "distinct (used keyed sub_key ?xs)"
    using assms by (subst used_sweep) (auto simp: sub_inv_def intro: used_sub)
  moreover have "list_all sub_ok ?xs" using assms by (auto simp: sub_inv_def list_all_iff)
  ultimately show ?thesis
    using assms unfolding sub_inv_def sub_manager_remove_all_def clear_subscription_def conn_subs_def
    by (auto intro: order_trans)
qed

lemma sub_inv_add:
  assumes "sub_inv m"
  shows "sub_inv (snd (sub_manager_add fd sid filters m))"
proof -
  let ?fs = "map filter_copy (take SUB_MAX_FILTERS filters)"
  consider (old) i where "find_sub m fd sid = Some i"
    | (new) i where "find_sub m fd sid = None" "conn_subs fd m < SUB_MAX_PER_CONN" "sub_find_free_slot m = Some i"
    | (refused) "snd (sub_manager_add fd sid filters m) = m"
    by (cases "find_sub m fd sid"; cases "sub_find_free_slot m"; cases "SUB_MAX_PER_CONN \<le> conn_subs fd m") (auto simp: sub_manager_add_def Let_def not_le)
  then show ?thesis
  proof cases
    case (old i)
    then have i: "i < length (sm_subs m)" "sub_is fd sid (sm_subs m ! i)" by (auto simp: find_sub_def dest: first_idx_SomeD)
    let ?y = "(sm_subs m ! i)\<lparr>su_events_sent := 0, su_filters := ?fs\<rparr>"
    have y: "sub_ok ?y" "keyed ?y = keyed (sm_subs m ! i)" "sub_key ?y = sub_key (sm_subs m ! i)"
      using assms i(1) by (auto simp: sub_inv_def sub_ok_def list_all_length keyed_def sub_key_def)
    show ?thesis using assms old y i count_if_keep[OF i(1), where y = ?y]
      by (simp add: sub_inv_def sub_manager_add_def Let_def list_all_update conn_subs_def used_keep)
  next
    case (new i)
    then have i: "i < length (sm_subs m)" "\<not> su_active (sm_subs m ! i)"
      by (auto simp: sub_find_free_slot_def dest: first_idx_SomeD)
    define y where "y = \<lparr>su_sub_id = take SUB_MAX_ID_LEN sid, su_conn_fd = fd, su_filters = ?fs, su_events_sent = 0, su_active = True\<rparr>"
    have y: "sub_ok y" "su_active y" "su_conn_fd y = fd" by (simp_all add: y_def sub_ok_def)
    have c: "count_if su_active ((sm_subs m)[i := y]) = Suc (count_if su_active (sm_subs m))"
      using count_if_update[OF i(1), of su_active y] i(2) y by simp
    have n: "count_if (\<lambda>s. su_active s \<and> su_conn_fd s = f) ((sm_subs m)[i := y]) \<le> SUB_MAX_PER_CONN" for f
      using count_if_update[OF i(1), of "\<lambda>s. su_active s \<and> su_conn_fd s = f" y] i(2) y new(2) assms
      by (cases "f = fd") (auto simp: sub_inv_def conn_subs_def)
    have "distinct (used keyed sub_key ((sm_subs m)[i := y]))"
    proof (cases "length sid < SUB_MAX_ID_LEN")
      case True
      then have "keyed y" "sub_key y = (fd, sid)" by (simp_all add: y_def keyed_def sub_key_def)
      moreover have "(fd, sid) \<notin> set (used keyed sub_key (sm_subs m))"
        using new(1) by (auto simp: find_sub_def first_idx_None_iff used_def sub_is_def sub_key_def keyed_def)
      moreover have "\<not> keyed (sm_subs m ! i)" using i(2) by (simp add: keyed_def)
      ultimately show ?thesis using used_fill(1)[OF i(1), of keyed y sub_key] assms by (simp add: sub_inv_def)
    next
      case False
      then have "\<not> keyed y" "\<not> keyed (sm_subs m ! i)" using i(2) by (simp_all add: y_def keyed_def)
      then show ?thesis using used_keep[OF i(1), of keyed y sub_key] assms by (simp add: sub_inv_def)
    qed
    then show ?thesis using assms new c n y
      by (simp add: sub_inv_def sub_manager_add_def Let_def list_all_update conn_subs_def y_def[symmetric])
  qed (use assms in simp)
qed

datatype sub_op = Sub_Add int string "sub_filter list" | Sub_Remove int string | Sub_Remove_All int

primrec sub_step :: "sub_op \<Rightarrow> sub_manager \<Rightarrow> sub_manager" where
  "sub_step (Sub_Add fd sid fs) m = snd (sub_manager_add fd sid fs m)"
| "sub_step (Sub_Remove fd sid) m = snd (sub_manager_remove fd sid m)"
| "sub_step (Sub_Remove_All fd) m = sub_manager_remove_all fd m"

definition sub_run :: "sub_op list \<Rightarrow> sub_manager" where
  "sub_run ops = fold sub_step ops sub_manager_init"

lemma sub_inv_step: "sub_inv m \<Longrightarrow> sub_inv (sub_step op m)"
  by (cases op) (simp_all add: sub_inv_add sub_inv_remove sub_inv_remove_all)

lemma sub_inv_run: "sub_inv (sub_run ops)"
proof -
  have "sub_inv m \<Longrightarrow> sub_inv (fold sub_step ops m)" for m
    by (induction ops arbitrary: m) (simp_all add: sub_inv_step)
  then show ?thesis by (simp add: sub_run_def sub_inv_init)
qed

text \<open>
  The subscription table keeps its bounds: after any sequence of additions, removals and closed
  connections the active count is the number of slots in use, no connection holds more than eight
  subscriptions or four filters in one, every stored id fits its field, and a connection has at most
  one subscription with a given id below 64 characters.
\<close>

theorem sub_table_bounds:
  "unat (sm_active_count (sub_run ops)) = count_if su_active (sm_subs (sub_run ops)) \<and>
   conn_subs fd (sub_run ops) \<le> 8 \<and> unat (sub_manager_count fd (sub_run ops)) = conn_subs fd (sub_run ops) \<and>
   list_all (\<lambda>s. length (su_sub_id s) \<le> 64 \<and> length (su_filters s) \<le> 4) (sm_subs (sub_run ops)) \<and>
   (length sid < 64 \<longrightarrow> count_if (sub_is fd sid) (sm_subs (sub_run ops)) \<le> 1)"
proof -
  define m where "m = sub_run ops"
  have inv: "sub_inv m" unfolding m_def by (rule sub_inv_run)
  then have l: "length (sm_subs m) = 64" by (simp add: sub_inv_def sub_sizes)
  have cn: "conn_subs fd m \<le> 8" using inv by (simp add: sub_inv_def sub_sizes)
  have "count_if su_active (sm_subs m) \<le> 64" using count_if_le[of su_active "sm_subs m"] l by simp
  then have "unat (sm_active_count m) = count_if su_active (sm_subs m)"
    using inv by (simp add: sub_inv_def unat_of_nat)
  moreover have "unat (sub_manager_count fd m) = conn_subs fd m" using cn by (simp add: sub_manager_count_def unat_of_nat)
  moreover have "list_all (\<lambda>s. length (su_sub_id s) \<le> 64 \<and> length (su_filters s) \<le> 4) (sm_subs m)"
    using inv by (auto simp: sub_inv_def sub_sizes sub_ok_def elim: list.pred_mono_strong)
  moreover have "count_if (sub_is fd sid) (sm_subs m) \<le> 1" if "length sid < 64"
  proof -
    have "used (sub_is fd sid) sub_key (sm_subs m) = filter (\<lambda>k. k = (fd, sid)) (used keyed sub_key (sm_subs m))"
      using that by (induction "sm_subs m") (auto simp: used_def sub_is_def sub_key_def keyed_def sub_sizes filter_map o_def intro!: arg_cong[of _ _ "map sub_key"] filter_cong)
    moreover have "distinct (used keyed sub_key (sm_subs m))" using inv by (simp add: sub_inv_def)
    ultimately show ?thesis using distinct_filter_one[of _ "(fd, sid)"] by (metis length_used)
  qed
  ultimately show ?thesis using cn unfolding m_def by blast
qed

theorem sub_table_bounds_witness:
  "count_if (sub_is 3 ''a'') (sm_subs (sub_run [Sub_Add 3 ''a'' [], Sub_Add 3 ''a'' [], Sub_Add 3 ''b'' []])) \<le> 1"
  using sub_table_bounds[of "[Sub_Add 3 ''a'' [], Sub_Add 3 ''a'' [], Sub_Add 3 ''b'' []]" 3 "''a''"] by simp

lemma in_match_iff:
  "(fd, sid) \<in> set (sub_manager_match_json m k pk t) \<longleftrightarrow>
     (\<exists>s \<in> set (sm_subs m). sub_is fd sid s \<and> (\<exists>f \<in> set (su_filters s). filter_matches_event f k pk t))"
  by (auto simp: sub_manager_match_json_def sub_is_def list_ex_iff split: if_splits)

lemma removed_not_found:
  assumes "sub_inv m" "length sid < SUB_MAX_ID_LEN" "s \<in> set (sm_subs (snd (sub_manager_remove fd sid m)))"
  shows "\<not> sub_is fd sid s"
proof (cases "find_sub m fd sid")
  case None
  then have "s \<in> set (sm_subs m)" using assms(3) by (simp add: sub_manager_remove_def)
  then show ?thesis using None by (simp add: find_sub_def first_idx_None_iff)
next
  case (Some i)
  then have i: "i < length (sm_subs m)" "sub_is fd sid (sm_subs m ! i)" by (auto simp: find_sub_def dest: first_idx_SomeD)
  show ?thesis
  proof
    assume k: "sub_is fd sid s"
    obtain j where j: "j < length (sm_subs m)" "s = (sm_subs m)[i := sub_empty] ! j"
      using assms(3) Some by (auto simp: sub_manager_remove_def clear_subscription_def in_set_conv_nth)
    then have "j \<noteq> i" "s = sm_subs m ! j" using k i by (auto simp: nth_list_update split: if_splits)
    moreover have "i = j"
      using assms(1,2) i j k calculation
      by (intro used_distinct_index[of keyed sub_key "sm_subs m"]) (auto simp: sub_inv_def sub_is_def keyed_def sub_key_def)
    ultimately show False by simp
  qed
qed

text \<open>
  Closing a subscription works for short ids only: after any history, closing an id of fewer
  than 64 characters ends its deliveries for good, until it is opened again; but a subscription opened
  with a longer id is stored under its first 64 characters, so closing it reports that it does not
  exist and events go on being delivered.
\<close>

theorem sub_close_by_length:
  assumes "sub_manager_add fd sid filters (sub_run ops) = (SUB_OK, m)"
    and "list_ex (\<lambda>f. filter_matches_event f k pk t) (map filter_copy (take 4 filters))"
  shows "(fd, take 64 sid) \<in> set (sub_manager_match_json m k pk t) \<and>
    (length sid < 64 \<longrightarrow> (fd, sid) \<notin> set (sub_manager_match_json (snd (sub_manager_remove fd sid m)) k pk t)) \<and>
    (64 < length sid \<longrightarrow> sub_manager_remove fd sid m = (SUB_ERR_NOT_FOUND, m))"
proof (intro conjI impI)
  have inv: "sub_inv (sub_run ops)" by (rule sub_inv_run)
  have m: "sub_inv m" using sub_inv_add[OF inv, of fd sid filters] assms(1) by simp
  have ok: "length (su_sub_id s) \<le> 64" if "s \<in> set (sm_subs n)" "sub_inv n" for s n
    using that by (auto simp: sub_inv_def list_all_iff sub_ok_def sub_sizes)
  show "(fd, take 64 sid) \<in> set (sub_manager_match_json m k pk t)"
  proof (cases "find_sub (sub_run ops) fd sid")
    case None
    then obtain i where "sub_find_free_slot (sub_run ops) = Some i"
      "m = (sub_run ops)\<lparr>sm_subs := (sm_subs (sub_run ops))[i := \<lparr>su_sub_id = take SUB_MAX_ID_LEN sid, su_conn_fd = fd,
         su_filters = map filter_copy (take SUB_MAX_FILTERS filters), su_events_sent = 0, su_active = True\<rparr>],
         sm_active_count := sm_active_count (sub_run ops) + 1\<rparr>"
      using assms(1) by (auto simp: sub_manager_add_def Let_def split: if_splits option.splits)
    moreover have "i < length (sm_subs (sub_run ops))"
      using calculation(1) by (auto simp: sub_find_free_slot_def dest: first_idx_SomeD)
    ultimately show ?thesis using assms(2)
      by (auto simp: in_match_iff sub_is_def list_ex_iff sub_sizes intro!: bexI[OF _ set_update_memI])
  next
    case (Some i)
    then have i: "i < length (sm_subs (sub_run ops))" "sub_is fd sid (sm_subs (sub_run ops) ! i)"
      by (auto simp: find_sub_def dest: first_idx_SomeD)
    moreover have "m = (sub_run ops)\<lparr>sm_subs := (sm_subs (sub_run ops))[i := (sm_subs (sub_run ops) ! i)
        \<lparr>su_events_sent := 0, su_filters := map filter_copy (take SUB_MAX_FILTERS filters)\<rparr>]\<rparr>"
      using Some assms(1) by (simp add: sub_manager_add_def Let_def)
    moreover have "take 64 sid = sid" using ok[OF nth_mem[OF i(1)] inv] i(2) by (simp add: sub_is_def)
    ultimately show ?thesis using assms(2)
      by (auto simp: in_match_iff sub_is_def list_ex_iff sub_sizes intro!: bexI[OF _ set_update_memI])
  qed
  show "length sid < 64 \<Longrightarrow> (fd, sid) \<notin> set (sub_manager_match_json (snd (sub_manager_remove fd sid m)) k pk t)"
    using removed_not_found[OF m] by (auto simp: in_match_iff sub_sizes)
  show "sub_manager_remove fd sid m = (SUB_ERR_NOT_FOUND, m)" if "64 < length sid"
  proof -
    have "find_sub m fd sid = None"
      using ok[OF _ m] that by (force simp: find_sub_def first_idx_None_iff sub_is_def)
    then show ?thesis by (simp add: sub_manager_remove_def)
  qed
qed

definition any_filter :: sub_filter where
  "any_filter = \<lparr>sf_ids = [], sf_authors = [], sf_kinds = [], sf_e_tags = [], sf_p_tags = [], sf_since = 0, sf_until = 0, sf_limit = 0\<rparr>"

theorem sub_close_by_length_witness:
  "\<exists>m. sub_manager_add 3 (replicate 65 CHR ''a'') [any_filter] (sub_run []) = (SUB_OK, m) \<and>
     sub_manager_remove 3 (replicate 65 CHR ''a'') m = (SUB_ERR_NOT_FOUND, m) \<and>
     (3, replicate 64 CHR ''a'') \<in> set (sub_manager_match_json m 1 [] 0)"
proof -
  let ?r = "sub_manager_add 3 (replicate 65 CHR ''a'') [any_filter] (sub_run [])"
  have "fst ?r = SUB_OK" by code_simp
  then have r: "?r = (SUB_OK, snd ?r)" by (simp add: prod_eq_iff)
  moreover have "list_ex (\<lambda>f. filter_matches_event f 1 [] 0) (map filter_copy (take 4 [any_filter]))" by code_simp
  ultimately show ?thesis using sub_close_by_length[OF r, of 1 "[]" 0] by (intro exI[of _ "snd ?r"]) simp
qed

text \<open>What the protocol (NIP-01) asks of a filter: the conditions on the id and the tags of an event too.\<close>

definition nip01_matches :: "sub_filter \<Rightarrow> string \<Rightarrow> string list \<Rightarrow> string list \<Rightarrow> int \<Rightarrow> string \<Rightarrow> u64 \<Rightarrow> bool" where
  "nip01_matches f event_id e_refs p_refs k pk t \<longleftrightarrow>
     (sf_ids f = [] \<or> (\<exists>i \<in> set (sf_ids f). take (length i) event_id = i)) \<and>
     (sf_authors f = [] \<or> (\<exists>a \<in> set (sf_authors f). take (length a) pk = a)) \<and>
     (sf_kinds f = [] \<or> k \<in> set (sf_kinds f)) \<and>
     (sf_e_tags f = [] \<or> set (sf_e_tags f) \<inter> set e_refs \<noteq> {}) \<and>
     (sf_p_tags f = [] \<or> set (sf_p_tags f) \<inter> set p_refs \<noteq> {}) \<and>
     (sf_since f \<le> 0 \<or> sf_since f \<le> sint t) \<and> (sf_until f \<le> 0 \<or> sint t \<le> sf_until f)"

lemma hex_prefix_match_iff: "hex_prefix_match a s \<longleftrightarrow> take (length a) s = a"
  by (auto simp: hex_prefix_match_def)


section \<open>The connection table\<close>

definition ws_fds :: "ws_server \<Rightarrow> int set" where
  "ws_fds w = set (used wc_active wc_fd (ws_connections w))"

definition ws_inv :: "ws_server \<Rightarrow> bool" where
  "ws_inv w \<longleftrightarrow> length (ws_connections w) = WS_MAX_CONNECTIONS \<and> distinct (used wc_active wc_fd (ws_connections w)) \<and>
     ws_connection_count w = of_nat (count_if wc_active (ws_connections w))"

lemma ws_empty_inactive [simp]: "wc_active ws_empty = False"
  by (simp add: ws_empty_def)

lemma ws_inv_init: "ws_inv (snd (ws_server_init started w)) \<or> ws_running w"
  by (simp add: ws_server_init_def ws_inv_def)

lemma ws_inv_stop: "ws_inv (ws_server_stop w)" "ws_fds (ws_server_stop w) = {}"
  by (simp_all add: ws_server_stop_def ws_inv_def ws_fds_def)

lemma ws_on_open_spec:
  assumes "ws_inv w" "fd \<notin> ws_fds w"
  shows "ws_inv (snd (ws_on_open now peer fd w))"
    "fst (ws_on_open now peer fd w) \<longleftrightarrow> card (ws_fds w) < WS_MAX_CONNECTIONS"
    "ws_fds (snd (ws_on_open now peer fd w)) = (if card (ws_fds w) < WS_MAX_CONNECTIONS then insert fd (ws_fds w) else ws_fds w)"
proof -
  let ?cs = "ws_connections w" and ?n = "count_if wc_active (ws_connections w)"
  have n: "?n \<le> 8" "card (ws_fds w) = ?n" "length ?cs = 8"
    using assms(1) count_if_le[of wc_active ?cs] by (auto simp: ws_inv_def ws_fds_def distinct_card length_used WS_MAX_CONNECTIONS_def)
  have c: "(of_nat WS_MAX_CONNECTIONS :: u8) \<le> ws_connection_count w \<longleftrightarrow> 8 \<le> ?n"
    using assms(1) n(1) by (simp add: ws_inv_def word_le_nat_alt unat_of_nat WS_MAX_CONNECTIONS_def)
  have r: "ws_inv (snd (ws_on_open now peer fd w)) \<and> (fst (ws_on_open now peer fd w) \<longleftrightarrow> ?n < 8) \<and>
    ws_fds (snd (ws_on_open now peer fd w)) = (if ?n < 8 then insert fd (ws_fds w) else ws_fds w)"
  proof (cases "?n < 8")
    case False
    then show ?thesis using c assms(1) by (simp add: ws_on_open_def)
  next
    case True
    then obtain i where i: "ws_find_free_slot w = Some i"
      using n count_if_all[of wc_active ?cs] unfolding ws_find_free_slot_def
      by (metis first_idx_None_iff less_irrefl not_None_eq)
    then have j: "i < length ?cs" "\<not> wc_active (?cs ! i)" by (auto simp: ws_find_free_slot_def dest: first_idx_SomeD)
    define y where "y = \<lparr>wc_fd = fd, wc_active = True, wc_connected_at = now, wc_last_activity = now, wc_remote_ip = get_client_ip peer\<rparr>"
    have y: "wc_active y" "wc_fd y = fd" by (simp_all add: y_def)
    have u: "distinct (used wc_active wc_fd (?cs[i := y]))" "set (used wc_active wc_fd (?cs[i := y])) = insert fd (ws_fds w)"
      using used_fill[of i ?cs wc_active y wc_fd] j y assms by (auto simp: ws_fds_def ws_inv_def)
    have "count_if wc_active (?cs[i := y]) = Suc ?n" using count_if_update[OF j(1), of wc_active y] j y by simp
    then show ?thesis using True c i u assms(1) by (simp add: ws_on_open_def y_def[symmetric] ws_inv_def ws_fds_def)
  qed
  then show "ws_inv (snd (ws_on_open now peer fd w))"
    "fst (ws_on_open now peer fd w) \<longleftrightarrow> card (ws_fds w) < WS_MAX_CONNECTIONS"
    "ws_fds (snd (ws_on_open now peer fd w)) = (if card (ws_fds w) < WS_MAX_CONNECTIONS then insert fd (ws_fds w) else ws_fds w)"
    using n(2) by (simp_all add: WS_MAX_CONNECTIONS_def)
qed

lemma ws_on_close_spec:
  assumes "ws_inv w"
  shows "ws_inv (ws_on_close fd w)" "ws_fds (ws_on_close fd w) = ws_fds w - {fd}"
proof -
  have "ws_inv (ws_on_close fd w) \<and> ws_fds (ws_on_close fd w) = ws_fds w - {fd}"
  proof (cases "find_connection_by_fd w fd")
    case None
    then have "ws_on_close fd w = w" by (simp add: ws_on_close_def)
    moreover have "fd \<notin> ws_fds w"
      using None by (auto simp: find_connection_by_fd_def first_idx_None_iff ws_fds_def used_def conn_is_def)
    ultimately show ?thesis using assms by simp
  next
    case (Some i)
    let ?cs = "ws_connections w"
    have j: "i < length ?cs" "wc_active (?cs ! i)" "wc_fd (?cs ! i) = fd"
      using Some by (auto simp: find_connection_by_fd_def conn_is_def dest: first_idx_SomeD)
    have "count_if wc_active ?cs = Suc (count_if wc_active (?cs[i := ws_empty]))"
      using count_if_update[OF j(1), of wc_active ws_empty] j by simp
    then show ?thesis using used_free[of i ?cs wc_active ws_empty wc_fd] j Some assms
      by (auto simp: ws_on_close_def ws_inv_def ws_fds_def)
  qed
  then show "ws_inv (ws_on_close fd w)" "ws_fds (ws_on_close fd w) = ws_fds w - {fd}" by simp_all
qed

lemma update_activity_spec: "ws_inv w \<Longrightarrow> ws_inv (update_connection_activity now fd w)"
  "ws_fds (update_connection_activity now fd w) = ws_fds w"
  by (auto simp: update_connection_activity_def ws_inv_def ws_fds_def find_connection_by_fd_def used_keep count_if_keep
      dest!: first_idx_SomeD(1) split: option.split)

end
