(* ===== verification/TG_Storage.thy ===== *)
theory TG_Storage
  imports TG_Json TG_HexText
begin

text \<open>
  The event store of the Nostr relay: the hexadecimal readers of
  \<^verbatim>\<open>components/wisp_relay/relay_types.c\<close> and the storage engine
  (\<^verbatim>\<open>components/wisp_relay/storage_engine.c\<close>), which keeps one file per event and an index in memory
  that is copied to non-volatile storage now and then. The file system is the map from paths to
  contents; whether a file can be created and what \<open>fwrite\<close> leaves in it are parameters, as is the
  non-volatile storage (NVS) library. Every operation runs under the engine's mutex. The first
  \<open>index_count\<close> slots of the index array are the list \<open>sg_index\<close>; allocation failures other than the
  one for external RAM are not modelled.
\<close>

unbundle bit_operations_syntax

section \<open>Hexadecimal text\<close>

text \<open>
  The loop of \<open>relay_hex_to_bytes\<close> over the bytes still to fill. Bytes written before an error stay. The
  position moves on by two for every byte, so after a single last character the next read starts behind
  the end of the text.
\<close>

fun hex_scan :: "string \<Rightarrow> u8 list \<Rightarrow> (bool \<times> u8 list) cres" where
  "hex_scan s [] = Ok (True, [])"
| "hex_scan s (x # out) =
     (case scan_2x s of
        None \<Rightarrow> Ok (False, x # out)
      | Some v \<Rightarrow>
          (case s of
             a # b # rest \<Rightarrow> cbind (hex_scan rest out) (\<lambda>(ok, bs). Ok (ok, ucast v # bs))
           | _ \<Rightarrow> if out = [] then Ok (True, [ucast v]) else Undef))"

definition relay_hex_to_bytes :: "string \<Rightarrow> nat \<Rightarrow> u8 list \<Rightarrow> (bool \<times> u8 list) cres" where
  "relay_hex_to_bytes hex hex_len out = (if hex_len \<noteq> length out * 2 then Ok (False, out) else hex_scan hex out)"

definition relay_bytes_to_hex :: "u8 list \<Rightarrow> string" where
  "relay_bytes_to_hex bs = concat (map hex2 bs)"

section \<open>Data\<close>

datatype storage_error = STORAGE_OK | STORAGE_ERR_NOT_INITIALIZED | STORAGE_ERR_FULL | STORAGE_ERR_DUPLICATE
  | STORAGE_ERR_NOT_FOUND | STORAGE_ERR_IO | STORAGE_ERR_NO_MEM | STORAGE_ERR_SERIALIZE

definition STORAGE_MAX_EVENT_SIZE :: nat where
  "STORAGE_MAX_EVENT_SIZE = 8192"

definition STORAGE_INDEX_ENTRIES :: nat where
  "STORAGE_INDEX_ENTRIES = 5000"

record storage_entry =
  ie_event_id :: "u8 list"
  ie_created_at :: u32
  ie_expires_at :: u32
  ie_file_index :: u32
  ie_kind :: u16
  ie_pubkey_prefix :: "u8 list"
  ie_flags :: u8

text \<open>The calls of the NVS library the engine makes; \<open>'n\<close> is the state of the library.\<close>

datatype nvs_open_result = NVS_Opened | NVS_Not_Found | NVS_Error

record 'n nvs_ops =
  nvs_open_rw :: "'n \<Rightarrow> bool"
  nvs_open_ro :: "'n \<Rightarrow> nvs_open_result"
  nvs_set_u16 :: "string \<Rightarrow> u16 \<Rightarrow> 'n \<Rightarrow> 'n"
  nvs_get_u16 :: "string \<Rightarrow> 'n \<Rightarrow> u16 option"
  nvs_set_u32 :: "string \<Rightarrow> u32 \<Rightarrow> 'n \<Rightarrow> 'n"
  nvs_get_u32 :: "string \<Rightarrow> 'n \<Rightarrow> u32 option"
  nvs_set_blob :: "string \<Rightarrow> storage_entry list \<Rightarrow> 'n \<Rightarrow> 'n"
  nvs_get_blob :: "string \<Rightarrow> nat \<Rightarrow> 'n \<Rightarrow> storage_entry list option"

record 'n storage_engine =
  sg_index :: "storage_entry list"
  sg_max_index_entries :: nat
  sg_next_file_index :: u32
  sg_initialized :: bool
  sg_default_ttl_sec :: u32
  sg_files :: "string \<Rightarrow> string option"
  sg_nvs :: 'n

text \<open>What an operation finds outside: the wall clock, which files can be created, what \<open>fwrite\<close> stores.\<close>

record store_env =
  sv_time :: u32
  sv_can_create :: "string \<Rightarrow> bool"
  sv_fwrite :: "string \<Rightarrow> string"

definition ie_deleted :: "storage_entry \<Rightarrow> bool" where
  "ie_deleted e \<longleftrightarrow> ie_flags e AND 1 \<noteq> 0"

definition ie_mark_deleted :: "storage_entry \<Rightarrow> storage_entry" where
  "ie_mark_deleted e = e\<lparr>ie_flags := ie_flags e OR 1\<rparr>"

definition ie_expired :: "u32 \<Rightarrow> storage_entry \<Rightarrow> bool" where
  "ie_expired now e \<longleftrightarrow> 0 < ie_expires_at e \<and> ie_expires_at e < now"

section \<open>Paths and the saved index\<close>

definition get_event_path :: "u8 list \<Rightarrow> u32 \<Rightarrow> string" where
  "get_event_path event_id file_index =
     ''/littlefs/events/'' @ hex2 (event_id ! 0) @ ''/'' @ concat (map hex2 (take 16 event_id)) @ ''_'' @ hex8 file_index @ ''.json''"

definition entry_path :: "storage_entry \<Rightarrow> string" where
  "entry_path e = get_event_path (ie_event_id e) (ie_file_index e)"

definition chunk_key :: "nat \<Rightarrow> string" where
  "chunk_key k = ''idx_'' @ dec_of_nat k"

text \<open>Chunk \<open>k\<close> of the index holds the entries from \<open>50 k\<close> on, at most 50.\<close>

definition chunk_count :: "nat \<Rightarrow> nat" where
  "chunk_count n = (n + 49) div 50"

definition save_index_to_nvs :: "'n nvs_ops \<Rightarrow> 'n storage_engine \<Rightarrow> 'n storage_engine" where
  "save_index_to_nvs ops sg =
     (if \<not> nvs_open_rw ops (sg_nvs sg) then sg
      else
        (let n1 = nvs_set_u16 ops ''count'' (of_nat (length (sg_index sg))) (sg_nvs sg);
             n2 = nvs_set_u32 ops ''next_idx'' (sg_next_file_index sg) n1
         in sg\<lparr>sg_nvs := fold (\<lambda>k. nvs_set_blob ops (chunk_key k) (take 50 (drop (50 * k) (sg_index sg))))
                          [0..<chunk_count (length (sg_index sg))] n2\<rparr>))"

definition zero_entry :: storage_entry where
  "zero_entry = \<lparr>ie_event_id = replicate 32 0, ie_created_at = 0, ie_expires_at = 0, ie_file_index = 0, ie_kind = 0,
     ie_pubkey_prefix = replicate 4 0, ie_flags = 0\<rparr>"

text \<open>One chunk read into the zeroed index array; a chunk that cannot be read leaves zeros.\<close>

definition load_chunk :: "'n nvs_ops \<Rightarrow> 'n \<Rightarrow> nat \<Rightarrow> nat \<Rightarrow> storage_entry list" where
  "load_chunk ops nv n k =
     (let entries = min 50 (n - 50 * k);
          blob = (case nvs_get_blob ops (chunk_key k) entries nv of Some es \<Rightarrow> take entries es | None \<Rightarrow> [])
      in blob @ replicate (entries - length blob) zero_entry)"

text \<open>\<open>None\<close> is an I/O error; else the index and the next file number.\<close>

definition load_index_from_nvs :: "'n nvs_ops \<Rightarrow> nat \<Rightarrow> 'n \<Rightarrow> (storage_entry list \<times> u32) option" where
  "load_index_from_nvs ops max_entries nv =
     (case nvs_open_ro ops nv of
        NVS_Not_Found \<Rightarrow> Some ([], 0)
      | NVS_Error \<Rightarrow> None
      | NVS_Opened \<Rightarrow>
          (case nvs_get_u16 ops ''count'' nv of
             None \<Rightarrow> None
           | Some c \<Rightarrow>
               (let n = min (unat c) max_entries in
                case nvs_get_u32 ops ''next_idx'' nv of
                  None \<Rightarrow> None
                | Some nx \<Rightarrow> Some (concat (map (load_chunk ops nv n) [0..<chunk_count n]), nx))))"

text \<open>\<open>psram\<close>: external RAM could be allocated; \<open>mounted\<close>: the file system could be mounted.\<close>

definition storage_init :: "'n nvs_ops \<Rightarrow> bool \<Rightarrow> bool \<Rightarrow> u32 \<Rightarrow> (string \<Rightarrow> string option) \<Rightarrow> 'n \<Rightarrow> 'n storage_engine option" where
  "storage_init ops psram mounted default_ttl_sec files nv =
     (if \<not> mounted then None
      else
        (let mx = (if psram then STORAGE_INDEX_ENTRIES else 1000);
             (idx, nx) = (case load_index_from_nvs ops mx nv of Some r \<Rightarrow> r | None \<Rightarrow> ([], 0))
         in Some \<lparr>sg_index = idx, sg_max_index_entries = mx, sg_next_file_index = nx, sg_initialized = True,
                  sg_default_ttl_sec = default_ttl_sec, sg_files = files, sg_nvs = nv\<rparr>))"

definition storage_destroy :: "'n nvs_ops \<Rightarrow> 'n storage_engine \<Rightarrow> 'n storage_engine" where
  "storage_destroy ops sg = (if \<not> sg_initialized sg then sg else (save_index_to_nvs ops sg)\<lparr>sg_index := [], sg_initialized := False\<rparr>)"

section \<open>Operations\<close>

definition find_index_entry :: "'n storage_engine \<Rightarrow> u8 list \<Rightarrow> nat option" where
  "find_index_entry sg event_id = first_idx (\<lambda>e. ie_event_id e = event_id \<and> \<not> ie_deleted e) (sg_index sg)"

text \<open>The fields are read from the text of the event: each from the first occurrence of its key.\<close>

definition meta_hex :: "string \<Rightarrow> string \<Rightarrow> u8 list cres" where
  "meta_hex json key =
     (case c_strstr json key of
        None \<Rightarrow> Ok (replicate 32 0)
      | Some i \<Rightarrow> cbind (relay_hex_to_bytes (drop (i + length key) json) 64 (replicate 32 0)) (\<lambda>(ok, bs). Ok bs))"

definition parse_event_meta :: "string \<Rightarrow> (u8 list \<times> u8 list \<times> u64 \<times> int) cres" where
  "parse_event_meta json =
     cbind (meta_hex json ''\"id\":\"'') (\<lambda>i.
     cbind (meta_hex json ''\"pubkey\":\"'') (\<lambda>pk.
       Ok (i, pk,
           (case c_strstr json ''\"created_at\":'' of Some p \<Rightarrow> c_strtoull 10 (drop (p + 13) json) | None \<Rightarrow> 0),
           (case c_strstr json ''\"kind\":'' of Some p \<Rightarrow> c_atoi (drop (p + 7) json) | None \<Rightarrow> 0))))"

definition storage_save_event_json ::
  "'n nvs_ops \<Rightarrow> store_env \<Rightarrow> string \<Rightarrow> 'n storage_engine \<Rightarrow> (storage_error \<times> 'n storage_engine) cres" where
  "storage_save_event_json ops env json sg =
     (if \<not> sg_initialized sg then Ok (STORAGE_ERR_NOT_INITIALIZED, sg)
      else cbind (parse_event_meta json) (\<lambda>(i, pk, created_at, kind).
        if find_index_entry sg i \<noteq> None then Ok (STORAGE_ERR_DUPLICATE, sg)
        else if sg_max_index_entries sg \<le> length (sg_index sg) then Ok (STORAGE_ERR_FULL, sg)
        else
          (let path = get_event_path i (sg_next_file_index sg) in
           if \<not> sv_can_create env path then Ok (STORAGE_ERR_IO, sg)
           else
             (let e = \<lparr>ie_event_id = i, ie_created_at = ucast created_at, ie_expires_at = sv_time env + sg_default_ttl_sec sg,
                       ie_file_index = sg_next_file_index sg, ie_kind = of_int kind, ie_pubkey_prefix = take 4 pk, ie_flags = 0\<rparr>;
                  sg1 = sg\<lparr>sg_files := (sg_files sg)(path \<mapsto> sv_fwrite env json), sg_index := sg_index sg @ [e],
                           sg_next_file_index := sg_next_file_index sg + 1\<rparr>
              in Ok (STORAGE_OK, if length (sg_index sg1) mod 10 = 0 then save_index_to_nvs ops sg1 else sg1)))))"

definition storage_event_exists :: "'n storage_engine \<Rightarrow> u8 list \<Rightarrow> bool" where
  "storage_event_exists sg event_id = (sg_initialized sg \<and> find_index_entry sg event_id \<noteq> None)"

text \<open>The event text a query takes from an entry, if the entry passes all tests and its file can be read.\<close>

definition query_entry :: "u32 \<Rightarrow> int \<Rightarrow> u8 list option \<Rightarrow> (string \<Rightarrow> string option) \<Rightarrow> storage_entry \<Rightarrow> string option" where
  "query_entry now kind author files e =
     (if ie_deleted e then None
      else if ie_expired now e then None
      else if 0 < kind \<and> uint (ie_kind e) \<noteq> kind then None
      else if author \<noteq> None \<and> author \<noteq> Some (ie_pubkey_prefix e) then None
      else (case files (entry_path e) of
              None \<Rightarrow> None
            | Some c \<Rightarrow> if c = [] \<or> STORAGE_MAX_EVENT_SIZE < length c then None else Some c))"

fun query_loop :: "(storage_entry \<Rightarrow> string option) \<Rightarrow> nat \<Rightarrow> storage_entry list \<Rightarrow> string list" where
  "query_loop rd 0 es = []"
| "query_loop rd (Suc n) [] = []"
| "query_loop rd (Suc n) (e # es) = (case rd e of None \<Rightarrow> query_loop rd (Suc n) es | Some c \<Rightarrow> c # query_loop rd n es)"

definition storage_query_events_json ::
  "u32 \<Rightarrow> int \<Rightarrow> string option \<Rightarrow> int \<Rightarrow> 'n storage_engine \<Rightarrow> (storage_error \<times> string list) cres" where
  "storage_query_events_json now kind author_hex limit sg =
     (if \<not> sg_initialized sg then Ok (STORAGE_ERR_NOT_INITIALIZED, [])
      else
        (let n = (if 500 < limit then 500 else if limit \<le> 0 then 100 else nat limit) in
         cbind (case author_hex of
                  Some a \<Rightarrow> if 8 \<le> length a
                    then cbind (relay_hex_to_bytes a 8 (replicate 4 0)) (\<lambda>(ok, bs). Ok (Some bs)) else Ok None
                | None \<Rightarrow> Ok None) (\<lambda>author.
           Ok (STORAGE_OK, query_loop (query_entry now kind author (sg_files sg)) n (rev (sg_index sg))))))"

definition storage_delete_event :: "'n nvs_ops \<Rightarrow> u8 list \<Rightarrow> 'n storage_engine \<Rightarrow> storage_error \<times> 'n storage_engine" where
  "storage_delete_event ops event_id sg =
     (if \<not> sg_initialized sg then (STORAGE_ERR_NOT_INITIALIZED, sg)
      else
        (case find_index_entry sg event_id of
           None \<Rightarrow> (STORAGE_ERR_NOT_FOUND, sg)
         | Some i \<Rightarrow>
             (let e = sg_index sg ! i in
              (STORAGE_OK, save_index_to_nvs ops
                 (sg\<lparr>sg_files := (sg_files sg)(entry_path e := None), sg_index := (sg_index sg)[i := ie_mark_deleted e]\<rparr>)))))"

definition purged :: "u32 \<Rightarrow> storage_entry \<Rightarrow> bool" where
  "purged now e \<longleftrightarrow> \<not> ie_deleted e \<and> ie_expired now e"

definition storage_purge_expired :: "'n nvs_ops \<Rightarrow> u32 \<Rightarrow> 'n storage_engine \<Rightarrow> nat \<times> 'n storage_engine" where
  "storage_purge_expired ops now sg =
     (if \<not> sg_initialized sg then (0, sg)
      else
        (let n = count_if (purged now) (sg_index sg);
             sg1 = sg\<lparr>sg_files := fold (\<lambda>e fs. if purged now e then fs(entry_path e := None) else fs) (sg_index sg) (sg_files sg),
                      sg_index := map (\<lambda>e. if purged now e then ie_mark_deleted e else e) (sg_index sg)\<rparr>
         in (n, if 0 < n then save_index_to_nvs ops sg1 else sg1)))"

text \<open>The copying loop of the compaction: \<open>k\<close> entries are still to read; the result is the number kept.\<close>

primrec compact_loop :: "nat \<Rightarrow> nat \<Rightarrow> nat \<Rightarrow> storage_entry list \<Rightarrow> nat \<times> storage_entry list" where
  "compact_loop 0 read_idx write_idx arr = (write_idx, arr)"
| "compact_loop (Suc k) read_idx write_idx arr =
     (if \<not> ie_deleted (arr ! read_idx)
      then compact_loop k (read_idx + 1) (write_idx + 1)
             (if write_idx \<noteq> read_idx then arr[write_idx := arr ! read_idx] else arr)
      else compact_loop k (read_idx + 1) write_idx arr)"

definition storage_compact_index :: "'n nvs_ops \<Rightarrow> 'n storage_engine \<Rightarrow> nat \<times> 'n storage_engine" where
  "storage_compact_index ops sg =
     (if \<not> sg_initialized sg then (0, sg)
      else
        (case compact_loop (length (sg_index sg)) 0 0 (sg_index sg) of (write_idx, arr) \<Rightarrow>
           (let compacted = length (sg_index sg) - write_idx in
            (compacted, if 0 < compacted then save_index_to_nvs ops (sg\<lparr>sg_index := take write_idx arr\<rparr>) else sg))))"

definition storage_total_events :: "u32 \<Rightarrow> 'n storage_engine \<Rightarrow> nat" where
  "storage_total_events now sg =
     (if sg_initialized sg then count_if (\<lambda>e. \<not> ie_deleted e \<and> \<not> ie_expired now e) (sg_index sg) else 0)"

text \<open>One round of the cleanup task, each minute; \<open>cycles\<close> counts the rounds since the last compaction.\<close>

definition storage_cleanup_round :: "'n nvs_ops \<Rightarrow> u32 \<Rightarrow> nat \<times> 'n storage_engine \<Rightarrow> nat \<times> 'n storage_engine" where
  "storage_cleanup_round ops now r =
     (case r of (cycles, sg) \<Rightarrow>
        (let sg1 = snd (storage_purge_expired ops now sg) in
         if 10 \<le> cycles + 1 then (0, snd (storage_compact_index ops sg1)) else (cycles + 1, sg1)))"

section \<open>Hexadecimal round trip\<close>

lemma hex_scan_hex: "length out = length bs \<Longrightarrow> hex_scan (hex_of_bytes bs @ r) out = Ok (True, bs)"
proof (induction bs arbitrary: out)
  case (Cons b bs)
  then obtain x xs where o: "out = x # xs" "length xs = length bs" by (cases out) auto
  have "hex_of_bytes (b # bs) @ r = hex2 b @ (hex_of_bytes bs @ r)" by (simp add: hex_of_bytes_def)
  moreover obtain c d where "hex2 b = [c, d]" by (simp add: hex2_def)
  moreover have "ucast (ucast b :: u32) = b" by (rule bit_eqI) (auto simp: bit_simps)
  ultimately show ?case using Cons.IH[OF o(2)] scan_2x_hex2[of b "hex_of_bytes bs @ r"] o by simp
qed (simp add: hex_of_bytes_def)

lemma length_hex_scan: "hex_scan s out = Ok (ok, bs) \<Longrightarrow> length bs = length out"
  by (induction s out arbitrary: ok bs rule: hex_scan.induct)
     (auto simp: cbind_Ok_iff split: option.splits list.splits if_splits)

lemma hex_scan_long: "2 * length out \<le> length s \<Longrightarrow> hex_scan s out \<noteq> Undef"
proof (induction s out rule: hex_scan.induct)
  case (2 s x out)
  then obtain a b r where s: "s = a # b # r" by (cases s rule: remdups_adj.cases) auto
  show ?case
  proof (cases "scan_2x s")
    case (Some v)
    then have "hex_scan r out \<noteq> Undef" using 2 s by simp
    then show ?thesis using Some s by (cases "hex_scan r out") auto
  qed simp
qed simp

section \<open>Compaction and queries as list functions\<close>

lemma compact_loop_filter:
  assumes "read_idx + k = length arr" "write_idx \<le> read_idx"
  shows "compact_loop k read_idx write_idx arr = (w, arr') \<Longrightarrow>
    take w arr' = take write_idx arr @ filter (\<lambda>e. \<not> ie_deleted e) (drop read_idx arr) \<and>
    w = write_idx + count_if (\<lambda>e. \<not> ie_deleted e) (drop read_idx arr)"
  using assms
proof (induction k arbitrary: read_idx write_idx arr)
  case (Suc k)
  have d: "drop read_idx arr = arr ! read_idx # drop (Suc read_idx) arr" using Suc.prems(2) by (simp add: Cons_nth_drop_Suc)
  show ?case
  proof (cases "ie_deleted (arr ! read_idx)")
    case True
    then show ?thesis using Suc.IH[of "read_idx + 1" write_idx arr] Suc.prems d by auto
  next
    case False
    let ?arr = "arr[write_idx := arr ! read_idx]"
    have e: "(if write_idx \<noteq> read_idx then ?arr else arr) = ?arr" by simp
    have "take (Suc write_idx) ?arr = take write_idx arr @ [arr ! read_idx]"
      using Suc.prems(2,3) by (simp add: take_Suc_nth)
    then show ?thesis using Suc.IH[of "read_idx + 1" "write_idx + 1" ?arr] Suc.prems False d e by auto
  qed
qed auto

lemma compact_exact:
  "storage_compact_index ops sg =
     (if sg_initialized sg \<and> list_ex ie_deleted (sg_index sg)
      then (count_if ie_deleted (sg_index sg), save_index_to_nvs ops (sg\<lparr>sg_index := filter (\<lambda>e. \<not> ie_deleted e) (sg_index sg)\<rparr>))
      else (0, sg))"
proof -
  let ?xs = "sg_index sg"
  obtain w arr where c: "compact_loop (length ?xs) 0 0 ?xs = (w, arr)" by fastforce
  have w: "take w arr = filter (\<lambda>e. \<not> ie_deleted e) ?xs" "w = count_if (\<lambda>e. \<not> ie_deleted e) ?xs"
    using compact_loop_filter[OF _ _ c] by auto
  have n: "length ?xs - w = count_if ie_deleted ?xs"
    using count_if_split[of "\<lambda>_. True" ?xs ie_deleted] w(2) by (simp add: count_if_def)
  then have "0 < length ?xs - w \<longleftrightarrow> list_ex ie_deleted ?xs" using count_if_pos[of ie_deleted ?xs] by (simp add: list_ex_iff)
  then show ?thesis using c w(1) n unfolding storage_compact_index_def by auto
qed

text \<open>
  Compaction keeps exactly the live entries: the in-place copying loop leaves the entries that are
  not deleted, in their order, and reports how many it dropped; it writes the index out only if it
  dropped any, and files and other fields stay as they are.
\<close>

theorem storage_compact_exact:
  "storage_compact_index ops sg =
     (if sg_initialized sg \<and> list_ex ie_deleted (sg_index sg)
      then (count_if ie_deleted (sg_index sg), save_index_to_nvs ops (sg\<lparr>sg_index := filter (\<lambda>e. \<not> ie_deleted e) (sg_index sg)\<rparr>))
      else (0, sg))"
  by (rule compact_exact)

lemma query_loop_take: "query_loop rd n es = take n (List.map_filter rd es)"
  by (induction rd n es rule: query_loop.induct) (auto simp: List.map_filter_simps split: option.split)

section \<open>The index in non-volatile storage\<close>

text \<open>The documented behaviour of a key-value store: what was set is read back, other keys keep their values.\<close>

definition nvs_lawful :: "'n nvs_ops \<Rightarrow> bool" where
  "nvs_lawful ops \<longleftrightarrow>
     (\<forall>k v n. nvs_get_u16 ops k (nvs_set_u16 ops k v n) = Some v) \<and>
     (\<forall>j k v n. nvs_get_u16 ops j (nvs_set_u32 ops k v n) = nvs_get_u16 ops j n) \<and>
     (\<forall>j k b n. nvs_get_u16 ops j (nvs_set_blob ops k b n) = nvs_get_u16 ops j n) \<and>
     (\<forall>k v n. nvs_get_u32 ops k (nvs_set_u32 ops k v n) = Some v) \<and>
     (\<forall>j k b n. nvs_get_u32 ops j (nvs_set_blob ops k b n) = nvs_get_u32 ops j n) \<and>
     (\<forall>j k b n m. nvs_get_blob ops j m (nvs_set_blob ops k b n) =
        (if j = k then if length b \<le> m then Some b else None else nvs_get_blob ops j m n)) \<and>
     (\<forall>k v n. nvs_open_ro ops (nvs_set_u16 ops k v n) = NVS_Opened) \<and>
     (\<forall>k v n. nvs_open_ro ops n = NVS_Opened \<longrightarrow> nvs_open_ro ops (nvs_set_u32 ops k v n) = NVS_Opened) \<and>
     (\<forall>k b n. nvs_open_ro ops n = NVS_Opened \<longrightarrow> nvs_open_ro ops (nvs_set_blob ops k b n) = NVS_Opened)"

lemma save_index_keeps [simp]:
  "sg_index (save_index_to_nvs ops sg) = sg_index sg"
  "sg_max_index_entries (save_index_to_nvs ops sg) = sg_max_index_entries sg"
  "sg_next_file_index (save_index_to_nvs ops sg) = sg_next_file_index sg"
  "sg_initialized (save_index_to_nvs ops sg) = sg_initialized sg"
  "sg_default_ttl_sec (save_index_to_nvs ops sg) = sg_default_ttl_sec sg"
  "sg_files (save_index_to_nvs ops sg) = sg_files sg"
  by (simp_all add: save_index_to_nvs_def Let_def)

lemma dec_of_nat_inject: "dec_of_nat m = dec_of_nat n \<longleftrightarrow> m = n"
  using digits_value_dec[of m] digits_value_dec[of n] by metis

lemma chunk_key_inject [simp]: "chunk_key j = chunk_key k \<longleftrightarrow> j = k"
  by (simp add: chunk_key_def dec_of_nat_inject)

lemma chunks_concat: "concat (map (\<lambda>k. take 50 (drop (50 * k) xs)) [0..<m]) = take (50 * m) xs"
proof (induction m)
  case (Suc m)
  have "take (50 * m) xs @ take 50 (drop (50 * m) xs) = take (50 * m + 50) xs" by (rule take_add[symmetric])
  then show ?case using Suc by (simp add: add.commute)
qed simp

lemma nvs_blobs:
  assumes "nvs_lawful ops"
  shows "nvs_get_blob ops (chunk_key j) m (fold (\<lambda>k. nvs_set_blob ops (chunk_key k) (f k)) [0..<n] nv) =
      (if j < n then if length (f j) \<le> m then Some (f j) else None else nvs_get_blob ops (chunk_key j) m nv)"
    and "nvs_get_u16 ops key (fold (\<lambda>k. nvs_set_blob ops (chunk_key k) (f k)) [0..<n] nv) = nvs_get_u16 ops key nv"
    and "nvs_get_u32 ops key (fold (\<lambda>k. nvs_set_blob ops (chunk_key k) (f k)) [0..<n] nv) = nvs_get_u32 ops key nv"
    and "nvs_open_ro ops nv = NVS_Opened \<Longrightarrow>
      nvs_open_ro ops (fold (\<lambda>k. nvs_set_blob ops (chunk_key k) (f k)) [0..<n] nv) = NVS_Opened"
  using assms unfolding nvs_lawful_def by (induction n) auto

lemma load_saved_index:
  assumes "nvs_lawful ops" "nvs_open_rw ops (sg_nvs sg)" "length (sg_index sg) \<le> max_entries" "max_entries < 2 ^ 16"
  shows "load_index_from_nvs ops max_entries (sg_nvs (save_index_to_nvs ops sg)) = Some (sg_index sg, sg_next_file_index sg)"
proof -
  let ?xs = "sg_index sg" and ?n = "length (sg_index sg)"
  define nv2 where "nv2 = nvs_set_u32 ops ''next_idx'' (sg_next_file_index sg) (nvs_set_u16 ops ''count'' (of_nat ?n) (sg_nvs sg))"
  define nv where "nv = sg_nvs (save_index_to_nvs ops sg)"
  have nv: "nv = fold (\<lambda>k. nvs_set_blob ops (chunk_key k) (take 50 (drop (50 * k) ?xs))) [0..<chunk_count ?n] nv2"
    using assms(2) by (simp add: nv_def nv2_def save_index_to_nvs_def Let_def)
  have g: "nvs_get_u16 ops ''count'' nv = Some (of_nat ?n)" "nvs_get_u32 ops ''next_idx'' nv = Some (sg_next_file_index sg)"
    "nvs_open_ro ops nv = NVS_Opened"
    using nvs_blobs(2-4)[OF assms(1)] assms(1) unfolding nv by (simp_all add: nv2_def nvs_lawful_def)
  have c: "load_chunk ops nv ?n k = take 50 (drop (50 * k) ?xs)" if "k < chunk_count ?n" for k
  proof -
    have "take (min 50 (?n - 50 * k)) (drop (50 * k) ?xs) = take 50 (drop (50 * k) ?xs)" by (simp add: min_def)
    then show ?thesis using nvs_blobs(1)[OF assms(1)] that unfolding nv by (simp add: load_chunk_def Let_def)
  qed
  have "concat (map (load_chunk ops nv ?n) [0..<chunk_count ?n]) = concat (map (\<lambda>k. take 50 (drop (50 * k) ?xs)) [0..<chunk_count ?n])"
    using c by (intro arg_cong[of _ _ concat] map_cong) simp_all
  also have "\<dots> = ?xs" by (simp add: chunks_concat chunk_count_def)
  finally have l: "concat (map (load_chunk ops nv ?n) [0..<chunk_count ?n]) = ?xs" .
  have "min (unat (of_nat ?n :: u16)) max_entries = ?n" using assms(3,4) by (simp add: unat_of_nat)
  then show ?thesis unfolding nv_def[symmetric] using g l by (simp add: load_index_from_nvs_def Let_def)
qed

section \<open>The store as a set of events\<close>

definition ie_live :: "storage_entry \<Rightarrow> bool" where
  "ie_live e \<longleftrightarrow> \<not> ie_deleted e"

definition live_ids :: "'n storage_engine \<Rightarrow> u8 list set" where
  "live_ids sg = set (used ie_live ie_event_id (sg_index sg))"

definition entry_ok :: "'n storage_engine \<Rightarrow> storage_entry \<Rightarrow> bool" where
  "entry_ok sg e \<longleftrightarrow> length (ie_event_id e) = 32 \<and> unat (ie_file_index e) < unat (sg_next_file_index sg) \<and>
     (ie_live e \<longrightarrow> sg_files sg (entry_path e) \<noteq> None)"

definition sg_inv :: "'n storage_engine \<Rightarrow> bool" where
  "sg_inv sg \<longleftrightarrow> sg_initialized sg \<and> length (sg_index sg) \<le> sg_max_index_entries sg \<and>
     list_all (entry_ok sg) (sg_index sg) \<and> distinct (map ie_file_index (sg_index sg)) \<and>
     distinct (used ie_live ie_event_id (sg_index sg))"

lemma ie_mark_deleted_simps [simp]:
  "ie_live (ie_mark_deleted e) = False" "ie_event_id (ie_mark_deleted e) = ie_event_id e"
  "ie_file_index (ie_mark_deleted e) = ie_file_index e" "entry_path (ie_mark_deleted e) = entry_path e"
proof -
  have "(f OR 1) AND 1 = (1 :: u8)" for f by (rule bit_word_eqI) (auto simp: bit_simps)
  then show "ie_live (ie_mark_deleted e) = False" by (simp add: ie_live_def ie_mark_deleted_def ie_deleted_def)
qed (simp_all add: ie_mark_deleted_def entry_path_def)

lemma hex8_inject [simp]: "hex8 a = hex8 b \<longleftrightarrow> a = b"
proof
  assume "hex8 a = hex8 b"
  then have "c_strtoul 16 (hex8 a @ []) = c_strtoul 16 (hex8 b @ [])" by simp
  then show "a = b" using strtoul_hex8[of "[]"] by simp
qed simp

lemma entry_path_inject:
  assumes "length (ie_event_id e) = 32" "length (ie_event_id d) = 32" "entry_path e = entry_path d"
  shows "ie_file_index e = ie_file_index d"
proof -
  have l: "length (concat (map hex2 (take 16 i))) = 32" if "length i = 32" for i
    using length_hex_of_bytes[of "take 16 i"] that by (simp add: hex_of_bytes_def)
  show ?thesis using assms(3) l[OF assms(1)] l[OF assms(2)]
    by (simp add: entry_path_def get_event_path_def hex2_def append_eq_append_conv)
qed

lemma in_live_ids: "i \<in> live_ids sg \<longleftrightarrow> find_index_entry sg i \<noteq> None"
  by (auto simp: live_ids_def used_def find_index_entry_def first_idx_None_iff ie_live_def)

lemma sg_inv_save_index [simp]: "sg_inv (save_index_to_nvs ops sg) = sg_inv sg" "live_ids (save_index_to_nvs ops sg) = live_ids sg"
  by (simp_all add: sg_inv_def live_ids_def entry_ok_def[abs_def])

lemma storage_delete_spec:
  assumes "sg_inv sg"
  shows "sg_inv (snd (storage_delete_event ops i sg))" "live_ids (snd (storage_delete_event ops i sg)) = live_ids sg - {i}"
    "fst (storage_delete_event ops i sg) = (if i \<in> live_ids sg then STORAGE_OK else STORAGE_ERR_NOT_FOUND)"
proof -
  let ?xs = "sg_index sg" and ?r = "storage_delete_event ops i sg"
  have "sg_inv (snd ?r) \<and> live_ids (snd ?r) = live_ids sg - {i} \<and> fst ?r = (if i \<in> live_ids sg then STORAGE_OK else STORAGE_ERR_NOT_FOUND)"
  proof (cases "find_index_entry sg i")
    case None
    then show ?thesis using assms in_live_ids[of i sg] by (simp add: storage_delete_event_def sg_inv_def)
  next
    case (Some j)
    then have j: "j < length ?xs" "ie_event_id (?xs ! j) = i" "ie_live (?xs ! j)"
      by (auto simp: find_index_entry_def ie_live_def dest: first_idx_SomeD)
    let ?e = "?xs ! j"
    define sg1 where "sg1 = sg\<lparr>sg_files := (sg_files sg)(entry_path ?e := None), sg_index := ?xs[j := ie_mark_deleted ?e]\<rparr>"
    have u: "distinct (used ie_live ie_event_id (?xs[j := ie_mark_deleted ?e]))" "live_ids sg1 = live_ids sg - {i}"
      using used_free[OF j(1), of ie_live "ie_mark_deleted ?e" ie_event_id] j assms by (simp_all add: sg1_def live_ids_def sg_inv_def)
    have m: "map ie_file_index (?xs[j := ie_mark_deleted ?e]) = map ie_file_index ?xs"
      using j(1) by (simp add: map_update list_update_same_conv)
    have "entry_ok sg1 (?xs[j := ie_mark_deleted ?e] ! k)" if k: "k < length ?xs" for k
    proof (cases "k = j")
      case True
      then show ?thesis using assms j(1) by (auto simp: sg_inv_def list_all_length entry_ok_def sg1_def)
    next
      case False
      have o: "entry_ok sg (?xs ! k)" "entry_ok sg ?e" using assms k j(1) by (auto simp: sg_inv_def list_all_length)
      have "ie_file_index (?xs ! k) \<noteq> ie_file_index ?e"
        using assms False k j(1) by (auto simp: sg_inv_def distinct_conv_nth)
      then have "entry_path (?xs ! k) \<noteq> entry_path ?e" using entry_path_inject o by (auto simp: entry_ok_def)
      then show ?thesis using o(1) False by (simp add: entry_ok_def sg1_def)
    qed
    then have "sg_inv sg1" using assms u(1) m by (simp add: sg_inv_def sg1_def list_all_length)
    moreover have "?r = (STORAGE_OK, save_index_to_nvs ops sg1)"
      using Some assms by (simp add: storage_delete_event_def sg_inv_def Let_def sg1_def)
    ultimately show ?thesis using u(2) in_live_ids[of i sg] Some by simp
  qed
  then show "sg_inv (snd ?r)" "live_ids (snd ?r) = live_ids sg - {i}"
    "fst ?r = (if i \<in> live_ids sg then STORAGE_OK else STORAGE_ERR_NOT_FOUND)" by simp_all
qed

text \<open>The contract of the store that deletion events rely on.\<close>

locale event_store =
  fixes inv :: "'s \<Rightarrow> bool" and ids :: "'s \<Rightarrow> 'i set" and has :: "'s \<Rightarrow> 'i \<Rightarrow> bool" and del :: "'i \<Rightarrow> 's \<Rightarrow> 's"
  assumes has_iff: "inv s \<Longrightarrow> has s i \<longleftrightarrow> i \<in> ids s"
    and del_inv: "inv s \<Longrightarrow> inv (del i s)"
    and del_ids: "inv s \<Longrightarrow> ids (del i s) = ids s - {i}"
begin

lemma fold_del: "inv s \<Longrightarrow> inv (fold del xs s) \<and> ids (fold del xs s) = ids s - set xs"
  by (induction xs arbitrary: s) (auto simp: del_inv del_ids)

lemma has_fold_del: "inv s \<Longrightarrow> has (fold del xs s) i \<longleftrightarrow> has s i \<and> i \<notin> set xs"
  using fold_del[of s xs] by (auto simp: has_iff)

end

interpretation est: event_store sg_inv live_ids storage_event_exists "\<lambda>i sg. snd (storage_delete_event ops i sg)" for ops
  using in_live_ids by unfold_locales (auto simp: storage_delete_spec storage_event_exists_def sg_inv_def[THEN iffD1])

lemma meta_hex_length: "meta_hex json key = Ok bs \<Longrightarrow> length bs = 32"
  by (auto simp: meta_hex_def relay_hex_to_bytes_def cbind_Ok_iff dest: length_hex_scan split: option.splits)

lemma meta_id_length: "parse_event_meta json = Ok (i, pk, t, k) \<Longrightarrow> length i = 32"
  by (auto simp: parse_event_meta_def cbind_Ok_iff dest: meta_hex_length)

definition save_result :: "store_env \<Rightarrow> u8 list \<Rightarrow> 'n storage_engine \<Rightarrow> storage_error" where
  "save_result env i sg = (if i \<in> live_ids sg then STORAGE_ERR_DUPLICATE
     else if sg_max_index_entries sg \<le> length (sg_index sg) then STORAGE_ERR_FULL
     else if sv_can_create env (get_event_path i (sg_next_file_index sg)) then STORAGE_OK else STORAGE_ERR_IO)"

lemma storage_save_spec:
  assumes "sg_inv sg" "parse_event_meta json = Ok (i, pk, t, k)" "sg_next_file_index sg \<noteq> - 1"
  obtains sg' where "storage_save_event_json ops env json sg = Ok (save_result env i sg, sg')" "sg_inv sg'"
    "live_ids sg' = (if save_result env i sg = STORAGE_OK then insert i (live_ids sg) else live_ids sg)"
    "save_result env i sg \<noteq> STORAGE_OK \<Longrightarrow> sg' = sg"
    "save_result env i sg = STORAGE_OK \<Longrightarrow>
       sg_index sg' = sg_index sg @ [\<lparr>ie_event_id = i, ie_created_at = ucast t, ie_expires_at = sv_time env + sg_default_ttl_sec sg,
         ie_file_index = sg_next_file_index sg, ie_kind = of_int k, ie_pubkey_prefix = take 4 pk, ie_flags = 0\<rparr>]"
    "save_result env i sg = STORAGE_OK \<Longrightarrow>
       sg_files sg' = (sg_files sg)(get_event_path i (sg_next_file_index sg) \<mapsto> sv_fwrite env json)"
    "save_result env i sg = STORAGE_OK \<Longrightarrow> (length (sg_index sg) + 1) mod 10 \<noteq> 0 \<Longrightarrow> sg_nvs sg' = sg_nvs sg"
    "save_result env i sg = STORAGE_OK \<Longrightarrow> (length (sg_index sg) + 1) mod 10 = 0 \<Longrightarrow>
       \<exists>sg1. sg' = save_index_to_nvs ops sg1 \<and> sg_nvs sg1 = sg_nvs sg"
proof (cases "save_result env i sg = STORAGE_OK")
  case False
  then have "storage_save_event_json ops env json sg = Ok (save_result env i sg, sg)"
    using assms in_live_ids[of i sg]
    by (auto simp: storage_save_event_json_def save_result_def sg_inv_def Let_def split: if_splits)
  with False assms(1) that show thesis by auto
next
  case True
  let ?e = "\<lparr>ie_event_id = i, ie_created_at = ucast t, ie_expires_at = sv_time env + sg_default_ttl_sec sg,
     ie_file_index = sg_next_file_index sg, ie_kind = of_int k, ie_pubkey_prefix = take 4 pk, ie_flags = 0\<rparr>"
  let ?p = "get_event_path i (sg_next_file_index sg)"
  define sg1 where "sg1 = sg\<lparr>sg_files := (sg_files sg)(?p \<mapsto> sv_fwrite env json), sg_index := sg_index sg @ [?e],
     sg_next_file_index := sg_next_file_index sg + 1\<rparr>"
  have c: "i \<notin> live_ids sg" "length (sg_index sg) < sg_max_index_entries sg" "sv_can_create env ?p"
    using True by (auto simp: save_result_def split: if_splits)
  have li: "length i = 32" by (rule meta_id_length[OF assms(2)])
  have lt: "unat (sg_next_file_index sg + 1) = unat (sg_next_file_index sg) + 1"
    using assms(3) word_order.not_eq_extremum[of "sg_next_file_index sg"] unat_Suc_less[of "sg_next_file_index sg" "- 1"] by simp
  have live: "ie_live ?e" by (simp add: ie_live_def ie_deleted_def)
  have o: "entry_ok sg1 d" if "d \<in> set (sg_index sg)" for d
    using that assms(1) lt by (auto simp: sg_inv_def list_all_iff entry_ok_def sg1_def)
  have e: "entry_ok sg1 ?e" using li lt by (simp add: entry_ok_def sg1_def entry_path_def)
  have f: "ie_file_index ?e \<notin> set (map ie_file_index (sg_index sg))"
    using assms(1) by (auto simp: sg_inv_def list_all_iff entry_ok_def)
  have u: "used ie_live ie_event_id (sg_index sg1) = used ie_live ie_event_id (sg_index sg) @ [i]"
    using live by (simp add: sg1_def used_def)
  have inv: "sg_inv sg1" using assms(1) c o e f u unfolding sg_inv_def live_ids_def
    by (simp add: list_all_iff) (simp add: sg1_def)
  have ids: "live_ids sg1 = insert i (live_ids sg)" using u by (auto simp: live_ids_def)
  have r: "storage_save_event_json ops env json sg =
      Ok (STORAGE_OK, if length (sg_index sg1) mod 10 = 0 then save_index_to_nvs ops sg1 else sg1)"
    using assms c in_live_ids[of i sg] by (simp add: storage_save_event_json_def sg_inv_def Let_def sg1_def)
  have flds: "sg_index sg1 = sg_index sg @ [?e]" "sg_files sg1 = (sg_files sg)(?p \<mapsto> sv_fwrite env json)" "sg_nvs sg1 = sg_nvs sg"
    by (simp_all add: sg1_def)
  show thesis by (rule that[OF r[folded True]]) (use inv ids True flds in auto)
qed

lemma unlink_fold:
  "fold (\<lambda>e fs. if P e then fs(entry_path e := None) else fs) xs fs p = (if \<exists>e \<in> set xs. P e \<and> entry_path e = p then None else fs p)"
  by (induction xs arbitrary: fs) auto

lemma storage_purge_spec:
  assumes "sg_inv sg"
  shows "sg_inv (snd (storage_purge_expired ops now sg))"
    "live_ids (snd (storage_purge_expired ops now sg)) = live_ids sg - ie_event_id ` {e \<in> set (sg_index sg). purged now e}"
proof -
  let ?xs = "sg_index sg" and ?g = "\<lambda>e. if purged now e then ie_mark_deleted e else e"
  define sg1 where "sg1 = sg\<lparr>sg_files := fold (\<lambda>e fs. if purged now e then fs(entry_path e := None) else fs) ?xs (sg_files sg),
     sg_index := map ?g ?xs\<rparr>"
  have "used ie_live ie_event_id (map ?g xs) = used (\<lambda>e. ie_live e \<and> \<not> purged now e) ie_event_id xs" for xs
    by (induction xs) (auto simp: used_def)
  then have u: "used ie_live ie_event_id (map ?g ?xs) = used (\<lambda>e. ie_live e \<and> \<not> purged now e) ie_event_id ?xs" by blast
  have m: "map ie_file_index (map ?g ?xs) = map ie_file_index ?xs" by simp
  have o: "entry_ok sg1 (?g e)" if e: "e \<in> set ?xs" for e
  proof -
    have eo: "entry_ok sg e" using e assms by (simp add: sg_inv_def list_all_iff)
    have "entry_path d \<noteq> entry_path e" if d: "d \<in> set ?xs" "purged now d" "\<not> purged now e" for d
    proof -
      have "d \<noteq> e" using d by auto
      then have "ie_file_index d \<noteq> ie_file_index e" using assms d(1) e by (auto simp: sg_inv_def distinct_map inj_on_def)
      moreover have "entry_ok sg d" using d(1) assms by (simp add: sg_inv_def list_all_iff)
      ultimately show ?thesis using entry_path_inject eo by (auto simp: entry_ok_def)
    qed
    then show ?thesis using eo by (auto simp: entry_ok_def sg1_def unlink_fold)
  qed
  have i: "sg_index sg1 = map ?g ?xs" "sg_initialized sg1 = sg_initialized sg" "sg_max_index_entries sg1 = sg_max_index_entries sg"
    by (simp_all add: sg1_def)
  have "list_all (entry_ok sg1) (sg_index sg1)" unfolding i list_all_iff set_map using o by blast
  moreover have "distinct (map ie_file_index (sg_index sg1))" unfolding i m using assms by (simp add: sg_inv_def)
  moreover have "distinct (used ie_live ie_event_id (sg_index sg1))"
    unfolding i u using assms used_sub[of ie_live ie_event_id ?xs] by (simp add: sg_inv_def)
  ultimately have inv: "sg_inv sg1" using assms i by (simp add: sg_inv_def)
  have "ie_event_id e \<notin> ie_event_id ` {d \<in> set ?xs. purged now d}" if "e \<in> set ?xs" "ie_live e" "\<not> purged now e" for e
  proof
    assume "ie_event_id e \<in> ie_event_id ` {d \<in> set ?xs. purged now d}"
    then obtain d where d: "d \<in> set ?xs" "purged now d" "ie_event_id d = ie_event_id e" by auto
    then have "d = e" using assms that unfolding sg_inv_def
      by (metis in_set_conv_nth ie_live_def purged_def used_distinct_index)
    then show False using d that by simp
  qed
  then have ids: "live_ids sg1 = live_ids sg - ie_event_id ` {e \<in> set ?xs. purged now e}"
    using u by (auto simp: live_ids_def sg1_def used_def)
  have "snd (storage_purge_expired ops now sg) = (if 0 < count_if (purged now) ?xs then save_index_to_nvs ops sg1 else sg1)"
    using assms by (simp add: storage_purge_expired_def sg_inv_def Let_def sg1_def)
  then show "sg_inv (snd (storage_purge_expired ops now sg))"
    "live_ids (snd (storage_purge_expired ops now sg)) = live_ids sg - ie_event_id ` {e \<in> set ?xs. purged now e}"
    using inv ids by simp_all
qed

lemma storage_compact_spec:
  assumes "sg_inv sg"
  shows "sg_inv (snd (storage_compact_index ops sg))" "live_ids (snd (storage_compact_index ops sg)) = live_ids sg"
proof -
  let ?sg = "sg\<lparr>sg_index := filter (\<lambda>e. \<not> ie_deleted e) (sg_index sg)\<rparr>"
  have f: "used ie_live ie_event_id (filter (\<lambda>e. \<not> ie_deleted e) (sg_index sg)) = used ie_live ie_event_id (sg_index sg)"
    by (simp add: used_def ie_live_def[abs_def])
  have "length (filter (\<lambda>e. \<not> ie_deleted e) (sg_index sg)) \<le> sg_max_index_entries sg"
    using assms by (intro order_trans[OF length_filter_le]) (simp add: sg_inv_def)
  then have "sg_inv ?sg" using assms f by (auto simp: sg_inv_def list_all_iff entry_ok_def distinct_map_filter)
  then show "sg_inv (snd (storage_compact_index ops sg))" "live_ids (snd (storage_compact_index ops sg)) = live_ids sg"
    using compact_exact[of ops sg] assms f by (simp_all add: live_ids_def)
qed

datatype store_op = Store_Save store_env string | Store_Delete "u8 list" | Store_Purge u32 | Store_Compact

fun store_step :: "'n nvs_ops \<Rightarrow> store_op \<Rightarrow> 'n storage_engine \<Rightarrow> 'n storage_engine cres" where
  "store_step ops (Store_Save env json) sg = cbind (storage_save_event_json ops env json sg) (\<lambda>(r, sg1). Ok sg1)"
| "store_step ops (Store_Delete i) sg = Ok (snd (storage_delete_event ops i sg))"
| "store_step ops (Store_Purge now) sg = Ok (snd (storage_purge_expired ops now sg))"
| "store_step ops Store_Compact sg = Ok (snd (storage_compact_index ops sg))"

text \<open>The abstract store is the set of the ids of its events.\<close>

fun set_step :: "'n storage_engine \<Rightarrow> store_op \<Rightarrow> u8 list set \<Rightarrow> u8 list set" where
  "set_step sg (Store_Save env json) ids =
     (case parse_event_meta json of Ok (i, r) \<Rightarrow> if save_result env i sg = STORAGE_OK then insert i ids else ids | _ \<Rightarrow> ids)"
| "set_step sg (Store_Delete i) ids = ids - {i}"
| "set_step sg (Store_Purge now) ids = ids - ie_event_id ` {e \<in> set (sg_index sg). purged now e}"
| "set_step sg Store_Compact ids = ids"

text \<open>
  (C16) The event store refines a set of event ids: from a well-formed store (index within its
  bounds, one live entry per id, a file for each live entry, all files distinct), as long as the 32-bit
  file counter has not run out, each operation that returns keeps the store well-formed and acts on
  the set of stored ids as the abstract operation does; compaction does not change it, and an id is
  found exactly when it is in the set.
\<close>

theorem storage_refines_event_set:
  assumes "sg_inv sg" "sg_next_file_index sg \<noteq> - 1" "store_step ops op sg = Ok sg'"
  shows "sg_inv sg' \<and> live_ids sg' = set_step sg op (live_ids sg) \<and> (storage_event_exists sg' i \<longleftrightarrow> i \<in> live_ids sg')"
proof -
  have "sg_inv sg' \<and> live_ids sg' = set_step sg op (live_ids sg)"
  proof (cases op)
    case (Store_Save env json)
    then obtain i pk t k where m: "parse_event_meta json = Ok (i, pk, t, k)"
      using assms(1,3) by (cases "parse_event_meta json") (auto simp: storage_save_event_json_def sg_inv_def)
    show ?thesis by (rule storage_save_spec[OF assms(1) m assms(2), of ops env]) (use Store_Save m assms(3) in auto)
  next
    case (Store_Delete i)
    then show ?thesis using storage_delete_spec[OF assms(1), of ops i] assms(3) by auto
  next
    case (Store_Purge now)
    then show ?thesis using storage_purge_spec[OF assms(1), of ops now] assms(3) by auto
  next
    case Store_Compact
    then show ?thesis using storage_compact_spec[OF assms(1), of ops] assms(3) by auto
  qed
  then show ?thesis using est.has_iff by blast
qed

section \<open>Reading the fields of an event\<close>

lemma meta_hex_from: "meta_hex json key = (case from_strstr json key of None \<Rightarrow> Ok (replicate 32 0)
    | Some r \<Rightarrow> cbind (relay_hex_to_bytes (drop (length key) r) 64 (replicate 32 0)) (\<lambda>(ok, bs). Ok bs))"
  unfolding from_strstr[symmetric] by (auto simp: meta_hex_def add.commute split: option.split)

lemma meta_num_from:
  "(case c_strstr json key of Some p \<Rightarrow> f (drop (p + n) json) | None \<Rightarrow> z) =
     (case from_strstr json key of None \<Rightarrow> z | Some r \<Rightarrow> f (drop n r))"
  unfolding from_strstr[symmetric] by (auto simp: add.commute split: option.split)

lemma from_strstr_hex: "from_strstr (hex_of_bytes bs @ s) (CHR 0x22 # ks) = from_strstr s (CHR 0x22 # ks)"
  using hex_of_bytes_hex hex_char_props(12) by (intro from_strstr_skip) blast

lemma from_strstr_quoted_hex:
  assumes "bs \<noteq> []" "hex_val a = None \<or> hex_val b = None"
  shows "from_strstr (CHR 0x22 # hex_of_bytes bs @ s) (CHR 0x22 # a # b # ks) = from_strstr s (CHR 0x22 # a # b # ks)"
proof -
  obtain x xs where x: "bs = x # xs" using assms(1) by (cases bs) auto
  obtain c d r where h: "hex_of_bytes bs = c # d # r" by (simp add: x hex_of_bytes_def hex2_def)
  then have "hex_val c \<noteq> None" "hex_val d \<noteq> None" using hex_of_bytes_hex[of _ bs] by auto
  then have "\<not> starts_with (CHR 0x22 # a # b # ks) (CHR 0x22 # hex_of_bytes bs @ s)"
    using assms(2) h by (auto simp: starts_with_def)
  then show ?thesis by (simp add: from_strstr_hex)
qed

definition event_head :: "u8 list \<Rightarrow> u8 list \<Rightarrow> nat \<Rightarrow> nat \<Rightarrow> string" where
  "event_head i pk t k = ''{\"id\":\"'' @ hex_of_bytes i @ ''\",\"pubkey\":\"'' @ hex_of_bytes pk @ ''\",\"created_at\":''
     @ dec_of_nat t @ '',\"kind\":'' @ dec_of_nat k @ '',''"

lemma relay_hex_32: "length bs = 32 \<Longrightarrow> relay_hex_to_bytes (hex_of_bytes bs @ r) 64 (replicate 32 0) = Ok (True, bs)"
  by (simp add: relay_hex_to_bytes_def hex_scan_hex)

lemma digit_comma: "digit_in 10 CHR '','' = None"
  by (simp add: digit_in_def hex_val_None)

lemma meta_hex_found:
  assumes "from_strstr json key = Some (key @ hex_of_bytes bs @ r)" "length bs = 32"
  shows "meta_hex json key = Ok bs"
  using assms by (simp add: meta_hex_from relay_hex_32)

lemma event_head_meta:
  assumes "length i = 32" "length pk = 32" "t < 2 ^ 64" "k < 2 ^ 31"
  shows "parse_event_meta (event_head i pk t k @ rest) = Ok (i, pk, of_nat t, int k)"
proof -
  let ?j = "event_head i pk t k @ rest"
  let ?c = "dec_of_nat t @ '',\"kind\":'' @ dec_of_nat k @ '','' @ rest"
  have ne: "i \<noteq> []" "pk \<noteq> []" using assms(1,2) by auto
  let ?Q = "\<lambda>bs s. CHR 0x22 # hex_of_bytes bs @ s"
  have j: "?j = ''{\"id\":'' @ ?Q i (''\",\"pubkey\":'' @ ?Q pk (''\",\"created_at\":'' @ ?c))" by (simp add: event_head_def)
  have skip: "from_strstr (''{\"id\":'' @ s) ''\"pubkey\":\"'' = from_strstr s ''\"pubkey\":\"''"
    "from_strstr (''{\"id\":'' @ s) ''\"created_at\":'' = from_strstr s ''\"created_at\":''"
    "from_strstr (''{\"id\":'' @ s) ''\"kind\":'' = from_strstr s ''\"kind\":''"
    "from_strstr (''\",\"pubkey\":'' @ s) ''\"created_at\":'' = from_strstr s ''\"created_at\":''"
    "from_strstr (''\",\"pubkey\":'' @ s) ''\"kind\":'' = from_strstr s ''\"kind\":''"
    "from_strstr (''\",\"created_at\":'' @ s) ''\"kind\":'' = from_strstr s ''\"kind\":''" for s
    by (simp_all add: starts_with_def)
  have q: "from_strstr (?Q bs s) ''\"pubkey\":\"'' = from_strstr s ''\"pubkey\":\"''"
    "from_strstr (?Q bs s) ''\"created_at\":'' = from_strstr s ''\"created_at\":''"
    "from_strstr (?Q bs s) ''\"kind\":'' = from_strstr s ''\"kind\":''" if "bs \<noteq> []" for bs s
    by (rule from_strstr_quoted_hex[OF that], simp add: hex_val_def)+
  have "from_strstr ?j ''\"id\":\"'' = Some (''\"id\":\"'' @ hex_of_bytes i @ ''\",\"pubkey\":'' @ ?Q pk (''\",\"created_at\":'' @ ?c))"
    unfolding j by (simp add: starts_with_def)
  then have "meta_hex ?j ''\"id\":\"'' = Ok i" using assms(1) by (rule meta_hex_found)
  moreover have "from_strstr ?j ''\"pubkey\":\"'' = Some (''\"pubkey\":\"'' @ hex_of_bytes pk @ ''\",\"created_at\":'' @ ?c)"
    unfolding j skip q[OF ne(1)] by (simp add: starts_with_def)
  then have "meta_hex ?j ''\"pubkey\":\"'' = Ok pk" using assms(2) by (rule meta_hex_found)
  moreover have "from_strstr ?j ''\"created_at\":'' = Some (''\"created_at\":'' @ ?c)"
    unfolding j skip q[OF ne(1)] q[OF ne(2)] by (simp add: starts_with_def)
  moreover have "from_strstr ?j ''\"kind\":'' = Some (''\"kind\":'' @ dec_of_nat k @ '','' @ rest)"
    unfolding j skip q[OF ne(1)] q[OF ne(2)] by (simp add: starts_with_def from_strstr_dec)
  moreover have "c_strtoull 10 (dec_of_nat t @ '',\"kind\":'' @ r) = of_nat t" for r
    using number_prefix_dec[of "'',\"kind\":'' @ r" t] assms(3) digit_comma by (simp add: c_strtoull_def)
  moreover have "c_atoi (dec_of_nat k @ '','' @ r) = int k" for r
    using number_prefix_dec[of "'','' @ r" k] assms(4) digit_comma by (simp add: c_atoi_def clamp_signed_def)
  ultimately show ?thesis by (simp add: parse_event_meta_def meta_num_from)
qed

text \<open>
  The index sees the event as it was written: from the text of an event that starts with its id,
  public key, time and kind in this order, as the clients of the relay send it, the store reads exactly
  these four values, whatever follows.
\<close>

theorem storage_meta_roundtrip:
  assumes "length i = 32" "length pk = 32" "t < 2 ^ 64" "k < 2 ^ 31"
  shows "parse_event_meta (event_head i pk t k @ rest) = Ok (i, pk, of_nat t, int k)"
  using assms by (rule event_head_meta)

text \<open>
  The index can be made to lie: the id is taken from the first place in the text that looks like
  one. An event that carries an object with an \<open>id\<close> member in its tags, in front of its own id, is
  stored under the id given there; its own id is not found afterwards, and the event whose id was
  named is from then on refused as a duplicate.
\<close>

definition spoofed_event :: "u8 list \<Rightarrow> u8 list \<Rightarrow> string \<Rightarrow> string" where
  "spoofed_event fake_id own_id rest = ''{\"tags\":[[{\"id\":\"'' @ hex_of_bytes fake_id @ ''\"}]],\"id\":\"'' @ hex_of_bytes own_id @ rest"

theorem storage_id_spoofed:
  assumes "sg_inv sg" "sg_next_file_index sg \<noteq> - 1" "length fake_id = 32" "fake_id \<noteq> own_id"
    and "\<not> storage_event_exists sg own_id"
    and "storage_save_event_json ops env (spoofed_event fake_id own_id rest) sg = Ok (STORAGE_OK, sg')"
  shows "storage_event_exists sg' fake_id \<and> \<not> storage_event_exists sg' own_id \<and>
    (parse_event_meta json = Ok (fake_id, m) \<longrightarrow> storage_save_event_json ops env2 json sg' = Ok (STORAGE_ERR_DUPLICATE, sg'))"
proof -
  define ev where "ev = spoofed_event fake_id own_id rest"
  have "from_strstr ev ''\"id\":\"'' = Some (''\"id\":\"'' @ hex_of_bytes fake_id @ ''\"}]],\"id\":\"'' @ hex_of_bytes own_id @ rest)"
    by (simp add: ev_def spoofed_event_def starts_with_def)
  then have "meta_hex ev ''\"id\":\"'' = Ok fake_id" using assms(3) by (rule meta_hex_found)
  then obtain pk t k where m: "parse_event_meta ev = Ok (fake_id, pk, t, k)"
    using assms(1) assms(6)[folded ev_def] by (auto simp: storage_save_event_json_def parse_event_meta_def sg_inv_def cbind_Ok_iff)
  have own: "own_id \<notin> live_ids sg" using assms(1,5) est.has_iff by blast
  have "sg_inv sg' \<and> live_ids sg' = insert fake_id (live_ids sg)"
    by (rule storage_save_spec[OF assms(1) m assms(2), of ops env]) (use assms(6)[folded ev_def] in auto)
  then have s: "sg_inv sg'" "live_ids sg' = insert fake_id (live_ids sg)" by simp_all
  have "storage_save_event_json ops env2 json sg' = Ok (STORAGE_ERR_DUPLICATE, sg')" if "parse_event_meta json = Ok (fake_id, m)"
    using that s in_live_ids[of fake_id sg'] by (cases m) (auto simp: storage_save_event_json_def sg_inv_def)
  then show ?thesis using s(2) own assms(4) est.has_iff[OF s(1)] by simp
qed

section \<open>What is stored is found again\<close>

lemma author_prefix:
  assumes "4 \<le> length pk"
  shows "relay_hex_to_bytes (hex_of_bytes pk) 8 (replicate 4 0) = Ok (True, take 4 pk)"
proof -
  have "hex_of_bytes pk = hex_of_bytes (take 4 pk) @ hex_of_bytes (drop 4 pk)"
    unfolding hex_of_bytes_def by (metis append_take_drop_id concat_append map_append)
  then show ?thesis using assms hex_scan_hex[of "replicate 4 0" "take 4 pk" "hex_of_bytes (drop 4 pk)"]
    by (simp add: relay_hex_to_bytes_def)
qed

text \<open>
  A stored event is the first answer to a query for it: after a successful save, a query for its
  kind, or for all kinds, and for its author, or for all authors, starts with exactly the text that
  was saved, provided the text was written completely, is at most 8192 bytes long and has not expired.
\<close>

theorem storage_save_then_query:
  assumes "sg_inv sg" "sg_next_file_index sg \<noteq> - 1" "parse_event_meta json = Ok (i, pk, t, int k)" "k < 2 ^ 16" "length pk = 32"
    and "storage_save_event_json ops env json sg = Ok (STORAGE_OK, sg')"
    and "sv_fwrite env json = json" "json \<noteq> []" "length json \<le> 8192" "now \<le> sv_time env + sg_default_ttl_sec sg"
    and "kind = int k \<or> kind \<le> 0" "author = Some (hex_of_bytes pk) \<or> author = None"
  shows "\<exists>others. storage_query_events_json now kind author limit sg' = Ok (STORAGE_OK, json # others)"
proof -
  let ?e = "\<lparr>ie_event_id = i, ie_created_at = ucast t, ie_expires_at = sv_time env + sg_default_ttl_sec sg,
     ie_file_index = sg_next_file_index sg, ie_kind = of_int (int k), ie_pubkey_prefix = take 4 pk, ie_flags = 0\<rparr>"
  have "sg_inv sg' \<and> sg_index sg' = sg_index sg @ [?e] \<and> sg_files sg' (entry_path ?e) = Some json"
    by (rule storage_save_spec[OF assms(1,3,2), of ops env]) (use assms(6,7) in \<open>auto simp: entry_path_def\<close>)
  then have s: "sg_initialized sg'" "sg_index sg' = sg_index sg @ [?e]" "sg_files sg' (entry_path ?e) = Some json"
    by (simp_all add: sg_inv_def)
  have k: "uint (of_int (int k) :: u16) = int k" using assms(4) by (simp add: uint_nat unat_of_nat)
  have x: "\<not> ie_expired now ?e" using assms(10) by (simp add: ie_expired_def not_less)
  have rd: "query_entry now kind a (sg_files sg') ?e = Some json" if "a = None \<or> a = Some (take 4 pk)" for a
    using that assms(8,9,11) s(3) x k
    by (auto simp: query_entry_def ie_deleted_def STORAGE_MAX_EVENT_SIZE_def)
  have "0 < (if 500 < limit then 500 else if limit \<le> 0 then 100 else nat limit)" by simp
  then obtain n where n: "(if 500 < limit then 500 else if limit \<le> 0 then 100 else nat limit) = Suc n" using gr0_conv_Suc by blast
  have a: "(case author of Some a \<Rightarrow> if 8 \<le> length a
      then cbind (relay_hex_to_bytes a 8 (replicate 4 0)) (\<lambda>(ok, bs). Ok (Some bs)) else Ok None | None \<Rightarrow> Ok None) =
      Ok (if author = None then None else Some (take 4 pk))"
    using assms(5,12) author_prefix[of pk] by auto
  show ?thesis unfolding storage_query_events_json_def n Let_def a using s(1,2) rd by simp
qed

text \<open>
  Nine of ten new events do not survive a power cut: the index is copied to non-volatile storage
  only when its length is a multiple of ten, so after a restart that was not preceded by an orderly
  shutdown, an event just saved is found if and only if it was the tenth of its row.
\<close>

theorem storage_restart_keeps_tenth:
  assumes "nvs_lawful ops" "\<forall>n. nvs_open_rw ops n" "sg_inv sg" "sg_max_index_entries sg = STORAGE_INDEX_ENTRIES"
    and "sg_next_file_index sg \<noteq> - 1" "parse_event_meta json = Ok (i, pk, t, k)"
    and "storage_save_event_json ops env json sg = Ok (STORAGE_OK, sg')"
    and "storage_init ops True True ttl files (sg_nvs sg) = Some before" "\<not> storage_event_exists before i"
    and "storage_init ops True True ttl files2 (sg_nvs sg') = Some after"
  shows "storage_event_exists after i \<longleftrightarrow> length (sg_index sg') mod 10 = 0"
proof -
  have ex: "storage_event_exists s i \<longleftrightarrow> sg_initialized s \<and> i \<in> live_ids s" for s :: "'a storage_engine"
    using in_live_ids[of i s] by (simp add: storage_event_exists_def)
  have "sg_inv sg' \<and> i \<in> live_ids sg' \<and> length (sg_index sg') = length (sg_index sg) + 1 \<and> length (sg_index sg) < STORAGE_INDEX_ENTRIES \<and>
      ((length (sg_index sg) + 1) mod 10 \<noteq> 0 \<longrightarrow> sg_nvs sg' = sg_nvs sg) \<and>
      ((length (sg_index sg) + 1) mod 10 = 0 \<longrightarrow> (\<exists>sg1. sg' = save_index_to_nvs ops sg1))"
    by (rule storage_save_spec[OF assms(3,6,5), of ops env])
       (use assms(4,7) in \<open>auto simp: save_result_def split: if_splits\<close>)
  then have s: "i \<in> live_ids sg'" "length (sg_index sg') = length (sg_index sg) + 1" "length (sg_index sg') \<le> STORAGE_INDEX_ENTRIES"
    and un: "(length (sg_index sg) + 1) mod 10 \<noteq> 0 \<Longrightarrow> sg_nvs sg' = sg_nvs sg"
    and sv: "(length (sg_index sg) + 1) mod 10 = 0 \<Longrightarrow> \<exists>sg1. sg' = save_index_to_nvs ops sg1" by auto
  show ?thesis
  proof (cases "length (sg_index sg') mod 10 = 0")
    case True
    then obtain sg1 where e: "sg' = save_index_to_nvs ops sg1" using sv s(2) by auto
    then have "load_index_from_nvs ops STORAGE_INDEX_ENTRIES (sg_nvs sg') = Some (sg_index sg1, sg_next_file_index sg1)"
      using load_saved_index[OF assms(1), of sg1 STORAGE_INDEX_ENTRIES] assms(2) s(3) by (simp add: STORAGE_INDEX_ENTRIES_def)
    then have "sg_index after = sg_index sg'" "sg_initialized after" using assms(10) e by (auto simp: storage_init_def)
    then have "storage_event_exists after i" using s(1) ex by (simp add: live_ids_def)
    then show ?thesis using True by simp
  next
    case False
    then have "sg_index after = sg_index before" using un s(2) assms(8,10) by (auto simp: storage_init_def Let_def split: prod.splits)
    moreover have "sg_initialized before" using assms(8) by (auto simp: storage_init_def Let_def split: prod.splits)
    ultimately have "\<not> storage_event_exists after i" using assms(9) ex by (simp add: live_ids_def)
    then show ?thesis using False by simp
  qed
qed

section \<open>Concrete stores\<close>

type_synonym demo_nvs = "(string \<Rightarrow> u16 option) \<times> (string \<Rightarrow> u32 option) \<times> (string \<Rightarrow> storage_entry list option)"

definition demo_nvs_ops :: "demo_nvs nvs_ops" where
  "demo_nvs_ops = \<lparr>nvs_open_rw = \<lambda>n. True, nvs_open_ro = \<lambda>n. NVS_Opened,
     nvs_set_u16 = \<lambda>k v (a, b, c). (a(k \<mapsto> v), b, c), nvs_get_u16 = \<lambda>k (a, b, c). a k,
     nvs_set_u32 = \<lambda>k v (a, b, c). (a, b(k \<mapsto> v), c), nvs_get_u32 = \<lambda>k (a, b, c). b k,
     nvs_set_blob = \<lambda>k v (a, b, c). (a, b, c(k \<mapsto> v)),
     nvs_get_blob = \<lambda>k m (a, b, c). (case c k of Some v \<Rightarrow> if length v \<le> m then Some v else None | None \<Rightarrow> None)\<rparr>"

definition demo_store :: "demo_nvs storage_engine" where
  "demo_store = \<lparr>sg_index = [], sg_max_index_entries = STORAGE_INDEX_ENTRIES, sg_next_file_index = 0, sg_initialized = True,
     sg_default_ttl_sec = 1814400, sg_files = Map.empty, sg_nvs = (Map.empty, Map.empty, Map.empty)\<rparr>"

definition demo_store_env :: store_env where
  "demo_store_env = \<lparr>sv_time = 1000, sv_can_create = \<lambda>p. True, sv_fwrite = \<lambda>s. s\<rparr>"

definition demo_id :: "u8 list" where
  "demo_id = replicate 32 7"

definition demo_event :: string where
  "demo_event = event_head demo_id demo_id 5 1"

lemma demo_nvs_lawful: "nvs_lawful demo_nvs_ops" "nvs_open_rw demo_nvs_ops n"
  by (auto simp: nvs_lawful_def demo_nvs_ops_def split: option.splits)

lemma demo_store_inv: "sg_inv demo_store" "sg_next_file_index demo_store \<noteq> - 1" "live_ids demo_store = {}"
  by (simp_all add: sg_inv_def demo_store_def live_ids_def used_def)

lemma demo_save_ok: "save_result demo_store_env i demo_store = STORAGE_OK"
  using demo_store_inv(3) by (simp add: save_result_def) (simp add: demo_store_def demo_store_env_def STORAGE_INDEX_ENTRIES_def)

theorem storage_meta_roundtrip_witness:
  "parse_event_meta (event_head demo_id demo_id 5 1 @ ''}'') = Ok (demo_id, demo_id, 5, 1)"
  using storage_meta_roundtrip[of demo_id demo_id 5 1 "''}''"] by (simp add: demo_id_def)

lemma demo_event_meta: "parse_event_meta demo_event = Ok (demo_id, demo_id, 5, 1)"
  using event_head_meta[of demo_id demo_id 5 1 "[]"] by (simp add: demo_id_def demo_event_def)

lemma demo_event_saved:
  obtains sg' where "storage_save_event_json demo_nvs_ops demo_store_env demo_event demo_store = Ok (STORAGE_OK, sg')" "sg_nvs sg' = sg_nvs demo_store"
    "length (sg_index sg') = 1"
  by (rule storage_save_spec[OF demo_store_inv(1) demo_event_meta demo_store_inv(2), of demo_nvs_ops demo_store_env])
     (use demo_save_ok in \<open>auto simp: demo_store_def\<close>)

theorem storage_refines_event_set_witness:
  "\<exists>sg'. store_step demo_nvs_ops (Store_Save demo_store_env demo_event) demo_store = Ok sg' \<and> storage_event_exists sg' demo_id"
proof -
  obtain sg' where r: "storage_save_event_json demo_nvs_ops demo_store_env demo_event demo_store = Ok (STORAGE_OK, sg')"
    by (rule demo_event_saved)
  then have s: "store_step demo_nvs_ops (Store_Save demo_store_env demo_event) demo_store = Ok sg'" by simp
  then show ?thesis using storage_refines_event_set[OF demo_store_inv(1,2) s, of demo_id] demo_save_ok demo_event_meta by auto
qed

theorem storage_save_then_query_witness:
  "\<exists>sg' others. storage_save_event_json demo_nvs_ops demo_store_env demo_event demo_store = Ok (STORAGE_OK, sg') \<and>
     storage_query_events_json 2000 1 (Some (hex_of_bytes demo_id)) 10 sg' = Ok (STORAGE_OK, demo_event # others)"
proof -
  obtain sg' where r: "storage_save_event_json demo_nvs_ops demo_store_env demo_event demo_store = Ok (STORAGE_OK, sg')"
    by (rule demo_event_saved)
  have m: "parse_event_meta demo_event = Ok (demo_id, demo_id, 5, int 1)" using demo_event_meta by simp
  have l: "demo_event \<noteq> []" "length demo_event \<le> 8192"
    using length_hex_of_bytes[of demo_id] by (simp_all add: demo_event_def event_head_def demo_id_def dec_of_nat.simps)
  have "(2000 :: u32) \<le> sv_time demo_store_env + sg_default_ttl_sec demo_store" by (simp add: demo_store_env_def demo_store_def)
  then show ?thesis
    using storage_save_then_query[OF demo_store_inv(1,2) m _ _ r _ l, of 2000 1 "Some (hex_of_bytes demo_id)" 10] r
    by (auto simp: demo_id_def demo_store_env_def)
qed

theorem storage_restart_keeps_tenth_witness:
  "\<exists>sg' after. storage_save_event_json demo_nvs_ops demo_store_env demo_event demo_store = Ok (STORAGE_OK, sg') \<and>
     storage_init demo_nvs_ops True True 1814400 (sg_files sg') (sg_nvs sg') = Some after \<and> \<not> storage_event_exists after demo_id"
proof -
  obtain sg' where r: "storage_save_event_json demo_nvs_ops demo_store_env demo_event demo_store = Ok (STORAGE_OK, sg')"
    "sg_nvs sg' = sg_nvs demo_store" "length (sg_index sg') = 1"
    by (rule demo_event_saved)
  have i: "storage_init demo_nvs_ops True True 1814400 files (sg_nvs demo_store) = Some (demo_store\<lparr>sg_files := files\<rparr>)" for files
    by (simp add: storage_init_def load_index_from_nvs_def demo_nvs_ops_def demo_store_def)
  have n: "\<not> storage_event_exists (demo_store\<lparr>sg_files := Map.empty\<rparr>) demo_id"
    by (simp add: storage_event_exists_def find_index_entry_def demo_store_def)
  have "storage_init demo_nvs_ops True True 1814400 (sg_files sg') (sg_nvs sg') = Some (demo_store\<lparr>sg_files := sg_files sg'\<rparr>)"
    using i r(2) by simp
  then show ?thesis
    using storage_restart_keeps_tenth[OF demo_nvs_lawful(1) _ demo_store_inv(1) _ demo_store_inv(2) demo_event_meta r(1) i n] r demo_nvs_lawful(2)
    by (auto simp: demo_store_def)
qed

lemma demo_spoofed_meta: "\<exists>pk t k. parse_event_meta (spoofed_event demo_id (replicate 32 9) []) = Ok (demo_id, pk, t, k)"
proof -
  let ?Q = "\<lambda>bs s. CHR 0x22 # hex_of_bytes bs @ s" and ?k = "''\"pubkey\":\"''"
  let ?e = "spoofed_event demo_id (replicate 32 9) []"
  have e: "?e = ''{\"tags\":[[{\"id\":'' @ ?Q demo_id (''\"}]],\"id\":'' @ ?Q (replicate 32 9) [])" by (simp add: spoofed_event_def)
  have skip: "from_strstr (''{\"tags\":[[{\"id\":'' @ s) ?k = from_strstr s ?k" "from_strstr (''\"}]],\"id\":'' @ s) ?k = from_strstr s ?k" for s
    by (simp_all add: starts_with_def)
  have q: "from_strstr (?Q bs s) ?k = from_strstr s ?k" if "bs \<noteq> []" for bs s
    by (rule from_strstr_quoted_hex[OF that]) (simp add: hex_val_def)
  have ne: "demo_id \<noteq> []" "replicate 32 (9 :: u8) \<noteq> []" by (simp_all add: demo_id_def)
  have "from_strstr ?e ?k = None" unfolding e skip q[OF ne(1)] q[OF ne(2)] by simp
  then have "meta_hex ?e ?k = Ok (replicate 32 0)" by (simp add: meta_hex_from)
  moreover have "from_strstr ?e ''\"id\":\"'' = Some (''\"id\":\"'' @ hex_of_bytes demo_id @ ''\"}]],\"id\":'' @ ?Q (replicate 32 9) [])"
    unfolding e by (simp add: starts_with_def)
  then have "meta_hex ?e ''\"id\":\"'' = Ok demo_id" by (rule meta_hex_found) (simp add: demo_id_def)
  ultimately show ?thesis by (simp add: parse_event_meta_def)
qed

theorem storage_id_spoofed_witness:
  "\<exists>sg'. storage_save_event_json demo_nvs_ops demo_store_env (spoofed_event demo_id (replicate 32 9) []) demo_store = Ok (STORAGE_OK, sg') \<and>
     storage_save_event_json demo_nvs_ops demo_store_env demo_event sg' = Ok (STORAGE_ERR_DUPLICATE, sg')"
proof -
  let ?ev = "spoofed_event demo_id (replicate 32 9) []"
  obtain pk t k where m: "parse_event_meta ?ev = Ok (demo_id, pk, t, k)" using demo_spoofed_meta by blast
  obtain sg' where r: "storage_save_event_json demo_nvs_ops demo_store_env ?ev demo_store = Ok (STORAGE_OK, sg')"
    by (rule storage_save_spec[OF demo_store_inv(1) m demo_store_inv(2), of demo_nvs_ops demo_store_env]) (use demo_save_ok in auto)
  have n: "\<not> storage_event_exists demo_store (replicate 32 9)"
    by (simp add: storage_event_exists_def find_index_entry_def demo_store_def)
  have "demo_id \<noteq> replicate 32 9" "length demo_id = 32" by (simp_all add: demo_id_def replicate_eq_replicate)
  then show ?thesis using storage_id_spoofed[OF demo_store_inv(1,2) _ _ n r] demo_event_meta r by blast
qed

end
