(* ===== verification/TG_Nostr.thy ===== *)
theory TG_Nostr
  imports TG_RelayTables TG_Storage
begin

text \<open>
  The Nostr relay: validation of events (\<^verbatim>\<open>components/wisp_relay/relay_validator.c\<close>), deletion events
  (\<^verbatim>\<open>deletion.c\<close>), the messages of the relay and their dispatch (\<^verbatim>\<open>router.c\<close>, \<^verbatim>\<open>handlers.c\<close>,
  \<^verbatim>\<open>broadcaster.c\<close>) and the relay inside the gate (\<^verbatim>\<open>main/local_relay.c\<close>). cJSON, SHA-256, the
  signature check, the clocks and the transport are parameters; a message sent is appended to
  \<open>rc_sent\<close>. Several handlers read the text of a JSON value after \<open>cJSON_Delete\<close> has freed it; \<open>re_stale\<close>
  gives the text that is found there then, so what depends on it depends on freed memory.
\<close>

unbundle bit_operations_syntax

record relay_env =
  re_parse :: "string \<Rightarrow> json option"
  re_print :: "json \<Rightarrow> string"
  re_sha :: "string \<Rightarrow> u8 list"
  re_schnorr :: "u8 list \<Rightarrow> u8 list \<Rightarrow> u8 list \<Rightarrow> bool"
  re_uptime :: u32
  re_timer :: u32
  re_store :: store_env
  re_stale :: "string \<Rightarrow> string"

text \<open>\<open>rc_max_future_sec\<close> is the only field of the configuration that the handlers read.\<close>

record 'n relay_ctx =
  rc_ws :: ws_server
  rc_subs :: sub_manager
  rc_storage :: "'n storage_engine"
  rc_rate :: rate_limiter
  rc_max_future_sec :: int
  rc_sent :: "(int \<times> string) list"

text \<open>\<open>item->valuestring\<close>: \<open>NULL\<close> unless the item is a string.\<close>

definition valuestring :: "json \<Rightarrow> string option" where
  "valuestring j = (case j of JStr s \<Rightarrow> Some s | _ \<Rightarrow> None)"

definition nonnull :: "'a option \<Rightarrow> 'a cres" where
  "nonnull x = (case x of Some v \<Rightarrow> Ok v | None \<Rightarrow> Undef)"

section \<open>Validation\<close>

definition validator_hex_to_bytes :: "string \<Rightarrow> nat \<Rightarrow> u8 list \<Rightarrow> (bool \<times> u8 list) cres" where
  "validator_hex_to_bytes hex hex_len out = (if hex_len \<noteq> length out * 2 then Ok (False, out) else hex_scan hex out)"

text \<open>
  The text whose hash is the id. Missing members are dereferenced, except \<open>tags\<close>; a missing \<open>tags\<close> or a
  content that is not a string gives no array element.
\<close>

definition serialize_event_for_id :: "relay_env \<Rightarrow> string \<Rightarrow> string cres" where
  "serialize_event_for_id env event_json =
     (case re_parse env event_json of
        None \<Rightarrow> Fail
      | Some obj \<Rightarrow>
          cbind (nonnull (json_get_ci obj ''pubkey'')) (\<lambda>pk.
          cbind (nonnull (json_get_ci obj ''created_at'')) (\<lambda>ca.
          cbind (nonnull (json_get_ci obj ''kind'')) (\<lambda>kind.
          cbind (nonnull (json_get_ci obj ''content'')) (\<lambda>content.
            Ok (re_print env (JArr
              ([json_int 0] @ (case valuestring pk of Some s \<Rightarrow> [JStr s] | None \<Rightarrow> [])
               @ [JNum (valuedouble ca), json_int (json_valueint kind)]
               @ (case json_get_ci obj ''tags'' of Some t \<Rightarrow> [t] | None \<Rightarrow> [])
               @ (case valuestring content of Some s \<Rightarrow> [JStr s] | None \<Rightarrow> [])))))))))"

definition verify_event_id :: "relay_env \<Rightarrow> string \<Rightarrow> u8 list \<Rightarrow> bool cres" where
  "verify_event_id env event_json expected_id =
     (case serialize_event_for_id env event_json of
        Ok serialized \<Rightarrow> Ok (re_sha env serialized = expected_id)
      | Fail \<Rightarrow> Ok False
      | Undef \<Rightarrow> Undef)"

definition relay_validator_verify_event :: "relay_env \<Rightarrow> string \<Rightarrow> bool cres" where
  "relay_validator_verify_event env event_json =
     (case re_parse env event_json of
        None \<Rightarrow> Ok False
      | Some obj \<Rightarrow>
          (case (json_get_ci obj ''id'', json_get_ci obj ''pubkey'', json_get_ci obj ''sig'') of
             (Some id_item, Some pk_item, Some sig_item) \<Rightarrow>
               cbind (nonnull (valuestring id_item)) (\<lambda>id_hex.
               cbind (nonnull (valuestring pk_item)) (\<lambda>pk_hex.
               cbind (nonnull (valuestring sig_item)) (\<lambda>sig_hex.
                 if length id_hex \<noteq> 64 \<or> length pk_hex \<noteq> 64 \<or> length sig_hex \<noteq> 128 then Ok False
                 else
                   cbind (validator_hex_to_bytes id_hex 64 (replicate 32 0)) (\<lambda>(ok1, event_id).
                   cbind (validator_hex_to_bytes pk_hex 64 (replicate 32 0)) (\<lambda>(ok2, pubkey).
                   cbind (validator_hex_to_bytes sig_hex 128 (replicate 64 0)) (\<lambda>(ok3, sig).
                     if \<not> (ok1 \<and> ok2 \<and> ok3) then Ok False
                     else
                       cbind (verify_event_id env event_json event_id) (\<lambda>idok.
                         Ok (idok \<and> re_schnorr env pubkey event_id sig))))))))
           | _ \<Rightarrow> Ok False))"

section \<open>Deletion events\<close>

definition NOSTR_KIND_DELETION :: int where
  "NOSTR_KIND_DELETION = 5"

text \<open>The value of a tag with the given name, as the three loops read it.\<close>

definition tag_value :: "string \<Rightarrow> json \<Rightarrow> string option" where
  "tag_value name tag =
     (case tag of
        JArr (JStr n # JStr v # _) \<Rightarrow> if n = name then Some v else None
      | _ \<Rightarrow> None)"

definition event_tags :: "relay_env \<Rightarrow> string \<Rightarrow> json list" where
  "event_tags env event_json =
     (case re_parse env event_json of
        Some obj \<Rightarrow> (case json_get_ci obj ''tags'' of Some (JArr ts) \<Rightarrow> ts | _ \<Rightarrow> [])
      | None \<Rightarrow> [])"

definition extract_event_id_field :: "relay_env \<Rightarrow> string \<Rightarrow> u8 list cres" where
  "extract_event_id_field env event_json =
     (case re_parse env event_json of
        Some obj \<Rightarrow>
          (case json_get_ci obj ''id'' of
             Some (JStr s) \<Rightarrow>
               if length s \<noteq> 64 then Fail
               else cbind (relay_hex_to_bytes s 64 (replicate 32 0)) (\<lambda>(ok, bs). if ok then Ok bs else Fail)
           | _ \<Rightarrow> Fail)
      | None \<Rightarrow> Fail)"

fun delete_by_e_tags :: "'n nvs_ops \<Rightarrow> json list \<Rightarrow> 'n storage_engine \<Rightarrow> 'n storage_engine cres" where
  "delete_by_e_tags ops [] sg = Ok sg"
| "delete_by_e_tags ops (tag # tags) sg =
     (case tag_value ''e'' tag of
        None \<Rightarrow> delete_by_e_tags ops tags sg
      | Some v \<Rightarrow>
          cbind (relay_hex_to_bytes v 64 (replicate 32 0)) (\<lambda>(ok, event_id).
            delete_by_e_tags ops tags (if ok then snd (storage_delete_event ops event_id sg) else sg)))"

text \<open>
  \<open>sscanf\<close> with the format of an address tag: a number, a colon and up to 64 characters other than a
  colon; \<open>None\<close> when fewer than two fields were read.
\<close>

definition scan_address :: "string \<Rightarrow> (int \<times> string) option" where
  "scan_address s =
     (case skip_sign (dropWhile is_space s) of (neg, r) \<Rightarrow>
        (let ds = takeWhile (\<lambda>c. digit_in 10 c \<noteq> None) r; v = int (digits_value 10 ds) in
         if ds = [] then None
         else (case dropWhile (\<lambda>c. digit_in 10 c \<noteq> None) r of
                 c # rest \<Rightarrow>
                   (let pk = take 64 (takeWhile (\<lambda>d. d \<noteq> CHR '':'') rest) in
                    if c = CHR '':'' \<and> pk \<noteq> [] then Some (clamp_signed 32 (if neg then - v else v), pk) else None)
               | [] \<Rightarrow> None)))"

text \<open>The 32 bytes at the start of an event text, taken as an id; a text shorter than 31 bytes is overread.\<close>

definition text_as_id :: "string \<Rightarrow> u8 list cres" where
  "text_as_id s = (if length s + 1 < 32 then Undef else Ok (take 32 (map of_char s @ [0])))"

fun delete_texts :: "'n nvs_ops \<Rightarrow> string list \<Rightarrow> 'n storage_engine \<Rightarrow> 'n storage_engine cres" where
  "delete_texts ops [] sg = Ok sg"
| "delete_texts ops (t # ts) sg = cbind (text_as_id t) (\<lambda>i. delete_texts ops ts (snd (storage_delete_event ops i sg)))"

fun delete_by_a_tags :: "relay_env \<Rightarrow> 'n nvs_ops \<Rightarrow> string \<Rightarrow> json list \<Rightarrow> 'n storage_engine \<Rightarrow> 'n storage_engine cres" where
  "delete_by_a_tags env ops deleter [] sg = Ok sg"
| "delete_by_a_tags env ops deleter (tag # tags) sg =
     (case tag_value ''a'' tag of
        None \<Rightarrow> delete_by_a_tags env ops deleter tags sg
      | Some v \<Rightarrow>
          (case scan_address v of
             None \<Rightarrow> delete_by_a_tags env ops deleter tags sg
           | Some (kind, pk) \<Rightarrow>
               if pk \<noteq> deleter then delete_by_a_tags env ops deleter tags sg
               else cbind (storage_query_events_json (sv_time (re_store env)) kind (Some pk) 100 sg) (\<lambda>(e, results).
                    cbind (delete_texts ops results sg) (\<lambda>sg1. delete_by_a_tags env ops deleter tags sg1))))"

fun delete_by_ids :: "relay_env \<Rightarrow> 'n nvs_ops \<Rightarrow> string list \<Rightarrow> 'n storage_engine \<Rightarrow> 'n storage_engine cres" where
  "delete_by_ids env ops [] sg = Ok sg"
| "delete_by_ids env ops (t # ts) sg =
     (case extract_event_id_field env t of
        Ok eid \<Rightarrow> delete_by_ids env ops ts (snd (storage_delete_event ops eid sg))
      | Fail \<Rightarrow> delete_by_ids env ops ts sg
      | Undef \<Rightarrow> Undef)"

fun delete_by_k_tags :: "relay_env \<Rightarrow> 'n nvs_ops \<Rightarrow> string \<Rightarrow> json list \<Rightarrow> 'n storage_engine \<Rightarrow> 'n storage_engine cres" where
  "delete_by_k_tags env ops deleter [] sg = Ok sg"
| "delete_by_k_tags env ops deleter (tag # tags) sg =
     (case tag_value ''k'' tag of
        None \<Rightarrow> delete_by_k_tags env ops deleter tags sg
      | Some v \<Rightarrow>
          cbind (storage_query_events_json (sv_time (re_store env)) (c_atoi v) (Some deleter) 500 sg) (\<lambda>(e, results).
          cbind (delete_by_ids env ops results sg) (\<lambda>sg1. delete_by_k_tags env ops deleter tags sg1)))"

text \<open>The public key is copied after the parsed event has been freed.\<close>

definition deletion_process_json :: "relay_env \<Rightarrow> 'n nvs_ops \<Rightarrow> string \<Rightarrow> 'n storage_engine \<Rightarrow> 'n storage_engine cres" where
  "deletion_process_json env ops event_json sg =
     (case re_parse env event_json of
        None \<Rightarrow> Ok sg
      | Some obj \<Rightarrow>
          cbind (case json_get_ci obj ''created_at'' of Some ca \<Rightarrow> d2u64 (valuedouble ca) | None \<Rightarrow> Ok 0) (\<lambda>created_at.
          if (case json_get_ci obj ''kind'' of Some k \<Rightarrow> json_valueint k | None \<Rightarrow> 0) \<noteq> NOSTR_KIND_DELETION then Ok sg
          else
            cbind (case json_get_ci obj ''pubkey'' of Some pk \<Rightarrow> nonnull (map_option (re_stale env) (valuestring pk)) | None \<Rightarrow> Ok []) (\<lambda>deleter.
            cbind (delete_by_e_tags ops (event_tags env event_json) sg) (\<lambda>sg1.
            cbind (delete_by_a_tags env ops deleter (event_tags env event_json) sg1) (\<lambda>sg2.
            delete_by_k_tags env ops deleter (event_tags env event_json) sg2)))))"

section \<open>Messages to clients\<close>

definition ws_server_send :: "int \<Rightarrow> string \<Rightarrow> 'n relay_ctx \<Rightarrow> 'n relay_ctx" where
  "ws_server_send fd data ctx = (if ws_running (rc_ws ctx) then ctx\<lparr>rc_sent := rc_sent ctx @ [(fd, data)]\<rparr> else ctx)"

definition router_send_notice :: "relay_env \<Rightarrow> int \<Rightarrow> string \<Rightarrow> 'n relay_ctx \<Rightarrow> 'n relay_ctx" where
  "router_send_notice env fd msg ctx = ws_server_send fd (re_print env (JArr [JStr ''NOTICE'', JStr msg])) ctx"

text \<open>A null id adds no element to the array.\<close>

definition router_send_ok :: "relay_env \<Rightarrow> int \<Rightarrow> string option \<Rightarrow> bool \<Rightarrow> string \<Rightarrow> 'n relay_ctx \<Rightarrow> 'n relay_ctx" where
  "router_send_ok env fd id_hex accepted msg ctx =
     ws_server_send fd (re_print env (JArr ([JStr ''OK''] @ (case id_hex of Some s \<Rightarrow> [JStr s] | None \<Rightarrow> [])
       @ [JBool accepted, JStr msg]))) ctx"

definition router_send_eose :: "relay_env \<Rightarrow> int \<Rightarrow> string \<Rightarrow> 'n relay_ctx \<Rightarrow> 'n relay_ctx" where
  "router_send_eose env fd sid ctx = ws_server_send fd (re_print env (JArr [JStr ''EOSE'', JStr sid])) ctx"

definition router_send_closed :: "relay_env \<Rightarrow> int \<Rightarrow> string \<Rightarrow> string \<Rightarrow> 'n relay_ctx \<Rightarrow> 'n relay_ctx" where
  "router_send_closed env fd sid msg ctx = ws_server_send fd (re_print env (JArr [JStr ''CLOSED'', JStr sid, JStr msg])) ctx"

definition router_send_event :: "int \<Rightarrow> string \<Rightarrow> string \<Rightarrow> 'n relay_ctx \<Rightarrow> 'n relay_ctx" where
  "router_send_event fd sid event_json ctx = ws_server_send fd (''[\"EVENT\",\"'' @ sid @ ''\",'' @ event_json @ '']'') ctx"

definition broadcaster_fanout_json :: "string \<Rightarrow> int \<Rightarrow> string \<Rightarrow> u64 \<Rightarrow> 'n relay_ctx \<Rightarrow> 'n relay_ctx" where
  "broadcaster_fanout_json event_json kind pubkey_hex created_at ctx =
     fold (\<lambda>(fd, sid). router_send_event fd sid event_json)
       (sub_manager_match_json (rc_subs ctx) kind pubkey_hex created_at) ctx"

section \<open>Handlers\<close>

definition set_storage :: "'n storage_engine \<Rightarrow> 'n relay_ctx \<Rightarrow> 'n relay_ctx" where
  "set_storage sg ctx = ctx\<lparr>rc_storage := sg\<rparr>"

text \<open>
  The part of \<open>handle_event\<close> after the future check. \<open>stale_id\<close> and \<open>stale_pk\<close> are the texts of the two
  members after the parsed event has been freed. A public key that is not a string has failed the
  validation by then.
\<close>

definition store_event ::
  "relay_env \<Rightarrow> 'n nvs_ops \<Rightarrow> int \<Rightarrow> string \<Rightarrow> string option \<Rightarrow> string option \<Rightarrow> int \<Rightarrow> u64 \<Rightarrow> 'n relay_ctx \<Rightarrow> (int \<times> 'n relay_ctx) cres" where
  "store_event env ops fd event_json stale_id stale_pk kind created_at ctx =
     cbind (storage_save_event_json ops (re_store env) event_json (rc_storage ctx)) (\<lambda>(err, sg).
       if err \<noteq> STORAGE_OK then
         Ok (- 1, router_send_ok env fd stale_id False
               (if err = STORAGE_ERR_FULL then ''relay full'' else if err = STORAGE_ERR_DUPLICATE then ''duplicate'' else ''storage error'')
               (set_storage sg ctx))
       else
         (let ctx1 = router_send_ok env fd stale_id True [] (set_storage sg ctx) in
          cbind (if kind = NOSTR_KIND_DELETION then deletion_process_json env ops event_json (rc_storage ctx1) else Ok (rc_storage ctx1)) (\<lambda>sg2.
          cbind (nonnull stale_pk) (\<lambda>pk.
            Ok (0, broadcaster_fanout_json event_json kind pk created_at (set_storage sg2 ctx1))))))"

definition handle_event :: "relay_env \<Rightarrow> 'n nvs_ops \<Rightarrow> int \<Rightarrow> string \<Rightarrow> 'n relay_ctx \<Rightarrow> (int \<times> 'n relay_ctx) cres" where
  "handle_event env ops fd event_json ctx0 =
     (case rate_limiter_check (re_timer env) fd RATE_TYPE_EVENT (rc_rate ctx0) of (allowed, rl) \<Rightarrow>
       (let ctx = ctx0\<lparr>rc_rate := rl\<rparr> in
        if \<not> allowed then Ok (- 1, router_send_ok env fd (Some []) False ''rate limited'' ctx)
        else
          (case re_parse env event_json of
             None \<Rightarrow> Ok (- 1, router_send_ok env fd (Some []) False ''invalid JSON'' ctx)
           | Some obj \<Rightarrow>
               (case (json_get_ci obj ''id'', json_get_ci obj ''pubkey'', json_get_ci obj ''kind'', json_get_ci obj ''created_at'') of
                  (Some id_item, Some pubkey_item, Some kind_item, Some ca_item) \<Rightarrow>
                    (let stale_id = map_option (re_stale env) (valuestring id_item);
                         stale_pk = map_option (re_stale env) (valuestring pubkey_item) in
                     cbind (d2u64 (valuedouble ca_item)) (\<lambda>created_at.
                     if 0 < rc_max_future_sec ctx \<and> uint (re_uptime env) + rc_max_future_sec ctx < sint created_at
                     then Ok (- 1, router_send_ok env fd stale_id False ''created_at too far in future'' ctx)
                     else
                       cbind (nonnull (valuestring id_item)) (\<lambda>id_hex.
                       cbind (relay_hex_to_bytes id_hex 64 (replicate 32 0)) (\<lambda>(ok, event_id).
                       if \<not> ok then Ok (- 1, router_send_ok env fd (Some []) False ''invalid event id'' ctx)
                       else if storage_event_exists (rc_storage ctx) event_id
                       then Ok (0, router_send_ok env fd stale_id True ''duplicate'' ctx)
                       else
                         cbind (relay_validator_verify_event env event_json) (\<lambda>valid.
                         if \<not> valid then Ok (- 1, router_send_ok env fd stale_id False ''invalid signature'' ctx)
                         else store_event env ops fd event_json stale_id stale_pk (json_valueint kind_item) created_at ctx)))))
                | _ \<Rightarrow> Ok (- 1, router_send_ok env fd (Some []) False ''missing required fields'' ctx)))))"

text \<open>The strings of an array member, at most 20; an item that is not a string is dereferenced as null.\<close>

fun item_strings :: "json list \<Rightarrow> string list cres" where
  "item_strings [] = Ok []"
| "item_strings (j # js) = cbind (nonnull (valuestring j)) (\<lambda>s. cbind (item_strings js) (\<lambda>ss. Ok (s # ss)))"

definition filter_strings :: "json \<Rightarrow> string \<Rightarrow> string list cres" where
  "filter_strings obj key = (case json_get_ci obj key of Some (JArr js) \<Rightarrow> item_strings (take SUB_MAX_FILTER_ITEMS js) | _ \<Rightarrow> Ok [])"

definition filter_time :: "json \<Rightarrow> string \<Rightarrow> int cres" where
  "filter_time obj key = (case json_get_ci obj key of Some j \<Rightarrow> d2i64 (valuedouble j) | None \<Rightarrow> Ok 0)"

definition zero_filter :: sub_filter where
  "zero_filter = \<lparr>sf_ids = [], sf_authors = [], sf_kinds = [], sf_e_tags = [], sf_p_tags = [], sf_since = 0, sf_until = 0, sf_limit = 0\<rparr>"

definition parse_filter_json :: "relay_env \<Rightarrow> string \<Rightarrow> sub_filter cres" where
  "parse_filter_json env json =
     (case re_parse env json of
        None \<Rightarrow> Ok zero_filter
      | Some obj \<Rightarrow>
          cbind (filter_strings obj ''ids'') (\<lambda>ids.
          cbind (filter_strings obj ''authors'') (\<lambda>authors.
          cbind (filter_strings obj ''#e'') (\<lambda>es.
          cbind (filter_strings obj ''#p'') (\<lambda>ps.
          cbind (filter_time obj ''since'') (\<lambda>since.
          cbind (filter_time obj ''until'') (\<lambda>unt.
            Ok \<lparr>sf_ids = ids, sf_authors = authors,
                sf_kinds = (case json_get_ci obj ''kinds'' of
                   Some (JArr js) \<Rightarrow> map json_valueint (take SUB_MAX_FILTER_ITEMS js) | _ \<Rightarrow> []),
                sf_e_tags = es, sf_p_tags = ps, sf_since = since, sf_until = unt,
                sf_limit = (case json_get_ci obj ''limit'' of Some j \<Rightarrow> json_valueint j | None \<Rightarrow> 0)\<rparr>)))))))"

definition handle_req :: "relay_env \<Rightarrow> int \<Rightarrow> string \<Rightarrow> string \<Rightarrow> 'n relay_ctx \<Rightarrow> 'n relay_ctx cres" where
  "handle_req env fd sid filters_json ctx0 =
     (case rate_limiter_check (re_timer env) fd RATE_TYPE_REQ (rc_rate ctx0) of (allowed, rl) \<Rightarrow>
       (let ctx = ctx0\<lparr>rc_rate := rl\<rparr> in
        if \<not> allowed then Ok (router_send_closed env fd sid ''rate limited'' ctx)
        else
          cbind (parse_filter_json env filters_json) (\<lambda>f.
          cbind (storage_query_events_json (sv_time (re_store env)) (case sf_kinds f of k # _ \<Rightarrow> k | [] \<Rightarrow> - 1)
                   (case sf_authors f of a # _ \<Rightarrow> Some a | [] \<Rightarrow> None) (if 0 < sf_limit f then sf_limit f else 100) (rc_storage ctx)) (\<lambda>(e, results).
            (let ctx1 = fold (router_send_event fd sid) results ctx;
                 ctx2 = router_send_eose env fd sid ctx1
             in Ok (ctx2\<lparr>rc_subs := snd (sub_manager_add fd sid [f] (rc_subs ctx2))\<rparr>))))))"

definition handle_close :: "int \<Rightarrow> string \<Rightarrow> 'n relay_ctx \<Rightarrow> 'n relay_ctx" where
  "handle_close fd sid ctx = ctx\<lparr>rc_subs := snd (sub_manager_remove fd sid (rc_subs ctx))\<rparr>"

section \<open>Dispatch\<close>

definition router_dispatch :: "relay_env \<Rightarrow> 'n nvs_ops \<Rightarrow> int \<Rightarrow> string \<Rightarrow> 'n relay_ctx \<Rightarrow> 'n relay_ctx cres" where
  "router_dispatch env ops fd data ctx =
     (case re_parse env data of
        Some (JArr items) \<Rightarrow>
          if length items < 2 then Ok (router_send_notice env fd ''array too short'' ctx)
          else
            (case items ! 0 of
               JStr cmd \<Rightarrow>
                 if cmd = ''EVENT'' then
                   cbind (handle_event env ops fd (re_print env (items ! 1)) ctx) (\<lambda>(r, ctx1). Ok ctx1)
                 else if cmd = ''REQ'' \<and> 3 \<le> length items then
                   (case items ! 1 of
                      JStr sid \<Rightarrow> handle_req env fd sid (re_print env (items ! 2)) ctx
                    | _ \<Rightarrow> Ok ctx)
                 else if cmd = ''CLOSE'' then
                   (case items ! 1 of JStr sid \<Rightarrow> Ok (handle_close fd sid ctx) | _ \<Rightarrow> Ok ctx)
                 else Ok (router_send_notice env fd ''unknown command'' ctx)
             | _ \<Rightarrow> Ok (router_send_notice env fd ''invalid command'' ctx))
      | _ \<Rightarrow> Ok (router_send_notice env fd ''invalid JSON'' ctx))"

definition WS_MAX_FRAME_SIZE :: nat where
  "WS_MAX_FRAME_SIZE = 65536"

datatype ws_frame_type = HTTPD_WS_TYPE_TEXT | HTTPD_WS_TYPE_PING | HTTPD_WS_TYPE_CLOSE | HTTPD_WS_TYPE_OTHER

text \<open>
  A received frame, after the handshake. The result is whether the connection stays open; the answers
  to ping and close frames are sent by the HTTP server and are not recorded.
\<close>

definition ws_handler :: "relay_env \<Rightarrow> 'n nvs_ops \<Rightarrow> int \<Rightarrow> ws_frame_type \<Rightarrow> string \<Rightarrow> 'n relay_ctx \<Rightarrow> (bool \<times> 'n relay_ctx) cres" where
  "ws_handler env ops fd ftype payload ctx =
     (if payload = [] then Ok (True, ctx)
      else if WS_MAX_FRAME_SIZE < length payload then Ok (False, ctx)
      else
        (let ctx1 = ctx\<lparr>rc_ws := update_connection_activity (re_timer env) fd (rc_ws ctx)\<rparr> in
         case ftype of
           HTTPD_WS_TYPE_TEXT \<Rightarrow> cbind (router_dispatch env ops fd payload ctx1) (\<lambda>ctx2. Ok (True, ctx2))
         | HTTPD_WS_TYPE_CLOSE \<Rightarrow> Ok (False, ctx1)
         | _ \<Rightarrow> Ok (True, ctx1)))"

text \<open>A closing connection: the disconnect callback first, then the connection table.\<close>

definition relay_on_close :: "int \<Rightarrow> 'n relay_ctx \<Rightarrow> 'n relay_ctx" where
  "relay_on_close fd ctx = ctx\<lparr>rc_subs := sub_manager_remove_all fd (rc_subs ctx), rc_ws := ws_on_close fd (rc_ws ctx)\<rparr>"

section \<open>The relay of the gate\<close>

definition LOCAL_RELAY_TTL_SEC :: u32 where
  "LOCAL_RELAY_TTL_SEC = 21 * 24 * 3600"

definition local_relay_init :: "'n nvs_ops \<Rightarrow> bool \<Rightarrow> bool \<Rightarrow> (string \<Rightarrow> string option) \<Rightarrow> 'n \<Rightarrow> 'n relay_ctx option" where
  "local_relay_init ops psram mounted files nv =
     (case storage_init ops psram mounted LOCAL_RELAY_TTL_SEC files nv of
        None \<Rightarrow> None
      | Some sg \<Rightarrow>
          Some \<lparr>rc_ws = \<lparr>ws_running = False, ws_connections = replicate WS_MAX_CONNECTIONS ws_empty, ws_connection_count = 0\<rparr>,
                rc_subs = sub_manager_init, rc_storage = sg,
                rc_rate = rate_limiter_init (Some \<lparr>events_per_minute = 60, reqs_per_minute = 30\<rparr>),
                rc_max_future_sec = 600, rc_sent = []\<rparr>)"

definition local_relay_start :: "bool \<Rightarrow> 'n relay_ctx \<Rightarrow> 'n relay_ctx" where
  "local_relay_start started ctx = ctx\<lparr>rc_ws := snd (ws_server_init started (rc_ws ctx))\<rparr>"

definition local_relay_stop :: "'n relay_ctx \<Rightarrow> 'n relay_ctx" where
  "local_relay_stop ctx = ctx\<lparr>rc_ws := ws_server_stop (rc_ws ctx)\<rparr>"

text \<open>A public key that is not a string is a null pointer that every author filter reads; the model takes the delivery as undefined then.\<close>

definition local_relay_publish :: "relay_env \<Rightarrow> 'n nvs_ops \<Rightarrow> string \<Rightarrow> 'n relay_ctx \<Rightarrow> (bool \<times> 'n relay_ctx) cres" where
  "local_relay_publish env ops event_json ctx =
     cbind (storage_save_event_json ops (re_store env) event_json (rc_storage ctx)) (\<lambda>(err, sg).
       (let ctx1 = set_storage sg ctx in
        if err = STORAGE_ERR_DUPLICATE then Ok (True, ctx1)
        else if err \<noteq> STORAGE_OK then Ok (False, ctx1)
        else
          (case re_parse env event_json of
             None \<Rightarrow> Ok (True, ctx1)
           | Some obj \<Rightarrow>
               (case (json_get_ci obj ''pubkey'', json_get_ci obj ''kind'', json_get_ci obj ''created_at'') of
                  (Some pk, Some kind, Some ca) \<Rightarrow>
                    cbind (nonnull (valuestring pk)) (\<lambda>pk_hex.
                    cbind (d2u64 (valuedouble ca)) (\<lambda>created_at.
                      Ok (True, broadcaster_fanout_json event_json (json_valueint kind) pk_hex created_at ctx1)))
                | _ \<Rightarrow> Ok (True, ctx1)))))"

section \<open>What the handlers leave alone\<close>

lemma send_keeps [simp]:
  "rc_ws (ws_server_send fd d ctx) = rc_ws ctx" "rc_subs (ws_server_send fd d ctx) = rc_subs ctx"
  "rc_storage (ws_server_send fd d ctx) = rc_storage ctx" "rc_rate (ws_server_send fd d ctx) = rc_rate ctx"
  "rc_max_future_sec (ws_server_send fd d ctx) = rc_max_future_sec ctx"
  by (simp_all add: ws_server_send_def)

lemmas sends = router_send_notice_def router_send_ok_def router_send_eose_def router_send_closed_def router_send_event_def

lemma fold_keeps: "(\<And>x c. f (g x c) = f c) \<Longrightarrow> f (fold g xs c) = f c"
  by (induction xs arbitrary: c) simp_all

lemma fanout_keeps [simp]:
  "rc_ws (broadcaster_fanout_json j k pk t ctx) = rc_ws ctx" "rc_subs (broadcaster_fanout_json j k pk t ctx) = rc_subs ctx"
  "rc_storage (broadcaster_fanout_json j k pk t ctx) = rc_storage ctx"
  "rc_max_future_sec (broadcaster_fanout_json j k pk t ctx) = rc_max_future_sec ctx"
  unfolding broadcaster_fanout_json_def by (rule fold_keeps, simp add: sends split: prod.split)+

lemma set_storage_simps [simp]:
  "rc_ws (set_storage sg ctx) = rc_ws ctx" "rc_subs (set_storage sg ctx) = rc_subs ctx"
  "rc_storage (set_storage sg ctx) = sg" "rc_max_future_sec (set_storage sg ctx) = rc_max_future_sec ctx"
  by (simp_all add: set_storage_def)

definition same_conns :: "'n relay_ctx \<Rightarrow> 'n relay_ctx \<Rightarrow> bool" where
  "same_conns a b \<longleftrightarrow> rc_ws b = rc_ws a \<and> rc_max_future_sec b = rc_max_future_sec a"

lemma store_event_cases:
  assumes "store_event env ops fd j sid spk k t ctx = Ok (r, ctx')"
  obtains (refused) err sg m where "storage_save_event_json ops (re_store env) j (rc_storage ctx) = Ok (err, sg)" "err \<noteq> STORAGE_OK"
      "ctx' = router_send_ok env fd sid False m (set_storage sg ctx)"
  | (stored) sg sg2 pk where "storage_save_event_json ops (re_store env) j (rc_storage ctx) = Ok (STORAGE_OK, sg)"
      "(if k = NOSTR_KIND_DELETION then deletion_process_json env ops j sg else Ok sg) = Ok sg2" "spk = Some pk"
      "ctx' = broadcaster_fanout_json j k pk t (set_storage sg2 (router_send_ok env fd sid True [] (set_storage sg ctx)))"
proof -
  obtain err sg where s: "storage_save_event_json ops (re_store env) j (rc_storage ctx) = Ok (err, sg)"
    using assms by (cases "storage_save_event_json ops (re_store env) j (rc_storage ctx)") (auto simp: store_event_def)
  have c: "rc_storage (router_send_ok env fd sid True [] (set_storage sg ctx)) = sg" by (simp add: router_send_ok_def)
  show thesis
  proof (cases "err = STORAGE_OK")
    case False
    then show thesis using assms s refused[OF s False] by (force simp: store_event_def)
  next
    case True
    then show thesis using assms s stored[of sg] unfolding store_event_def
      by (simp only: cbind.simps prod.case c Let_def) (auto simp: cbind_Ok_iff nonnull_def split: option.splits)
  qed
qed

lemma store_event_keeps:
  assumes "store_event env ops fd j sid spk k t ctx = Ok (r, ctx')"
  shows "same_conns ctx ctx' \<and> rc_subs ctx' = rc_subs ctx"
  using assms by (cases rule: store_event_cases) (simp_all add: same_conns_def router_send_ok_def)

lemma handle_event_cases:
  assumes "handle_event env ops fd j ctx = Ok (r, ctx')"
  obtains (answer) a b m rl where "ctx' = router_send_ok env fd a b m (ctx\<lparr>rc_rate := rl\<rparr>)"
  | (store) a b k t rl where "relay_validator_verify_event env j = Ok True"
      "store_event env ops fd j a b k t (ctx\<lparr>rc_rate := rl\<rparr>) = Ok (r, ctx')"
  using assms unfolding handle_event_def
  by (simp add: Let_def cbind_Ok_iff split: prod.splits option.splits if_splits) blast+

lemma handle_event_keeps:
  assumes "handle_event env ops fd j ctx = Ok (r, ctx')"
  shows "same_conns ctx ctx' \<and> rc_subs ctx' = rc_subs ctx"
  using assms
proof (cases rule: handle_event_cases)
  case (store a b k t rl)
  then show ?thesis using store_event_keeps[OF store(2)] by (simp add: same_conns_def)
qed (simp add: same_conns_def sends)

lemma handle_event_verified:
  assumes "handle_event env ops fd j ctx = Ok (r, ctx')" "rc_storage ctx' \<noteq> rc_storage ctx"
  shows "relay_validator_verify_event env j = Ok True"
  using assms(1)
proof (cases rule: handle_event_cases)
  case (answer a b m rl)
  then show ?thesis using assms(2) by (simp add: sends)
qed

lemma handle_req_keeps:
  assumes "handle_req env fd sid fj ctx = Ok ctx'"
  shows "same_conns ctx ctx' \<and> rc_storage ctx' = rc_storage ctx \<and> (rc_subs ctx' = rc_subs ctx \<or> (\<exists>fs. rc_subs ctx' = snd (sub_manager_add fd sid fs (rc_subs ctx))))"
proof -
  obtain ok rl where rl: "rate_limiter_check (re_timer env) fd RATE_TYPE_REQ (rc_rate ctx) = (ok, rl)" by fastforce
  have ev: "rc_ws (router_send_event fd sid x c) = rc_ws c" "rc_subs (router_send_event fd sid x c) = rc_subs c"
    "rc_storage (router_send_event fd sid x c) = rc_storage c" "rc_max_future_sec (router_send_event fd sid x c) = rc_max_future_sec c"
    for x and c :: "'a relay_ctx" by (simp_all add: sends)
  have f: "rc_ws (fold (router_send_event fd sid) xs c) = rc_ws c" "rc_subs (fold (router_send_event fd sid) xs c) = rc_subs c"
    "rc_storage (fold (router_send_event fd sid) xs c) = rc_storage c"
    "rc_max_future_sec (fold (router_send_event fd sid) xs c) = rc_max_future_sec c" for xs and c :: "'a relay_ctx"
    by (rule fold_keeps, simp only: ev)+
  show ?thesis using assms unfolding handle_req_def rl
    by (auto simp: cbind_Ok_iff Let_def same_conns_def router_send_eose_def router_send_closed_def f split: prod.splits if_splits)
qed

text \<open>What a message of a client does to the subscriptions, and that the connections stay.\<close>

lemma router_dispatch_subs:
  assumes "router_dispatch env ops fd data ctx = Ok ctx'"
  shows "same_conns ctx ctx' \<and> (rc_subs ctx' = rc_subs ctx \<or> (\<exists>sid fs. rc_subs ctx' = snd (sub_manager_add fd sid fs (rc_subs ctx))) \<or>
    (\<exists>sid. rc_subs ctx' = snd (sub_manager_remove fd sid (rc_subs ctx))))"
  using assms
  by (auto simp: router_dispatch_def cbind_Ok_iff handle_close_def same_conns_def router_send_notice_def
      split: option.splits json.splits if_splits dest!: handle_event_keeps handle_req_keeps)

section \<open>Which events are stored\<close>

lemma verify_event_sound:
  assumes "relay_validator_verify_event env j = Ok True"
  obtains obj i pk sig ser where "re_parse env j = Some obj" "serialize_event_for_id env j = Ok ser" "re_sha env ser = i"
    "re_schnorr env pk i sig" "json_get_ci obj ''id'' \<noteq> None" "json_get_ci obj ''pubkey'' \<noteq> None" "json_get_ci obj ''sig'' \<noteq> None"
  using assms
  by (auto simp: relay_validator_verify_event_def verify_event_id_def cbind_Ok_iff split: option.splits if_splits cres.splits)


text \<open>
  The relay refuses the present: the limit on future events is taken from the uptime of the
  device, not from its clock. A message with an event stamped later than ten minutes after the device's
  uptime, which means every event stamped with the time of day, changes neither the store nor the
  subscriptions, whatever else the event contains; the sender gets one message back.
\<close>

theorem relay_refuses_wall_clock:
  assumes "re_parse env data = Some (JArr (JStr ''EVENT'' # ev # others))" "re_parse env (re_print env ev) = Some ev"
    and "json_get_ci ev ''created_at'' = Some (json_int t)" "uint (re_uptime env) + 600 < t" "t < 2 ^ 63"
    and "rc_max_future_sec ctx = 600"
  shows "\<exists>ctx'. router_dispatch env ops fd data ctx = Ok ctx' \<and> rc_storage ctx' = rc_storage ctx \<and> rc_subs ctx' = rc_subs ctx \<and>
    (ws_running (rc_ws ctx) \<longrightarrow> (\<exists>answer. rc_sent ctx' = rc_sent ctx @ [(fd, answer)]))"
proof -
  have t0: "0 \<le> t" using assms(4) uint_ge_0[of "re_uptime env"] by linarith
  have u: "uint (of_int t :: u64) = t" using assms(5) t0 by (simp add: uint_word_of_int_eq take_bit_int_eq_self)
  have t: "d2u64 (valuedouble (json_int t)) = Ok (of_int t)" "sint (of_int t :: u64) = t"
    using assms(5) t0 sint_small[of "of_int t"] u by (simp_all add: d2u64_def valuedouble_def json_int_def)
  have "\<exists>r a b m rl. handle_event env ops fd (re_print env ev) ctx = Ok (r, router_send_ok env fd a b m (ctx\<lparr>rc_rate := rl\<rparr>))"
    using assms(2,3,4,6) t unfolding handle_event_def
    by (cases "rate_limiter_check (re_timer env) fd RATE_TYPE_EVENT (rc_rate ctx)"; cases "json_get_ci ev ''id''";
        cases "json_get_ci ev ''pubkey''"; cases "json_get_ci ev ''kind''") (auto simp: Let_def)
  then obtain r a b m rl where "handle_event env ops fd (re_print env ev) ctx = Ok (r, router_send_ok env fd a b m (ctx\<lparr>rc_rate := rl\<rparr>))"
    by blast
  then show ?thesis using assms(1) by (simp add: router_dispatch_def router_send_ok_def ws_server_send_def)
qed

text \<open>
  An event without a \<open>content\<close> member crashes the relay: when it passes the cheap checks (a well-formed
  new id, key and signature text, a time that is not in the future), the validator reads the missing
  member through a null pointer, before it has checked any signature.
\<close>

theorem relay_missing_content_undefined:
  assumes "fst (rate_limiter_check (re_timer env) fd RATE_TYPE_EVENT (rc_rate ctx))" "re_parse env j = Some obj"
    and "json_get_ci obj ''id'' = Some (JStr (hex_of_bytes i))" "length i = 32"
    and "json_get_ci obj ''pubkey'' = Some (JStr (hex_of_bytes pk))" "length pk = 32"
    and "json_get_ci obj ''sig'' = Some (JStr (hex_of_bytes sig))" "length sig = 64"
    and "json_get_ci obj ''kind'' = Some kind" "json_get_ci obj ''created_at'' = Some ca" "d2u64 (valuedouble ca) = Ok t"
    and "sint t \<le> uint (re_uptime env) + rc_max_future_sec ctx" "json_get_ci obj ''content'' = None"
    and "\<not> storage_event_exists (rc_storage ctx) i"
  shows "handle_event env ops fd j ctx = Undef"
proof -
  obtain rl where rl: "rate_limiter_check (re_timer env) fd RATE_TYPE_EVENT (rc_rate ctx) = (True, rl)"
    using assms(1) by (cases "rate_limiter_check (re_timer env) fd RATE_TYPE_EVENT (rc_rate ctx)") auto
  have h: "hex_scan (hex_of_bytes bs) out = Ok (True, bs)" if "length out = length bs" for bs out
    using hex_scan_hex[OF that, of "[]"] by simp
  have v: "relay_validator_verify_event env j = Undef"
    using assms(2-11,13)
    by (simp add: relay_validator_verify_event_def valuestring_def nonnull_def validator_hex_to_bytes_def h verify_event_id_def serialize_event_for_id_def)
  have "relay_hex_to_bytes (hex_of_bytes i) 64 (replicate 32 0) = Ok (True, i)" using assms(4) h by (simp add: relay_hex_to_bytes_def)
  then show ?thesis
    using assms v by (simp add: handle_event_def rl valuestring_def nonnull_def not_less)
qed

section \<open>Deletion\<close>

definition e_tag :: "u8 list \<Rightarrow> json" where
  "e_tag i = JArr [JStr ''e'', JStr (hex_of_bytes i)]"

lemma e_tags_fold:
  "(\<And>i. i \<in> set is \<Longrightarrow> length i = 32) \<Longrightarrow>
     delete_by_e_tags ops (map e_tag is) sg = Ok (fold (\<lambda>i sg. snd (storage_delete_event ops i sg)) is sg)"
  by (induction "is" arbitrary: sg) (simp_all add: e_tag_def tag_value_def relay_hex_32[where r = "[]", simplified])

lemma e_tags_others: "delete_by_a_tags env ops d (map e_tag is) sg = Ok sg" "delete_by_k_tags env ops d (map e_tag is) sg = Ok sg"
  by (induction "is" arbitrary: sg) (simp_all add: e_tag_def tag_value_def)

text \<open>
  (C21) Anybody can delete anything: a deletion event that names events by their ids removes exactly
  these events from the store, whoever signed it; the authors of the named events are not looked at.
\<close>

theorem relay_deletes_any_author:
  assumes "sg_inv sg" "re_parse env j = Some obj" "json_get_ci obj ''kind'' = Some (json_int 5)"
    and "json_get_ci obj ''pubkey'' = Some (JStr pk)" "json_get_ci obj ''created_at'' = Some ca" "d2u64 (valuedouble ca) = Ok t"
    and "json_get_ci obj ''tags'' = Some (JArr (map e_tag is))" "\<forall>i \<in> set is. length i = 32"
  shows "\<exists>sg'. deletion_process_json env ops j sg = Ok sg' \<and> sg_inv sg' \<and>
    (\<forall>i. storage_event_exists sg' i \<longleftrightarrow> storage_event_exists sg i \<and> i \<notin> set is)"
proof -
  let ?sg = "fold (\<lambda>i sg. snd (storage_delete_event ops i sg)) is sg"
  have k: "json_valueint (json_int 5) = 5" by (simp add: json_valueint_def json_int_def valueint_def clamp_signed_def)
  have "delete_by_e_tags ops (map e_tag is) sg = Ok ?sg" by (rule e_tags_fold) (use assms(8) in blast)
  then have "deletion_process_json env ops j sg = Ok ?sg"
    using assms k
    by (simp add: e_tags_others deletion_process_json_def event_tags_def NOSTR_KIND_DELETION_def valuestring_def nonnull_def)
  then show ?thesis using est.fold_del[OF assms(1), of ops "is"] est.has_fold_del[OF assms(1), of ops "is"] by blast
qed

section \<open>Subscriptions and connections\<close>

definition sub_fds :: "sub_manager \<Rightarrow> int set" where
  "sub_fds m = {su_conn_fd s | s. s \<in> set (sm_subs m) \<and> su_active s}"

lemma sub_fds_add: "sub_fds (snd (sub_manager_add fd sid fs m)) \<subseteq> insert fd (sub_fds m)"
proof (cases "find_sub m fd sid")
  case None
  then show ?thesis
    by (auto simp: sub_manager_add_def sub_fds_def Let_def split: option.splits dest!: set_update_subset_insert[THEN subsetD])
next
  case (Some i)
  then have "i < length (sm_subs m)" "su_conn_fd (sm_subs m ! i) = fd" by (auto simp: find_sub_def sub_is_def dest: first_idx_SomeD)
  then show ?thesis using Some
    by (auto simp: sub_manager_add_def sub_fds_def Let_def dest!: set_update_subset_insert[THEN subsetD])
qed

lemma sub_fds_remove: "sub_fds (snd (sub_manager_remove fd sid m)) \<subseteq> sub_fds m"
  by (auto simp: sub_manager_remove_def sub_fds_def clear_subscription_def split: option.splits dest!: set_update_subset_insert[THEN subsetD])

lemma sub_fds_remove_all: "sub_fds (sub_manager_remove_all fd m) = sub_fds m - {fd}"
  by (auto simp: sub_manager_remove_all_def sub_fds_def clear_subscription_def split: if_splits)

lemma sub_fds_match: "(fd, sid) \<in> set (sub_manager_match_json m k pk t) \<Longrightarrow> fd \<in> sub_fds m"
  by (auto simp: in_match_iff sub_fds_def sub_is_def)

text \<open>The relay between its start and its stop: connections open, send frames and close; the gate publishes; the cleanup task runs.\<close>

inductive relay_reach :: "'n nvs_ops \<Rightarrow> 'n relay_ctx \<Rightarrow> bool" for ops where
  boot: "local_relay_init ops psram mounted files nv = Some ctx \<Longrightarrow> relay_reach ops (local_relay_start started ctx)"
| opened: "relay_reach ops ctx \<Longrightarrow> fd \<notin> ws_fds (rc_ws ctx) \<Longrightarrow> relay_reach ops (ctx\<lparr>rc_ws := snd (ws_on_open now peer fd (rc_ws ctx))\<rparr>)"
| frame: "relay_reach ops ctx \<Longrightarrow> fd \<in> ws_fds (rc_ws ctx) \<Longrightarrow> ws_handler env ops fd ftype payload ctx = Ok (r, ctx') \<Longrightarrow> relay_reach ops ctx'"
| closed: "relay_reach ops ctx \<Longrightarrow> relay_reach ops (relay_on_close fd ctx)"
| publish: "relay_reach ops ctx \<Longrightarrow> local_relay_publish env ops j ctx = Ok (ok, ctx') \<Longrightarrow> relay_reach ops ctx'"
| cleanup: "relay_reach ops ctx \<Longrightarrow> storage_cleanup_round ops now (n, rc_storage ctx) = (n', sg) \<Longrightarrow> relay_reach ops (set_storage sg ctx)"

definition relay_inv :: "'n relay_ctx \<Rightarrow> bool" where
  "relay_inv ctx \<longleftrightarrow> ws_inv (rc_ws ctx) \<and> sub_inv (rc_subs ctx) \<and> sub_fds (rc_subs ctx) \<subseteq> ws_fds (rc_ws ctx) \<and> rc_max_future_sec ctx = 600"

lemma publish_keeps:
  assumes "local_relay_publish env ops j ctx = Ok (ok, ctx')"
  shows "same_conns ctx ctx' \<and> rc_subs ctx' = rc_subs ctx"
proof -
  obtain err sg where s: "storage_save_event_json ops (re_store env) j (rc_storage ctx) = Ok (err, sg)"
    using assms by (cases "storage_save_event_json ops (re_store env) j (rc_storage ctx)") (auto simp: local_relay_publish_def)
  have "ctx' = set_storage sg ctx \<or> (\<exists>k pk t. ctx' = broadcaster_fanout_json j k pk t (set_storage sg ctx))"
  proof (cases "re_parse env j")
    case None
    then show ?thesis using assms s by (auto simp: local_relay_publish_def Let_def split: if_splits)
  next
    case (Some obj)
    then show ?thesis using assms s
      by (cases "json_get_ci obj ''pubkey''"; cases "json_get_ci obj ''kind''"; cases "json_get_ci obj ''created_at''")
         (auto simp: local_relay_publish_def Let_def cbind_Ok_iff split: if_splits)
  qed
  then show ?thesis by (auto simp: same_conns_def)
qed

lemma relay_inv_frame:
  assumes "relay_inv ctx" "fd \<in> ws_fds (rc_ws ctx)" "ws_handler env ops fd ftype payload ctx = Ok (r, ctx')"
  shows "relay_inv ctx'"
proof -
  define ctx1 where "ctx1 = ctx\<lparr>rc_ws := update_connection_activity (re_timer env) fd (rc_ws ctx)\<rparr>"
  have i1: "relay_inv ctx1" "fd \<in> ws_fds (rc_ws ctx1)" using assms(1,2) update_activity_spec[where w = "rc_ws ctx"] by (simp_all add: relay_inv_def ctx1_def)
  have "relay_inv c" if c: "router_dispatch env ops fd payload ctx1 = Ok c" for c
  proof -
    have k: "rc_ws c = rc_ws ctx1" "rc_max_future_sec c = rc_max_future_sec ctx1"
      using router_dispatch_subs[OF c] by (simp_all add: same_conns_def)
    have "sub_inv (rc_subs c) \<and> sub_fds (rc_subs c) \<subseteq> insert fd (sub_fds (rc_subs ctx1))"
    proof -
      consider "rc_subs c = rc_subs ctx1" | sid fs where "rc_subs c = snd (sub_manager_add fd sid fs (rc_subs ctx1))"
        | sid where "rc_subs c = snd (sub_manager_remove fd sid (rc_subs ctx1))" using router_dispatch_subs[OF c] by blast
      moreover have "sub_inv (rc_subs ctx1)" using i1(1) by (simp add: relay_inv_def)
      ultimately show ?thesis
      proof cases
        case (2 sid fs)
        then show ?thesis using sub_inv_add[OF \<open>sub_inv (rc_subs ctx1)\<close>] sub_fds_add[of fd sid fs "rc_subs ctx1"] by simp
      next
        case (3 sid)
        then show ?thesis using sub_inv_remove[OF \<open>sub_inv (rc_subs ctx1)\<close>] sub_fds_remove[of fd sid "rc_subs ctx1"] by auto
      qed auto
    qed
    then show ?thesis using i1 k by (auto simp: relay_inv_def)
  qed
  then show ?thesis using assms(1,3) i1
    by (auto simp: ws_handler_def Let_def ctx1_def[symmetric] cbind_Ok_iff split: if_splits ws_frame_type.splits)
qed

lemma relay_inv_reach: "relay_reach ops ctx \<Longrightarrow> relay_inv ctx"
proof (induction rule: relay_reach.induct)
  case (boot psram mounted files nv ctx started)
  have "sub_fds sub_manager_init = {}" by (auto simp: sub_fds_def sub_manager_init_def)
  then show ?case using boot sub_inv_init
    by (auto simp: relay_inv_def local_relay_init_def local_relay_start_def ws_server_init_def ws_inv_def split: option.splits)
next
  case (opened ctx fd now peer)
  then show ?case using ws_on_open_spec[of "rc_ws ctx" fd now peer] by (auto simp: relay_inv_def)
next
  case (frame ctx fd env ftype payload r ctx')
  then show ?case using relay_inv_frame by blast
next
  case (closed ctx fd)
  then show ?case using ws_on_close_spec[of "rc_ws ctx" fd] sub_inv_remove_all[of "rc_subs ctx" fd] sub_fds_remove_all[of fd "rc_subs ctx"]
    by (auto simp: relay_inv_def relay_on_close_def)
next
  case (publish ctx env j ok ctx')
  then show ?case using publish_keeps[of env ops j ctx ok ctx'] by (simp add: relay_inv_def same_conns_def)
next
  case (cleanup ctx now n n' sg)
  then show ?case by (simp add: relay_inv_def)
qed

text \<open>
  (C15) Nothing is delivered to a closed connection: in every state the running relay can reach, each
  subscription an event is delivered to belongs to a connection that is open, and there are at most
  eight connections with at most eight subscriptions each.
\<close>

theorem relay_no_orphan_subscriptions:
  assumes "relay_reach ops ctx"
  shows "fst ` set (sub_manager_match_json (rc_subs ctx) k pk t) \<subseteq> ws_fds (rc_ws ctx) \<and> card (ws_fds (rc_ws ctx)) \<le> 8 \<and>
    unat (ws_connection_count (rc_ws ctx)) = card (ws_fds (rc_ws ctx)) \<and> conn_subs fd (rc_subs ctx) \<le> 8"
proof -
  have inv: "relay_inv ctx" by (rule relay_inv_reach[OF assms])
  then have w: "ws_inv (rc_ws ctx)" by (simp add: relay_inv_def)
  let ?n = "count_if wc_active (ws_connections (rc_ws ctx))"
  have n: "card (ws_fds (rc_ws ctx)) = ?n" "?n \<le> 8"
    using w count_if_le[of wc_active "ws_connections (rc_ws ctx)"]
    by (auto simp: ws_inv_def ws_fds_def distinct_card length_used WS_MAX_CONNECTIONS_def)
  then have "unat (ws_connection_count (rc_ws ctx)) = ?n" using w by (simp add: ws_inv_def unat_of_nat)
  moreover have "fst ` set (sub_manager_match_json (rc_subs ctx) k pk t) \<subseteq> ws_fds (rc_ws ctx)"
    using inv sub_fds_match by (fastforce simp: relay_inv_def)
  ultimately show ?thesis using n inv by (simp add: relay_inv_def sub_inv_def sub_sizes)
qed

section \<open>A relay at work\<close>

definition demo_ev :: json where
  "demo_ev = JObj [(''id'', JStr (hex_of_bytes demo_id)), (''pubkey'', JStr (hex_of_bytes demo_id)), (''created_at'', json_int 5),
     (''kind'', json_int 1), (''tags'', JArr []), (''content'', JStr []), (''sig'', JStr (hex_of_bytes (replicate 64 1)))]"

definition demo_relay_env :: relay_env where
  "demo_relay_env = \<lparr>re_parse = (\<lambda>s. if s = ''msg'' then Some (JArr [JStr ''EVENT'', demo_ev]) else if s = demo_event then Some demo_ev else None),
     re_print = (\<lambda>j. if j = demo_ev then demo_event else ''?''), re_sha = (\<lambda>s. demo_id), re_schnorr = (\<lambda>pk m sig. True),
     re_uptime = 0, re_timer = 7, re_store = demo_store_env, re_stale = (\<lambda>s. s)\<rparr>"

definition demo_relay :: "demo_nvs relay_ctx" where
  "demo_relay = \<lparr>rc_ws = \<lparr>ws_running = True, ws_connections = replicate 8 ws_empty, ws_connection_count = 0\<rparr>, rc_subs = sub_manager_init,
     rc_storage = demo_store, rc_rate = rate_limiter_init None, rc_max_future_sec = 600, rc_sent = []\<rparr>"

lemma demo_members:
  "json_get_ci demo_ev ''id'' = Some (JStr (hex_of_bytes demo_id))" "json_get_ci demo_ev ''pubkey'' = Some (JStr (hex_of_bytes demo_id))"
  "json_get_ci demo_ev ''created_at'' = Some (json_int 5)" "json_get_ci demo_ev ''kind'' = Some (json_int 1)"
  "json_get_ci demo_ev ''content'' = Some (JStr [])" "json_get_ci demo_ev ''tags'' = Some (JArr [])"
  "json_get_ci demo_ev ''sig'' = Some (JStr (hex_of_bytes (replicate 64 1)))"
  unfolding demo_ev_def json_get_ci_def by (simp_all add: to_lower_def)

lemma demo_event_not_msg: "demo_event \<noteq> ''msg''"
  by (simp add: demo_event_def event_head_def)

lemma demo_relay_rate: "\<exists>rl. rate_limiter_check 7 3 RATE_TYPE_EVENT (rate_limiter_init None) = (True, rl)"
proof -
  have "fst (rate_limiter_check 7 3 RATE_TYPE_EVENT (rate_limiter_init None))" by code_simp
  then show ?thesis by (metis prod.collapse)
qed

lemma demo_created: "d2u64 (valuedouble (json_int 5)) = Ok 5" "sint (5 :: u64) = 5" "json_valueint (json_int 1) = 1"
  by (simp_all add: d2u64_def valuedouble_def json_int_def json_valueint_def valueint_def clamp_signed_def)

lemma hex_scan_exact: "length out = length bs \<Longrightarrow> hex_scan (hex_of_bytes bs) out = Ok (True, bs)"
  using hex_scan_hex[of out bs "[]"] by simp

lemma demo_verified: "relay_validator_verify_event demo_relay_env demo_event = Ok True"
  by (simp add: relay_validator_verify_event_def demo_relay_env_def demo_event_not_msg demo_members valuestring_def nonnull_def
      validator_hex_to_bytes_def hex_scan_exact verify_event_id_def serialize_event_for_id_def) (simp add: demo_id_def hex_scan_exact)

lemma demo_event_accepted:
  obtains ctx' where "router_dispatch demo_relay_env demo_nvs_ops 3 ''msg'' demo_relay = Ok ctx'" "rc_storage ctx' \<noteq> rc_storage demo_relay"
proof -
  obtain sg' where sg: "storage_save_event_json demo_nvs_ops demo_store_env demo_event demo_store = Ok (STORAGE_OK, sg')"
    "length (sg_index sg') = 1" by (rule demo_event_saved)
  obtain rl where rl: "rate_limiter_check 7 3 RATE_TYPE_EVENT (rate_limiter_init None) = (True, rl)" using demo_relay_rate by blast
  let ?c = "demo_relay\<lparr>rc_rate := rl\<rparr>"
  have p: "re_parse demo_relay_env demo_event = Some demo_ev" "re_print demo_relay_env demo_ev = demo_event"
    "re_parse demo_relay_env ''msg'' = Some (JArr [JStr ''EVENT'', demo_ev])" "re_timer demo_relay_env = 7" "re_uptime demo_relay_env = 0"
    "re_store demo_relay_env = demo_store_env" using demo_event_not_msg by (simp_all add: demo_relay_env_def)
  have c: "rc_rate demo_relay = rate_limiter_init None" "rc_storage ?c = demo_store" "rc_max_future_sec ?c = 600" by (simp_all add: demo_relay_def)
  have nx: "\<not> storage_event_exists demo_store demo_id" by (simp add: storage_event_exists_def find_index_entry_def demo_store_def)
  have hx: "relay_hex_to_bytes (hex_of_bytes demo_id) 64 (replicate 32 0) = Ok (True, demo_id)"
    by (simp add: relay_hex_to_bytes_def hex_scan_exact demo_id_def)
  have "\<exists>ctx'. handle_event demo_relay_env demo_nvs_ops 3 demo_event demo_relay = Ok (0, ctx') \<and> rc_storage ctx' = sg'"
    unfolding handle_event_def p c(1) rl
    by (simp only: prod.case Let_def c option.case p demo_members demo_created cbind.simps simp_thms if_False if_True valuestring_def json.case
        nonnull_def hx nx demo_verified store_event_def sg(1) option.map)
       (simp add: NOSTR_KIND_DELETION_def router_send_ok_def)
  moreover have "sg' \<noteq> rc_storage demo_relay" using sg(2) by (auto simp: demo_relay_def demo_store_def)
  ultimately show thesis using that p by (auto simp: router_dispatch_def)
qed


definition late_ev :: json where
  "late_ev = JObj [(''created_at'', json_int 1700000000)]"

definition late_env :: relay_env where
  "late_env = demo_relay_env\<lparr>re_parse := (\<lambda>s. if s = ''msg'' then Some (JArr [JStr ''EVENT'', late_ev]) else Some late_ev),
     re_print := (\<lambda>j. ''?''), re_uptime := 86400\<rparr>"

theorem relay_refuses_wall_clock_witness:
  "\<exists>ctx'. router_dispatch late_env demo_nvs_ops 3 ''msg'' demo_relay = Ok ctx' \<and> rc_storage ctx' = rc_storage demo_relay"
proof -
  have g: "json_get_ci late_ev ''created_at'' = Some (json_int 1700000000)" unfolding late_ev_def json_get_ci_def by simp
  have "re_parse late_env ''msg'' = Some (JArr [JStr ''EVENT'', late_ev])" "re_parse late_env (re_print late_env late_ev) = Some late_ev"
    "re_uptime late_env = 86400" "rc_max_future_sec demo_relay = 600" by (simp_all add: late_env_def demo_relay_def)
  then show ?thesis using relay_refuses_wall_clock[of late_env "''msg''" late_ev "[]" 1700000000 demo_relay demo_nvs_ops 3] g by auto
qed

definition bare_ev :: json where
  "bare_ev = JObj [(''id'', JStr (hex_of_bytes demo_id)), (''pubkey'', JStr (hex_of_bytes demo_id)), (''created_at'', json_int 5),
     (''kind'', json_int 1), (''sig'', JStr (hex_of_bytes (replicate 64 1)))]"

theorem relay_missing_content_undefined_witness:
  "handle_event (demo_relay_env\<lparr>re_parse := (\<lambda>s. Some bare_ev)\<rparr>) demo_nvs_ops 3 ''x'' demo_relay = Undef"
proof -
  have m: "json_get_ci bare_ev ''id'' = Some (JStr (hex_of_bytes demo_id))" "json_get_ci bare_ev ''pubkey'' = Some (JStr (hex_of_bytes demo_id))"
    "json_get_ci bare_ev ''created_at'' = Some (json_int 5)" "json_get_ci bare_ev ''kind'' = Some (json_int 1)"
    "json_get_ci bare_ev ''content'' = None" "json_get_ci bare_ev ''sig'' = Some (JStr (hex_of_bytes (replicate 64 1)))"
    unfolding bare_ev_def json_get_ci_def by (simp_all add: to_lower_def)
  have r: "fst (rate_limiter_check (re_timer (demo_relay_env\<lparr>re_parse := (\<lambda>s. Some bare_ev)\<rparr>)) 3 RATE_TYPE_EVENT (rc_rate demo_relay))"
    using demo_relay_rate by (auto simp: demo_relay_env_def demo_relay_def)
  have nx: "\<not> storage_event_exists (rc_storage demo_relay) demo_id"
    by (simp add: storage_event_exists_def find_index_entry_def demo_store_def demo_relay_def)
  show ?thesis
    by (rule relay_missing_content_undefined[OF r _ m(1) _ m(2) _ m(6) _ m(4) m(3) demo_created(1) _ m(5) nx])
       (simp_all add: demo_id_def demo_relay_def demo_created(2))
qed

theorem relay_deletes_any_author_witness:
  "\<exists>sg'. deletion_process_json (demo_relay_env\<lparr>re_parse := (\<lambda>s. Some (JObj [(''kind'', json_int 5), (''pubkey'', JStr ''x''), (''created_at'', json_int 5),
       (''tags'', JArr (map e_tag [demo_id]))]))\<rparr>) demo_nvs_ops ''j'' demo_store = Ok sg' \<and> \<not> storage_event_exists sg' demo_id"
proof -
  let ?o = "JObj [(''kind'', json_int 5), (''pubkey'', JStr ''x''), (''created_at'', json_int 5), (''tags'', JArr (map e_tag [demo_id]))]"
  have m: "json_get_ci ?o ''kind'' = Some (json_int 5)" "json_get_ci ?o ''pubkey'' = Some (JStr ''x'')"
    "json_get_ci ?o ''created_at'' = Some (json_int 5)" "json_get_ci ?o ''tags'' = Some (JArr (map e_tag [demo_id]))"
    unfolding json_get_ci_def by (simp_all add: to_lower_def)
  show ?thesis
    using relay_deletes_any_author[OF demo_store_inv(1) _ m(1,2,3) demo_created(1) m(4),
        of "demo_relay_env\<lparr>re_parse := (\<lambda>s. Some ?o)\<rparr>" "''j''" demo_nvs_ops] by (auto simp: demo_id_def)
qed

theorem relay_no_orphan_subscriptions_witness:
  "\<exists>ctx. local_relay_init demo_nvs_ops True True Map.empty (sg_nvs demo_store) = Some ctx \<and> card (ws_fds (rc_ws (local_relay_start True ctx))) \<le> 8"
proof -
  have "local_relay_init demo_nvs_ops True True Map.empty (sg_nvs demo_store) \<noteq> None"
    by (auto simp: local_relay_init_def storage_init_def Let_def split: prod.splits option.splits)
  then obtain ctx where c: "local_relay_init demo_nvs_ops True True Map.empty (sg_nvs demo_store) = Some ctx" by blast
  then show ?thesis using relay_no_orphan_subscriptions[OF relay_reach.boot[OF c, of True], of 0 "[]" 0 0] by blast
qed

end
