(* ===== verification/TG_SignedEvent.thy ===== *)
theory TG_SignedEvent
  imports TG_Cvm TG_Nostr
begin

text \<open>
  Two components that must agree on the text of an event: the writer (\<^verbatim>\<open>main/nostr_event.c\<close>) and the
  relay's verifier (\<^verbatim>\<open>components/wisp_relay/relay_validator.c\<close>). Both use the same cJSON and SHA-256, which
  the hypotheses say, and the signature check accepts what signing made.
\<close>

section \<open>Members of a written event\<close>

lemma event_members:
  "json_get_ci (event_object e ev) ''id'' = Some (JStr (ne_id ev))"
  "json_get_ci (event_object e ev) ''pubkey'' = Some (JStr (ne_pubkey ev))"
  "json_get_ci (event_object e ev) ''created_at'' = Some (JNum (Fin (u2d (ne_created_at ev))))"
  "json_get_ci (event_object e ev) ''kind'' = Some (json_int (ne_kind ev))"
  "json_get_ci (event_object e ev) ''tags'' = ev_parse e (ne_tags_json ev)"
  "json_get_ci (event_object e ev) ''content'' = Some (JStr (ne_content ev))"
  "json_get_ci (event_object e ev) ''sig'' = Some (JStr (ne_sig ev))"
  by (cases "ev_parse e (ne_tags_json ev)"; simp add: event_object_def json_get_ci_def to_lower_def)+

section \<open>Writer and verifier\<close>

text \<open>The text the relay hashes again is the text of the event's members, with the tags as they are read.\<close>

lemma reserialized:
  assumes "re_parse env text = Some (event_object e ev)" "- (2 ^ 31) \<le> ne_kind ev" "ne_kind ev < 2 ^ 31"
  shows "serialize_event_for_id env text = Ok (re_print env
    (event_serial e (ne_pubkey ev) (ne_created_at ev) (ne_kind ev) (ne_tags_json ev) (ne_content ev)))"
proof -
  have "json_valueint (json_int (ne_kind ev)) = ne_kind ev"
    using assms(2,3) by (simp add: json_valueint_def json_int_def valueint_def clamp_signed_def)
  then show ?thesis
    by (simp add: serialize_event_for_id_def assms(1) event_members nonnull_def TG_Nostr.valuestring_def valuedouble_def event_serial_def)
qed

lemma verify_written:
  assumes "re_parse env text = Some (event_object e ev)" "ne_id ev = hex_of_bytes i" "ne_pubkey ev = hex_of_bytes pk" "ne_sig ev = hex_of_bytes sg"
    and "length i = 32" "length pk = 32" "length sg = 64" "- (2 ^ 31) \<le> ne_kind ev" "ne_kind ev < 2 ^ 31"
  shows "relay_validator_verify_event env text = Ok (re_sha env (re_print env
    (event_serial e (ne_pubkey ev) (ne_created_at ev) (ne_kind ev) (ne_tags_json ev) (ne_content ev))) = i \<and> re_schnorr env pk i sg)"
  using assms(2-7) reserialized[OF assms(1,8,9)]
  by (simp add: relay_validator_verify_event_def assms(1) event_members nonnull_def TG_Nostr.valuestring_def
    validator_hex_to_bytes_def hex_scan_exact verify_event_id_def)

lemma signed_event_parts:
  assumes "nostr_event_sign e (nostr_event_init e now npub kind (Some tags) (Some content)) nsec = Ok ev"
    and "\<And>t. length (ev_sha256 e t) = 32" "length npub = 64"
  obtains sg where "ev_sign e nsec (ev_sha256 e (ev_print e (event_serial e npub now kind tags content))) = Some sg"
    "ne_sig ev = hex_of_bytes sg" "ne_pubkey ev = npub" "ne_created_at ev = now" "ne_kind ev = kind" "ne_tags_json ev = tags" "ne_content ev = content"
    "ne_id ev = hex_of_bytes (ev_sha256 e (ev_print e (event_serial e npub now kind tags content)))"
proof -
  let ?h = "ev_sha256 e (ev_print e (event_serial e npub now kind tags content))"
  have i: "nostr_event_init e now npub kind (Some tags) (Some content) = \<lparr>ne_pubkey = npub, ne_created_at = now, ne_kind = kind,
      ne_tags_json = tags, ne_content = content, ne_id = hex_of_bytes ?h, ne_sig = []\<rparr>"
    using assms(3) by (simp add: nostr_event_init_def Let_def hex_of_bytes_def c_strncpy_def)
  have "hex_bytes_at (hex_of_bytes ?h) 32 = Some ?h" using hex_bytes_at_hex[of ?h "[]"] assms(2) by (simp add: hex_of_bytes_def)
  then show ?thesis using assms(1) that
    by (auto simp: i nostr_event_sign_def hex_of_bytes_def split: option.splits if_splits)
qed

text \<open>
  (C28) An event that \<^verbatim>\<open>nostr_event.c\<close> initialises, signs and prints is verified by the relay: id and signature.
\<close>

theorem signed_event_verifies:
  assumes "nostr_event_sign e (nostr_event_init e now (hex_of_bytes pk) kind (Some tags) (Some content)) nsec = Ok ev"
    and "nostr_event_to_json e ev n = Ok text" "length pk = 32" "- (2 ^ 31) \<le> kind" "kind < 2 ^ 31"
    and "\<And>t. length (ev_sha256 e t) = 32" "re_parse env text = Some (event_object e ev)" "re_print env = ev_print e" "re_sha env = ev_sha256 e"
    and "\<And>m sg. ev_sign e nsec m = Some sg \<Longrightarrow> length sg = 64 \<and> re_schnorr env pk m sg"
  shows "relay_validator_verify_event env text = Ok True"
proof -
  have l: "length (hex_of_bytes pk) = 64" using assms(3) by simp
  obtain sg where s: "ev_sign e nsec (ev_sha256 e (ev_print e (event_serial e (hex_of_bytes pk) now kind tags content))) = Some sg"
    "ne_sig ev = hex_of_bytes sg" "ne_pubkey ev = hex_of_bytes pk" "ne_created_at ev = now" "ne_kind ev = kind" "ne_tags_json ev = tags" "ne_content ev = content"
    "ne_id ev = hex_of_bytes (ev_sha256 e (ev_print e (event_serial e (hex_of_bytes pk) now kind tags content)))"
    using signed_event_parts[OF assms(1,6) l] by blast
  show ?thesis
    using verify_written[OF assms(7) s(8,3,2)] assms(3-6,8,9) assms(10)[OF s(1)] s by simp
qed

definition demo_event_env :: event_env where
  "demo_event_env = \<lparr>ev_parse = (\<lambda>t. Some (JArr [])), ev_print = (\<lambda>j. ''text''), ev_sha256 = (\<lambda>t. replicate 32 3),
     ev_context_ok = True, ev_sign = (\<lambda>k m. Some (replicate 64 9))\<rparr>"

definition demo_signed :: nostr_event where
  "demo_signed = (nostr_event_init demo_event_env 5 (hex_of_bytes (replicate 32 7)) 1 (Some ''[]'') (Some ''hi''))\<lparr>ne_sig := hex_of_bytes (replicate 64 9)\<rparr>"

theorem signed_event_verifies_witness:
  "relay_validator_verify_event (demo_relay_env\<lparr>re_parse := (\<lambda>t. Some (event_object demo_event_env demo_signed)),
     re_print := ev_print demo_event_env, re_sha := ev_sha256 demo_event_env\<rparr>) ''text'' = Ok True"
proof (rule signed_event_verifies[where e = demo_event_env and ev = demo_signed and nsec = "[]" and kind = 1 and now = 5 and tags = "''[]''" and
      content = "''hi''" and pk = "replicate 32 7" and n = 100])
  have "hex_bytes_at (hex_of_bytes (replicate 32 3)) 32 = Some (replicate 32 3)"
    using hex_bytes_at_hex[of "replicate 32 3" "[]"] by (simp add: hex_of_bytes_def)
  then show "nostr_event_sign demo_event_env (nostr_event_init demo_event_env 5 (hex_of_bytes (replicate 32 7)) 1 (Some ''[]'') (Some ''hi'')) [] = Ok demo_signed"
    by (simp add: demo_signed_def nostr_event_sign_def nostr_event_init_def demo_event_env_def Let_def hex_of_bytes_def)
qed (auto simp: demo_event_env_def nostr_event_to_json_def demo_relay_env_def)

section \<open>Responses with freed tags\<close>

text \<open>
  The id of a response is computed with its tags, but the text is printed with what the freed block holds then.
  When that hashes differently, the response does not verify and the relay refuses it.
\<close>

theorem cvm_response_refused:
  assumes "publish_kind_25910_response cv url content eid = Ok m"
    and "id_npub_hex (cv_identity cv) = hex_of_bytes pk" "length pk = 32" "\<And>t. length (ev_sha256 (cv_event cv) t) = 32"
    and "\<And>h. \<exists>sg. ev_sign (cv_event cv) (id_nsec (cv_identity cv)) h = Some sg \<and> length sg = 64" "ev_context_ok (cv_event cv)"
    and "tags = ev_print (cv_event cv) (response_tags eid)"
    and "ev_sha256 (cv_event cv) (ev_print (cv_event cv) (event_serial (cv_event cv) (hex_of_bytes pk) (cv_now cv) 25910 (cv_freed cv tags) content))
      \<noteq> ev_sha256 (cv_event cv) (ev_print (cv_event cv) (event_serial (cv_event cv) (hex_of_bytes pk) (cv_now cv) 25910 tags content))"
  shows "\<exists>ev. m = event_message (ev_print (cv_event cv) (event_object (cv_event cv) ev)) \<and> ne_content ev = content \<and>
    (\<forall>env. re_parse env (ev_print (cv_event cv) (event_object (cv_event cv) ev)) = Some (event_object (cv_event cv) ev) \<longrightarrow>
       re_print env = ev_print (cv_event cv) \<longrightarrow> re_sha env = ev_sha256 (cv_event cv) \<longrightarrow>
       relay_validator_verify_event env (ev_print (cv_event cv) (event_object (cv_event cv) ev)) = Ok False)"
proof -
  let ?e = "cv_event cv"
  let ?ev0 = "nostr_event_init ?e (cv_now cv) (hex_of_bytes pk) 25910 (Some tags) (Some content)"
  have l: "length (hex_of_bytes pk) = 64" using assms(3) by simp
  have "hex_bytes_at (ne_id ?ev0) 32 \<noteq> None"
    using hex_bytes_at_hex[of _ "[]"] assms(4) by (auto simp: nostr_event_init_def Let_def) (metis append_Nil2 option.distinct(1))
  then obtain h where h: "hex_bytes_at (ne_id ?ev0) 32 = Some h" by blast
  obtain sg0 where "ev_sign ?e (id_nsec (cv_identity cv)) h = Some sg0" using assms(5) by blast
  then obtain ev1 where s: "nostr_event_sign ?e ?ev0 (id_nsec (cv_identity cv)) = Ok ev1"
    using assms(6) h by (simp add: nostr_event_sign_def)
  let ?ev = "ev1\<lparr>ne_tags_json := cv_freed cv tags\<rparr>"
  have m: "m = event_message (ev_print ?e (event_object ?e ?ev))"
    using assms(1,2) s
    by (auto simp: publish_kind_25910_response_def Let_def sign_or_keep_def assms(7)[symmetric] cbind_Ok_iff
      publish_event_to_relay_def nostr_event_to_json_def split: if_splits)
  obtain sg where p: "ev_sign ?e (id_nsec (cv_identity cv)) (ev_sha256 ?e (ev_print ?e (event_serial ?e (hex_of_bytes pk) (cv_now cv) 25910 tags content))) = Some sg"
      "ne_sig ev1 = hex_of_bytes sg" "ne_pubkey ev1 = hex_of_bytes pk" "ne_created_at ev1 = cv_now cv" "ne_kind ev1 = 25910" "ne_content ev1 = content"
      "ne_id ev1 = hex_of_bytes (ev_sha256 ?e (ev_print ?e (event_serial ?e (hex_of_bytes pk) (cv_now cv) 25910 tags content)))"
    using signed_event_parts[OF s assms(4) l] by blast
  have sl: "length sg = 64" using assms(5) p(1) by (metis option.inject)
  have "relay_validator_verify_event env (ev_print ?e (event_object ?e ?ev)) = Ok False"
    if "re_parse env (ev_print ?e (event_object ?e ?ev)) = Some (event_object ?e ?ev)" "re_print env = ev_print ?e" "re_sha env = ev_sha256 ?e" for env
    using verify_written[OF that(1), of _ pk sg] assms(3,4,8) p sl that(2,3) by simp
  then show ?thesis using m p(6) by (intro exI[of _ ?ev]) simp
qed

definition demo_freed_env :: event_env where
  "demo_freed_env = \<lparr>ev_parse = (\<lambda>t. if t = [] then None else Some (JArr [])),
     ev_print = (\<lambda>j. case j of JArr (_ # _ # _ # _ # _ # _ # _) \<Rightarrow> ''six'' | _ \<Rightarrow> ''five''),
     ev_sha256 = (\<lambda>t. replicate 32 (of_nat (length t))), ev_context_ok = True, ev_sign = (\<lambda>k m. Some (replicate 64 9))\<rparr>"

definition demo_freed_cvm :: cvm_env where
  "demo_freed_cvm = demo_cvm\<lparr>cv_event := demo_freed_env, cv_identity := demo_gate_id\<lparr>id_npub_hex := hex_of_bytes (replicate 32 7)\<rparr>\<rparr>"

theorem cvm_response_refused_witness:
  "\<exists>m ev. publish_kind_25910_response demo_freed_cvm ''wss://a'' ''hi'' None = Ok m \<and> ne_content ev = ''hi'' \<and>
     m = event_message (ev_print demo_freed_env (event_object demo_freed_env ev))"
proof -
  let ?cv = demo_freed_cvm
  have "hex_bytes_at (hex_of_bytes (replicate 32 3)) 32 = Some (replicate 32 3)"
    using hex_bytes_at_hex[of "replicate 32 3" "[]"] by (simp add: hex_of_bytes_def)
  then have "\<exists>m. publish_kind_25910_response ?cv ''wss://a'' ''hi'' None = Ok m"
    by (simp add: publish_kind_25910_response_def demo_freed_cvm_def demo_cvm_def demo_gate_id_def Let_def sign_or_keep_def
      nostr_event_sign_def nostr_event_init_def demo_freed_env_def event_serial_def response_tags_def hex_of_bytes_def
      nostr_event_to_json_def event_object_def publish_event_to_relay_def ws_connect_def ws_open_def ws_parse_url_def url_parts_def c_strchr_def split_port_def c_str_def starts_with_def)
  then obtain m where m: "publish_kind_25910_response ?cv ''wss://a'' ''hi'' None = Ok m" by blast
  have "\<exists>ev. m = event_message (ev_print (cv_event ?cv) (event_object (cv_event ?cv) ev)) \<and> ne_content ev = ''hi'' \<and>
    (\<forall>env. re_parse env (ev_print (cv_event ?cv) (event_object (cv_event ?cv) ev)) = Some (event_object (cv_event ?cv) ev) \<longrightarrow>
       re_print env = ev_print (cv_event ?cv) \<longrightarrow> re_sha env = ev_sha256 (cv_event ?cv) \<longrightarrow>
       relay_validator_verify_event env (ev_print (cv_event ?cv) (event_object (cv_event ?cv) ev)) = Ok False)"
    by (rule cvm_response_refused[OF m, where pk = "replicate 32 7" and tags = "''five''"])
      (simp_all add: demo_freed_cvm_def demo_cvm_def demo_gate_id_def demo_freed_env_def event_serial_def response_tags_def)
  then show ?thesis using m by (auto simp: demo_freed_cvm_def)
qed

end
