(* ===== verification/TG_RelaySel.thy ===== *)
theory TG_RelaySel
  imports TG_Config
begin

text \<open>
  The choice of upstream relays (\<^verbatim>\<open>main/relay_selector.c\<close>): probing by the information document, ordering
  by what a relay supports and how it has behaved, primary and fallback, and the count of failures. HTTP and
  cJSON are parameters. The lock is held during every operation, so each is one step.
\<close>

section \<open>Data\<close>

definition RELAY_SELECTOR_MAX_RELAYS :: nat where
  "RELAY_SELECTOR_MAX_RELAYS = 8"

definition MAX_FAILURES :: int where
  "MAX_FAILURES = 3"

record relay_info =
  ri_url :: string
  ri_name :: string
  ri_latency_ms :: u32
  ri_supports_nip77 :: bool
  ri_alive :: bool
  ri_failures :: int
  ri_supported_nips :: "u8 list"
  ri_nips_count :: nat

record relay_selector =
  rs_relays :: "relay_info list"
  rs_count :: nat
  rs_primary_idx :: int
  rs_fallback_idx :: int
  rs_last_full_probe :: u32

definition relay_selector_init :: relay_selector where
  "relay_selector_init = \<lparr>rs_relays = replicate RELAY_SELECTOR_MAX_RELAYS
     \<lparr>ri_url = [], ri_name = [], ri_latency_ms = 0, ri_supports_nip77 = False, ri_alive = False, ri_failures = 0,
      ri_supported_nips = replicate 32 0, ri_nips_count = 0\<rparr>,
     rs_count = 0, rs_primary_idx = - 1, rs_fallback_idx = - 1, rs_last_full_probe = 0\<rparr>"

section \<open>Order\<close>

definition relay_score :: "relay_info \<Rightarrow> int" where
  "relay_score r = (if ri_supports_nip77 r then 1000 else 0) - ri_failures r * 100"

definition compare_relays :: "relay_info \<Rightarrow> relay_info \<Rightarrow> int" where
  "compare_relays a b =
     (if ri_alive a \<and> \<not> ri_alive b then - 1
      else if \<not> ri_alive a \<and> ri_alive b then 1
      else if relay_score a \<noteq> relay_score b then relay_score b - relay_score a
      else sint (ri_latency_ms a) - sint (ri_latency_ms b))"

text \<open>\<open>qsort\<close> orders by the comparison; the order of equal entries, which C leaves open, is that of the array.\<close>

fun insert_relay :: "relay_info \<Rightarrow> relay_info list \<Rightarrow> relay_info list" where
  "insert_relay r [] = [r]"
| "insert_relay r (x # xs) = (if compare_relays r x \<le> 0 then r # x # xs else x # insert_relay r xs)"

definition qsort_relays :: "relay_info list \<Rightarrow> relay_info list" where
  "qsort_relays rs = foldr insert_relay rs []"

section \<open>Probing\<close>

datatype relay_probe =
    Probe_No_Client
  | Probe_No_Connection
  | Probe_Answer (pr_status: int) (pr_content_length: int) (pr_body: string) (pr_elapsed_us: int)

definition probe_url :: "string \<Rightarrow> string" where
  "probe_url wss_url =
     (let host = (if take 6 wss_url = ''wss://'' then drop 6 wss_url
                  else if take 5 wss_url = ''ws://'' then drop 5 wss_url else wss_url) in
      c_strncpy 192 (''https://'' @ host @ ''/''))"

definition probe_text :: "int \<Rightarrow> string \<Rightarrow> string" where
  "probe_text content_length body = c_str (take (if 0 < content_length then min (nat content_length) 4095 else 4095) body)"

definition read_nips :: "json list \<Rightarrow> relay_info \<Rightarrow> relay_info" where
  "read_nips nips r =
     (let ns = take 32 nips in
      r\<lparr>ri_nips_count := length ns, ri_supports_nip77 := list_ex (\<lambda>j. json_valueint j = 77) ns,
        ri_supported_nips := map (\<lambda>j. of_int (json_valueint j)) ns @ drop (length ns) (ri_supported_nips r)\<rparr>)"

definition read_nip11 :: "json \<Rightarrow> relay_info \<Rightarrow> relay_info" where
  "read_nip11 j r =
     (let r = r\<lparr>ri_name := read_str 64 j ''name'' (ri_name r)\<rparr> in
      case json_arr (json_get_ci j ''supported_nips'') of Some nips \<Rightarrow> read_nips nips r | None \<Rightarrow> r)"

definition probe_nip11 :: "(string \<Rightarrow> json option) \<Rightarrow> relay_probe \<Rightarrow> relay_info \<Rightarrow> bool \<times> relay_info" where
  "probe_nip11 parse answer r = (case answer of
       Probe_No_Client \<Rightarrow> (False, r)
     | Probe_No_Connection \<Rightarrow> (False, r\<lparr>ri_alive := False\<rparr>)
     | Probe_Answer status clen body us \<Rightarrow>
         if status \<noteq> 200 then (False, r\<lparr>ri_alive := 0 < status\<rparr>)
         else
           let r = r\<lparr>ri_latency_ms := of_int (us div 1000), ri_alive := True, ri_failures := 0\<rparr> in
           (True, case parse (probe_text clen body) of Some j \<Rightarrow> read_nip11 j r | None \<Rightarrow> r))"

definition count_failure :: "relay_info \<Rightarrow> relay_info" where
  "count_failure r =
     (let r = r\<lparr>ri_failures := ri_failures r + 1\<rparr> in if MAX_FAILURES \<le> ri_failures r then r\<lparr>ri_alive := False\<rparr> else r)"

definition probe_relay :: "(string \<Rightarrow> json option) \<Rightarrow> (string \<Rightarrow> relay_probe) \<Rightarrow> relay_info \<Rightarrow> relay_info" where
  "probe_relay parse http r = (case probe_nip11 parse (http (probe_url (ri_url r))) r of
       (ok, r) \<Rightarrow> if ok then r else count_failure r)"

section \<open>Selection\<close>

definition index_of_url :: "relay_selector \<Rightarrow> string \<Rightarrow> int \<Rightarrow> int" where
  "index_of_url sel url old =
     (case first_idx (\<lambda>r. ri_url r = url) (take (rs_count sel) (rs_relays sel)) of Some i \<Rightarrow> int i | None \<Rightarrow> old)"

definition select_primary_fallback :: "relay_selector \<Rightarrow> relay_selector" where
  "select_primary_fallback sel =
     (case qsort_relays (filter ri_alive (take (rs_count sel) (rs_relays sel))) of
        [] \<Rightarrow> sel\<lparr>rs_primary_idx := - 1, rs_fallback_idx := - 1\<rparr>
      | [p] \<Rightarrow> sel\<lparr>rs_primary_idx := index_of_url sel (ri_url p) (rs_primary_idx sel), rs_fallback_idx := - 1\<rparr>
      | p # f # _ \<Rightarrow> sel\<lparr>rs_primary_idx := index_of_url sel (ri_url p) (rs_primary_idx sel),
                        rs_fallback_idx := index_of_url sel (ri_url f) (rs_fallback_idx sel)\<rparr>)"

definition relay_selector_probe_all ::
    "(string \<Rightarrow> json option) \<Rightarrow> (string \<Rightarrow> relay_probe) \<Rightarrow> u32 \<Rightarrow> relay_selector \<Rightarrow> relay_selector" where
  "relay_selector_probe_all parse http now sel =
     (let probed = map (probe_relay parse http) (take (rs_count sel) (rs_relays sel)) @ drop (rs_count sel) (rs_relays sel) in
      (select_primary_fallback (sel\<lparr>rs_relays := probed\<rparr>))\<lparr>rs_last_full_probe := now\<rparr>)"

definition relay_selector_get_primary :: "relay_selector \<Rightarrow> relay_info option" where
  "relay_selector_get_primary sel =
     (if rs_primary_idx sel < 0 \<or> int (rs_count sel) \<le> rs_primary_idx sel then None
      else Some (rs_relays sel ! nat (rs_primary_idx sel)))"

text \<open>The remaining live relays, in the order of the array.\<close>

definition other_relays :: "relay_selector \<Rightarrow> relay_info list" where
  "other_relays sel = map (\<lambda>i. rs_relays sel ! i)
     (filter (\<lambda>i. int i \<noteq> rs_primary_idx sel \<and> int i \<noteq> rs_fallback_idx sel \<and> ri_alive (rs_relays sel ! i)) [0..<rs_count sel])"

definition relay_selector_get_fallback :: "relay_selector \<Rightarrow> int \<Rightarrow> relay_info option" where
  "relay_selector_get_fallback sel idx =
     (if idx = 0 then (if rs_fallback_idx sel < 0 then None else Some (rs_relays sel ! nat (rs_fallback_idx sel)))
      else if nat idx < length (other_relays sel) then Some (other_relays sel ! nat idx) else None)"

definition relay_selector_report_disconnect :: "string \<Rightarrow> relay_selector \<Rightarrow> relay_selector" where
  "relay_selector_report_disconnect url sel =
     (case first_idx (\<lambda>r. ri_url r = url) (take (rs_count sel) (rs_relays sel)) of
        None \<Rightarrow> sel
      | Some i \<Rightarrow>
          let r = count_failure (rs_relays sel ! i); sel' = sel\<lparr>rs_relays := (rs_relays sel)[i := r]\<rparr> in
          if MAX_FAILURES \<le> ri_failures r then select_primary_fallback sel' else sel')"

text \<open>Seeding: addresses that are not empty, in order; the other members of a slot keep what they had.\<close>

fun seed_relays :: "string list \<Rightarrow> relay_info list \<Rightarrow> nat \<Rightarrow> relay_info list \<times> nat" where
  "seed_relays [] rs n = (rs, n)"
| "seed_relays (u # us) rs n =
     (if n < RELAY_SELECTOR_MAX_RELAYS
      then (if u \<noteq> [] then seed_relays us (rs[n := (rs ! n)\<lparr>ri_url := c_strncpy 128 u, ri_alive := True\<rparr>]) (n + 1)
            else seed_relays us rs n)
      else (rs, n))"

definition relay_selector_seed_from_config :: "tollgate_config \<Rightarrow> relay_selector \<Rightarrow> relay_selector" where
  "relay_selector_seed_from_config cfg sel =
     (case seed_relays (take (cfg_nostr_seed_relay_count cfg) (cfg_nostr_seed_relays cfg)) (rs_relays sel) 0 of
        (rs, n) \<Rightarrow> sel\<lparr>rs_relays := rs, rs_count := n\<rparr>)"

section \<open>The sorted list\<close>

definition at_least_as_good :: "relay_info \<Rightarrow> relay_info \<Rightarrow> bool" where
  "at_least_as_good a b \<longleftrightarrow> compare_relays a b \<le> 0"

text \<open>Among live relays the comparison is the lexicographic order of score and latency.\<close>

lemma good_live: "ri_alive a \<Longrightarrow> ri_alive b \<Longrightarrow> at_least_as_good a b \<longleftrightarrow>
    relay_score b < relay_score a \<or> (relay_score a = relay_score b \<and> sint (ri_latency_ms a) \<le> sint (ri_latency_ms b))"
  by (auto simp: at_least_as_good_def compare_relays_def)

lemma set_insert_relay [simp]: "set (insert_relay r xs) = insert r (set xs)"
  by (induction xs) auto

lemma mset_insert_relay [simp]: "mset (insert_relay r xs) = add_mset r (mset xs)"
  by (induction xs) auto

lemma mset_qsort [simp]: "mset (qsort_relays rs) = mset rs"
  by (induction rs) (simp_all add: qsort_relays_def)

lemma set_qsort [simp]: "set (qsort_relays rs) = set rs"
  using mset_qsort[of rs] by (rule mset_eq_setD)

lemma insert_relay_sorted:
  "\<forall>x \<in> insert r (set xs). ri_alive x \<Longrightarrow> sorted_wrt at_least_as_good xs \<Longrightarrow> sorted_wrt at_least_as_good (insert_relay r xs)"
proof (induction xs)
  case (Cons x xs)
  show ?case
  proof (cases "compare_relays r x \<le> 0")
    case True
    have rx: "at_least_as_good r x" using True by (simp add: at_least_as_good_def)
    have "at_least_as_good r y" if "y \<in> set xs" for y
    proof -
      have "at_least_as_good x y" "ri_alive y" "ri_alive x" "ri_alive r" using Cons.prems that by auto
      then show ?thesis using rx by (auto simp: good_live)
    qed
    then show ?thesis using Cons.prems rx True by auto
  next
    case False
    have "at_least_as_good x r" using False Cons.prems(1) by (auto simp: good_live) (auto simp: compare_relays_def split: if_splits)
    then show ?thesis using Cons False by auto
  qed
qed simp

lemma qsort_sorted: "\<forall>x \<in> set rs. ri_alive x \<Longrightarrow> sorted_wrt at_least_as_good (qsort_relays rs)"
proof (induction rs)
  case (Cons r rs)
  have "set (foldr insert_relay rs []) = set rs" using set_qsort[of rs] by (simp add: qsort_relays_def)
  then show ?case using Cons insert_relay_sorted[of r "foldr insert_relay rs []"] by (simp add: qsort_relays_def)
qed (simp add: qsort_relays_def)

section \<open>Primary and fallback\<close>

definition live_relays :: "relay_selector \<Rightarrow> relay_info list" where
  "live_relays sel = filter ri_alive (take (rs_count sel) (rs_relays sel))"

definition selector_wf :: "relay_selector \<Rightarrow> bool" where
  "selector_wf sel \<longleftrightarrow> length (rs_relays sel) = RELAY_SELECTOR_MAX_RELAYS \<and> rs_count sel \<le> RELAY_SELECTOR_MAX_RELAYS \<and>
     distinct (map ri_url (take (rs_count sel) (rs_relays sel)))"

lemma index_of_url_found:
  assumes "selector_wf sel" "r \<in> set (take (rs_count sel) (rs_relays sel))"
  obtains i where "index_of_url sel (ri_url r) old = int i" "i < rs_count sel" "rs_relays sel ! i = r"
proof -
  let ?t = "take (rs_count sel) (rs_relays sel)"
  obtain i where i: "first_idx (\<lambda>x. ri_url x = ri_url r) ?t = Some i" using first_idx_exists[of "\<lambda>x. ri_url x = ri_url r" ?t] assms(2) by auto
  obtain j where j: "j < length ?t" "?t ! j = r" using assms(2) by (auto simp: in_set_conv_nth)
  have b: "i < length ?t" "ri_url (?t ! i) = ri_url r" using first_idx_SomeD[OF i] by auto
  have "distinct (map ri_url ?t)" using assms(1) by (simp add: selector_wf_def)
  then have "i = j" using b j nth_eq_iff_index_eq[of "map ri_url ?t" i j] by simp
  then show ?thesis using that[of i] i j b by (simp add: index_of_url_def)
qed

lemma select_frame [simp]: "rs_relays (select_primary_fallback sel) = rs_relays sel" "rs_count (select_primary_fallback sel) = rs_count sel"
  by (simp_all add: select_primary_fallback_def split: list.split)

lemma select_cases [consumes 1, case_names none one more]:
  assumes "selector_wf sel"
  obtains (none) "live_relays sel = []" "relay_selector_get_primary (select_primary_fallback sel) = None"
      "relay_selector_get_fallback (select_primary_fallback sel) 0 = None"
    | (one) p where "mset (live_relays sel) = {#p#}" "relay_selector_get_primary (select_primary_fallback sel) = Some p"
      "relay_selector_get_fallback (select_primary_fallback sel) 0 = None"
    | (more) p f rest where "mset (live_relays sel) = add_mset p (add_mset f (mset rest))" "sorted_wrt at_least_as_good (p # f # rest)"
      "relay_selector_get_primary (select_primary_fallback sel) = Some p"
      "relay_selector_get_fallback (select_primary_fallback sel) 0 = Some f"
proof -
  have live: "set (qsort_relays (live_relays sel)) \<subseteq> set (take (rs_count sel) (rs_relays sel))" by (auto simp: live_relays_def)
  have srt: "sorted_wrt at_least_as_good (qsort_relays (live_relays sel))" by (rule qsort_sorted) (simp add: live_relays_def)
  have m: "mset (qsort_relays (live_relays sel)) = mset (live_relays sel)" by simp
  show thesis
  proof (cases "qsort_relays (live_relays sel)")
    case Nil
    then show thesis using m none
      by (simp add: select_primary_fallback_def[folded live_relays_def] relay_selector_get_primary_def relay_selector_get_fallback_def)
  next
    case (Cons p ps)
    then have "p \<in> set (take (rs_count sel) (rs_relays sel))" using live by auto
    then obtain i where i: "index_of_url sel (ri_url p) (rs_primary_idx sel) = int i" "i < rs_count sel" "rs_relays sel ! i = p"
      using index_of_url_found[OF assms] by metis
    show thesis
    proof (cases ps)
      case Nil
      then show thesis using m i Cons one[of p]
        by (simp add: select_primary_fallback_def[folded live_relays_def] relay_selector_get_primary_def relay_selector_get_fallback_def)
    next
      case (Cons f rest)
      note ps = \<open>qsort_relays (live_relays sel) = p # ps\<close> Cons
      then have "f \<in> set (take (rs_count sel) (rs_relays sel))" using live by auto
      then obtain j where "index_of_url sel (ri_url f) (rs_fallback_idx sel) = int j" "j < rs_count sel" "rs_relays sel ! j = f"
        using index_of_url_found[OF assms] by metis
      then show thesis using m i ps srt more[of p f rest]
        by (simp add: select_primary_fallback_def[folded live_relays_def] relay_selector_get_primary_def relay_selector_get_fallback_def)
    qed
  qed
qed

text \<open>
  (C33) After a selection the primary relay is a live one that no live relay beats, in score first and latency second;
  the fallback is another live one that none of the rest beats; there is no primary only when none is live.
\<close>

theorem relay_primary_best:
  assumes "selector_wf sel" "sel' = select_primary_fallback sel"
  shows "(relay_selector_get_primary sel' = None \<longleftrightarrow> live_relays sel = []) \<and>
    (\<forall>p. relay_selector_get_primary sel' = Some p \<longrightarrow> p \<in> set (live_relays sel) \<and> (\<forall>r \<in> set (live_relays sel). compare_relays p r \<le> 0)) \<and>
    (\<forall>p f. relay_selector_get_primary sel' = Some p \<longrightarrow> relay_selector_get_fallback sel' 0 = Some f \<longrightarrow>
       f \<in># mset (live_relays sel) - {#p#} \<and> (\<forall>r \<in># mset (live_relays sel) - {#p#}. compare_relays f r \<le> 0))"
using assms(1)
proof (cases rule: select_cases)
  case none
  then show ?thesis using assms(2) by simp
next
  case (one p)
  then have s: "set (live_relays sel) = {p}" "live_relays sel \<noteq> []" by (metis set_mset_mset set_mset_single, auto)
  have "compare_relays p p \<le> 0" by (simp add: compare_relays_def)
  then show ?thesis using one assms(2) s by simp
next
  case (more p f rest)
  have s: "set (live_relays sel) = insert p (insert f (set rest))" using more(1) by (metis set_mset_add_mset_insert set_mset_mset)
  then have ne: "live_relays sel \<noteq> []" by auto
  have d: "mset (live_relays sel) - {#p#} = add_mset f (mset rest)" using more(1) by simp
  have "compare_relays p p \<le> 0" "compare_relays f f \<le> 0" by (simp_all add: compare_relays_def)
  then show ?thesis using more(2-4) assms(2) s ne d by (auto simp: at_least_as_good_def)
qed

definition demo_relay_info :: "string \<Rightarrow> nat \<Rightarrow> bool \<Rightarrow> relay_info" where
  "demo_relay_info url ms n77 = \<lparr>ri_url = url, ri_name = [], ri_latency_ms = of_nat ms, ri_supports_nip77 = n77, ri_alive = True,
     ri_failures = 0, ri_supported_nips = replicate 32 0, ri_nips_count = 0\<rparr>"

definition demo_selector :: relay_selector where
  "demo_selector = relay_selector_init\<lparr>rs_relays := [demo_relay_info ''wss://a'' 20 False, demo_relay_info ''wss://b'' 90 True] @
     replicate 6 (demo_relay_info [] 0 False), rs_count := 2, rs_primary_idx := 1, rs_fallback_idx := 0\<rparr>"

lemma demo_selector_wf: "selector_wf demo_selector"
  by (simp add: selector_wf_def demo_selector_def relay_selector_init_def demo_relay_info_def RELAY_SELECTOR_MAX_RELAYS_def numeral_eq_Suc)

theorem relay_primary_best_witness:
  "selector_wf demo_selector \<and> relay_selector_get_primary (select_primary_fallback demo_selector) \<noteq> None"
proof -
  have "live_relays demo_selector \<noteq> []" by (simp add: live_relays_def demo_selector_def demo_relay_info_def numeral_eq_Suc)
  then show ?thesis using demo_selector_wf relay_primary_best[OF demo_selector_wf refl] by blast
qed

section \<open>Failures\<close>

lemma count_failure_props [simp]: "ri_url (count_failure r) = ri_url r" "ri_failures (count_failure r) = ri_failures r + 1"
  "ri_alive (count_failure r) \<longleftrightarrow> ri_alive r \<and> ri_failures r < 2"
  by (auto simp: count_failure_def Let_def MAX_FAILURES_def)

lemma update_keeps_urls: "i < length rs \<Longrightarrow> ri_url r = ri_url (rs ! i) \<Longrightarrow> map ri_url (rs[i := r]) = map ri_url rs"
  by (metis list_update_id map_update)

text \<open>One report on the relay at position \<open>i\<close>.\<close>

lemma report_step:
  assumes "selector_wf sel" "i < rs_count sel" "url = ri_url (rs_relays sel ! i)"
  defines "sel' \<equiv> sel\<lparr>rs_relays := (rs_relays sel)[i := count_failure (rs_relays sel ! i)]\<rparr>"
  shows "relay_selector_report_disconnect url sel = (if 2 \<le> ri_failures (rs_relays sel ! i) then select_primary_fallback sel' else sel')"
    and "selector_wf sel'"
proof -
  have l: "i < length (rs_relays sel)" using assms(1,2) by (simp add: selector_wf_def)
  have "rs_relays sel ! i \<in> set (take (rs_count sel) (rs_relays sel))"
    using assms(2) l by (auto simp: in_set_conv_nth intro!: exI[of _ i])
  then obtain j where j: "index_of_url sel url (- 1) = int j" "j < rs_count sel" "rs_relays sel ! j = rs_relays sel ! i"
    unfolding assms(3) by (rule index_of_url_found[OF assms(1)])
  have "distinct (map ri_url (take (rs_count sel) (rs_relays sel)))" using assms(1) by (simp add: selector_wf_def)
  then have "j = i" using nth_eq_iff_index_eq[of "map ri_url (take (rs_count sel) (rs_relays sel))" j i] j(2,3) assms(1,2) l
    by (simp add: selector_wf_def)
  then have "first_idx (\<lambda>r. ri_url r = url) (take (rs_count sel) (rs_relays sel)) = Some i"
    using j(1) by (auto simp: index_of_url_def split: option.splits)
  then show "relay_selector_report_disconnect url sel = (if 2 \<le> ri_failures (rs_relays sel ! i) then select_primary_fallback sel' else sel')"
    by (simp add: relay_selector_report_disconnect_def Let_def sel'_def MAX_FAILURES_def)
  show "selector_wf sel'" using assms(1) update_keeps_urls[OF l, of "count_failure (rs_relays sel ! i)"]
    by (simp add: selector_wf_def sel'_def take_map[symmetric])
qed

lemma report_invariant:
  assumes "selector_wf sel" "i < rs_count sel" "url = ri_url (rs_relays sel ! i)" "0 \<le> ri_failures (rs_relays sel ! i)"
  shows "selector_wf (relay_selector_report_disconnect url sel)" "rs_count (relay_selector_report_disconnect url sel) = rs_count sel"
    "rs_relays (relay_selector_report_disconnect url sel) = (rs_relays sel)[i := count_failure (rs_relays sel ! i)]"
  using report_step[OF assms(1-3)] by (simp_all add: selector_wf_def)

text \<open>
  Three reports on a relay, whatever its count was, take it out: the primary is then another relay that is live,
  and there is one whenever another relay is live.
\<close>

theorem relay_failover:
  assumes "selector_wf sel" "i < rs_count sel" "url = ri_url (rs_relays sel ! i)" "0 \<le> ri_failures (rs_relays sel ! i)"
    and "sel' = (relay_selector_report_disconnect url ^^ 3) sel"
  shows "(\<forall>p. relay_selector_get_primary sel' = Some p \<longrightarrow> ri_url p \<noteq> url \<and> ri_alive p) \<and>
    ((\<exists>r \<in> set (live_relays sel). ri_url r \<noteq> url) \<longrightarrow> relay_selector_get_primary sel' \<noteq> None)"
proof -
  let ?R = "relay_selector_report_disconnect url"
  let ?r = "rs_relays sel ! i"
  have l: "i < length (rs_relays sel)" using assms(1,2) by (simp add: selector_wf_def)
  note s1 = report_invariant[OF assms(1-4)]
  have a2: "i < rs_count (?R sel)" "url = ri_url (rs_relays (?R sel) ! i)" "0 \<le> ri_failures (rs_relays (?R sel) ! i)"
    using s1 l assms by simp_all
  note s2 = report_invariant[OF s1(1) a2]
  have a3: "i < rs_count (?R (?R sel))" "url = ri_url (rs_relays (?R (?R sel)) ! i)" "2 \<le> ri_failures (rs_relays (?R (?R sel)) ! i)"
    using s1 s2 l assms by simp_all
  define sel3 where "sel3 = (?R (?R sel))\<lparr>rs_relays := (rs_relays (?R (?R sel)))[i := count_failure (rs_relays (?R (?R sel)) ! i)]\<rparr>"
  have e: "sel' = select_primary_fallback sel3" "selector_wf sel3"
    using report_step[OF s2(1) a3(1,2)] a3(3) assms(5) by (simp_all add: sel3_def numeral_3_eq_3)
  have r3: "rs_relays sel3 = (rs_relays sel)[i := count_failure (count_failure (count_failure ?r))]" "rs_count sel3 = rs_count sel"
    using s1 s2 l by (simp_all add: sel3_def)
  have urls: "distinct (map ri_url (take (rs_count sel) (rs_relays sel)))" using assms(1) by (simp add: selector_wf_def)
  have gone: "ri_url r \<noteq> url \<and> ri_alive r" if "r \<in> set (live_relays sel3)" for r
  proof -
    obtain j where j: "j < rs_count sel" "j < length (rs_relays sel)" "rs_relays sel3 ! j = r" "ri_alive r"
      using \<open>r \<in> set (live_relays sel3)\<close> r3 by (auto simp: live_relays_def in_set_conv_nth)
    have "j \<noteq> i" using j r3(1) l assms(4) by auto
    then have "ri_url r \<noteq> url"
      using nth_eq_iff_index_eq[OF urls, of j i] j r3(1) assms(2,3) l by auto
    then show ?thesis using j(4) by simp
  qed
  have other: "r \<in> set (live_relays sel3)" if "r \<in> set (live_relays sel)" "ri_url r \<noteq> url" for r
  proof -
    obtain j where j: "j < rs_count sel" "j < length (rs_relays sel)" "rs_relays sel ! j = r" "ri_alive r"
      using \<open>r \<in> set (live_relays sel)\<close> by (auto simp: live_relays_def in_set_conv_nth)
    have "j \<noteq> i" using j(3) that(2) assms(3) by auto
    then have "take (rs_count sel) (rs_relays sel3) ! j = r" using j r3(1) by simp
    then show ?thesis using j r3 l by (auto simp: live_relays_def in_set_conv_nth intro!: exI[of _ j])
  qed
  from e(2) show ?thesis
  proof (cases rule: select_cases)
    case none
    then show ?thesis using other e(1) by fastforce
  next
    case (one p)
    then have "p \<in> set (live_relays sel3)" by (metis set_mset_mset set_mset_single singletonI)
    then show ?thesis using one gone e(1) by simp
  next
    case (more p f rest)
    then have "p \<in> set (live_relays sel3)" by (metis set_mset_add_mset_insert set_mset_mset insertI1)
    then show ?thesis using more gone e(1) by simp
  qed
qed

theorem relay_failover_witness:
  "\<exists>p. relay_selector_get_primary ((relay_selector_report_disconnect ''wss://b'' ^^ 3) demo_selector) = Some p \<and> ri_url p \<noteq> ''wss://b'' \<and> ri_alive p"
proof -
  have u: "''wss://b'' = ri_url (rs_relays demo_selector ! 1)" "1 < rs_count demo_selector" "0 \<le> ri_failures (rs_relays demo_selector ! 1)"
    by (simp_all add: demo_selector_def demo_relay_info_def)
  have "demo_relay_info ''wss://a'' 20 False \<in> set (live_relays demo_selector)" "ri_url (demo_relay_info ''wss://a'' 20 False) \<noteq> ''wss://b''"
    by (simp_all add: live_relays_def demo_selector_def demo_relay_info_def numeral_eq_Suc)
  then show ?thesis using relay_failover[OF demo_selector_wf u(2,1,3) refl] by blast
qed

section \<open>Bounds\<close>

inductive selector_reach :: "relay_selector \<Rightarrow> bool" where
  init: "selector_reach relay_selector_init"
| seed: "selector_reach sel \<Longrightarrow> selector_reach (relay_selector_seed_from_config cfg sel)"
| probe: "selector_reach sel \<Longrightarrow> selector_reach (relay_selector_probe_all parse http now sel)"
| report: "selector_reach sel \<Longrightarrow> selector_reach (relay_selector_report_disconnect url sel)"

definition selector_bounds :: "relay_selector \<Rightarrow> bool" where
  "selector_bounds sel \<longleftrightarrow> length (rs_relays sel) = RELAY_SELECTOR_MAX_RELAYS \<and> rs_count sel \<le> RELAY_SELECTOR_MAX_RELAYS \<and>
     - 1 \<le> rs_primary_idx sel \<and> rs_primary_idx sel < int RELAY_SELECTOR_MAX_RELAYS \<and>
     - 1 \<le> rs_fallback_idx sel \<and> rs_fallback_idx sel < int RELAY_SELECTOR_MAX_RELAYS"

lemma seed_relays_bounds:
  "length rs = RELAY_SELECTOR_MAX_RELAYS \<Longrightarrow> n \<le> RELAY_SELECTOR_MAX_RELAYS \<Longrightarrow>
   length (fst (seed_relays us rs n)) = RELAY_SELECTOR_MAX_RELAYS \<and> snd (seed_relays us rs n) \<le> RELAY_SELECTOR_MAX_RELAYS"
  by (induction us rs n rule: seed_relays.induct) auto

lemma index_of_url_bounds:
  assumes "selector_bounds sel" "- 1 \<le> old" "old < int RELAY_SELECTOR_MAX_RELAYS"
  shows "- 1 \<le> index_of_url sel url old \<and> index_of_url sel url old < int RELAY_SELECTOR_MAX_RELAYS"
  using assms by (auto simp: index_of_url_def selector_bounds_def dest: first_idx_SomeD split: option.split)

lemma select_bounds: "selector_bounds sel \<Longrightarrow> selector_bounds (select_primary_fallback sel)"
  using index_of_url_bounds[of sel "rs_primary_idx sel"] index_of_url_bounds[of sel "rs_fallback_idx sel"]
  by (simp add: select_primary_fallback_def selector_bounds_def RELAY_SELECTOR_MAX_RELAYS_def split: list.split)

text \<open>Whatever sequence of operations has run, the indices stay inside the array of eight relays.\<close>

theorem selector_reach_bounds: "selector_reach sel \<Longrightarrow> selector_bounds sel"
proof (induction rule: selector_reach.induct)
  case init
  then show ?case by (simp add: selector_bounds_def relay_selector_init_def RELAY_SELECTOR_MAX_RELAYS_def)
next
  case (seed sel cfg)
  then show ?case
    using seed_relays_bounds[of "rs_relays sel" 0 "take (cfg_nostr_seed_relay_count cfg) (cfg_nostr_seed_relays cfg)"]
    by (simp add: selector_bounds_def relay_selector_seed_from_config_def split_beta)
next
  case (probe sel parse http now)
  let ?s = "sel\<lparr>rs_relays := map (probe_relay parse http) (take (rs_count sel) (rs_relays sel)) @ drop (rs_count sel) (rs_relays sel)\<rparr>"
  have "selector_bounds (select_primary_fallback ?s)" using probe.IH by (intro select_bounds) (simp add: selector_bounds_def)
  then show ?case by (simp add: relay_selector_probe_all_def Let_def selector_bounds_def)
next
  case (report sel url)
  then show ?case
    by (auto simp: relay_selector_report_disconnect_def Let_def split: option.split intro!: select_bounds) (simp_all add: selector_bounds_def)
qed

theorem selector_reach_bounds_witness:
  "selector_reach (relay_selector_report_disconnect ''wss://a'' relay_selector_init) \<and>
   rs_fallback_idx (relay_selector_report_disconnect ''wss://a'' relay_selector_init) < 8"
  using selector_reach_bounds[OF selector_reach.report[OF selector_reach.init, of "''wss://a''"]] selector_reach.report[OF selector_reach.init]
  by (simp add: selector_bounds_def RELAY_SELECTOR_MAX_RELAYS_def)

text \<open>
  After a new seeding the old fallback index still stands, so the fallback can be a slot beyond the relays in use.
\<close>

lemma stale_fallback:
  assumes "rs_fallback_idx sel = int k" "relay_selector_seed_from_config cfg sel = sel'" "cfg_nostr_seed_relay_count cfg = 0"
  shows "rs_count sel' = 0 \<and> relay_selector_get_fallback sel' 0 = Some (rs_relays sel ! k)"
  using assms by (auto simp: relay_selector_seed_from_config_def relay_selector_get_fallback_def)

end
