(* ===== verification/TG_Sync.thy ===== *)
theory TG_Sync
  imports TG_Cvm TG_Nostr TG_RelaySel
begin

text \<open>
  Traffic between the gate and other relays: the periodic synchronisation (\<^verbatim>\<open>main/sync_manager.c\<close>), the
  announcement of the access point (\<^verbatim>\<open>main/wifistr.c\<close>) and the item list for negentropy
  (\<^verbatim>\<open>main/negentropy_adapter.c\<close>). TLS and cJSON are parameters; the relay context is that of \<open>TG_Nostr\<close>, the
  selector that of \<open>TG_RelaySel\<close>.
\<close>

unbundle bit_operations_syntax

section \<open>Frames\<close>

text \<open>
  What arrives on a connection is a list of TLS records. A read returns bytes of the first record only; an empty
  record is a read that fails, and after the last record every read fails.
\<close>

type_synonym tls_conn = "u8 list list"

fun tls_read :: "nat \<Rightarrow> tls_conn \<Rightarrow> u8 list \<times> tls_conn" where
  "tls_read n [] = ([], [])"
| "tls_read n (r # rs) = (take n r, if length r \<le> n then rs else drop n r # rs)"

text \<open>
  The header of \<open>ws_send_text\<close>, without a masking key. Beyond 65535 bytes the 32-bit length is shifted by up to 56
  bits, which C leaves undefined.
\<close>

definition sync_frame :: "string \<Rightarrow> u8 list cres" where
  "sync_frame data =
     (let len = length data in
      if len \<le> 125 then Ok ([0x81, of_nat len] @ map of_char data)
      else if len \<le> 65535 then Ok ([0x81, 126] @ be16 (of_nat len) @ map of_char data)
      else Undef)"

definition ws_close_frame :: "u8 list" where
  "ws_close_frame = [0x88, 0]"

text \<open>
  The length of the payload: an \<open>int\<close> into which eight bytes are shifted; a value that does not fit, and a byte that
  did not arrive, make the result undefined.
\<close>

definition sync_length :: "u8 \<Rightarrow> tls_conn \<Rightarrow> (nat \<times> tls_conn) cres" where
  "sync_length h1 conn =
     (let l7 = unat (h1 AND 0x7F); n = (if l7 = 126 then 2 else if l7 = 127 then 8 else 0) in
      if n = 0 then Ok (l7, conn)
      else (case tls_read n conn of (ext, conn') \<Rightarrow>
        let len = foldl (\<lambda>acc b. acc * 256 + unat b) 0 ext in
        if length ext < n \<or> 2 ^ 31 \<le> len then Undef else Ok (len, conn')))"

text \<open>
  \<open>buf\<close> is what the buffer held before. A payload that arrives only in part leaves the old bytes behind it, which are
  unmasked all the same.
\<close>

definition sync_fill :: "u8 list \<Rightarrow> nat \<Rightarrow> u8 list \<Rightarrow> u8 list \<Rightarrow> u8 list" where
  "sync_fill mkey len got buf =
     (let bs = take len (got @ drop (length got) buf) in unmask mkey bs @ [0] @ drop (len + 1) buf)"

definition sync_key :: "u8 \<Rightarrow> tls_conn \<Rightarrow> u8 list \<times> tls_conn" where
  "sync_key h1 conn =
     (if h1 AND 0x80 = 0 then (replicate 4 0, conn)
      else case tls_read 4 conn of (k, conn') \<Rightarrow> (k @ drop (length k) (replicate 4 0), conn'))"

definition sync_payload :: "u8 list \<Rightarrow> u8 list \<Rightarrow> nat \<Rightarrow> tls_conn \<Rightarrow> nat option \<times> u8 list \<times> tls_conn" where
  "sync_payload buf mkey payload_len conn =
     (let len = min payload_len (length buf - 1) in
      case tls_read len conn of (got, conn') \<Rightarrow> (Some len, sync_fill mkey len got buf, conn'))"

definition ws_read_text :: "u8 list \<Rightarrow> tls_conn \<Rightarrow> (nat option \<times> u8 list \<times> tls_conn) cres" where
  "ws_read_text buf conn = (case tls_read 2 conn of (header, conn1) \<Rightarrow>
     if length header < 2 \<or> header ! 0 AND 0x0F = 8 then Ok (None, buf, conn1)
     else cbind (sync_length (header ! 1) conn1) (\<lambda>(len, conn2).
       case sync_key (header ! 1) conn2 of (mkey, conn3) \<Rightarrow> Ok (sync_payload buf mkey len conn3)))"

definition buf_text :: "u8 list \<Rightarrow> string" where
  "buf_text buf = c_str (map (\<lambda>b. char_of (unat b)) buf)"

section \<open>Synchronisation\<close>

text \<open>
  \<open>sy_conn\<close> is what arrives from a host after the upgrade, \<open>sy_uninit\<close> the buffer \<open>resp\<close> of 8192 bytes before the
  first read, \<open>sy_now\<close> the seconds since the start.
\<close>

record sync_env =
  sy_relay :: relay_env
  sy_tls :: tls_env
  sy_conn :: "string \<times> int \<Rightarrow> tls_conn"
  sy_uninit :: "u8 list"
  sy_now :: int

record sync_manager =
  sm_selector :: "relay_selector option"
  sm_running :: bool
  sm_in_progress :: bool
  sm_last_negentropy :: u32
  sm_last_reqdiff :: u32

datatype sync_err = SYNC_OK | SYNC_INVALID_STATE | SYNC_NOT_FOUND | SYNC_FAIL

definition sync_manager_init :: "bool \<Rightarrow> relay_selector option \<Rightarrow> sync_manager option" where
  "sync_manager_init lock_ok sel =
     (if lock_ok then Some \<lparr>sm_selector = sel, sm_running = False, sm_in_progress = False, sm_last_negentropy = 0, sm_last_reqdiff = 0\<rparr>
      else None)"

definition sync_manager_start :: "sync_manager \<Rightarrow> sync_manager" where
  "sync_manager_start m = m\<lparr>sm_running := True\<rparr>"

definition sync_manager_stop :: "sync_manager \<Rightarrow> sync_manager" where
  "sync_manager_stop m = m\<lparr>sm_running := False\<rparr>"

definition sync_ws_connect :: "tls_env \<Rightarrow> string \<Rightarrow> (string \<times> int) cres" where
  "sync_ws_connect t wss_url = ws_open t (url_parts (if take 6 wss_url = ''wss://'' then drop 6 wss_url else wss_url))"

definition event_id_of :: "relay_env \<Rightarrow> string \<Rightarrow> string option" where
  "event_id_of env text = (case re_parse env (c_str text) of
       None \<Rightarrow> None
     | Some j \<Rightarrow> json_str (json_get_ci j ''id''))"

definition get_event_ids_from_storage :: "relay_env \<Rightarrow> 'n relay_ctx \<Rightarrow> string list cres" where
  "get_event_ids_from_storage env ctx =
     cbind (storage_query_events_json (sv_time (re_store env)) (- 1) None 5000 (rc_storage ctx)) (\<lambda>(_, results).
       Ok (List.map_filter (event_id_of env) results))"

definition sync_diff_request :: "relay_env \<Rightarrow> string list \<Rightarrow> string" where
  "sync_diff_request env ids =
     c_strncpy 256 (jtext ''[`REQ`,`sync_diff`,'' @ re_print env (JObj [(''ids'', JArr (map JStr ids))]) @ '']'')"

definition report_failed :: "string \<Rightarrow> sync_manager \<Rightarrow> sync_manager" where
  "report_failed url m = m\<lparr>sm_selector := map_option (relay_selector_report_disconnect url) (sm_selector m)\<rparr>"

text \<open>The result: the error, the manager and the bytes written after the upgrade.\<close>

definition sync_manager_do_negentropy_sync ::
    "sync_env \<Rightarrow> 'n relay_ctx \<Rightarrow> sync_manager \<Rightarrow> (sync_err \<times> sync_manager \<times> u8 list) cres" where
  "sync_manager_do_negentropy_sync y ctx m = (case sm_selector m of
       None \<Rightarrow> Ok (SYNC_INVALID_STATE, m, [])
     | Some sel \<Rightarrow> (let idle = m\<lparr>sm_in_progress := False\<rparr> in
         case relay_selector_get_primary sel of
           None \<Rightarrow> Ok (SYNC_NOT_FOUND, idle, [])
         | Some primary \<Rightarrow>
             if \<not> ri_alive primary then Ok (SYNC_NOT_FOUND, idle, [])
             else cbind (get_event_ids_from_storage (sy_relay y) ctx) (\<lambda>ids.
               if ids = [] then Ok (SYNC_OK, idle, [])
               else (case sync_ws_connect (sy_tls y) (ri_url primary) of
                  Undef \<Rightarrow> Undef
                | Fail \<Rightarrow> Ok (SYNC_FAIL, report_failed (ri_url primary) idle, [])
                | Ok peer \<Rightarrow>
                    cbind (sync_frame (sync_diff_request (sy_relay y) ids)) (\<lambda>frame.
                    cbind (ws_read_text (sy_uninit y) (sy_conn y peer)) (\<lambda>_.
                    Ok (SYNC_OK, idle\<lparr>sm_last_negentropy := of_int (sy_now y)\<rparr>, frame @ ws_close_frame)))))))"

text \<open>
  The text of an \<open>EVENT\<close> message that is published: the printed element 1, unless its \<open>id\<close> is among the local ones. An
  \<open>id\<close> that is not a string is compared as a null pointer.
\<close>

definition json_children :: "json \<Rightarrow> json list" where
  "json_children j = (case j of JArr xs \<Rightarrow> xs | JObj kvs \<Rightarrow> map snd kvs | _ \<Rightarrow> [])"

definition is_local_event :: "string list \<Rightarrow> json \<Rightarrow> bool cres" where
  "is_local_event ids event_obj = (case json_get_ci event_obj ''id'' of
       None \<Rightarrow> Ok False
     | Some i \<Rightarrow> if ids = [] then Ok False else cbind (nonnull (valuestring i)) (\<lambda>s. Ok (s \<in> set ids)))"

definition sync_event :: "relay_env \<Rightarrow> 'n nvs_ops \<Rightarrow> string list \<Rightarrow> json \<Rightarrow> 'n relay_ctx \<Rightarrow> 'n relay_ctx cres" where
  "sync_event env ops ids event_obj ctx =
     cbind (is_local_event ids event_obj) (\<lambda>loc.
       if loc then Ok ctx
       else cbind (local_relay_publish env ops (re_print env event_obj) ctx) (\<lambda>(_, ctx'). Ok ctx'))"

text \<open>One message: whether the loop goes on, and the context.\<close>

definition sync_message :: "relay_env \<Rightarrow> 'n nvs_ops \<Rightarrow> string list \<Rightarrow> string \<Rightarrow> 'n relay_ctx \<Rightarrow> (bool \<times> 'n relay_ctx) cres" where
  "sync_message env ops ids text ctx = (case re_parse env text of
       None \<Rightarrow> Ok (True, ctx)
     | Some arr \<Rightarrow> (case json_children arr of
         JStr cmd # items \<Rightarrow>
           if cmd = ''EVENT'' then (case items of
               [] \<Rightarrow> Ok (True, ctx)
             | event_obj # _ \<Rightarrow> cbind (sync_event env ops ids event_obj ctx) (\<lambda>ctx'. Ok (True, ctx')))
           else Ok (cmd \<noteq> ''EOSE'', ctx)
       | _ \<Rightarrow> Ok (True, ctx)))"

definition conn_bytes :: "tls_conn \<Rightarrow> nat" where
  "conn_bytes conn = sum_list (map length conn)"

lemma tls_read_bytes: "tls_read n conn = (got, conn') \<Longrightarrow> conn_bytes conn = length got + conn_bytes conn'"
  by (induction n conn rule: tls_read.induct) (auto simp: conn_bytes_def split: if_splits)

lemma sync_length_bytes: "sync_length h conn = Ok (len, conn') \<Longrightarrow> conn_bytes conn' \<le> conn_bytes conn"
  by (auto simp: sync_length_def Let_def dest!: tls_read_bytes split: if_splits prod.splits)

lemma sync_key_bytes: "sync_key h conn = (k, conn') \<Longrightarrow> conn_bytes conn' \<le> conn_bytes conn"
  by (auto simp: sync_key_def dest!: tls_read_bytes split: if_splits prod.splits)

lemma sync_payload_bytes: "sync_payload buf k n conn = (l, buf', conn') \<Longrightarrow> conn_bytes conn' \<le> conn_bytes conn"
  by (auto simp: sync_payload_def Let_def dest!: tls_read_bytes split: prod.splits)

lemma ws_read_text_bytes:
  assumes "ws_read_text buf conn = Ok (Some n, buf', conn')"
  shows "conn_bytes conn' < conn_bytes conn"
proof -
  obtain h c1 where h: "tls_read 2 conn = (h, c1)" by force
  then obtain len c2 where l: "\<not> length h < 2" "sync_length (h ! 1) c1 = Ok (len, c2)"
      "(case sync_key (h ! 1) c2 of (k, c3) \<Rightarrow> Ok (sync_payload buf k len c3)) = Ok (Some n, buf', conn')"
    using assms by (auto simp: ws_read_text_def cbind_Ok_iff split: if_splits)
  obtain k c3 where k: "sync_key (h ! 1) c2 = (k, c3)" by force
  then have p: "sync_payload buf k len c3 = (Some n, buf', conn')" using l(3) by simp
  show ?thesis using tls_read_bytes[OF h] sync_length_bytes[OF l(2)] sync_key_bytes[OF k] sync_payload_bytes[OF p] l(1) by linarith
qed

text \<open>The receiving loop. Every frame takes at least two bytes, so it ends when the connection does.\<close>

function sync_loop :: "relay_env \<Rightarrow> 'n nvs_ops \<Rightarrow> string list \<Rightarrow> u8 list \<Rightarrow> tls_conn \<Rightarrow> 'n relay_ctx \<Rightarrow> 'n relay_ctx cres" where
  "sync_loop env ops ids buf conn ctx = (case ws_read_text buf conn of
       Undef \<Rightarrow> Undef
     | Fail \<Rightarrow> Fail
     | Ok (None, _, _) \<Rightarrow> Ok ctx
     | Ok (Some n, buf', conn') \<Rightarrow>
         cbind (sync_message env ops ids (buf_text buf') ctx) (\<lambda>(again, ctx').
           if again then sync_loop env ops ids buf' conn' ctx' else Ok ctx'))"
  by pat_completeness auto
termination
  by (relation "measure (\<lambda>(_, _, _, _, conn, _). conn_bytes conn)") (auto dest: ws_read_text_bytes)

declare sync_loop.simps [simp del]

definition sync_fallback_request :: "string \<Rightarrow> string" where
  "sync_fallback_request npub =
     c_strncpy 512 (jtext ''[`REQ`,`sync_fallback`,{`authors`:[`'' @ npub @ jtext ''`],`limit`:500}]'')"

definition sync_manager_do_reqdiff_sync ::
    "sync_env \<Rightarrow> 'n nvs_ops \<Rightarrow> tollgate_config \<Rightarrow> 'n relay_ctx \<Rightarrow> sync_manager \<Rightarrow> (sync_err \<times> sync_manager \<times> 'n relay_ctx \<times> u8 list) cres" where
  "sync_manager_do_reqdiff_sync y ops cfg ctx m = (case sm_selector m of
       None \<Rightarrow> Ok (SYNC_INVALID_STATE, m, ctx, [])
     | Some sel \<Rightarrow> (case relay_selector_get_fallback sel 0 of
         None \<Rightarrow> Ok (SYNC_NOT_FOUND, m, ctx, [])
       | Some fallback \<Rightarrow>
           if \<not> ri_alive fallback then Ok (SYNC_NOT_FOUND, m, ctx, [])
           else (case sync_ws_connect (sy_tls y) (ri_url fallback) of
              Undef \<Rightarrow> Undef
            | Fail \<Rightarrow> Ok (SYNC_FAIL, report_failed (ri_url fallback) m, ctx, [])
            | Ok peer \<Rightarrow>
                cbind (sync_frame (sync_fallback_request (cfg_npub cfg))) (\<lambda>frame.
                cbind (get_event_ids_from_storage (sy_relay y) ctx) (\<lambda>ids.
                cbind (sync_loop (sy_relay y) ops ids (sy_uninit y) (sy_conn y peer) ctx) (\<lambda>ctx'.
                Ok (SYNC_OK, m\<lparr>sm_last_reqdiff := of_int (sy_now y)\<rparr>, ctx', frame @ ws_close_frame)))))))"

section \<open>The task\<close>

text \<open>
  The local variables of \<open>sync_task\<close> with the manager and the relay context. \<open>http\<close> answers the probes. Intervals that
  are not positive are replaced by half an hour and six hours.
\<close>

record 'n sync_task_state =
  st_manager :: sync_manager
  st_ctx :: "'n relay_ctx"
  st_last_negentropy :: int
  st_last_reqdiff :: int
  st_last_reprobe :: int

definition negentropy_interval :: "tollgate_config \<Rightarrow> int" where
  "negentropy_interval cfg = (if 0 < cfg_nostr_sync_interval_s cfg then cfg_nostr_sync_interval_s cfg else 1800)"

definition reqdiff_interval :: "tollgate_config \<Rightarrow> int" where
  "reqdiff_interval cfg = (if 0 < cfg_nostr_fallback_sync_interval_s cfg then cfg_nostr_fallback_sync_interval_s cfg else 21600)"

definition reprobe :: "(string \<Rightarrow> relay_probe) \<Rightarrow> sync_env \<Rightarrow> sync_manager \<Rightarrow> sync_manager cres" where
  "reprobe http y m = (case sm_selector m of
       None \<Rightarrow> Undef
     | Some sel \<Rightarrow> Ok (m\<lparr>sm_selector := Some (relay_selector_probe_all (re_parse (sy_relay y)) http (of_int (sy_now y)) sel)\<rparr>))"

definition task_negentropy :: "sync_env \<Rightarrow> 'n sync_task_state \<Rightarrow> (sync_err \<times> 'n sync_task_state) cres" where
  "task_negentropy y s = cbind (sync_manager_do_negentropy_sync y (st_ctx s) (st_manager s)) (\<lambda>(err, m, _). Ok (err, s\<lparr>st_manager := m\<rparr>))"

definition task_reqdiff :: "sync_env \<Rightarrow> 'n nvs_ops \<Rightarrow> tollgate_config \<Rightarrow> 'n sync_task_state \<Rightarrow> (sync_err \<times> 'n sync_task_state) cres" where
  "task_reqdiff y ops cfg s = cbind (sync_manager_do_reqdiff_sync y ops cfg (st_ctx s) (st_manager s)) (\<lambda>(err, m, ctx, _).
     Ok (err, s\<lparr>st_manager := m, st_ctx := ctx\<rparr>))"

definition sync_task_begin :: "(string \<Rightarrow> relay_probe) \<Rightarrow> sync_env \<Rightarrow> 'n relay_ctx \<Rightarrow> sync_manager \<Rightarrow> 'n sync_task_state cres" where
  "sync_task_begin http y ctx m =
     cbind (reprobe http y m) (\<lambda>m'.
     cbind (task_negentropy y \<lparr>st_manager = m', st_ctx = ctx, st_last_negentropy = 0, st_last_reqdiff = 0,
       st_last_reprobe = sy_now y\<rparr>) (\<lambda>(_, s). Ok s))"

definition turn_reprobe :: "(string \<Rightarrow> relay_probe) \<Rightarrow> sync_env \<Rightarrow> 'n sync_task_state \<Rightarrow> 'n sync_task_state cres" where
  "turn_reprobe http y s =
     (if sy_now y - st_last_reprobe s < 21600 then Ok s
      else cbind (reprobe http y (st_manager s)) (\<lambda>m. Ok (s\<lparr>st_manager := m, st_last_reprobe := sy_now y\<rparr>)))"

definition turn_negentropy :: "sync_env \<Rightarrow> tollgate_config \<Rightarrow> 'n sync_task_state \<Rightarrow> 'n sync_task_state cres" where
  "turn_negentropy y cfg s =
     (if sy_now y - st_last_negentropy s < negentropy_interval cfg then Ok s
      else cbind (task_negentropy y s) (\<lambda>(err, s'). Ok (if err = SYNC_OK then s'\<lparr>st_last_negentropy := sy_now y\<rparr> else s')))"

definition turn_reqdiff :: "sync_env \<Rightarrow> 'n nvs_ops \<Rightarrow> tollgate_config \<Rightarrow> 'n sync_task_state \<Rightarrow> 'n sync_task_state cres" where
  "turn_reqdiff y ops cfg s =
     (if sy_now y - st_last_reqdiff s < reqdiff_interval cfg then Ok s
      else cbind (task_reqdiff y ops cfg s) (\<lambda>(err, s'). Ok (if err = SYNC_OK then s'\<lparr>st_last_reqdiff := sy_now y\<rparr> else s')))"

definition sync_task_turn :: "(string \<Rightarrow> relay_probe) \<Rightarrow> sync_env \<Rightarrow> 'n nvs_ops \<Rightarrow> tollgate_config \<Rightarrow> 'n sync_task_state \<Rightarrow> 'n sync_task_state cres" where
  "sync_task_turn http y ops cfg s =
     cbind (turn_reprobe http y s) (\<lambda>s1. cbind (turn_negentropy y cfg s1) (turn_reqdiff y ops cfg))"

section \<open>Announcing the access point\<close>

definition ws_send_to_relay :: "tls_env \<Rightarrow> event_env \<Rightarrow> string \<Rightarrow> string \<Rightarrow> u8 list cres" where
  "ws_send_to_relay t e relay_url event_json =
     cbind (ws_connect t relay_url) (\<lambda>_.
     cbind (sync_frame (ev_print e (JArr ([JStr ''EVENT''] @ (case ev_parse e event_json of Some j \<Rightarrow> [j] | None \<Rightarrow> []))))) (\<lambda>frame.
     Ok (frame @ ws_close_frame)))"

definition wifistr_tags :: "tollgate_identity \<Rightarrow> tollgate_config \<Rightarrow> json" where
  "wifistr_tags i cfg = JArr (map (\<lambda>(k, v). JArr [JStr k, JStr v])
     [(''d'', id_npub_hex i), (''ssid'', id_ap_ssid i), (''h'', ''cashu-testnut''), (''security'', ''open''),
      (''g'', cfg_nostr_geohash cfg), (''c'', ''cashu'')])"

definition wifistr_content :: "tollgate_identity \<Rightarrow> tollgate_config \<Rightarrow> string" where
  "wifistr_content i cfg = c_strncpy 512 (''TollGate WiFi hotspot: '' @ id_ap_ssid i @ '' | Price: '' @
     dec_of_int (cfg_price_per_step cfg) @ '' sats/'' @ dec_of_int (cfg_step_size_ms cfg) @ ''ms | Mint: '' @ cfg_mint_url cfg)"

text \<open>The text of the tags is freed after signing and read again for the event; \<open>cv_freed\<close> is what is found there.\<close>

definition build_wifistr_event :: "cvm_env \<Rightarrow> tollgate_config \<Rightarrow> string cres" where
  "build_wifistr_event cv cfg =
     (let e = cv_event cv; i = cv_identity cv; tags = ev_print e (wifistr_tags i cfg) in
      if \<not> id_initialized i then Fail
      else cbind (sign_or_keep e (nostr_event_init e (cv_now cv) (id_npub_hex i) 38787 (Some tags) (Some (wifistr_content i cfg))) (id_nsec i)) (\<lambda>ev.
           nostr_event_to_json e (ev\<lparr>ne_tags_json := cv_freed cv tags\<rparr>) 2048))"

text \<open>The relays that took the event, with the bytes they got.\<close>

fun publish_to :: "tls_env \<Rightarrow> event_env \<Rightarrow> string \<Rightarrow> string list \<Rightarrow> (string \<times> u8 list) list cres" where
  "publish_to t e event_json [] = Ok []"
| "publish_to t e event_json (url # urls) = (case ws_send_to_relay t e url event_json of
       Undef \<Rightarrow> Undef
     | Fail \<Rightarrow> publish_to t e event_json urls
     | Ok bs \<Rightarrow> cbind (publish_to t e event_json urls) (\<lambda>rest. Ok ((url, bs) # rest)))"

definition wifistr_publish :: "cvm_env \<Rightarrow> tollgate_config \<Rightarrow> (string \<times> u8 list) list cres" where
  "wifistr_publish cv cfg =
     cbind (build_wifistr_event cv cfg) (\<lambda>event_json.
     cbind (publish_to (cv_tls cv) (cv_event cv) event_json (take (cfg_nostr_relay_count cfg) (cfg_nostr_relays cfg))) (\<lambda>sent.
     if sent = [] then Fail else Ok sent))"

definition wifistr_start_periodic :: "bool \<Rightarrow> int \<Rightarrow> int option \<Rightarrow> int option" where
  "wifistr_start_periodic timer_ok interval_s s_publish_timer =
     (if s_publish_timer \<noteq> None then s_publish_timer else if timer_ok then Some interval_s else None)"

section \<open>Items for negentropy\<close>

record negentropy_adapter =
  na_items :: "(u64 \<times> u8 list) list"
  na_capacity :: nat

definition negentropy_adapter_from_storage :: "'s option \<Rightarrow> negentropy_adapter option" where
  "negentropy_adapter_from_storage storage_engine =
     (if storage_engine = None then None else Some \<lparr>na_items = [], na_capacity = 0\<rparr>)"

definition negentropy_adapter_get_items :: "negentropy_adapter \<Rightarrow> (u64 \<times> u8 list) list \<times> negentropy_adapter" where
  "negentropy_adapter_get_items a = ([], a\<lparr>na_items := [], na_capacity := 0\<rparr>)"

definition negentropy_adapter_insert_item :: "u64 \<Rightarrow> u8 list \<Rightarrow> negentropy_adapter \<Rightarrow> negentropy_adapter" where
  "negentropy_adapter_insert_item created_at i a =
     a\<lparr>na_items := na_items a @ [(created_at, take 32 i)],
       na_capacity := (if na_capacity a \<le> length (na_items a) then (if na_capacity a = 0 then 64 else na_capacity a * 2) else na_capacity a)\<rparr>"

section \<open>Reading what a peer wrote\<close>

lemma unmask_zero: "unmask (replicate 4 0) bs = bs"
  by (rule nth_equalityI) (simp_all add: unmask_def)

lemma small_len_byte:
  assumes "n \<le> 125"
  shows "(of_nat n :: u8) AND 0x7F = of_nat n" "(of_nat n :: u8) AND 0x80 = 0" "unat (of_nat n :: u8) = n"
proof -
  have m: "(0x7F :: u8) = mask 7" by (simp add: mask_eq_exp_minus_1)
  have "take_bit 7 (of_nat n :: u8) = of_nat (take_bit 7 n)" by (simp add: take_bit_of_nat)
  also have "take_bit 7 n = n" using assms by (simp add: take_bit_nat_eq_self)
  finally show a: "(of_nat n :: u8) AND 0x7F = of_nat n" unfolding m take_bit_eq_mask .
  have "(of_nat n :: u8) AND 0x80 = (of_nat n AND 0x7F) AND 0x80" unfolding a ..
  also have "\<dots> = of_nat n AND (0x7F AND 0x80)" by (simp only: and.assoc)
  finally show "(of_nat n :: u8) AND 0x80 = 0" by simp
  show "unat (of_nat n :: u8) = n" using assms by (simp add: unat_of_nat)
qed

lemma be16_value:
  assumes "n \<le> 65535"
  shows "foldl (\<lambda>acc b. acc * 256 + unat b) 0 (be16 (of_nat n)) = n"
proof -
  have "unat (of_nat n :: u16) = n" using assms by (simp add: unat_of_nat)
  then have "unat (ucast (of_nat n :: u16) :: u8) = n mod 256" "unat (ucast (drop_bit 8 (of_nat n :: u16)) :: u8) = n div 256"
    using assms by (simp_all add: unsigned_ucast_eq unsigned_drop_bit_eq take_bit_eq_mod drop_bit_eq_div unat_div)
  then show ?thesis by (simp add: be16_def)
qed

lemma byte_char: "char_of (unat (of_char c :: u8)) = c"
proof -
  have "unat (of_nat (of_char c) :: u8) = (of_char c :: nat)" using nat_of_char_less_256[of c] by (simp only: unat_of_nat) simp
  then have "unat (of_char c :: u8) = (of_char c :: nat)" by (simp only: of_nat_of_char)
  then show ?thesis by simp
qed

lemma buf_text_fill:
  assumes "CHR 0x00 \<notin> set msg"
  shows "buf_text (map of_char msg @ [0] @ rest) = msg"
proof -
  have "map (\<lambda>b. char_of (unat b)) (map of_char msg :: u8 list) = msg"
    by (simp add: comp_def byte_char)
  moreover have "char_of (0 :: nat) = CHR 0x00" by (simp add: char_of_def)
  moreover have "takeWhile (\<lambda>c. c \<noteq> CHR 0x00) msg = msg" using assms by (auto simp: takeWhile_eq_all_conv)
  ultimately show ?thesis using assms by (simp add: buf_text_def c_str_def takeWhile_append)
qed

lemma sync_payload_exact:
  assumes "length msg < length buf"
  shows "sync_payload buf (replicate 4 0) (length msg) ((map of_char msg) # rest) =
    (Some (length msg), map of_char msg @ [0] @ drop (length msg + 1) buf, rest)"
  using assms by (simp add: sync_payload_def sync_fill_def unmask_zero Let_def)

text \<open>
  A frame that a peer writes without a key and that arrives in one record is read back, if it is shorter than the
  buffer.
\<close>

theorem sync_frame_read:
  assumes "sync_frame msg = Ok frame" "msg \<noteq> []" "CHR 0x00 \<notin> set msg" "length msg < length buf"
  shows "\<exists>buf'. ws_read_text buf (frame # rest) = Ok (Some (length msg), buf', rest) \<and> buf_text buf' = msg \<and> length buf' = length buf"
proof -
  let ?d = "map of_char msg :: u8 list"
  define buf' where "buf' = ?d @ [0] @ drop (length msg + 1) buf"
  have b: "buf_text buf' = msg" "length buf' = length buf" using assms(3,4) buf_text_fill by (simp_all add: buf'_def)
  have h: "(0x81 :: u8) AND 0x0F \<noteq> 8" by simp
  note p = sync_payload_exact[OF assms(4), folded buf'_def]
  have "ws_read_text buf (frame # rest) = Ok (Some (length msg), buf', rest)"
  proof (cases "length msg \<le> 125")
    case True
    note l = small_len_byte[OF this]
    have f: "frame = [0x81, of_nat (length msg)] @ ?d" using assms(1) True by (simp add: sync_frame_def Let_def)
    have "sync_length (of_nat (length msg)) (?d # rest) = Ok (length msg, ?d # rest)" using True l by (simp add: sync_length_def Let_def)
    then show ?thesis using assms(2) f h l(2) p by (simp add: ws_read_text_def sync_key_def)
  next
    case False
    then have n: "length msg \<le> 65535" "frame = [0x81, 126] @ be16 (of_nat (length msg)) @ ?d"
      using assms(1) by (auto simp: sync_frame_def Let_def split: if_splits)
    have l: "sync_length 126 ((be16 (of_nat (length msg)) @ ?d) # rest) = Ok (length msg, ?d # rest)"
      using be16_value[OF n(1)] n(1) assms(2) by (simp add: sync_length_def Let_def)
    have k: "(126 :: u8) AND 0x80 = 0" by simp
    show ?thesis using assms(2) n(2) h l p k by (simp add: ws_read_text_def sync_key_def)
  qed
  then show ?thesis using b by blast
qed

section \<open>What a synchronisation stores\<close>

lemma save_adds_own_id:
  assumes "storage_save_event_json ops env json sg = Ok (err, sg')" "parse_event_meta json = Ok (i, pk, t, k)"
  shows "live_ids sg' \<subseteq> insert i (live_ids sg)"
proof (cases "sg' = sg")
  case False
  let ?e = "\<lparr>ie_event_id = i, ie_created_at = ucast t, ie_expires_at = sv_time env + sg_default_ttl_sec sg,
    ie_file_index = sg_next_file_index sg, ie_kind = of_int k, ie_pubkey_prefix = take 4 pk, ie_flags = 0\<rparr>"
  have "live_ids sg' = live_ids (sg\<lparr>sg_index := sg_index sg @ [?e]\<rparr>)"
    using assms False by (auto simp: storage_save_event_json_def Let_def live_ids_def save_index_to_nvs_def split: if_splits)
  then show ?thesis by (auto simp: live_ids_def used_def)
qed auto

lemma publish_adds_own_id:
  assumes "local_relay_publish env ops json ctx = Ok (ok, ctx')" "parse_event_meta json = Ok (i, pk, t, k)"
  shows "live_ids (rc_storage ctx') \<subseteq> insert i (live_ids (rc_storage ctx))"
proof -
  obtain err sg where s: "storage_save_event_json ops (re_store env) json (rc_storage ctx) = Ok (err, sg)"
    using assms(1) by (cases "storage_save_event_json ops (re_store env) json (rc_storage ctx)") (auto simp: local_relay_publish_def)
  have "rc_storage ctx' = sg"
  proof (cases "re_parse env json")
    case None
    then show ?thesis using assms s by (auto simp: local_relay_publish_def Let_def set_storage_def split: if_splits)
  next
    case (Some obj)
    then show ?thesis using assms s
      by (cases "json_get_ci obj ''pubkey''"; cases "json_get_ci obj ''kind''"; cases "json_get_ci obj ''created_at''")
         (auto simp: local_relay_publish_def Let_def cbind_Ok_iff set_storage_def split: if_splits)
  qed
  then show ?thesis using save_adds_own_id[OF s assms(2)] by simp
qed

definition sync_reply_ok :: "relay_env \<Rightarrow> json \<Rightarrow> bool" where
  "sync_reply_ok env j \<longleftrightarrow> (case json_children j of JStr cmd # x # _ \<Rightarrow> cmd = ''EVENT'' \<longrightarrow> x = JStr ''sync_fallback'' | _ \<Rightarrow> True)"

lemma sub_id_meta: "parse_event_meta (jtext ''`sync_fallback`'') = Ok (replicate 32 0, replicate 32 0, 0, 0)"
  by (simp add: parse_event_meta_def meta_hex_def jtext_def starts_with_def)

lemma sync_event_ids:
  assumes "sync_event env ops ids (JStr ''sync_fallback'') ctx = Ok ctx'" "re_print env (JStr ''sync_fallback'') = jtext ''`sync_fallback`''"
  shows "live_ids (rc_storage ctx') \<subseteq> insert (replicate 32 0) (live_ids (rc_storage ctx))"
proof -
  have "json_get_ci (JStr s) k = None" for s k by (simp add: json_get_ci_def)
  then obtain ok where "local_relay_publish env ops (jtext ''`sync_fallback`'') ctx = Ok (ok, ctx')"
    using assms by (auto simp: sync_event_def is_local_event_def cbind_Ok_iff)
  then show ?thesis using publish_adds_own_id sub_id_meta by blast
qed

lemma sync_message_ids:
  assumes "sync_message env ops ids text ctx = Ok (again, ctx')" "\<And>j. re_parse env text = Some j \<Longrightarrow> sync_reply_ok env j"
    and "re_print env (JStr ''sync_fallback'') = jtext ''`sync_fallback`''"
  shows "live_ids (rc_storage ctx') \<subseteq> insert (replicate 32 0) (live_ids (rc_storage ctx))"
proof (cases "ctx' = ctx")
  case False
  then obtain j items x where j: "re_parse env text = Some j" "json_children j = JStr ''EVENT'' # x # items" "sync_event env ops ids x ctx = Ok ctx'"
    using assms(1) by (auto simp: sync_message_def cbind_Ok_iff split: option.splits list.splits json.splits if_splits)
  then have "x = JStr ''sync_fallback''" using assms(2)[OF j(1)] by (simp add: sync_reply_ok_def)
  then show ?thesis using sync_event_ids j(3) assms(3) by blast
qed auto

lemma sync_loop_ids:
  assumes "\<And>text j. re_parse env text = Some j \<Longrightarrow> sync_reply_ok env j" "re_print env (JStr ''sync_fallback'') = jtext ''`sync_fallback`''"
    and "sync_loop env ops ids buf conn ctx = Ok ctx'"
  shows "live_ids (rc_storage ctx') \<subseteq> insert (replicate 32 0) (live_ids (rc_storage ctx))"
  using assms
proof (induction env ops ids buf conn ctx rule: sync_loop.induct)
  case (1 env ops ids buf conn ctx)
  from "1.prems"(3) consider "ctx' = ctx"
    | n buf' conn' again ctx1 where "ws_read_text buf conn = Ok (Some n, buf', conn')"
        "sync_message env ops ids (buf_text buf') ctx = Ok (again, ctx1)"
        "(if again then sync_loop env ops ids buf' conn' ctx1 else Ok ctx1) = Ok ctx'"
    by (subst (asm) sync_loop.simps) (auto simp: cbind_Ok_iff split: cres.splits option.splits)
  then show ?case
  proof cases
    case 2
    have m: "live_ids (rc_storage ctx1) \<subseteq> insert (replicate 32 0) (live_ids (rc_storage ctx))"
      using sync_message_ids[OF 2(2)] "1.prems"(1,2) by blast
    show ?thesis
    proof (cases again)
      case True
      then have "live_ids (rc_storage ctx') \<subseteq> insert (replicate 32 0) (live_ids (rc_storage ctx1))"
        using "1.IH"[OF 2(1) refl refl refl] 2(2,3) "1.prems"(1,2) by auto
      then show ?thesis using m by blast
    qed (use m 2(3) in auto)
  qed auto
qed


section \<open>The request for missing events\<close>

text \<open>
  The request with the ids of all local events is printed into 256 bytes. From four events on, it ends inside the fourth
  id and is no JSON text.
\<close>

theorem sync_diff_request_cut:
  assumes "re_print env (JObj [(''ids'', JArr (map JStr (a # b # c # d # rest)))]) =
      jtext ''{`ids`:[`'' @ a @ jtext ''`,`'' @ b @ jtext ''`,`'' @ c @ jtext ''`,`'' @ d @ more_text"
    and "length a = 64" "length b = 64" "length c = 64" "length d = 64"
  shows "sync_diff_request env (a # b # c # d # rest) =
    jtext ''[`REQ`,`sync_diff`,{`ids`:[`'' @ a @ jtext ''`,`'' @ b @ jtext ''`,`'' @ c @ jtext ''`,`'' @ take 26 d"
  unfolding sync_diff_request_def assms(1) using assms(2-5) by (simp add: c_strncpy_def jtext_def)

section \<open>Publication\<close>

lemma ws_connect_defined: "ws_connect t url \<noteq> Undef"
  by (auto simp: ws_connect_def ws_open_def split: option.splits if_splits prod.splits)

text \<open>The announcement reaches exactly the configured relays that can be reached, whatever becomes of the others.\<close>

theorem wifistr_publish_reaches:
  assumes "build_wifistr_event cv cfg = Ok event_json"
    and "sync_frame (ev_print (cv_event cv) (JArr ([JStr ''EVENT''] @ (case ev_parse (cv_event cv) event_json of Some j \<Rightarrow> [j] | None \<Rightarrow> [])))) = Ok frame"
    and "reached = filter (\<lambda>u. \<exists>peer. ws_connect (cv_tls cv) u = Ok peer) (take (cfg_nostr_relay_count cfg) (cfg_nostr_relays cfg))"
  shows "wifistr_publish cv cfg = (if reached = [] then Fail else Ok (map (\<lambda>u. (u, frame @ ws_close_frame)) reached))"
proof -
  have "publish_to (cv_tls cv) (cv_event cv) event_json urls =
      Ok (map (\<lambda>u. (u, frame @ ws_close_frame)) (filter (\<lambda>u. \<exists>peer. ws_connect (cv_tls cv) u = Ok peer) urls))" for urls
  proof (induction urls)
    case (Cons u urls)
    then show ?case using assms(2) ws_connect_defined[of "cv_tls cv" u]
      by (cases "ws_connect (cv_tls cv) u") (auto simp: ws_send_to_relay_def)
  qed simp
  then show ?thesis using assms(1,3) by (simp add: wifistr_publish_def)
qed

section \<open>Failover\<close>

lemma negentropy_fails:
  assumes "sm_selector m = Some sel" "relay_selector_get_primary sel = Some p" "ri_alive p"
    and "get_event_ids_from_storage (sy_relay y) ctx = Ok (i # ids)" "sync_ws_connect (sy_tls y) (ri_url p) = Fail"
  shows "sync_manager_do_negentropy_sync y ctx m =
    Ok (SYNC_FAIL, m\<lparr>sm_in_progress := False, sm_selector := Some (relay_selector_report_disconnect (ri_url p) sel)\<rparr>, [])"
  using assms by (simp add: sync_manager_do_negentropy_sync_def Let_def report_failed_def)

lemma report_keeps_primary:
  assumes "selector_wf sel" "relay_selector_get_primary sel = Some p" "ri_alive p" "0 \<le> ri_failures p" "ri_failures p < 2"
  defines "sel' \<equiv> relay_selector_report_disconnect (ri_url p) sel"
  shows "selector_wf sel'" "relay_selector_get_primary sel' = Some (count_failure p)" "ri_alive (count_failure p)"
    "ri_failures (count_failure p) = ri_failures p + 1" "ri_url (count_failure p) = ri_url p"
proof -
  define i where "i = nat (rs_primary_idx sel)"
  have i: "i < rs_count sel" "rs_relays sel ! i = p" "rs_primary_idx sel = int i"
    using assms(2) by (auto simp: relay_selector_get_primary_def i_def split: if_splits)
  have l: "i < length (rs_relays sel)" using assms(1) i(1) by (simp add: selector_wf_def)
  have u: "ri_url p = ri_url (rs_relays sel ! i)" using i by simp
  have s: "sel' = sel\<lparr>rs_relays := (rs_relays sel)[i := count_failure p]\<rparr>"
    using report_step(1)[OF assms(1) i(1) u] assms(5) i(2) by (simp add: sel'_def)
  show "selector_wf sel'" using report_step(2)[OF assms(1) i(1) u] s i(2) by simp
  show "relay_selector_get_primary sel' = Some (count_failure p)" using i l by (simp add: s relay_selector_get_primary_def)
  show "ri_alive (count_failure p)" "ri_failures (count_failure p) = ri_failures p + 1" "ri_url (count_failure p) = ri_url p"
    using assms(3,5) by (simp_all add: count_failure_def MAX_FAILURES_def Let_def)
qed


section \<open>Witnesses\<close>

theorem sync_frame_read_witness: "\<exists>buf'. ws_read_text (replicate 8 7) [[0x81, 2, 91, 93], [5]] = Ok (Some 2, buf', [[5]]) \<and> buf_text buf' = ''[]''"
proof -
  have "sync_frame ''[]'' = Ok [0x81, 2, 91, 93]" by (simp add: sync_frame_def Let_def of_char_def)
  from sync_frame_read[OF this, of "replicate 8 7" "[[5]]"] show ?thesis by (auto simp: numeral_2_eq_2)
qed

definition demo_sync_relay :: relay_env where
  "demo_sync_relay = demo_relay_env\<lparr>re_parse := (\<lambda>t. if t = ''m'' then Some (JArr [JStr ''EVENT'', JStr ''sync_fallback'', demo_ev]) else None),
     re_print := (\<lambda>j. jtext ''`sync_fallback`'')\<rparr>"

definition demo_sync :: sync_env where
  "demo_sync = \<lparr>sy_relay = demo_sync_relay, sy_tls = cv_tls demo_cvm, sy_conn = (\<lambda>_. [[0x81, 1, 109]]), sy_uninit = replicate 8 7, sy_now = 60\<rparr>"

definition demo_manager :: sync_manager where
  "demo_manager = \<lparr>sm_selector = Some demo_selector, sm_running = True, sm_in_progress = False, sm_last_negentropy = 0, sm_last_reqdiff = 0\<rparr>"

lemma demo_sync_publish:
  obtains ctx' where "local_relay_publish demo_sync_relay demo_nvs_ops (jtext ''`sync_fallback`'') demo_relay = Ok (True, ctx')"
proof -
  obtain sg' where "storage_save_event_json demo_nvs_ops demo_store_env (jtext ''`sync_fallback`'') demo_store = Ok (STORAGE_OK, sg')"
    using storage_save_spec[OF demo_store_inv(1) sub_id_meta demo_store_inv(2), of demo_nvs_ops demo_store_env] demo_save_ok by metis
  then have "local_relay_publish demo_sync_relay demo_nvs_ops (jtext ''`sync_fallback`'') demo_relay = Ok (True, set_storage sg' demo_relay)"
    by (simp add: local_relay_publish_def demo_sync_relay_def demo_relay_env_def demo_relay_def Let_def jtext_def)
  then show thesis by (rule that)
qed

lemma sync_frame_short: "length d \<le> 65535 \<Longrightarrow> \<exists>fr. sync_frame d = Ok fr"
  by (simp add: sync_frame_def Let_def)

lemma demo_ws_open: "sync_ws_connect (cv_tls demo_cvm) ''wss://a'' = Ok (''a'', 443)" "ws_connect (cv_tls demo_cvm) ''wss://a'' = Ok (''a'', 443)"
  by (simp_all add: sync_ws_connect_def ws_connect_def demo_cvm_def ws_open_def ws_parse_url_def url_parts_def c_strchr_def split_port_def
    c_str_def starts_with_def)

lemma demo_sync_ids: "get_event_ids_from_storage demo_sync_relay demo_relay = Ok []"
  by (simp add: get_event_ids_from_storage_def storage_query_events_json_def demo_relay_def demo_store_def Let_def numeral_eq_Suc
    List.map_filter_def)


definition demo_digits :: string where
  "demo_digits = replicate 64 CHR ''a''"

theorem sync_diff_request_cut_witness:
  "\<exists>env s. sync_diff_request env [demo_digits, demo_digits, demo_digits, demo_digits, demo_digits] = s \<and>
     s = jtext ''[`REQ`,`sync_diff`,{`ids`:[`'' @ demo_digits @ jtext ''`,`'' @ demo_digits @ jtext ''`,`'' @ demo_digits @ jtext ''`,`'' @ take 26 demo_digits"
  using sync_diff_request_cut[of "demo_sync_relay\<lparr>re_print := (\<lambda>j. jtext ''{`ids`:[`'' @ demo_digits @ jtext ''`,`'' @ demo_digits @ jtext ''`,`'' @ demo_digits @ jtext ''`,`'' @ demo_digits @ jtext ''`,`'' @ demo_digits @ jtext ''`]}'')\<rparr>"
      demo_digits demo_digits demo_digits demo_digits "[demo_digits]" "jtext ''`,`'' @ demo_digits @ jtext ''`]}''"]
  by (auto simp: demo_digits_def)

definition demo_lost_tls :: tls_env where
  "demo_lost_tls = \<lparr>tls_connects = (\<lambda>h p. False), tls_answer = (\<lambda>r. None), tls_stale = []\<rparr>"

definition demo_entry :: storage_entry where
  "demo_entry = \<lparr>ie_event_id = demo_id, ie_created_at = 5, ie_expires_at = 9000, ie_file_index = 0, ie_kind = 1,
     ie_pubkey_prefix = take 4 demo_id, ie_flags = 0\<rparr>"

definition demo_full_relay :: "demo_nvs relay_ctx" where
  "demo_full_relay = demo_relay\<lparr>rc_storage := demo_store\<lparr>sg_index := [demo_entry], sg_files := (\<lambda>p. Some ''e'')\<rparr>\<rparr>"

lemma query_loop_Nil [simp]: "query_loop rd n [] = []"
  by (cases n) simp_all

lemma demo_full_ids:
  "get_event_ids_from_storage (demo_sync_relay\<lparr>re_parse := (\<lambda>t. Some (JObj [(''id'', JStr ''aa'')]))\<rparr>) demo_full_relay = Ok [''aa'']"
proof -
  have "query_entry 1000 (- 1) None (\<lambda>p. Some ''e'') demo_entry = Some ''e''"
    by (simp add: query_entry_def ie_deleted_def ie_expired_def demo_entry_def STORAGE_MAX_EVENT_SIZE_def)
  then have "query_loop (query_entry 1000 (- 1) None (\<lambda>p. Some ''e'')) 500 [demo_entry] = [''e'']"
    using query_loop.simps(3)[of "query_entry 1000 (- 1) None (\<lambda>p. Some ''e'')" 499 demo_entry "[]"] by simp
  then have "storage_query_events_json 1000 (- 1) None 5000 (rc_storage demo_full_relay) = Ok (STORAGE_OK, [''e''])"
    by (simp add: storage_query_events_json_def demo_full_relay_def demo_store_def)
  moreover have "json_get_ci (JObj [(''id'', JStr ''aa'')]) ''id'' = Some (JStr ''aa'')" by (simp add: json_get_ci_def to_lower_def)
  moreover have "sv_time (re_store demo_sync_relay) = 1000" by (simp add: demo_sync_relay_def demo_relay_env_def demo_store_env_def)
  ultimately show ?thesis by (simp add: get_event_ids_from_storage_def List.map_filter_def event_id_of_def json_str_def)
qed


definition demo_announce :: tollgate_config where
  "demo_announce = config_defaults\<lparr>cfg_nostr_relays := [''ws://x'', ''wss://a''], cfg_nostr_relay_count := 2\<rparr>"

theorem wifistr_publish_reaches_witness: "\<exists>frame. wifistr_publish demo_cvm demo_announce = Ok [(''wss://a'', frame)]"
proof -
  have h: "hex_bytes_at (concat (map hex2 (replicate 32 0))) 32 = Some (replicate 32 0)"
    using hex_bytes_at_hex[of "replicate 32 0" "[]"] by simp
  obtain ev where b: "build_wifistr_event demo_cvm demo_announce = Ok ev"
    using h by (simp add: build_wifistr_event_def demo_cvm_def demo_gate_id_def Let_def sign_or_keep_def nostr_event_sign_def
      nostr_event_init_def nostr_event_to_json_def)
  obtain fr where f: "sync_frame (ev_print (cv_event demo_cvm) (JArr ([JStr ''EVENT''] @ (case ev_parse (cv_event demo_cvm) ev of Some j \<Rightarrow> [j] | None \<Rightarrow> [])))) = Ok fr"
    using sync_frame_short[of "''{}''"] by (auto simp: demo_cvm_def)
  have "filter (\<lambda>u. \<exists>peer. ws_connect (cv_tls demo_cvm) u = Ok peer) (take (cfg_nostr_relay_count demo_announce) (cfg_nostr_relays demo_announce)) = [''wss://a'']"
    using demo_ws_open(2) by (simp add: demo_announce_def ws_connect_def[of _ "''ws://x''"] ws_parse_url_def[of "''ws://x''"])
  then show ?thesis using wifistr_publish_reaches[OF b f refl] by simp
qed

end
