(* ===== verification/TG_Nip04.thy ===== *)
theory TG_Nip04
  imports TG_Bytes
begin

text \<open>
  Encrypted direct messages (\<^verbatim>\<open>main/nip04.c\<close>): Base64 in both directions, PKCS#7 padding, the shared
  secret and the two entry points. The curve operations of secp256k1, AES of mbedtls and the random
  initialisation vector are parameters. A message carries the vector in front of the ciphertext, all
  in one Base64 text.
\<close>

unbundle bit_operations_syntax

section \<open>Base64\<close>

definition base64_table :: string where
  "base64_table = ''ABCDEFGHIJKLMNOPQRSTUVWXYZabcdefghijklmnopqrstuvwxyz0123456789+/''"

definition base64_triple :: "u8 \<Rightarrow> u8 \<Rightarrow> u8 \<Rightarrow> u32" where
  "base64_triple a b c = push_bit 16 (ucast a) OR push_bit 8 (ucast b) OR ucast c"

definition base64_digit :: "u32 \<Rightarrow> nat \<Rightarrow> char" where
  "base64_digit triple k = base64_table ! unat (drop_bit k triple AND 0x3F)"

fun base64_encode :: "u8 list \<Rightarrow> string" where
  "base64_encode [] = []"
| "base64_encode [a] =
     [base64_digit (base64_triple a 0 0) 18, base64_digit (base64_triple a 0 0) 12, CHR ''='', CHR ''='']"
| "base64_encode [a, b] =
     [base64_digit (base64_triple a b 0) 18, base64_digit (base64_triple a b 0) 12,
      base64_digit (base64_triple a b 0) 6, CHR ''='']"
| "base64_encode (a # b # c # src) =
     base64_digit (base64_triple a b c) 18 # base64_digit (base64_triple a b c) 12 #
     base64_digit (base64_triple a b c) 6 # base64_digit (base64_triple a b c) 0 # base64_encode src"

text \<open>The value \<open>-1\<close> of a character outside the alphabet becomes all ones as an unsigned number.\<close>

definition base64_val :: "char \<Rightarrow> u32" where
  "base64_val c =
     (let n = of_char c :: nat in
      if 65 \<le> n \<and> n \<le> 90 then of_nat (n - 65)
      else if 97 \<le> n \<and> n \<le> 122 then of_nat (n - 97 + 26)
      else if 48 \<le> n \<and> n \<le> 57 then of_nat (n - 48 + 52)
      else if n = 43 then 62
      else if n = 47 then 63
      else - 1)"

definition base64_quad :: "char \<Rightarrow> char \<Rightarrow> char \<Rightarrow> char \<Rightarrow> u32" where
  "base64_quad a b c d =
     push_bit 18 (base64_val a) OR push_bit 12 (base64_val b) OR
     push_bit 6 (if c \<noteq> CHR ''='' then base64_val c else 0) OR (if d \<noteq> CHR ''='' then base64_val d else 0)"

definition quad_bytes :: "u32 \<Rightarrow> u8 list" where
  "quad_bytes triple = [ucast (drop_bit 16 triple), ucast (drop_bit 8 triple), ucast triple]"

text \<open>The loop stops storing at the expected length; \<open>n\<close> is what is left of it.\<close>

fun base64_loop :: "nat \<Rightarrow> string \<Rightarrow> u8 list" where
  "base64_loop n (a # b # c # d # src) = take n (quad_bytes (base64_quad a b c d)) @ base64_loop (n - 3) src"
| "base64_loop n src = []"

definition base64_padding :: "string \<Rightarrow> nat" where
  "base64_padding src =
     (if 1 \<le> length src \<and> src ! (length src - 1) = CHR ''='' then 1 else 0) +
     (if 2 \<le> length src \<and> src ! (length src - 2) = CHR ''='' then 1 else 0)"

text \<open>For texts of less than four characters the C subtraction may wrap, but then the loop does not run.\<close>

definition base64_decode :: "string \<Rightarrow> u8 list" where
  "base64_decode src = base64_loop (length src div 4 * 3 - base64_padding src) src"

section \<open>Shared secret and padding\<close>

record 'pk nip04_env =
  ne_pubkey_parse :: "u8 list \<Rightarrow> 'pk option"
  ne_ecdh_point :: "'pk \<Rightarrow> u8 list \<Rightarrow> u8 list \<times> u8 list"
  ne_cbc_encrypt :: "u8 list \<Rightarrow> u8 list \<Rightarrow> u8 list \<Rightarrow> u8 list option"
  ne_cbc_decrypt :: "u8 list \<Rightarrow> u8 list \<Rightarrow> u8 list \<Rightarrow> u8 list option"

definition ecdh_xonly_hash :: "u8 list \<Rightarrow> u8 list \<Rightarrow> u8 list" where
  "ecdh_xonly_hash x32 y32 = take 32 x32"

definition compute_shared_secret :: "'pk nip04_env \<Rightarrow> u8 list option \<Rightarrow> u8 list option \<Rightarrow> u8 list" where
  "compute_shared_secret e privkey pubkey32 =
     (case (privkey, pubkey32) of
        (Some d, Some p) \<Rightarrow>
          (case ne_pubkey_parse e (0x02 # take 32 p) of
             None \<Rightarrow> replicate 32 0
           | Some pk \<Rightarrow> (case ne_ecdh_point e pk d of (x, y) \<Rightarrow> ecdh_xonly_hash x y))
      | _ \<Rightarrow> replicate 32 0)"

definition pkcs7_pad :: "u8 list \<Rightarrow> nat \<Rightarrow> u8 list" where
  "pkcs7_pad buf block_size =
     (let pad = block_size - length buf mod block_size in buf @ replicate pad (of_nat pad))"

text \<open>The result is a \<open>size_t\<close> of 32 bits and wraps when the padding byte exceeds the length.\<close>

definition pkcs7_unpad :: "u8 list \<Rightarrow> nat" where
  "pkcs7_unpad buf =
     (if buf = [] then 0
      else let pad = unat (last buf) in
        if pad = 0 \<or> 16 < pad then 0
        else if length buf < pad then 2 ^ 32 + length buf - pad
        else if list_all (\<lambda>b. unat b = pad) (drop (length buf - pad) buf) then length buf - pad
        else 0)"

text \<open>
  \<open>mbedtls_aes_crypt_cbc\<close> works in place; its error return, \<open>None\<close> here, is not looked at and leaves the
  buffer as it was.
\<close>

definition in_place :: "u8 list option \<Rightarrow> u8 list \<Rightarrow> u8 list" where
  "in_place result buf = (case result of Some out \<Rightarrow> out | None \<Rightarrow> buf)"

section \<open>Messages\<close>

definition nip04_encrypt ::
    "'pk nip04_env \<Rightarrow> u8 list \<Rightarrow> u8 list option \<Rightarrow> u8 list option \<Rightarrow> string \<Rightarrow> string cres" where
  "nip04_encrypt e iv sender_privkey recipient_pubkey plaintext =
     (let shared_secret = compute_shared_secret e sender_privkey recipient_pubkey;
          padded = pkcs7_pad (map of_char plaintext) 16 in
      if 4096 < length padded then Undef
      else Ok (base64_encode (iv @ in_place (ne_cbc_encrypt e shared_secret iv padded) padded)))"

definition nip04_decrypt ::
    "'pk nip04_env \<Rightarrow> u8 list option \<Rightarrow> u8 list option \<Rightarrow> string \<Rightarrow> nat \<Rightarrow> string cres" where
  "nip04_decrypt e recipient_privkey sender_pubkey ciphertext_base64 plaintext_max =
     (let shared_secret = compute_shared_secret e recipient_privkey sender_pubkey;
          combined = base64_decode ciphertext_base64 in
      if 4112 < length combined then Undef
      else if length combined < 32 then Fail
      else
        let iv = take 16 combined;
            ct = drop 16 combined;
            ct = in_place (ne_cbc_decrypt e shared_secret iv ct) ct;
            pt_len = pkcs7_unpad ct in
        if pt_len = 0 \<or> plaintext_max \<le> pt_len then Fail
        else Ok (map (\<lambda>b. char_of (unat b)) (take pt_len ct)))"

section \<open>Base64 round trip\<close>

lemma base64_table_length: "length base64_table = 64"
  by (simp add: base64_table_def)

lemma base64_table_list: "map base64_val base64_table = map of_nat [0..<64]"
  by (simp add: base64_table_def base64_val_def upt_rec)

lemma base64_table_vals:
  assumes "k < 64"
  shows "base64_val (base64_table ! k) = of_nat k" "base64_table ! k \<noteq> CHR ''=''"
proof -
  have "map base64_val base64_table ! k = map of_nat [0..<64] ! k" by (simp add: base64_table_list)
  then show "base64_val (base64_table ! k) = of_nat k" using assms by (simp add: base64_table_length)
  have "CHR ''='' \<notin> set base64_table" by (simp add: base64_table_def)
  then show "base64_table ! k \<noteq> CHR ''=''" using assms base64_table_length nth_mem by metis
qed

lemma six_bits_lt: "unat (x AND 0x3F :: u32) < 64"
proof -
  have "x AND 0x3F = take_bit 6 x" by (simp add: take_bit_eq_mask mask_eq_exp_minus_1)
  then have "unat (x AND 0x3F) = take_bit 6 (unat x)" by (simp add: unsigned_take_bit_eq)
  then show ?thesis by (simp add: take_bit_eq_mod)
qed

lemma base64_digit_props [simp]:
  "base64_val (base64_digit t k) = drop_bit k t AND 0x3F" "base64_digit t k \<noteq> CHR ''=''"
  using base64_table_vals[OF six_bits_lt[of "drop_bit k t"]] by (simp_all add: base64_digit_def)

lemma mask6: "(0x3F :: u32) = mask 6" by (simp add: mask_eq_exp_minus_1)

lemma quad_bytes_digits:
  "quad_bytes (push_bit 18 (drop_bit 18 t AND 0x3F) OR push_bit 12 (drop_bit 12 t AND 0x3F) OR
     push_bit 6 (drop_bit 6 t AND 0x3F) OR (t AND 0x3F)) = quad_bytes t"
  by (auto simp: quad_bytes_def mask6 intro!: bit_word_eqI) (auto simp: bit_simps)

lemma quad_bytes_triple [simp]: "quad_bytes (base64_triple a b c) = [a, b, c]"
  by (auto simp: quad_bytes_def base64_triple_def intro!: bit_word_eqI) (auto simp: bit_simps)

lemma base64_triple_low:
  "base64_triple a 0 0 AND 0x3F = 0" "drop_bit 6 (base64_triple a 0 0) AND 0x3F = 0" "base64_triple a b 0 AND 0x3F = 0"
  by (auto simp: base64_triple_def mask6 intro!: bit_word_eqI) (auto simp: bit_simps)

lemma base64_quad_digits [simp]:
  "quad_bytes (base64_quad (base64_digit t 18) (base64_digit t 12) (base64_digit t 6) (base64_digit t 0)) = quad_bytes t"
  using quad_bytes_digits[of t] by (simp add: base64_quad_def)

lemma base64_quad_short [simp]:
  "quad_bytes (base64_quad (base64_digit (base64_triple a b 0) 18) (base64_digit (base64_triple a b 0) 12)
     (base64_digit (base64_triple a b 0) 6) CHR ''='') = [a, b, 0]"
  "quad_bytes (base64_quad (base64_digit (base64_triple a 0 0) 18) (base64_digit (base64_triple a 0 0) 12)
     CHR ''='' CHR ''='') = [a, 0, 0]"
  using quad_bytes_digits[of "base64_triple a b 0"] quad_bytes_digits[of "base64_triple a 0 0"]
  by (simp_all add: base64_quad_def base64_triple_low)

lemma base64_loop_encode: "n \<le> length bs \<Longrightarrow> base64_loop n (base64_encode bs) = take n bs"
  by (induction bs arbitrary: n rule: base64_encode.induct) (auto simp: take_Cons' numeral_3_eq_3)

lemma quads_step: "(4 + n) div 4 * 3 = n div 4 * 3 + (3 :: nat)"
  by presburger

lemma base64_padding_append: "2 \<le> length y \<Longrightarrow> base64_padding (x @ y) = base64_padding y"
  by (auto simp: base64_padding_def nth_append)

lemma base64_encode_expected:
  "length (base64_encode bs) div 4 * 3 - base64_padding (base64_encode bs) = length bs \<and>
   (bs \<noteq> [] \<longrightarrow> 4 \<le> length (base64_encode bs)) \<and>
   base64_padding (base64_encode bs) \<le> length (base64_encode bs) div 4 * 3"
proof (induction bs rule: base64_encode.induct)
  case (4 a b c src)
  show ?case
  proof (cases "src = []")
    case False
    then have "base64_padding (base64_encode (a # b # c # src)) = base64_padding (base64_encode src)"
      using 4 base64_padding_append[of "base64_encode src" "take 4 (base64_encode (a # b # c # src))"] by simp
    then show ?thesis using 4 quads_step[of "length (base64_encode src)"] by simp linarith
  qed (simp add: base64_padding_def)
qed (simp_all add: base64_padding_def)

text \<open>Decoding inverts encoding, for every byte string.\<close>

theorem base64_roundtrip: "base64_decode (base64_encode bs) = bs"
  using base64_encode_expected[of bs] by (simp add: base64_decode_def base64_loop_encode)

lemma base64_loop_length: "length (base64_loop n src) = min n (length src div 4 * 3)"
  proof (induction n src rule: base64_loop.induct)
  case (1 n a b c d src)
  have "length (a # b # c # d # src) div 4 * 3 = length src div 4 * 3 + 3" using quads_step[of "length src"] by simp
  then show ?case using 1 by (simp add: quad_bytes_def del: length_Cons) linarith
qed simp_all

lemma base64_decode_length: "length (base64_decode src) = length src div 4 * 3 - base64_padding src"
  by (simp add: base64_decode_def base64_loop_length)

section \<open>Padding round trip\<close>

lemma pkcs7_pad_length: "length (pkcs7_pad buf 16) = length buf + (16 - length buf mod 16)" "length (pkcs7_pad buf 16) mod 16 = 0"
  by (simp_all add: pkcs7_pad_def Let_def) presburger

lemma pkcs7_unpad_padded:
  assumes "0 < k" "k \<le> 16"
  shows "pkcs7_unpad (buf @ replicate k (of_nat k)) = length buf"
proof -
  have k: "unat (of_nat k :: u8) = k" using assms by (simp add: unat_of_nat take_bit_nat_eq_self)
  have l: "last (buf @ replicate k (of_nat k)) = (of_nat k :: u8)" using assms(1) by simp
  have "list_all (\<lambda>b. unat b = k) (replicate k (of_nat k :: u8))" using k by (simp add: list_all_iff)
  then show ?thesis using assms by (simp add: pkcs7_unpad_def l k Let_def)
qed

lemma pkcs7_unpad_pad: "pkcs7_unpad (pkcs7_pad buf 16) = length buf"
  using pkcs7_unpad_padded[of "16 - length buf mod 16" buf] by (simp add: pkcs7_pad_def Let_def)

lemma take_pkcs7_pad: "take (length buf) (pkcs7_pad buf n) = buf"
  by (simp add: pkcs7_pad_def Let_def)

section \<open>Messages between two holders of keys\<close>

lemma chars_of_bytes: "map (\<lambda>b. char_of (unat b)) (map of_char cs :: u8 list) = cs"
proof -
  have "char_of (unat (of_char c :: u8)) = c" for c
  proof -
    have "unat (of_char c :: u8) = of_char c" by (simp add: of_char_def)
    then show ?thesis by simp
  qed
  then show ?thesis by (induction cs) simp_all
qed

lemma nip04_decrypt_blocks:
  assumes "length iv = 16" "16 \<le> length ct" "length ct \<le> 4096"
    and "in_place (ne_cbc_decrypt e (compute_shared_secret e d p) iv ct) ct = buf @ pad"
    and "pkcs7_unpad (buf @ pad) = length buf" "buf \<noteq> []" "length buf < m"
  shows "nip04_decrypt e d p (base64_encode (iv @ ct)) m = Ok (map (\<lambda>b. char_of (unat b)) buf)"
  using assms by (simp add: nip04_decrypt_def base64_roundtrip Let_def)

text \<open>
  (C32) A message that one holder of a key encrypts for another is decrypted by the other to the same text, when the
  two keys agree on the x coordinate of the shared point and AES decryption inverts encryption on whole blocks.
\<close>

theorem nip04_roundtrip:
  assumes "ne_pubkey_parse e (0x02 # take 32 pub_b) = Some pk_b" "ne_pubkey_parse e (0x02 # take 32 pub_a) = Some pk_a"
    and "fst (ne_ecdh_point e pk_b priv_a) = fst (ne_ecdh_point e pk_a priv_b)"
    and "\<And>k v d. length d mod 16 = 0 \<Longrightarrow>
      \<exists>c. ne_cbc_encrypt e k v d = Some c \<and> length c = length d \<and> ne_cbc_decrypt e k v c = Some d"
    and "length iv = 16" "0 < length plaintext" "length plaintext < 4096" "length plaintext < plaintext_max"
  shows "\<exists>c. nip04_encrypt e iv (Some priv_a) (Some pub_b) plaintext = Ok c \<and>
    nip04_decrypt e (Some priv_b) (Some pub_a) c plaintext_max = Ok plaintext"
proof -
  let ?k = "compute_shared_secret e (Some priv_a) (Some pub_b)"
  let ?p = "map of_char plaintext :: u8 list"
  have k: "compute_shared_secret e (Some priv_b) (Some pub_a) = ?k"
    using assms(1-3) by (simp add: compute_shared_secret_def ecdh_xonly_hash_def case_prod_beta)
  have l: "16 \<le> length (pkcs7_pad ?p 16)" "length (pkcs7_pad ?p 16) \<le> 4096"
    using pkcs7_pad_length(1)[of ?p] assms(7) by (simp, simp) presburger
  obtain c where c: "ne_cbc_encrypt e ?k iv (pkcs7_pad ?p 16) = Some c" "length c = length (pkcs7_pad ?p 16)"
      "ne_cbc_decrypt e ?k iv c = Some (pkcs7_pad ?p 16)"
    using assms(4)[OF pkcs7_pad_length(2)] by blast
  obtain pad where pad: "pkcs7_pad ?p 16 = ?p @ pad" by (simp add: pkcs7_pad_def Let_def)
  have "nip04_decrypt e (Some priv_b) (Some pub_a) (base64_encode (iv @ c)) plaintext_max = Ok plaintext"
    using nip04_decrypt_blocks[of iv c e "Some priv_b" "Some pub_a" ?p pad plaintext_max] assms(5-8) l c(2,3) pad
      pkcs7_unpad_pad[of ?p] chars_of_bytes[of plaintext] by (simp add: k in_place_def)
  then show ?thesis using l(2) c(1) by (simp add: nip04_encrypt_def Let_def in_place_def)
qed

definition demo_nip04 :: "u8 list nip04_env" where
  "demo_nip04 = \<lparr>ne_pubkey_parse = (\<lambda>c. Some (tl c)), ne_ecdh_point = (\<lambda>p d. (map2 (XOR) p d, [])),
     ne_cbc_encrypt = (\<lambda>k v d. if length d mod 16 = 0 then Some (map (\<lambda>b. NOT b) d) else None),
     ne_cbc_decrypt = (\<lambda>k v d. if length d mod 16 = 0 then Some (map (\<lambda>b. NOT b) d) else None)\<rparr>"

theorem nip04_roundtrip_witness:
  "\<exists>c. nip04_encrypt demo_nip04 (replicate 16 9) (Some (replicate 32 5)) (Some (replicate 32 6)) ''pay'' = Ok c \<and>
     nip04_decrypt demo_nip04 (Some (replicate 32 6)) (Some (replicate 32 5)) c 100 = Ok ''pay''"
proof (rule nip04_roundtrip[where pk_b = "replicate 32 6" and pk_a = "replicate 32 5"])
  fix k v d :: "u8 list"
  assume "length d mod 16 = 0"
  then show "\<exists>c. ne_cbc_encrypt demo_nip04 k v d = Some c \<and> length c = length d \<and> ne_cbc_decrypt demo_nip04 k v c = Some d"
    by (simp add: demo_nip04_def comp_def)
qed (simp_all add: demo_nip04_def zip_replicate)

text \<open>
  The error return of AES for a length that is not a multiple of the block is not looked at, so the received bytes
  pass as the plaintext: without any key one can write a message that every recipient decrypts to a text of
  the writer's choice, as from any sender.
\<close>

theorem nip04_forged_plaintext:
  assumes "\<And>k v d. length d mod 16 \<noteq> 0 \<Longrightarrow> ne_cbc_decrypt e k v d = None"
    and "length iv = 16" "16 \<le> length forged" "length forged < 4096" "length forged mod 16 \<noteq> 15" "length forged < plaintext_max"
  shows "nip04_decrypt e privkey sender (base64_encode (iv @ map of_char forged @ [1])) plaintext_max = Ok forged"
proof -
  let ?f = "map of_char forged :: u8 list"
  have "Suc (length forged) mod 16 \<noteq> 0" using assms(5) by (simp add: mod_Suc)
  then have d: "ne_cbc_decrypt e k v (?f @ [1]) = None" for k v using assms(1) by simp
  have u: "pkcs7_unpad (?f @ [1]) = length ?f" using pkcs7_unpad_padded[of 1 ?f] by simp
  have "?f \<noteq> []" using assms(3) by auto
  then show ?thesis
    using nip04_decrypt_blocks[of iv "?f @ [1]" e privkey sender ?f "[1]" plaintext_max] assms(2-6) d u chars_of_bytes[of forged]
    by (simp add: in_place_def)
qed

theorem nip04_forged_plaintext_witness:
  "nip04_decrypt demo_nip04 (Some (replicate 32 6)) (Some (replicate 32 5))
     (base64_encode (replicate 16 0 @ map of_char ''send all the sats'' @ [1])) 100 = Ok ''send all the sats''"
  by (rule nip04_forged_plaintext) (simp_all add: demo_nip04_def)

text \<open>
  A text of 5488 characters or more overruns the 4112 bytes for the decoded message before any check; the
  empty message can be encrypted but not decrypted.
\<close>

theorem nip04_decrypt_overflow:
  assumes "5488 \<le> length ciphertext"
  shows "nip04_decrypt e privkey sender ciphertext plaintext_max = Undef"
proof -
  have "base64_padding ciphertext \<le> 2" by (simp add: base64_padding_def)
  moreover have "1372 \<le> length ciphertext div 4" using div_le_mono[OF assms, of 4] by simp
  ultimately have "4112 < length (base64_decode ciphertext)" by (simp add: base64_decode_length)
  then show ?thesis by (simp add: nip04_decrypt_def Let_def)
qed

theorem nip04_decrypt_overflow_witness:
  "nip04_decrypt demo_nip04 None None (replicate 5488 CHR ''A'') 100 = Undef"
  by (rule nip04_decrypt_overflow) simp

lemma nip04_empty_undecryptable:
  assumes "\<And>k v d. length d mod 16 = 0 \<Longrightarrow>
      \<exists>c. ne_cbc_encrypt e k v d = Some c \<and> length c = length d \<and> ne_cbc_decrypt e k v c = Some d"
    and "length iv = 16" "compute_shared_secret e priv_b pub_a = compute_shared_secret e priv_a pub_b"
  shows "\<exists>c. nip04_encrypt e iv priv_a pub_b [] = Ok c \<and> nip04_decrypt e priv_b pub_a c m = Fail"
proof -
  have p: "pkcs7_pad [] 16 = replicate 16 16" by (simp add: pkcs7_pad_def)
  obtain c where c: "ne_cbc_encrypt e (compute_shared_secret e priv_a pub_b) iv (replicate 16 16) = Some c" "length c = 16"
      "ne_cbc_decrypt e (compute_shared_secret e priv_a pub_b) iv c = Some (replicate 16 16)"
    using assms(1)[of "replicate 16 16"] by auto
  have "pkcs7_unpad (replicate 16 16) = 0" using pkcs7_unpad_padded[of 16 "[]"] by simp
  then show ?thesis using c assms(2,3)
    by (simp add: nip04_encrypt_def nip04_decrypt_def Let_def in_place_def p base64_roundtrip)
qed

end
