(* ===== verification/TG_Ehash.thy ===== *)
theory TG_Ehash
  imports TG_Bytes
begin

text \<open>
  The relay protocol for LoRa links (\<^verbatim>\<open>components/ehash_relay\<close>): packets with a header, a payload and
  a CRC16, their packing and unpacking, and forwarding by one hop. A null pointer is \<open>None\<close>; the
  negative return codes are the values of an error type.
\<close>

unbundle bit_operations_syntax

section \<open>Data\<close>

datatype ehash_error =
    EHASH_ERR_INVALID_ARG
  | EHASH_ERR_BUFFER_TOO_SMALL
  | EHASH_ERR_INVALID_PACKET
  | EHASH_ERR_CRC_MISMATCH
  | EHASH_ERR_MAX_HOPS
  | EHASH_ERR_PAYLOAD_TOO_LARGE
  | EHASH_ERR_BAD_MSG_TYPE

record ehash_packet =
  eh_msg_type :: u8
  eh_hop_count :: u8
  eh_max_hops :: u8
  eh_sender_id :: u32
  eh_payload :: "u8 list"

definition EHASH_HEADER_SIZE :: nat where
  "EHASH_HEADER_SIZE = 9"

definition EHASH_CRC_SIZE :: nat where
  "EHASH_CRC_SIZE = 2"

definition EHASH_MIN_PACKET_SIZE :: nat where
  "EHASH_MIN_PACKET_SIZE = EHASH_HEADER_SIZE + EHASH_CRC_SIZE"

definition ehash_msg_type_is_valid :: "u8 \<Rightarrow> bool" where
  "ehash_msg_type_is_valid t \<longleftrightarrow> 0x01 \<le> t \<and> t < 0x04"

section \<open>Checksum\<close>

definition crc_bit :: "u16 \<Rightarrow> u16" where
  "crc_bit crc = (if bit crc 15 then push_bit 1 crc XOR 0x1021 else push_bit 1 crc)"

definition crc_byte :: "u16 \<Rightarrow> u8 \<Rightarrow> u16" where
  "crc_byte crc b = (crc_bit ^^ 8) (crc XOR push_bit 8 (ucast b))"

definition ehash_packet_calc_crc :: "u8 list \<Rightarrow> u16" where
  "ehash_packet_calc_crc buf = foldl crc_byte 0xFFFF buf"

section \<open>Packing and unpacking\<close>

definition eh_header :: "u8 \<Rightarrow> u8 \<Rightarrow> u8 \<Rightarrow> u32 \<Rightarrow> u16 \<Rightarrow> u8 list" where
  "eh_header msg_type hop_count max_hops sender_id payload_len =
     [msg_type, hop_count, max_hops] @ be32 sender_id @ be16 payload_len"

text \<open>\<open>buf_size\<close> is the capacity of the output buffer; the packed bytes are the result.\<close>

definition ehash_packet_pack :: "u8 \<Rightarrow> u8 \<Rightarrow> u8 \<Rightarrow> u32 \<Rightarrow> u8 list option \<Rightarrow> u16 \<Rightarrow> nat option \<Rightarrow> ehash_error + u8 list" where
  "ehash_packet_pack msg_type hop_count max_hops sender_id payload payload_len buf_size =
     (case buf_size of
        None \<Rightarrow> Inl EHASH_ERR_INVALID_ARG
      | Some cap \<Rightarrow>
          if 0 < payload_len \<and> payload = None then Inl EHASH_ERR_INVALID_ARG
          else if \<not> ehash_msg_type_is_valid msg_type then Inl EHASH_ERR_BAD_MSG_TYPE
          else if cap < EHASH_HEADER_SIZE + unat payload_len + EHASH_CRC_SIZE then Inl EHASH_ERR_BUFFER_TOO_SMALL
          else
            (let body = eh_header msg_type hop_count max_hops sender_id payload_len @
                   (case payload of Some bs \<Rightarrow> take (unat payload_len) bs | None \<Rightarrow> [])
             in Inr (body @ be16 (ehash_packet_calc_crc body))))"

definition get_u16_at :: "u8 list \<Rightarrow> nat \<Rightarrow> u16" where
  "get_u16_at buf i = of_be16 (buf ! i) (buf ! (i + 1))"

definition get_u32_at :: "u8 list \<Rightarrow> nat \<Rightarrow> u32" where
  "get_u32_at buf i = of_be32 (buf ! i) (buf ! (i + 1)) (buf ! (i + 2)) (buf ! (i + 3))"

definition ehash_packet_validate_crc :: "u8 list \<Rightarrow> bool" where
  "ehash_packet_validate_crc buf =
     (if length buf < EHASH_MIN_PACKET_SIZE then False
      else
        (let payload_len = unat (get_u16_at buf 7); whole = EHASH_HEADER_SIZE + payload_len + EHASH_CRC_SIZE in
         if length buf < whole then False
         else ehash_packet_calc_crc (take (EHASH_HEADER_SIZE + payload_len) buf) = get_u16_at buf (EHASH_HEADER_SIZE + payload_len)))"

definition ehash_packet_unpack :: "u8 list option \<Rightarrow> ehash_error + ehash_packet" where
  "ehash_packet_unpack buf_opt =
     (case buf_opt of
        None \<Rightarrow> Inl EHASH_ERR_INVALID_ARG
      | Some buf \<Rightarrow>
          if length buf < EHASH_HEADER_SIZE then Inl EHASH_ERR_INVALID_PACKET
          else if \<not> ehash_msg_type_is_valid (buf ! 0) then Inl EHASH_ERR_BAD_MSG_TYPE
          else
            (let payload_len = unat (get_u16_at buf 7); whole = EHASH_HEADER_SIZE + payload_len + EHASH_CRC_SIZE in
             if length buf < whole then Inl EHASH_ERR_INVALID_PACKET
             else if \<not> ehash_packet_validate_crc (take whole buf) then Inl EHASH_ERR_CRC_MISMATCH
             else Inr \<lparr>eh_msg_type = buf ! 0, eh_hop_count = buf ! 1, eh_max_hops = buf ! 2,
                       eh_sender_id = get_u32_at buf 3, eh_payload = take payload_len (drop EHASH_HEADER_SIZE buf)\<rparr>))"

text \<open>Forwarding changes the packet also when the result is an error.\<close>

definition ehash_relay_forward :: "u32 \<Rightarrow> ehash_packet \<Rightarrow> ehash_error option \<times> ehash_packet" where
  "ehash_relay_forward next_hop_id p =
     (let p1 = p\<lparr>eh_hop_count := eh_hop_count p + 1, eh_sender_id := next_hop_id\<rparr>
      in (if eh_max_hops p1 < eh_hop_count p1 then Some EHASH_ERR_MAX_HOPS else None, p1))"

section \<open>The checksum distinguishes single bytes\<close>

lemma xor_cancel: "a XOR c = b XOR c \<longleftrightarrow> a = b" for a b c :: u16
  by (metis xor.assoc xor_self_eq xor.right_neutral)

lemma crc_bit_inj: "crc_bit a = crc_bit b \<longleftrightarrow> a = b"
proof
  assume eq: "crc_bit a = crc_bit b"
  have low: "bit (crc_bit c) 0 \<longleftrightarrow> bit c 15" for c by (simp add: crc_bit_def bit_simps bit_0 even_xor_iff)
  then have top: "bit a 15 \<longleftrightarrow> bit b 15" using eq by metis
  then have "push_bit 1 a = push_bit 1 b" using eq by (auto simp: crc_bit_def xor_cancel)
  moreover have "bit (push_bit 1 c) (Suc n) \<longleftrightarrow> bit c n" if "n < 15" for n and c :: u16
    using that by (simp only: bit_push_bit_iff) simp
  ultimately have "bit a n \<longleftrightarrow> bit b n" if "n < 15" for n using that by metis
  then have "bit a n \<longleftrightarrow> bit b n" if "n < 16" for n using top that by (cases "n = 15") (auto simp: less_Suc_eq numeral_eq_Suc)
  then show "a = b" by (intro bit_word_eqI) simp
qed simp

lemma crc_bits_inj: "(crc_bit ^^ n) a = (crc_bit ^^ n) b \<longleftrightarrow> a = b"
  by (induction n) (simp_all add: crc_bit_inj)

lemma crc_byte_inj: "crc_byte c b = crc_byte d b \<longleftrightarrow> c = d" "crc_byte c a = crc_byte c b \<longleftrightarrow> a = b"
proof -
  show "crc_byte c b = crc_byte d b \<longleftrightarrow> c = d" by (simp add: crc_byte_def crc_bits_inj xor_cancel)
  have "push_bit 8 (ucast a :: u16) = push_bit 8 (ucast b) \<Longrightarrow> a = b"
    by (rule bit_word_eqI) (auto simp: bit_eq_iff bit_simps dest!: spec[of _ "_ + 8"])
  then show "crc_byte c a = crc_byte c b \<longleftrightarrow> a = b" 
    using xor_cancel[of _ c] by (auto simp: crc_byte_def crc_bits_inj xor.commute[of c])
qed

lemma crc_foldl_inj: "foldl crc_byte c bs = foldl crc_byte d bs \<longleftrightarrow> c = d"
  by (induction bs arbitrary: c d) (simp_all add: crc_byte_inj)

lemma crc_update:
  assumes "i < length bs" "b \<noteq> bs ! i"
  shows "ehash_packet_calc_crc (bs[i := b]) \<noteq> ehash_packet_calc_crc bs"
proof -
  have "bs = take i bs @ bs ! i # drop (Suc i) bs" "bs[i := b] = take i bs @ b # drop (Suc i) bs"
    using assms(1) by (simp_all add: id_take_nth_drop upd_conv_take_nth_drop)
  then show ?thesis
    unfolding ehash_packet_calc_crc_def using assms(2)
    by (metis (no_types, lifting) crc_byte_inj(2) crc_foldl_inj foldl_Cons foldl_append)
qed

section \<open>Packets on the wire\<close>

definition eh_wf :: "ehash_packet \<Rightarrow> bool" where
  "eh_wf p \<longleftrightarrow> ehash_msg_type_is_valid (eh_msg_type p) \<and> length (eh_payload p) < 2 ^ 16"

definition eh_body :: "ehash_packet \<Rightarrow> u8 list" where
  "eh_body p = eh_header (eh_msg_type p) (eh_hop_count p) (eh_max_hops p) (eh_sender_id p) (of_nat (length (eh_payload p)))
     @ eh_payload p"

definition eh_enc :: "ehash_packet \<Rightarrow> u8 list" where
  "eh_enc p = eh_body p @ be16 (ehash_packet_calc_crc (eh_body p))"

definition eh_dec :: "u8 list \<Rightarrow> ehash_packet option" where
  "eh_dec bs = (case ehash_packet_unpack (Some bs) of Inr p \<Rightarrow> Some p | Inl e \<Rightarrow> None)"

lemmas eh_sizes = EHASH_HEADER_SIZE_def EHASH_CRC_SIZE_def EHASH_MIN_PACKET_SIZE_def

lemma unat_payload_len: "eh_wf p \<Longrightarrow> unat (of_nat (length (eh_payload p)) :: u16) = length (eh_payload p)"
  by (simp add: eh_wf_def unat_of_nat)

lemma length_eh_body [simp]: "length (eh_body p) = 9 + length (eh_payload p)"
  by (simp add: eh_body_def eh_header_def)

lemma length_eh_enc [simp]: "length (eh_enc p) = 11 + length (eh_payload p)"
  by (simp add: eh_enc_def)

lemma pack_eh_enc:
  assumes "eh_wf p" "11 + length (eh_payload p) \<le> cap"
  shows "ehash_packet_pack (eh_msg_type p) (eh_hop_count p) (eh_max_hops p) (eh_sender_id p) (Some (eh_payload p))
    (of_nat (length (eh_payload p))) (Some cap) = Inr (eh_enc p)"
  using assms unat_payload_len[OF assms(1)]
  by (simp add: ehash_packet_pack_def eh_wf_def eh_sizes eh_enc_def eh_body_def Let_def)

lemma header_nth:
  "eh_header t h mx s n ! 0 = t" "eh_header t h mx s n ! 1 = h" "eh_header t h mx s n ! 2 = mx"
  "get_u32_at (eh_header t h mx s n @ r) 3 = s" "get_u16_at (eh_header t h mx s n @ r) 7 = n"
  by (simp_all add: eh_header_def get_u32_at_def get_u16_at_def be32_def be16_def)

lemma get_u16_append: "get_u16_at (xs @ be16 v @ ys) (length xs) = v"
  by (simp add: get_u16_at_def nth_append be16_def)

lemma validate_iff:
  assumes "length body = 9 + unat (get_u16_at body 7)" "length crc = 2"
  shows "ehash_packet_validate_crc (body @ crc) \<longleftrightarrow> be16 (ehash_packet_calc_crc body) = crc"
proof -
  obtain a b where c: "crc = [a, b]" using assms(2) by (auto simp: numeral_eq_Suc length_Suc_conv)
  have l: "get_u16_at (body @ crc) 7 = get_u16_at body 7" using assms(1) by (simp add: get_u16_at_def nth_append)
  have g: "get_u16_at (body @ crc) (length body) = of_be16 a b" by (simp add: get_u16_at_def nth_append c)
  have "of_be16 a b = w \<longleftrightarrow> be16 w = crc" for w unfolding c be16_of_be16[of a b, symmetric] be16_inject by auto
  moreover have e: "EHASH_HEADER_SIZE + unat (get_u16_at (body @ crc) 7) = length body"
    using assms(1) by (simp only: l EHASH_HEADER_SIZE_def)
  moreover have "9 \<le> length body" using assms(1) by simp
  ultimately show ?thesis
    unfolding ehash_packet_validate_crc_def Let_def e g using assms(2) by (simp add: eh_sizes eq_commute)
qed

lemma unpack_iff:
  assumes "ehash_msg_type_is_valid (body ! 0)" "length body = 9 + unat (get_u16_at body 7)" "length crc = 2"
  shows "ehash_packet_unpack (Some (body @ crc @ rest)) =
    (if be16 (ehash_packet_calc_crc body) = crc
     then Inr \<lparr>eh_msg_type = body ! 0, eh_hop_count = body ! 1, eh_max_hops = body ! 2, eh_sender_id = get_u32_at body 3,
            eh_payload = drop 9 body\<rparr>
     else Inl EHASH_ERR_CRC_MISMATCH)"
proof -
  let ?b = "body @ crc @ rest"
  have l: "9 \<le> length body" using assms(2) by simp
  then have n: "?b ! 0 = body ! 0" "?b ! 1 = body ! 1" "?b ! 2 = body ! 2" "get_u32_at ?b 3 = get_u32_at body 3"
    "get_u16_at ?b 7 = get_u16_at body 7" by (auto simp: nth_append get_u16_at_def get_u32_at_def)
  have "take (unat (get_u16_at body 7)) (drop 9 ?b) = drop 9 body" using assms(2) l by simp
  moreover have "take (length body + 2) ?b = body @ crc" using assms(3) by simp
  ultimately show ?thesis
    unfolding ehash_packet_unpack_def Let_def option.case n EHASH_HEADER_SIZE_def EHASH_CRC_SIZE_def assms(2)[symmetric]
    using validate_iff[OF assms(2,3)] assms(1,3) l by simp
qed

lemma eh_body_parts:
  assumes "eh_wf p"
  shows "eh_body p ! 0 = eh_msg_type p" "eh_body p ! 1 = eh_hop_count p" "eh_body p ! 2 = eh_max_hops p"
    "get_u32_at (eh_body p) 3 = eh_sender_id p" "length (eh_body p) = 9 + unat (get_u16_at (eh_body p) 7)"
    "drop 9 (eh_body p) = eh_payload p"
  using unat_payload_len[OF assms] header_nth
  by (simp_all add: eh_body_def nth_append) (simp_all add: eh_header_def be32_def be16_def)

lemma eh_dec_enc: "eh_wf p \<Longrightarrow> ehash_packet_unpack (Some (eh_enc p @ rest)) = Inr p"
  using unpack_iff[of "eh_body p" "be16 (ehash_packet_calc_crc (eh_body p))" rest] eh_body_parts[of p]
  by (simp add: eh_enc_def eh_wf_def)

interpretation ehc: codec eh_wf eh_enc eh_dec
  by unfold_locales (simp add: eh_dec_def eh_dec_enc)

text \<open>
  Packets survive the link: a packet with a known type and at most 65535 payload bytes is packed
  whenever the buffer has room for payload plus 11 bytes, and unpacking the bytes, also with more data
  behind them, gives the packet back; two packets never share an encoding.
\<close>

theorem ehash_packet_roundtrip:
  assumes "eh_wf p" "11 + length (eh_payload p) \<le> cap"
  shows "\<exists>bs. ehash_packet_pack (eh_msg_type p) (eh_hop_count p) (eh_max_hops p) (eh_sender_id p) (Some (eh_payload p))
      (of_nat (length (eh_payload p))) (Some cap) = Inr bs \<and> length bs = 11 + length (eh_payload p) \<and>
    ehash_packet_unpack (Some (bs @ rest)) = Inr p \<and> (\<forall>q. eh_wf q \<and> eh_enc q = bs \<longrightarrow> q = p)"
  using pack_eh_enc[OF assms] eh_dec_enc[OF assms(1)] ehc.enc_inject[OF _ assms(1)] by auto

definition demo_packet :: ehash_packet where
  "demo_packet = \<lparr>eh_msg_type = 2, eh_hop_count = 0, eh_max_hops = 4, eh_sender_id = 77, eh_payload = [1, 2, 3]\<rparr>"

lemma demo_packet_wf: "eh_wf demo_packet"
  by (simp add: eh_wf_def demo_packet_def ehash_msg_type_is_valid_def)

theorem ehash_packet_roundtrip_witness:
  "\<exists>bs. ehash_packet_pack 2 0 4 77 (Some [1, 2, 3]) 3 (Some 64) = Inr bs \<and> ehash_packet_unpack (Some (bs @ [9])) = Inr demo_packet"
  using ehash_packet_roundtrip[OF demo_packet_wf, of 64 "[9]"] by (auto simp: demo_packet_def)



section \<open>Hops\<close>

primrec forward_all :: "u32 list \<Rightarrow> ehash_packet \<Rightarrow> ehash_packet option" where
  "forward_all [] p = Some p"
| "forward_all (n # ns) p =
     (case ehash_relay_forward n p of (None, p1) \<Rightarrow> forward_all ns p1 | (Some e, p1) \<Rightarrow> None)"

text \<open>
  The hop limit bounds the life of a packet, with two exceptions: a packet passes a chain of
  relays if and only if the hops made and to make do not exceed its limit. But with the limit 255 the
  8-bit counter never exceeds it and the packet passes every chain, and a packet that arrives with the
  counter at 255 starts again from zero.
\<close>

theorem ehash_hop_limit:
  "forward_all relays p \<noteq> None \<longleftrightarrow> relays = [] \<or> eh_max_hops p = 255 \<or> unat (eh_hop_count p) + length relays \<le> unat (eh_max_hops p)
     \<or> (eh_hop_count p = 255 \<and> length relays \<le> unat (eh_max_hops p) + 1)"
proof (induction relays arbitrary: p)
  case (Cons n ns)
  let ?h = "eh_hop_count p" and ?m = "eh_max_hops p"
  have b: "unat w \<le> 255" "w = 255 \<longleftrightarrow> unat w = 255" for w :: u8
  proof -
    have "unat w < 2 ^ 8" by (rule order.strict_trans2[OF unsigned_less]) simp
    then show "unat w \<le> 255" by simp
    show "w = 255 \<longleftrightarrow> unat w = 255" by (simp add: word_unat_eq_iff)
  qed
  have s: "unat (?h + 1) = (if unat ?h = 255 then 0 else unat ?h + 1)"
    using b(1)[of ?h] by (auto simp: unat_word_ariths)
  have f: "?m < ?h + 1 \<longleftrightarrow> unat ?m < unat (?h + 1)" by (simp add: word_less_nat_alt)
  show ?case
    using Cons.IH[of "p\<lparr>eh_hop_count := ?h + 1, eh_sender_id := n\<rparr>"] b(1)[of ?h] b(1)[of ?m] s
    by (auto simp: ehash_relay_forward_def Let_def f b(2))
qed simp

theorem ehash_hop_limit_witness:
  "forward_all [1, 2, 3, 4] demo_packet \<noteq> None \<and> forward_all [1, 2, 3, 4, 5] demo_packet = None"
  using ehash_hop_limit[of "[1, 2, 3, 4]" demo_packet] ehash_hop_limit[of "[1, 2, 3, 4, 5]" demo_packet]
  by (auto simp: demo_packet_def)

end
