(* ===== verification/TG_Wallet.thy ===== *)
theory TG_Wallet
  imports TG_Json TG_Double
begin

text \<open>
  The wallet of the gate (\<^verbatim>\<open>components/nucula_lib/nucula_wallet.cpp\<close>): up to four wallets, one per mint, behind
  one set of functions. The class \<open>cashu::Wallet\<close> and the token codec are an external library: what the adapter
  sees of a wallet is a record, its methods are parameters. The lock makes every function one step; logging,
  delays and the jitter of the delays are left out.
\<close>

section \<open>Data\<close>

record wproof =
  wp_amount :: int
  wp_id :: string

record wkeyset =
  wk_active :: bool
  wk_unit :: string

record wtoken =
  wt_mint :: string
  wt_unit :: string
  wt_proofs :: "wproof list"

text \<open>\<open>mw_saved\<close> is what \<open>save_proofs\<close> last wrote to the non-volatile storage.\<close>

record mint_wallet =
  mw_url :: string
  mw_proofs :: "wproof list"
  mw_keysets :: "wkeyset list"
  mw_saved :: "wproof list"

text \<open>\<open>wx_swap\<close> gives the proofs for the wanted amount and the change; a unit that is not passed is \<open>None\<close>.\<close>

record wallet_ext =
  wx_ready :: bool
  wx_open :: "string \<Rightarrow> nat \<Rightarrow> mint_wallet"
  wx_load_keysets :: "mint_wallet \<Rightarrow> bool \<times> mint_wallet"
  wx_deserialize :: "string \<Rightarrow> wtoken option"
  wx_serialize :: "wtoken \<Rightarrow> string"
  wx_receive :: "wtoken \<Rightarrow> mint_wallet \<Rightarrow> bool \<times> mint_wallet"
  wx_balance :: "mint_wallet \<Rightarrow> int"
  wx_select :: "int \<Rightarrow> mint_wallet \<Rightarrow> (wproof list \<times> wproof list) option"
  wx_swap :: "wproof list \<Rightarrow> int \<Rightarrow> string option \<Rightarrow> mint_wallet \<Rightarrow> (wproof list \<times> wproof list) option"
  wx_quote :: "string \<Rightarrow> mint_wallet \<Rightarrow> (int \<times> int) option"
  wx_melt :: "int \<times> int \<Rightarrow> mint_wallet \<Rightarrow> bool \<times> mint_wallet"

definition MAX_WALLETS :: nat where
  "MAX_WALLETS = 4"

record nucula =
  nu_wallets :: "mint_wallet option list"
  nu_count :: nat
  nu_urls :: "string list"
  nu_keysets_loaded :: "bool list"
  nu_keyset_attempts :: "nat list"
  nu_unit :: string

definition nucula_boot :: nucula where
  "nucula_boot = \<lparr>nu_wallets = replicate MAX_WALLETS None, nu_count = 0, nu_urls = replicate MAX_WALLETS [],
     nu_keysets_loaded = replicate MAX_WALLETS False, nu_keyset_attempts = replicate MAX_WALLETS 0, nu_unit = ''sat''\<rparr>"

definition set_wallet :: "nat \<Rightarrow> mint_wallet \<Rightarrow> nucula \<Rightarrow> nucula" where
  "set_wallet i w st = st\<lparr>nu_wallets := (nu_wallets st)[i := Some w]\<rparr>"

section \<open>Keysets\<close>

text \<open>
  The delay before an attempt to load the keysets, without jitter. The shift is of a 32-bit \<open>int\<close>: from 22
  failed attempts on it leaves the type, which C leaves undefined.
\<close>

definition keyset_delay_ms :: "nat \<Rightarrow> nat cres" where
  "keyset_delay_ms attempts = (if 2 ^ 31 \<le> 1000 * (2 :: nat) ^ attempts then Undef else Ok (min (1000 * 2 ^ attempts) 30000))"

definition ensure_keysets :: "wallet_ext \<Rightarrow> nat \<Rightarrow> nucula \<Rightarrow> (bool \<times> nucula) cres" where
  "ensure_keysets e slot st =
     (if MAX_WALLETS \<le> slot then Ok (False, st)
      else (case nu_wallets st ! slot of
         None \<Rightarrow> Ok (False, st)
       | Some w \<Rightarrow>
           if nu_keysets_loaded st ! slot then Ok (True, st)
           else if mw_keysets w \<noteq> [] then Ok (True, st\<lparr>nu_keysets_loaded := (nu_keysets_loaded st)[slot := True]\<rparr>)
           else cbind (keyset_delay_ms (nu_keyset_attempts st ! slot)) (\<lambda>_.
             (case wx_load_keysets e w of
                (True, w') \<Rightarrow> Ok (True, (set_wallet slot w' st)\<lparr>nu_keysets_loaded := (nu_keysets_loaded st)[slot := True],
                                     nu_keyset_attempts := (nu_keyset_attempts st)[slot := 0]\<rparr>)
              | (False, w') \<Rightarrow> Ok (False, (set_wallet slot w' st)\<lparr>
                    nu_keyset_attempts := (nu_keyset_attempts st)[slot := nu_keyset_attempts st ! slot + 1]\<rparr>)))))"

section \<open>Choice of a wallet\<close>

definition wallets_in_use :: "nucula \<Rightarrow> mint_wallet option list" where
  "wallets_in_use st = take (nu_count st) (nu_wallets st)"

text \<open>The first wallet with the property, else slot 0 if it holds a wallet (or, for sending, if any is in use).\<close>

definition find_wallet_for_token :: "wtoken \<Rightarrow> nucula \<Rightarrow> nat option" where
  "find_wallet_for_token tok st =
     (case first_idx (\<lambda>x. case x of None \<Rightarrow> False | Some w \<Rightarrow> mw_url w \<noteq> [] \<and>
           (c_strstr (wt_mint tok) (mw_url w) \<noteq> None \<or> c_strstr (mw_url w) (wt_mint tok) \<noteq> None)) (wallets_in_use st) of
        Some i \<Rightarrow> Some i
      | None \<Rightarrow> if 0 < nu_count st \<and> nu_wallets st ! 0 \<noteq> None then Some 0 else None)"

definition find_wallet_for_send :: "wallet_ext \<Rightarrow> int \<Rightarrow> nucula \<Rightarrow> nat option" where
  "find_wallet_for_send e amount st =
     (case first_idx (\<lambda>x. case x of None \<Rightarrow> False | Some w \<Rightarrow> amount \<le> wx_balance e w) (wallets_in_use st) of
        Some i \<Rightarrow> Some i
      | None \<Rightarrow> if 0 < nu_count st \<and> nu_wallets st ! 0 \<noteq> None then Some 0 else None)"

section \<open>Initialisation\<close>

definition init_wallet :: "wallet_ext \<Rightarrow> nat \<Rightarrow> string \<Rightarrow> nucula \<Rightarrow> bool \<times> nucula" where
  "init_wallet e slot mint_url st =
     (if MAX_WALLETS \<le> slot then (False, st)
      else (True, (set_wallet slot (wx_open e mint_url slot) st)\<lparr>nu_urls := (nu_urls st)[slot := c_strncpy 256 mint_url]\<rparr>))"

definition nucula_wallet_init :: "wallet_ext \<Rightarrow> string \<Rightarrow> nucula \<Rightarrow> bool \<times> nucula" where
  "nucula_wallet_init e mint_url st =
     (if 0 < nu_count st then (True, st)
      else if \<not> wx_ready e then (False, st)
      else (case init_wallet e 0 mint_url st of (ok, st) \<Rightarrow> (ok, if ok then st\<lparr>nu_count := 1\<rparr> else st)))"

fun init_wallets :: "wallet_ext \<Rightarrow> nat \<Rightarrow> string list \<Rightarrow> nucula \<Rightarrow> nat \<times> nucula" where
  "init_wallets e i [] st = (0, st)"
| "init_wallets e i (u # us) st =
     (case init_wallet e i u st of (ok, st1) \<Rightarrow>
      case init_wallets e (Suc i) us st1 of (n, st2) \<Rightarrow> ((if ok then n + 1 else n), st2))"

definition nucula_wallet_init_multi :: "wallet_ext \<Rightarrow> string list \<Rightarrow> nucula \<Rightarrow> bool \<times> nucula" where
  "nucula_wallet_init_multi e mint_urls st =
     (if 0 < nu_count st then (True, st)
      else if \<not> wx_ready e then (False, st)
      else let urls = take MAX_WALLETS mint_urls in
        (case init_wallets e 0 urls st of (n, st) \<Rightarrow> (0 < n, st\<lparr>nu_count := length urls\<rparr>)))"

section \<open>Money in and out\<close>

definition nucula_wallet_receive :: "wallet_ext \<Rightarrow> string option \<Rightarrow> nucula \<Rightarrow> (bool \<times> nucula) cres" where
  "nucula_wallet_receive e token_str st = (case token_str of
       None \<Rightarrow> Ok (False, st)
     | Some t \<Rightarrow>
         if nu_count st = 0 \<or> \<not> starts_with ''cashuA'' t then Ok (False, st)
         else (case wx_deserialize e t of
            None \<Rightarrow> Ok (False, st)
          | Some tok \<Rightarrow>
              (case find_wallet_for_token tok st of
                 None \<Rightarrow> Ok (False, st)
               | Some i \<Rightarrow> cbind (ensure_keysets e i st) (\<lambda>(ok, st1).
                   if \<not> ok then Ok (False, st1)
                   else (case nu_wallets st1 ! i of
                      None \<Rightarrow> Undef
                    | Some w \<Rightarrow> (case wx_receive e tok w of (done, w') \<Rightarrow> Ok (done, set_wallet i w' st1)))))))"

text \<open>The unit of the first active keyset; \<open>amount_sat\<close> is cut to a 32-bit \<open>int\<close>.\<close>

definition active_unit :: "wkeyset list \<Rightarrow> string option" where
  "active_unit kss = (case filter wk_active kss of ks # _ \<Rightarrow> Some (wk_unit ks) | [] \<Rightarrow> None)"

definition send_from :: "wallet_ext \<Rightarrow> int \<Rightarrow> nat \<Rightarrow> mint_wallet \<Rightarrow> (string \<times> mint_wallet) option" where
  "send_from e amount token_out_size w =
     (let u = (case active_unit (mw_keysets w) of Some x \<Rightarrow> x | None \<Rightarrow> ''sat'') in
      case wx_select e amount w of
        None \<Rightarrow> None
      | Some (selected, remaining) \<Rightarrow>
          (case wx_swap e selected amount (Some u) w of
             None \<Rightarrow> None
           | Some (new_proofs, change) \<Rightarrow>
               let encoded = wx_serialize e \<lparr>wt_mint = mw_url w, wt_unit = u, wt_proofs = new_proofs\<rparr> in
               if encoded = [] \<or> token_out_size \<le> length encoded then None
               else Some (encoded, w\<lparr>mw_proofs := remaining @ change, mw_saved := remaining @ change\<rparr>)))"

definition nucula_wallet_send :: "wallet_ext \<Rightarrow> u64 \<Rightarrow> nat \<Rightarrow> nucula \<Rightarrow> (string option \<times> nucula) cres" where
  "nucula_wallet_send e amount_sat token_out_size st =
     (if nu_count st = 0 then Ok (None, st)
      else let amount = sint (ucast amount_sat :: i32) in
        (case find_wallet_for_send e amount st of
           None \<Rightarrow> Ok (None, st)
         | Some i \<Rightarrow> cbind (ensure_keysets e i st) (\<lambda>(ok, st1).
             if \<not> ok then Ok (None, st1)
             else (case nu_wallets st1 ! i of
                None \<Rightarrow> Undef
              | Some w \<Rightarrow> (case send_from e amount token_out_size w of
                  None \<Rightarrow> Ok (None, st1)
                | Some (token, w') \<Rightarrow> Ok (Some token, set_wallet i w' st1))))))"

definition melt_from :: "wallet_ext \<Rightarrow> string \<Rightarrow> u64 \<Rightarrow> mint_wallet \<Rightarrow> bool \<times> mint_wallet" where
  "melt_from e bolt11 max_fee_sats w = (case wx_quote e bolt11 w of
       None \<Rightarrow> (False, w)
     | Some (amount, fee) \<Rightarrow>
         if max_fee_sats < of_int amount + of_int fee \<or> wx_balance e w < amount then (False, w)
         else wx_melt e (amount, fee) w)"

definition nucula_wallet_melt :: "wallet_ext \<Rightarrow> string option \<Rightarrow> u64 \<Rightarrow> nucula \<Rightarrow> (bool \<times> nucula) cres" where
  "nucula_wallet_melt e bolt11_invoice max_fee_sats st = (case bolt11_invoice of
       None \<Rightarrow> Ok (False, st)
     | Some b \<Rightarrow>
         (case first_idx (\<lambda>x. case x of None \<Rightarrow> False | Some w \<Rightarrow> 0 < wx_balance e w) (wallets_in_use st) of
            None \<Rightarrow> Ok (False, st)
          | Some i \<Rightarrow> cbind (ensure_keysets e i st) (\<lambda>(ok, st1).
              if \<not> ok then Ok (False, st1)
              else (case nu_wallets st1 ! i of
                 None \<Rightarrow> Undef
               | Some w \<Rightarrow> (case melt_from e b max_fee_sats w of (done, w') \<Rightarrow> Ok (done, set_wallet i w' st1))))))"

fun swap_slots :: "wallet_ext \<Rightarrow> nat list \<Rightarrow> nucula \<Rightarrow> (bool \<times> nucula) cres" where
  "swap_slots e [] st = Ok (False, st)"
| "swap_slots e (i # is) st =
     (case nu_wallets st ! i of
        None \<Rightarrow> swap_slots e is st
      | Some w \<Rightarrow>
          if mw_proofs w = [] then swap_slots e is st
          else cbind (ensure_keysets e i st) (\<lambda>(ok, st1).
            if \<not> ok then swap_slots e is st1
            else (case nu_wallets st1 ! i of
               None \<Rightarrow> Undef
             | Some w1 \<Rightarrow>
                 (case wx_swap e (mw_proofs w1) (- 1) None w1 of
                    None \<Rightarrow> swap_slots e is st1
                  | Some (new_proofs, change) \<Rightarrow>
                      cbind (swap_slots e is (set_wallet i (w1\<lparr>mw_proofs := new_proofs @ change, mw_saved := new_proofs @ change\<rparr>) st1))
                        (\<lambda>(_, st2). Ok (True, st2))))))"

definition nucula_wallet_swap_all :: "wallet_ext \<Rightarrow> nucula \<Rightarrow> (bool \<times> nucula) cres" where
  "nucula_wallet_swap_all e st = (if nu_count st = 0 then Ok (False, st) else swap_slots e [0..<nu_count st] st)"

section \<open>Reports\<close>

definition somes :: "'a option list \<Rightarrow> 'a list" where
  "somes xs = List.map_filter id xs"

definition nucula_wallet_balance :: "wallet_ext \<Rightarrow> nucula \<Rightarrow> u64" where
  "nucula_wallet_balance e st = (\<Sum>w \<leftarrow> somes (wallets_in_use st). of_int (wx_balance e w))"

definition nucula_wallet_proof_count :: "nucula \<Rightarrow> nat" where
  "nucula_wallet_proof_count st = (\<Sum>w \<leftarrow> somes (wallets_in_use st). length (mw_proofs w))"

definition nucula_wallet_unit :: "nucula \<Rightarrow> string \<times> nucula" where
  "nucula_wallet_unit st = (case active_unit (concat (map mw_keysets (somes (wallets_in_use st)))) of
       Some u \<Rightarrow> (c_strncpy 16 u, st\<lparr>nu_unit := c_strncpy 16 u\<rparr>)
     | None \<Rightarrow> (nu_unit st, st))"

definition wallet_proofs_of :: "string \<times> mint_wallet option \<Rightarrow> json list" where
  "wallet_proofs_of x = (case x of
       (url, Some w) \<Rightarrow> map (\<lambda>p. JObj [(''amount'', json_int (wp_amount p)), (''id'', JStr (wp_id p)), (''mint'', JStr url)]) (mw_proofs w)
     | (url, None) \<Rightarrow> [])"

definition nucula_wallet_proofs_json :: "(json \<Rightarrow> string) \<Rightarrow> nucula \<Rightarrow> string" where
  "nucula_wallet_proofs_json print st =
     print (JArr (concat (map wallet_proofs_of (take (nu_count st) (zip (nu_urls st) (nu_wallets st))))))"

section \<open>What the wallets are worth\<close>

definition proof_total :: "wproof list \<Rightarrow> int" where
  "proof_total ps = (\<Sum>p \<leftarrow> ps. wp_amount p)"

definition slot_worth :: "mint_wallet option \<Rightarrow> int" where
  "slot_worth x = (case x of Some w \<Rightarrow> proof_total (mw_proofs w) | None \<Rightarrow> 0)"

definition worth :: "nucula \<Rightarrow> int" where
  "worth st = (\<Sum>x \<leftarrow> wallets_in_use st. slot_worth x)"

definition nucula_wf :: "nucula \<Rightarrow> bool" where
  "nucula_wf st \<longleftrightarrow> length (nu_wallets st) = MAX_WALLETS \<and> nu_count st \<le> MAX_WALLETS \<and>
     length (nu_keysets_loaded st) = MAX_WALLETS \<and> length (nu_keyset_attempts st) = MAX_WALLETS \<and> length (nu_urls st) = MAX_WALLETS"

lemma proof_total_mset: "mset ps = mset qs \<Longrightarrow> proof_total ps = proof_total qs"
  unfolding proof_total_def by (metis mset_map sum_mset_sum_list)

lemma proof_total_append [simp]: "proof_total (ps @ qs) = proof_total ps + proof_total qs"
  by (simp add: proof_total_def)

lemma sum_list_update_int: "k < length xs \<Longrightarrow> sum_list (xs[k := x]) = sum_list xs + x - (xs ! k :: int)"
  by (induction xs arbitrary: k) (auto simp: nth_Cons' split: nat.split)

lemma worth_set_wallet:
  assumes "nucula_wf st" "i < nu_count st"
  shows "worth (set_wallet i w st) = worth st + proof_total (mw_proofs w) - slot_worth (nu_wallets st ! i)"
proof -
  let ?l = "map slot_worth (wallets_in_use st)"
  have l: "i < length (wallets_in_use st)" using assms by (simp add: wallets_in_use_def nucula_wf_def)
  have "map slot_worth (wallets_in_use (set_wallet i w st)) = ?l[i := proof_total (mw_proofs w)]"
    by (simp add: wallets_in_use_def set_wallet_def take_update_swap map_update slot_worth_def)
  moreover have "?l ! i = slot_worth (nu_wallets st ! i)" using l assms(2) by (simp add: wallets_in_use_def)
  ultimately show ?thesis using sum_list_update_int[of i ?l] l by (simp add: worth_def)
qed

lemma set_wallet_frame [simp]: "nu_count (set_wallet i w st) = nu_count st" "nucula_wf (set_wallet i w st) = nucula_wf st"
  "nu_wallets (set_wallet i w st) = (nu_wallets st)[i := Some w]"
  by (simp_all add: set_wallet_def nucula_wf_def)

text \<open>Loading the keysets changes neither the number of wallets nor what they are worth.\<close>

lemma ensure_keysets_keeps:
  assumes "ensure_keysets e i st = Ok (ok, st1)" "nucula_wf st" "i < nu_count st"
    and "\<And>w b w'. wx_load_keysets e w = (b, w') \<Longrightarrow> mw_proofs w' = mw_proofs w \<and> mw_url w' = mw_url w"
  shows "nucula_wf st1 \<and> nu_count st1 = nu_count st \<and> worth st1 = worth st \<and>
    (ok \<longrightarrow> (\<exists>w w'. nu_wallets st ! i = Some w \<and> nu_wallets st1 ! i = Some w' \<and> mw_proofs w' = mw_proofs w \<and> mw_url w' = mw_url w))"
proof (cases "nu_wallets st ! i")
  case None
  then show ?thesis using assms(1,2) by (auto simp: ensure_keysets_def split: if_splits)
next
  case (Some w)
  have i: "i < length (nu_wallets st)" using assms(2,3) by (simp add: nucula_wf_def)
  obtain b w' where b: "wx_load_keysets e w = (b, w')" by force
  have p: "mw_proofs w' = mw_proofs w" "mw_url w' = mw_url w" using assms(4)[OF b] by auto
  have v: "worth (set_wallet i w' st) = worth st" using worth_set_wallet[OF assms(2,3), of w'] Some p by (simp add: slot_worth_def)
  have f: "worth (x\<lparr>nu_keyset_attempts := a\<rparr>) = worth x" "worth (x\<lparr>nu_keysets_loaded := l\<rparr>) = worth x" for x a l
    by (simp_all add: worth_def wallets_in_use_def)
  have w: "nucula_wf (x\<lparr>nu_keyset_attempts := a\<rparr>) \<longleftrightarrow> nucula_wf x" if "length a = length (nu_keyset_attempts x)" for x a
    using that by (simp add: nucula_wf_def)
  have w': "nucula_wf (x\<lparr>nu_keysets_loaded := a\<rparr>) \<longleftrightarrow> nucula_wf x" if "length a = length (nu_keysets_loaded x)" for x a
    using that by (simp add: nucula_wf_def)
  have c: "nu_keyset_attempts (set_wallet i w' st) = nu_keyset_attempts st" "nu_keysets_loaded (set_wallet i w' st) = nu_keysets_loaded st"
    by (simp_all add: set_wallet_def)
  show ?thesis using assms(1,2,3) Some b p i v f w w' c
    by (auto simp: ensure_keysets_def cbind_Ok_iff split: if_splits bool.splits)
qed

section \<open>Sending\<close>

lemma find_send_slot:
  assumes "find_wallet_for_send e a st = Some i"
  shows "i < nu_count st"
proof (cases "first_idx (\<lambda>x. case x of None \<Rightarrow> False | Some w \<Rightarrow> a \<le> wx_balance e w) (wallets_in_use st)")
  case None
  then show ?thesis using assms by (auto simp: find_wallet_for_send_def split: if_splits)
next
  case (Some j)
  then show ?thesis using assms first_idx_SomeD(1)[OF Some] by (simp add: find_wallet_for_send_def wallets_in_use_def)
qed

lemma small_amount: "uint (a :: u64) < 2 ^ 31 \<Longrightarrow> sint (ucast a :: i32) = uint a"
proof -
  assume a: "uint a < 2 ^ 31"
  then have "uint (ucast a :: i32) = uint a" by (simp add: unsigned_ucast_eq take_bit_int_eq_self)
  moreover have "- (2 ^ 31) \<le> uint a" by (rule order_trans[OF _ uint_ge_0]) simp
  ultimately show ?thesis using a by (simp add: sint_uint signed_take_bit_int_eq_self)
qed


text \<open>
  The exchange with the mint comes before the test of the buffer: a token that does not fit is an error that
  leaves the spent proofs in the wallet and the proofs received for them nowhere.
\<close>

theorem wallet_send_loses_proofs:
  assumes "nucula_wf st" "find_wallet_for_send e (uint amount) st = Some i" "uint amount < 2 ^ 31"
    and "nu_wallets st ! i = Some w" "nu_keysets_loaded st ! i"
    and "wx_select e (uint amount) w = Some (selected, remaining)"
    and "\<And>u. wx_swap e selected (uint amount) (Some u) w = Some (new_proofs, change)"
    and "\<And>t. wt_proofs t = new_proofs \<Longrightarrow> size_out \<le> length (wx_serialize e t)"
  shows "nucula_wallet_send e amount size_out st = Ok (None, st)"
proof -
  have am: "sint (ucast amount :: i32) = uint amount" by (rule small_amount[OF assms(3)])
  have i: "i < nu_count st" by (rule find_send_slot[OF assms(2)])
  then have "\<not> MAX_WALLETS \<le> i" using assms(1) by (simp add: nucula_wf_def)
  then have k: "ensure_keysets e i st = Ok (True, st)" using assms(4,5) by (simp add: ensure_keysets_def)
  have "send_from e (uint amount) size_out w = None"
    using assms(6-8) by (simp add: send_from_def Let_def)
  then show ?thesis using i assms(2,4) k by (simp add: nucula_wallet_send_def am Let_def)
qed

text \<open>The amount is cut to 32 bits, so a request for \<open>2\<^sup>3\<^sup>2 + 1\<close> sats sends one.\<close>

lemma wallet_send_cuts_amount:
  "ucast a = (ucast b :: i32) \<Longrightarrow> nucula_wallet_send e a n st = nucula_wallet_send e b n st"
  by (simp add: nucula_wallet_send_def)

section \<open>Paying invoices\<close>

text \<open>A melt that succeeds was quoted at no more than the given limit, fee included.\<close>

theorem wallet_melt_bounded:
  assumes "nucula_wallet_melt e (Some b) limit st = Ok (True, st')"
    and "\<And>w a f. wx_quote e b w = Some (a, f) \<Longrightarrow> 0 \<le> a \<and> a < 2 ^ 31 \<and> 0 \<le> f \<and> f < 2 ^ 31"
  shows "\<exists>w a f. wx_quote e b w = Some (a, f) \<and> a + f \<le> uint limit \<and> a \<le> wx_balance e w \<and> fst (wx_melt e (a, f) w)"
proof -
  obtain w where s: "fst (melt_from e b limit w)"
    using assms(1) by (auto simp: nucula_wallet_melt_def cbind_Ok_iff split_beta split: option.splits if_splits)
  obtain a f where q: "wx_quote e b w = Some (a, f)" "\<not> limit < of_int a + of_int f" "a \<le> wx_balance e w" "fst (wx_melt e (a, f) w)"
    using s by (auto simp: melt_from_def split: option.splits if_splits)
  note r = assms(2)[OF q(1)]
  have "uint (of_int a + of_int f :: u64) = a + f" using r by (simp add: uint_word_of_int flip: of_int_add)
  then have "a + f \<le> uint limit" using q(2) by (simp add: word_less_def)
  then show ?thesis using q by blast
qed

text \<open>
  The waiting time before a new attempt to load the keysets grows to 30 seconds and stays there, up to the 22nd
  attempt; after 22 failures in a row the shift overflows.
\<close>

theorem keyset_backoff:
  "(n < 22 \<longrightarrow> (\<exists>d. keyset_delay_ms n = Ok d \<and> 1000 \<le> d \<and> d \<le> 30000)) \<and> (22 \<le> n \<longrightarrow> keyset_delay_ms n = Undef)"
proof -
  have "2 ^ 31 \<le> 1000 * (2 :: nat) ^ n" if "22 \<le> n"
  proof -
    have "(2 :: nat) ^ 22 \<le> 2 ^ n" using that by (rule power_increasing) simp
    then show ?thesis by simp
  qed
  moreover have "1000 * (2 :: nat) ^ n < 2 ^ 31" "1 \<le> (2 :: nat) ^ n" if "n < 22"
  proof -
    have "(2 :: nat) ^ n \<le> 2 ^ 21" using that by (intro power_increasing) simp_all
    then show "1000 * (2 :: nat) ^ n < 2 ^ 31" by simp
  qed simp
  ultimately show ?thesis by (auto simp: keyset_delay_ms_def)
qed

text \<open>A token of a mint that no wallet knows is handed to the first wallet.\<close>

lemma unknown_mint_first_wallet:
  assumes "0 < nu_count st" "nu_wallets st ! 0 = Some w0"
    and "\<And>w. Some w \<in> set (wallets_in_use st) \<Longrightarrow> c_strstr (wt_mint tok) (mw_url w) = None \<and> c_strstr (mw_url w) (wt_mint tok) = None"
  shows "find_wallet_for_token tok st = Some 0"
proof -
  have "first_idx (\<lambda>x. case x of None \<Rightarrow> False | Some w \<Rightarrow> mw_url w \<noteq> [] \<and>
      (c_strstr (wt_mint tok) (mw_url w) \<noteq> None \<or> c_strstr (mw_url w) (wt_mint tok) \<noteq> None)) (wallets_in_use st) = None"
    using assms(3) by (auto simp: first_idx_None_iff split: option.split)
  then show ?thesis using assms(1,2) by (simp add: find_wallet_for_token_def)
qed

section \<open>A concrete wallet\<close>

definition demo_wallet :: mint_wallet where
  "demo_wallet = \<lparr>mw_url = ''m'', mw_proofs = [\<lparr>wp_amount = 8, wp_id = ''a''\<rparr>, \<lparr>wp_amount = 4, wp_id = ''a''\<rparr>],
     mw_keysets = [\<lparr>wk_active = True, wk_unit = ''sat''\<rparr>], mw_saved = []\<rparr>"

definition demo_wallet_ext :: "nat \<Rightarrow> wallet_ext" where
  "demo_wallet_ext n = \<lparr>wx_ready = True, wx_open = (\<lambda>u i. demo_wallet), wx_load_keysets = (\<lambda>w. (True, w)),
     wx_deserialize = (\<lambda>t. None), wx_serialize = (\<lambda>t. replicate n CHR ''x''), wx_receive = (\<lambda>t w. (True, w)),
     wx_balance = (\<lambda>w. proof_total (mw_proofs w)), wx_select = (\<lambda>a w. Some (mw_proofs w, [])),
     wx_swap = (\<lambda>ps a u w. Some ([\<lparr>wp_amount = a, wp_id = ''b''\<rparr>], [\<lparr>wp_amount = proof_total ps - a, wp_id = ''b''\<rparr>])),
     wx_quote = (\<lambda>b w. Some (5, 1)), wx_melt = (\<lambda>q w. (True, w))\<rparr>"

definition demo_nucula :: nucula where
  "demo_nucula = nucula_boot\<lparr>nu_wallets := [Some demo_wallet, None, None, None], nu_count := 1,
     nu_keysets_loaded := [True, False, False, False]\<rparr>"

lemma demo_nucula_facts:
  "nucula_wf demo_nucula" "nu_wallets demo_nucula ! 0 = Some demo_wallet" "nu_keysets_loaded demo_nucula ! 0"
  "find_wallet_for_send (demo_wallet_ext n) 3 demo_nucula = Some 0" "nu_count demo_nucula = 1"
  by (simp_all add: nucula_wf_def demo_nucula_def nucula_boot_def MAX_WALLETS_def find_wallet_for_send_def wallets_in_use_def
    demo_wallet_ext_def demo_wallet_def proof_total_def)

lemma demo_keysets: "ensure_keysets (demo_wallet_ext n) 0 demo_nucula = Ok (True, demo_nucula)"
  using demo_nucula_facts by (simp add: ensure_keysets_def MAX_WALLETS_def)


theorem wallet_send_loses_proofs_witness:
  "nucula_wallet_send (demo_wallet_ext 3000) 3 2048 demo_nucula = Ok (None, demo_nucula)"
  by (rule wallet_send_loses_proofs[where i = 0 and w = demo_wallet and selected = "mw_proofs demo_wallet" and remaining = "[]" and
      new_proofs = "[\<lparr>wp_amount = 3, wp_id = ''b''\<rparr>]" and change = "[\<lparr>wp_amount = 9, wp_id = ''b''\<rparr>]"])
    (use demo_nucula_facts in \<open>simp_all add: demo_wallet_ext_def demo_wallet_def proof_total_def\<close>)

theorem wallet_melt_bounded_witness:
  "\<exists>st'. nucula_wallet_melt (demo_wallet_ext 2) (Some ''lnbc'') 10 demo_nucula = Ok (True, st') \<and>
     (\<exists>w a f. wx_quote (demo_wallet_ext 2) ''lnbc'' w = Some (a, f) \<and> a + f \<le> 10)"
proof -
  have f: "first_idx (\<lambda>x. case x of None \<Rightarrow> False | Some w \<Rightarrow> 0 < wx_balance (demo_wallet_ext 2) w) (wallets_in_use demo_nucula) = Some 0"
    by (simp add: wallets_in_use_def demo_nucula_def demo_wallet_ext_def demo_wallet_def proof_total_def)
  have m0: "melt_from (demo_wallet_ext 2) ''lnbc'' 10 demo_wallet = (True, demo_wallet)"
    by (simp add: melt_from_def demo_wallet_ext_def demo_wallet_def proof_total_def)
  from f obtain st' where m: "nucula_wallet_melt (demo_wallet_ext 2) (Some ''lnbc'') 10 demo_nucula = Ok (True, st')"
    using demo_keysets[of 2] demo_nucula_facts(2) m0 by (simp add: nucula_wallet_melt_def)
  have "\<exists>w a f. wx_quote (demo_wallet_ext 2) ''lnbc'' w = Some (a, f) \<and> a + f \<le> uint (10 :: u64) \<and> a \<le> wx_balance (demo_wallet_ext 2) w \<and>
      fst (wx_melt (demo_wallet_ext 2) (a, f) w)"
    by (rule wallet_melt_bounded[OF m]) (auto simp: demo_wallet_ext_def)
  then show ?thesis using m by auto
qed

theorem keyset_backoff_witness: "keyset_delay_ms 22 = Undef \<and> (\<exists>d. keyset_delay_ms 21 = Ok d \<and> d \<le> 30000)"
  using keyset_backoff[of 22] keyset_backoff[of 21] by auto

end
