(* ===== verification/TG_Payout.thy ===== *)
theory TG_Payout
  imports TG_Config TG_Wallet
begin

text \<open>
  Money that leaves and enters the wallet by itself: Lightning payouts (\<^verbatim>\<open>main/lightning_payout.c\<close>) over
  invoices from an address service (\<^verbatim>\<open>main/lnurl_pay.c\<close>), tokens from a faucet (\<^verbatim>\<open>main/faucet_client.c\<close>) and the
  queue in front of the wallet (\<^verbatim>\<open>main/tls_worker.c\<close>). HTTP and cJSON are parameters, the wallet is that of
  \<open>TG_Wallet\<close>.
\<close>

section \<open>Invoices\<close>

text \<open>\<open>he_get\<close>: the status and the bytes of the one read the code makes; \<open>None\<close> when the request fails.\<close>

record http_env =
  he_get :: "string \<Rightarrow> (int \<times> string) option"
  he_parse :: "string \<Rightarrow> json option"

definition http_get_json :: "http_env \<Rightarrow> string \<Rightarrow> nat \<Rightarrow> (int \<times> string) cres" where
  "http_get_json h url resp_buf_size = (case he_get h url of
       None \<Rightarrow> Fail
     | Some (status, body) \<Rightarrow> Ok (status, c_str (take (resp_buf_size - 1) body)))"

definition get_object :: "http_env \<Rightarrow> string \<Rightarrow> json cres" where
  "get_object h url = cbind (http_get_json h url 4096) (\<lambda>(status, body).
     if status \<noteq> 200 then Fail else (case he_parse h body of None \<Rightarrow> Fail | Some j \<Rightarrow> Ok j))"

definition lnurlp_url :: "string \<Rightarrow> string \<Rightarrow> string" where
  "lnurlp_url domain username = c_strncpy 512 (''https://'' @ domain @ ''/.well-known/lnurlp/'' @ username)"

text \<open>
  The limits of the service, compared after conversion of the doubles. A callback of 511 characters and more
  fills its buffer without a terminator, which the buffer did not hold before.
\<close>

definition below_limit :: "json option \<Rightarrow> (u64 \<Rightarrow> bool) \<Rightarrow> bool cres" where
  "below_limit item bad = (case item of
       Some (JNum n) \<Rightarrow> cbind (d2u64 n) (\<lambda>v. Ok (bad v))
     | _ \<Rightarrow> Ok False)"

definition callback_with_amount :: "string \<Rightarrow> u64 \<Rightarrow> string" where
  "callback_with_amount callback amount_msat = c_strncpy 768
     (callback @ (if c_strchr CHR ''?'' callback \<noteq> None then ''&'' else ''?'') @ ''amount='' @ dec_of_nat (unat amount_msat))"

definition request_invoice :: "http_env \<Rightarrow> string \<Rightarrow> u64 \<Rightarrow> nat \<Rightarrow> string cres" where
  "request_invoice h callback amount_msat bolt11_out_size =
     cbind (get_object h (callback_with_amount callback amount_msat)) (\<lambda>j.
       case json_str (json_get j ''pr'') of
         None \<Rightarrow> Fail
       | Some pr \<Rightarrow> if bolt11_out_size \<le> length pr then Fail else Ok pr)"

definition lnurl_get_invoice :: "http_env \<Rightarrow> string \<Rightarrow> u64 \<Rightarrow> nat \<Rightarrow> string cres" where
  "lnurl_get_invoice h lightning_address amount_sats bolt11_out_size =
     (case c_strchr CHR ''@'' lightning_address of
        None \<Rightarrow> Fail
      | Some i \<Rightarrow>
          if 64 \<le> i then Fail
          else cbind (get_object h (lnurlp_url (drop (i + 1) lightning_address) (take i lightning_address))) (\<lambda>j.
            case json_str (json_get j ''callback'') of
              None \<Rightarrow> Fail
            | Some callback \<Rightarrow>
                if 511 \<le> length callback then Undef
                else let amount_msat = amount_sats * 1000 in
                  cbind (below_limit (json_get j ''minSendable'') (\<lambda>v. amount_msat < v)) (\<lambda>low.
                  if low then Fail
                  else cbind (below_limit (json_get j ''maxSendable'') (\<lambda>v. v < amount_msat)) (\<lambda>high.
                  if high then Fail else request_invoice h callback amount_msat bolt11_out_size))))"

section \<open>Payouts\<close>

record payout_state =
  ps_config :: payout_config
  ps_last_check_ms :: int

definition lightning_payout_init :: "int \<Rightarrow> payout_config option \<Rightarrow> payout_state \<Rightarrow> bool \<times> payout_state" where
  "lightning_payout_init now cfg st = (case cfg of
       None \<Rightarrow> (False, st)
     | Some c \<Rightarrow> (True, st\<lparr>ps_config := c, ps_last_check_ms := now\<rparr>))"

definition payout_max_cost :: "u64 \<Rightarrow> u64 \<Rightarrow> u64" where
  "payout_max_cost amount_sats fee_tolerance_pct = amount_sats + amount_sats * fee_tolerance_pct div 100"

definition payout_one :: "http_env \<Rightarrow> wallet_ext \<Rightarrow> string \<Rightarrow> u64 \<Rightarrow> u64 \<Rightarrow> nucula \<Rightarrow> (bool \<times> nucula) cres" where
  "payout_one h e lightning_address amount_sats fee_tolerance_pct w =
     (if amount_sats = 0 then Ok (True, w)
      else (case lnurl_get_invoice h lightning_address amount_sats 2048 of
         Undef \<Rightarrow> Undef
       | Fail \<Rightarrow> Ok (False, w)
       | Ok bolt11 \<Rightarrow> nucula_wallet_melt e (Some bolt11) (payout_max_cost amount_sats fee_tolerance_pct) w))"

text \<open>\<open>(uint64_t)round((double)payout_pool * factor)\<close>.\<close>

definition c_round :: "rat \<Rightarrow> int" where
  "c_round x = (if 0 \<le> x then \<lfloor>x + 1 / 2\<rfloor> else - \<lfloor>1 / 2 - x\<rfloor>)"

definition payout_share :: "u64 \<Rightarrow> rat \<Rightarrow> u64 cres" where
  "payout_share pool factor = d2u64 (Fin (of_int (c_round (d_mul (u2d pool) factor))))"

definition recipient_share :: "u64 \<Rightarrow> payout_recipient \<Rightarrow> u64 cres" where
  "recipient_share pool r = (case pr_factor r of
       NInf \<Rightarrow> Ok 0
     | PInf \<Rightarrow> if pr_lightning_address r = [] then Ok 0 else Undef
     | Fin f \<Rightarrow> if f \<le> 0 \<or> pr_lightning_address r = [] then Ok 0 else payout_share pool f)"

fun pay_recipients :: "http_env \<Rightarrow> wallet_ext \<Rightarrow> u64 \<Rightarrow> u64 \<Rightarrow> payout_recipient list \<Rightarrow> nucula \<Rightarrow> nucula cres" where
  "pay_recipients h e tol pool [] w = Ok w"
| "pay_recipients h e tol pool (r # rs) w =
     cbind (recipient_share pool r) (\<lambda>share.
       if share = 0 then pay_recipients h e tol pool rs w
       else cbind (payout_one h e (pr_lightning_address r) share tol w) (\<lambda>(_, w'). pay_recipients h e tol pool rs w'))"

fun pay_mints :: "http_env \<Rightarrow> wallet_ext \<Rightarrow> payout_config \<Rightarrow> payout_mint_config list \<Rightarrow> u64 \<Rightarrow> nucula \<Rightarrow> nucula cres" where
  "pay_mints h e c [] balance w = Ok w"
| "pay_mints h e c (m # ms) balance w =
     (let payout_pool = balance - pm_min_balance m in
      if balance < pm_min_payout_amount m \<or> payout_pool = 0 then pay_mints h e c ms balance w
      else cbind (pay_recipients h e (po_fee_tolerance_pct c) payout_pool (take (po_recipient_count c) (po_recipients c)) w) (\<lambda>w'.
           pay_mints h e c ms (nucula_wallet_balance e w') w'))"

definition lightning_payout_tick :: "http_env \<Rightarrow> wallet_ext \<Rightarrow> int \<Rightarrow> payout_state \<Rightarrow> nucula \<Rightarrow> (payout_state \<times> nucula) cres" where
  "lightning_payout_tick h e now st w =
     (let c = ps_config st in
      if \<not> po_enabled c \<or> po_recipient_count c = 0 \<or> now - ps_last_check_ms st < po_check_interval_s c * 1000 then Ok (st, w)
      else
        let st' = st\<lparr>ps_last_check_ms := now\<rparr>;
            balance = nucula_wallet_balance e w;
            (u, w1) = nucula_wallet_unit w in
        if u \<noteq> ''sat'' then Ok (st', w1)
        else cbind (pay_mints h e c (take (po_mint_count c) (po_mints c)) balance w1) (\<lambda>w2. Ok (st', w2)))"

section \<open>Faucet and queue\<close>

text \<open>
  The response buffer: its text and its capacity. It is doubled once when a block does not fit; a block that does
  not fit even then is written behind the end.
\<close>

definition faucet_on_data :: "(string \<times> nat) option \<Rightarrow> string \<Rightarrow> (string \<times> nat) cres" where
  "faucet_on_data buf block =
     (let (text, cap) = (case buf of None \<Rightarrow> ([], 8192) | Some b \<Rightarrow> b);
          cap' = (if cap < length text + length block + 1 then cap * 2 else cap) in
      if cap' < length text + length block + 1 then Undef else Ok (text @ block, cap'))"

fun faucet_receive :: "(string \<times> nat) option \<Rightarrow> string list \<Rightarrow> (string \<times> nat) option cres" where
  "faucet_receive buf [] = Ok buf"
| "faucet_receive buf (b # bs) = cbind (faucet_on_data buf b) (\<lambda>x. faucet_receive (Some x) bs)"

text \<open>\<open>answer\<close>: the status and the blocks of the answer to the request; the result is the token to submit.\<close>

definition faucet_poll_once :: "(string \<Rightarrow> json option) \<Rightarrow> tollgate_config \<Rightarrow> (int \<times> string list) option \<Rightarrow> string option cres" where
  "faucet_poll_once parse cfg answer =
     (if cfg_faucet_url cfg = [] then Ok None
      else (case answer of
         None \<Rightarrow> Ok None
       | Some (status, blocks) \<Rightarrow> cbind (faucet_receive None blocks) (\<lambda>buf.
           if status \<noteq> 200 then Ok None
           else (case buf of
              None \<Rightarrow> Ok None
            | Some (text, _) \<Rightarrow>
                if text = [] then Ok None
                else (case parse (c_str text) of
                   None \<Rightarrow> Ok None
                 | Some j \<Rightarrow> Ok (if json_true (json_get j ''success'') then json_str (json_get j ''token'') else None))))))"

record faucet_state =
  fa_running :: bool
  fa_task :: bool

definition faucet_client_start :: "bool \<Rightarrow> tollgate_config \<Rightarrow> faucet_state \<Rightarrow> bool \<times> faucet_state" where
  "faucet_client_start task_ok cfg st =
     (if cfg_faucet_url cfg = [] \<or> fa_running st then (True, st)
      else if task_ok then (True, st\<lparr>fa_running := True, fa_task := True\<rparr>)
      else (False, st\<lparr>fa_running := False\<rparr>))"

definition faucet_client_stop :: "faucet_state \<Rightarrow> faucet_state" where
  "faucet_client_stop st = st\<lparr>fa_running := False, fa_task := False\<rparr>"

text \<open>The queue of tokens for the wallet: \<open>None\<close> when no queue is set; \<open>room\<close> says whether it takes one more in time.\<close>

definition tls_worker_submit :: "wallet_ext \<Rightarrow> bool \<Rightarrow> string \<Rightarrow> string list option \<times> nucula \<Rightarrow> (string list option \<times> nucula) cres" where
  "tls_worker_submit e room token st = (case st of
       (Some q, w) \<Rightarrow> if room then Ok (Some (q @ [token]), w)
         else cbind (nucula_wallet_receive e (Some token) w) (\<lambda>(_, w'). Ok (Some q, w'))
     | (None, w) \<Rightarrow> cbind (nucula_wallet_receive e (Some token) w) (\<lambda>(_, w'). Ok (None, w')))"

section \<open>What a payout may cost\<close>

lemma max_cost_exact:
  assumes "uint amount * (100 + uint tol) < 2 ^ 64"
  shows "uint (payout_max_cost amount tol) = uint amount + uint amount * uint tol div 100"
proof -
  have "uint amount * uint tol \<le> uint amount * (100 + uint tol)" by (intro mult_left_mono) simp_all
  then have "uint amount * uint tol < 2 ^ 64" using assms by linarith
  then have p: "uint (amount * tol) = uint amount * uint tol" by (simp add: uint_word_ariths)
  have "uint amount + uint amount * uint tol div 100 \<le> uint amount * (100 + uint tol)"
  proof -
    have "uint amount * uint tol div 100 \<le> uint amount * uint tol"
      using zdiv_mono2[of "uint amount * uint tol" 1 100] by simp
    moreover have "uint amount \<le> uint amount * 100" by simp
    moreover have "0 \<le> uint amount" by simp
    ultimately show ?thesis unfolding distrib_left by linarith
  qed
  then have "uint amount + uint (amount * tol div 100) < 2 ^ 64" using assms p by (simp add: uint_div)
  moreover have "0 \<le> uint amount + uint (amount * tol div 100)" by (intro add_nonneg_nonneg) simp_all
  ultimately show ?thesis using p by (simp add: payout_max_cost_def uint_word_ariths(1) uint_div mod_pos_pos_trivial)
qed

text \<open>
  (C11) Whatever invoice the address service returns, a payout that succeeds was quoted by the mint at no more than the
  amount plus the tolerated fee.
\<close>

theorem payout_cost_bounded:
  assumes "payout_one h e addr amount tol w = Ok (True, w')" "amount \<noteq> 0" "uint amount * (100 + uint tol) < 2 ^ 64"
    and "\<And>b q a f. wx_quote e b q = Some (a, f) \<Longrightarrow> 0 \<le> a \<and> a < 2 ^ 31 \<and> 0 \<le> f \<and> f < 2 ^ 31"
  shows "\<exists>bolt11 q a f. lnurl_get_invoice h addr amount 2048 = Ok bolt11 \<and> wx_quote e bolt11 q = Some (a, f) \<and>
    a \<le> wx_balance e q \<and> 100 * (a + f) \<le> uint amount * (100 + uint tol)"
proof -
  obtain b where b: "lnurl_get_invoice h addr amount 2048 = Ok b" "nucula_wallet_melt e (Some b) (payout_max_cost amount tol) w = Ok (True, w')"
    using assms(1,2) by (auto simp: payout_one_def split: cres.splits)
  obtain q a f where q: "wx_quote e b q = Some (a, f)" "a + f \<le> uint (payout_max_cost amount tol)" "a \<le> wx_balance e q"
    using wallet_melt_bounded[OF b(2)] assms(4) by blast
  have "100 * (uint amount * uint tol div 100) \<le> uint amount * uint tol" by presburger
  then have "100 * (a + f) \<le> uint amount * (100 + uint tol)" using q(2) max_cost_exact[OF assms(3)] by (simp add: distrib_left)
  then show ?thesis using b q by blast
qed

text \<open>The share of a recipient whose factor is at most one never exceeds the pool.\<close>

theorem payout_share_within:
  assumes "0 < f" "f \<le> 1" "uint pool < 2 ^ 52"
  shows "\<exists>s. payout_share pool f = Ok s \<and> uint s \<le> uint pool"
proof -
  define p where "p = uint pool"
  have p: "0 \<le> p" "p < 2 ^ 52" using assms(3) by (simp_all add: p_def)
  let ?n = "of_int p :: rat"
  have u: "u2d pool = ?n" unfolding u2d_def p_def using assms(3) by (intro fl_int) simp
  define x where "x = ?n * f"
  have x: "0 \<le> x" "x \<le> ?n" using assms(1,2) p(1) by (simp_all add: x_def mult_left_le)
  define y where "y = fl x"
  have y0: "0 \<le> y" using x(1) fl_pos[of x] fl_0 by (cases "x = 0") (auto simp: y_def less_imp_le)
  have n: "?n < 2 ^ 52" using p(2) by (metis of_int_less_iff of_int_numeral of_int_power)
  have "y \<le> x + x / 2 ^ 53" 
  proof -
    have "\<bar>y - x\<bar> \<le> x / 2 ^ 53" using fl_error[of x] x(1) by (simp add: y_def)
    then show ?thesis by linarith
  qed
  also have "\<dots> < ?n + 1 / 2"
  proof -
    have "x / 2 ^ 53 < 1 / 2" using x(2) n by simp
    then show ?thesis using x(2) by linarith
  qed
  finally have "y + 1 / 2 < of_int (p + 1)" by simp
  then have r: "c_round y \<le> p" using y0 by (simp add: c_round_def floor_less_iff zless_iff_Suc_zadd[symmetric] flip: zle_add1_eq_le)
  have r0: "0 \<le> c_round y" using y0 by (simp add: c_round_def)
  have "c_round y < 2 ^ 64" using r p(2) by simp
  then have "d2u64 (Fin (of_int (c_round y))) = Ok (of_int (c_round y))" using r0 by (simp add: d2u64_def)
  moreover have "uint (of_int (c_round y) :: u64) = c_round y" using r0 \<open>c_round y < 2 ^ 64\<close> by (simp add: uint_word_of_int)
  ultimately show ?thesis using r u by (simp add: payout_share_def d_mul_def x_def y_def p_def)
qed

section \<open>A reserve above the balance\<close>

lemma expo2_unique:
  assumes "2 powi m \<le> x" "x < 2 powi (m + 1)"
  shows "expo2 x = m"
proof -
  have "0 < x" using assms(1) by (rule less_le_trans[rotated]) simp
  note b = expo2_bounds[OF this]
  have "\<not> expo2 x + 1 \<le> m"
    using power_int_increasing[of "expo2 x + 1" m "2 :: rat"] b(2) assms(1) by linarith
  moreover have "\<not> m + 1 \<le> expo2 x"
    using power_int_increasing[of "m + 1" "expo2 x" "2 :: rat"] b(1) assms(2) by linarith
  ultimately show ?thesis by linarith
qed

lemma fl_near_top:
  assumes "0 < k" "k < (1024 :: int)"
  shows "fl (of_int (2 ^ 64 - k)) = 2 ^ 64"
proof -
  let ?x = "of_int (2 ^ 64 - k) :: rat"
  have k: "(0 :: rat) < of_int k" "(of_int k :: rat) < 1024" using assms by simp_all
  have "expo2 ?x = 63" by (rule expo2_unique) (use k in \<open>simp_all add: power_int_def\<close>)
  moreover have "round_even (?x / 2 powi 11) = 2 ^ 53"
  proof -
    have d: "?x / 2 powi 11 = 2 ^ 53 - of_int k / 2048" by (simp add: power_int_def field_simps)
    have f: "\<lfloor>2 ^ 53 - of_int k / 2048 :: rat\<rfloor> = 2 ^ 53 - 1" using k by (intro floor_unique) simp_all
    show ?thesis unfolding d round_even_def f Let_def using k by simp
  qed
  ultimately show ?thesis using k by (simp add: fl_def Let_def power_int_def abs_of_pos)
qed

lemma fl_top: "fl (2 ^ 64) = 2 ^ 64"
proof -
  have e: "expo2 (2 ^ 64) = 64" by (rule expo2_unique) (simp_all add: power_int_def)
  have "round_even (2 ^ 64 / 2 powi 12 :: rat) = 2 ^ 52" using round_even_int[of "2 ^ 52"] by (simp add: power_int_def)
  then show ?thesis using e by (simp add: fl_def Let_def power_int_def)
qed


section \<open>Witnesses\<close>

definition demo_http :: http_env where
  "demo_http = \<lparr>he_get = (\<lambda>u. Some (200, [])),
     he_parse = (\<lambda>t. Some (JObj [(''callback'', JStr ''https://c''), (''pr'', JStr ''lnbc'')]))\<rparr>"

lemma demo_invoice: "lnurl_get_invoice demo_http ''a@b'' 5 2048 = Ok ''lnbc''"
  by (simp add: lnurl_get_invoice_def get_object_def http_get_json_def demo_http_def below_limit_def request_invoice_def
    c_strchr_def json_get_def json_str_def Let_def)

theorem payout_cost_bounded_witness:
  "\<exists>w'. payout_one demo_http (demo_wallet_ext 2) ''a@b'' 5 20 demo_nucula = Ok (True, w') \<and>
     (\<exists>a f. wx_quote (demo_wallet_ext 2) ''lnbc'' demo_wallet = Some (a, f) \<and> 100 * (a + f) \<le> 600)"
proof -
  have c: "payout_max_cost 5 20 = 6" by (simp add: payout_max_cost_def)
  have f: "first_idx (\<lambda>x. case x of None \<Rightarrow> False | Some w \<Rightarrow> 0 < wx_balance (demo_wallet_ext 2) w) (wallets_in_use demo_nucula) = Some 0"
    by (simp add: wallets_in_use_def demo_nucula_def demo_wallet_ext_def demo_wallet_def proof_total_def)
  have m: "melt_from (demo_wallet_ext 2) ''lnbc'' 6 demo_wallet = (True, demo_wallet)"
    by (simp add: melt_from_def demo_wallet_ext_def demo_wallet_def proof_total_def)
  obtain w' where w: "payout_one demo_http (demo_wallet_ext 2) ''a@b'' 5 20 demo_nucula = Ok (True, w')"
    using f demo_keysets[of 2] demo_nucula_facts(2) m by (simp add: payout_one_def demo_invoice c nucula_wallet_melt_def)
  have "\<exists>bolt11 q a f. lnurl_get_invoice demo_http ''a@b'' 5 2048 = Ok bolt11 \<and> wx_quote (demo_wallet_ext 2) bolt11 q = Some (a, f) \<and>
      a \<le> wx_balance (demo_wallet_ext 2) q \<and> 100 * (a + f) \<le> uint (5 :: u64) * (100 + uint (20 :: u64))"
    by (rule payout_cost_bounded[OF w]) (auto simp: demo_wallet_ext_def)
  then show ?thesis using w by (auto simp: demo_wallet_ext_def)
qed

theorem payout_share_within_witness: "\<exists>s. payout_share 100 (1 / 2) = Ok s \<and> uint s \<le> 100"
  using payout_share_within[of "1 / 2" 100] by simp

definition demo_payout :: payout_config where
  "demo_payout = \<lparr>po_enabled = True, po_mints = [\<lparr>pm_url = ''https://m'', pm_min_balance = 200, pm_min_payout_amount = 128\<rparr>],
     po_mint_count = 1, po_recipients = [\<lparr>pr_lightning_address = ''a@b'', pr_factor = Fin 1\<rparr>], po_recipient_count = 1,
     po_fee_tolerance_pct = 10, po_check_interval_s = 60\<rparr>"


end
