(* ===== verification/TG_Scan.thy ===== *)
theory TG_Scan
  imports TG_Market TG_Config
begin

text \<open>
  The tasks around the market table (\<^verbatim>\<open>main/market.c\<close>) and the price beacon (\<^verbatim>\<open>main/beacon_price.c\<close>): when to scan,
  what a scan and a received element do to the table, and what is advertised. The WiFi driver is a parameter.
\<close>

section \<open>Scanning\<close>

text \<open>\<open>vi_payload\<close> are the bytes of the element behind its type; the driver gives \<open>vi_length - 4\<close> of them.\<close>

record vendor_ie =
  vi_length :: u8
  vi_oui :: "u8 list"
  vi_oui_type :: u8
  vi_payload :: "u8 list"

record ap_record =
  ar_bssid :: "u8 list"
  ar_ssid :: string
  ar_rssi :: i8

record scan_state =
  sc_market :: market
  sc_scanning :: bool
  sc_last_scan_ms :: int
  sc_failures :: int
  sc_initialized :: bool
  sc_handler :: bool

definition self_hash :: "(string \<Rightarrow> u8 list) \<Rightarrow> tollgate_identity \<Rightarrow> u8 list option" where
  "self_hash sha i = (if id_initialized i then Some (beacon_hash sha (id_npub_hex i)) else None)"

text \<open>
  The callback subtracts 4 from the length without a test: a shorter element gets a size near \<open>2\<^sup>3\<^sup>2\<close>, and when it
  has the right prefix its missing payload is read.
\<close>

definition vendor_ie_cb ::
    "(string \<Rightarrow> u8 list) \<Rightarrow> tollgate_identity \<Rightarrow> i64 \<Rightarrow> u8 list \<Rightarrow> vendor_ie option \<Rightarrow> int \<Rightarrow> scan_state \<Rightarrow> scan_state cres" where
  "vendor_ie_cb sha i now sa vnd_ie rssi sc = (case vnd_ie of
       None \<Rightarrow> Ok sc
     | Some ie \<Rightarrow>
         if unat (vi_length ie) < 4
         then (if vi_oui ie = TOLLGATE_OUI \<and> vi_oui_type ie = TOLLGATE_IE_TYPE then Undef else Ok sc)
         else Ok (sc\<lparr>sc_market := market_parse_ie now sa (vi_oui ie) (vi_oui_type ie) (take (unat (vi_length ie) - 4) (vi_payload ie))
                       rssi (self_hash sha i) (sc_market sc)\<rparr>))"

definition market_parse_vendor_ie ::
    "(string \<Rightarrow> u8 list) \<Rightarrow> tollgate_identity \<Rightarrow> i64 \<Rightarrow> u8 list \<Rightarrow> vendor_ie option \<Rightarrow> int \<Rightarrow> scan_state \<Rightarrow> scan_state cres" where
  "market_parse_vendor_ie sha i now sa ie rssi sc = (case ie of
       None \<Rightarrow> Ok sc
     | Some e \<Rightarrow> if unat (vi_length e) < 4 + TOLLGATE_IE_PAYLOAD_SIZE then Ok sc else vendor_ie_cb sha i now sa ie rssi sc)"

definition scan_done_cb :: "int \<Rightarrow> ap_record list \<Rightarrow> scan_state \<Rightarrow> scan_state" where
  "scan_done_cb now aps sc =
     (let sc = sc\<lparr>sc_scanning := False\<rparr> in
      if aps = [] then sc
      else sc\<lparr>sc_market := fold (\<lambda>a. market_update_ssid (ar_bssid a) (ar_ssid a) (ar_rssi a)) (take 20 aps) (sc_market sc),
              sc_last_scan_ms := now\<rparr>)"

text \<open>Both registrations may fail; only the first is an error. Every call clears the table and the scan times.\<close>

definition scan_init :: "bool \<Rightarrow> bool \<Rightarrow> scan_state \<Rightarrow> bool \<times> scan_state" where
  "scan_init cb_ok handler_ok sc =
     (let sc = sc\<lparr>sc_market := market_init, sc_scanning := False, sc_last_scan_ms := 0, sc_failures := 0\<rparr> in
      if \<not> cb_ok then (False, sc) else (True, sc\<lparr>sc_handler := sc_handler sc \<or> handler_ok, sc_initialized := True\<rparr>))"

definition market_tick :: "tollgate_config \<Rightarrow> int \<Rightarrow> bool \<Rightarrow> scan_state \<Rightarrow> scan_state" where
  "market_tick cfg now start_ok sc =
     (if \<not> sc_initialized sc \<or> \<not> cfg_market_enabled cfg \<or> sc_scanning sc then sc
      else if now - sc_last_scan_ms sc < cfg_market_scan_interval_s cfg * 1000 then sc
      else if start_ok then sc\<lparr>sc_scanning := True, sc_last_scan_ms := now, sc_failures := 0\<rparr>
      else sc\<lparr>sc_failures := sc_failures sc + 1, sc_last_scan_ms := now\<rparr>)"

section \<open>Advertising\<close>

definition beacon_config_of :: "tollgate_config \<Rightarrow> tollgate_identity \<Rightarrow> beacon_config" where
  "beacon_config_of cfg i = \<lparr>bc_mint_url = cfg_mint_url cfg, bc_metric = cfg_metric cfg, bc_price_per_step = cfg_price_per_step cfg,
     bc_step_size_ms = cfg_step_size_ms cfg, bc_step_size_bytes = cfg_step_size_bytes cfg, bc_geohash = cfg_nostr_geohash cfg,
     bc_npub_hex = (if id_initialized i then Some (id_npub_hex i) else None), bc_identity_initialized = id_initialized i\<rparr>"

definition beacon_price_build_ie :: "(string \<Rightarrow> u8 list) \<Rightarrow> tollgate_config \<Rightarrow> tollgate_identity \<Rightarrow> u8 list" where
  "beacon_price_build_ie sha cfg i = beacon_build_ie sha (beacon_config_of cfg i)"

text \<open>What the driver advertises in beacons and in answers to probes.\<close>

record beacon_state =
  bs_active :: bool
  bs_beacon :: "u8 list option"
  bs_probe :: "u8 list option"

definition beacon_price_start :: "(string \<Rightarrow> u8 list) \<Rightarrow> tollgate_config \<Rightarrow> tollgate_identity \<Rightarrow> bool \<Rightarrow> bool \<Rightarrow> beacon_state \<Rightarrow> bool \<times> beacon_state" where
  "beacon_price_start sha cfg i beacon_ok probe_ok bs =
     (if bs_active bs then (True, bs)
      else let ie = beacon_price_build_ie sha cfg i in
        if \<not> beacon_ok then (False, bs)
        else (True, bs\<lparr>bs_active := True, bs_beacon := Some ie, bs_probe := (if probe_ok then Some ie else bs_probe bs)\<rparr>))"

definition beacon_price_stop :: "beacon_state \<Rightarrow> beacon_state" where
  "beacon_price_stop bs = (if bs_active bs then bs\<lparr>bs_active := False, bs_beacon := None, bs_probe := None\<rparr> else bs)"

section \<open>From one gate to another\<close>

text \<open>The element on the air as the driver of the receiver presents it.\<close>

definition received_ie :: "u8 list \<Rightarrow> vendor_ie" where
  "received_ie ie = \<lparr>vi_length = ie ! 1, vi_oui = take 3 (drop 2 ie), vi_oui_type = ie ! 5, vi_payload = drop 6 ie\<rparr>"

lemma built_ie:
  assumes "\<And>s. 4 \<le> length (sha s)"
  shows "length (beacon_price_build_ie sha cfg i) = 32" "beacon_price_build_ie sha cfg i ! 1 = 30"
  using payload_layout(1)[OF assms, where cfg = "beacon_config_of cfg i"]
  by (simp_all add: beacon_price_build_ie_def beacon_build_ie_def TOLLGATE_OUI_def TOLLGATE_IE_PAYLOAD_SIZE_def)

lemma update_ssid_entry:
  assumes "find_entry_by_bssid mk sa = Some i"
  shows "find_entry_by_bssid (market_update_ssid b s r mk) sa = Some i"
    "mk_entries (market_update_ssid b s r mk) ! i =
      (if b = sa then (mk_entries mk ! i)\<lparr>me_ssid := c_str (take 32 s), me_rssi := r\<rparr> else mk_entries mk ! i)"
proof -
  let ?P = "\<lambda>e. me_valid e \<and> me_bssid e = sa"
  have i: "i < length (mk_entries mk)" "?P (mk_entries mk ! i)" "\<And>j. j < i \<Longrightarrow> \<not> ?P (mk_entries mk ! j)"
    using assms by (auto simp: find_entry_by_bssid_def first_idx_Some_iff)
  have "find_entry_by_bssid (market_update_ssid b s r mk) sa = Some i \<and> mk_entries (market_update_ssid b s r mk) ! i =
      (if b = sa then (mk_entries mk ! i)\<lparr>me_ssid := c_str (take 32 s), me_rssi := r\<rparr> else mk_entries mk ! i)"
  proof (cases "find_entry_by_bssid mk b")
    case None
    then have "b \<noteq> sa" using assms by auto
    then show ?thesis using None assms by (simp add: market_update_ssid_def)
  next
    case (Some j)
    then have "j < length (mk_entries mk) \<and> me_bssid (mk_entries mk ! j) = b" by (auto simp: find_entry_by_bssid_def first_idx_Some_iff)
    then have j: "j < length (mk_entries mk)" "me_bssid (mk_entries mk ! j) = b" "b = sa \<Longrightarrow> j = i" "b \<noteq> sa \<Longrightarrow> j \<noteq> i"
      using assms i(2) Some by auto
    let ?e = "(mk_entries mk ! j)\<lparr>me_ssid := c_str (take 32 s), me_rssi := r\<rparr>"
    have e: "mk_entries (market_update_ssid b s r mk) = (mk_entries mk)[j := ?e]" using Some by (simp add: market_update_ssid_def)
    have k: "?P ((mk_entries mk)[j := ?e] ! k) \<longleftrightarrow> ?P (mk_entries mk ! k)" if "k < length (mk_entries mk)" for k
      using that j(1) by (cases "k = j") simp_all
    have "\<not> ?P ((mk_entries mk)[j := ?e] ! q)" if "q < i" for q using k[of q] i(1,3) that by simp
    then have "find_entry_by_bssid (market_update_ssid b s r mk) sa = Some i"
      using i(1) k[OF i(1)] i(2) unfolding find_entry_by_bssid_def first_idx_Some_iff e by (simp only: length_list_update) blast
    then show ?thesis using j i(1) e by (cases "b = sa") simp_all
  qed
  then show "find_entry_by_bssid (market_update_ssid b s r mk) sa = Some i" "mk_entries (market_update_ssid b s r mk) ! i =
      (if b = sa then (mk_entries mk ! i)\<lparr>me_ssid := c_str (take 32 s), me_rssi := r\<rparr> else mk_entries mk ! i)" by simp_all
qed

lemma scan_names_entry:
  assumes "find_entry_by_bssid mk sa = Some i" "\<And>a. a \<in> set aps \<Longrightarrow> ar_bssid a = sa \<Longrightarrow> ar_ssid a = s"
    and "me_ssid (mk_entries mk ! i) = c_str (take 32 s) \<or> (\<exists>a \<in> set aps. ar_bssid a = sa)"
  defines "mk' \<equiv> fold (\<lambda>a. market_update_ssid (ar_bssid a) (ar_ssid a) (ar_rssi a)) aps mk"
  shows "find_entry_by_bssid mk' sa = Some i \<and>
    (\<exists>r. mk_entries mk' ! i = (mk_entries mk ! i)\<lparr>me_ssid := c_str (take 32 s), me_rssi := r\<rparr>)"
  unfolding mk'_def using assms(1-3)
proof (induction aps arbitrary: mk)
  case Nil
  then show ?case by (auto intro!: exI[of _ "me_rssi (mk_entries mk ! i)"])
next
  case (Cons a aps)
  let ?mk = "market_update_ssid (ar_bssid a) (ar_ssid a) (ar_rssi a) mk"
  note u = update_ssid_entry[OF Cons.prems(1), of "ar_bssid a" "ar_ssid a" "ar_rssi a"]
  have "me_ssid (mk_entries ?mk ! i) = c_str (take 32 s) \<or> (\<exists>b \<in> set aps. ar_bssid b = sa)"
    using Cons.prems(2,3) u(2) by (cases "ar_bssid a = sa") auto
  from Cons.IH[OF u(1) _ this] Cons.prems(2)
  show ?case using u(2) by (cases "ar_bssid a = sa") auto
qed

text \<open>
  (C34) What one gate advertises, another one finds: after the beacon has been received and a scan has named its sender, the
  table has an entry for the sender with its price, step, metric and name, fit to be chosen as the cheapest.
\<close>

theorem neighbour_price_seen:
  assumes "\<And>s. 4 \<le> length (sha s)" "market_inv (sc_market sc)"
    and "beacon_price_start sha cfg i True probe_ok bs = (True, bs')" "\<not> bs_active bs" "bs_beacon bs' = Some ie"
    and "\<And>h. self_hash sha j = Some h \<Longrightarrow> take 4 (drop 28 ie) \<noteq> h"
    and "vendor_ie_cb sha j now sa (Some (received_ie ie)) rssi sc = Ok sc'"
    and "a \<in> set (take 20 aps)" "ar_bssid a = sa" "\<And>b. b \<in> set aps \<Longrightarrow> ar_bssid b = sa \<Longrightarrow> ar_ssid b = name" "c_str (take 32 name) \<noteq> []"
    and "step = (if cfg_metric cfg = ''bytes'' then cfg_step_size_bytes cfg else cfg_step_size_ms cfg)" "(of_int step :: u32) \<noteq> 0"
  shows "\<exists>k e. find_entry_by_bssid (sc_market (scan_done_cb t aps sc')) sa = Some k \<and>
    e = mk_entries (sc_market (scan_done_cb t aps sc')) ! k \<and> eligible e \<and> me_ssid e = c_str (take 32 name) \<and>
    me_price_per_step e = of_int (cfg_price_per_step cfg) \<and> me_step_size e = of_int step \<and>
    me_metric e = (if cfg_metric cfg = ''bytes'' then 1 else 0)"
proof -
  let ?bc = "beacon_config_of cfg i"
  have ie: "ie = beacon_build_ie sha ?bc" using assms(3-5) by (auto simp: beacon_price_start_def beacon_price_build_ie_def Let_def)
  have l: "length ie = 32" "ie ! 1 = 30" using built_ie[OF assms(1), where cfg = cfg and i = i] ie by (simp_all add: beacon_price_build_ie_def)
  have d6: "drop 6 ie = beacon_payload sha ?bc" by (simp add: ie beacon_build_ie_def TOLLGATE_OUI_def)
  let ?mk = "market_parse_ie now sa (take 3 (drop 2 ie)) (ie ! 5) (drop 6 ie) rssi (self_hash sha j) (sc_market sc)"
  have mk: "sc_market sc' = ?mk"
    using assms(7) l by (auto simp: vendor_ie_cb_def received_ie_def)
  have "take 4 (drop 22 (beacon_payload sha ?bc)) = take 4 (drop 28 ie)" unfolding d6[symmetric] by simp
  then have "\<forall>h. self_hash sha j = Some h \<longrightarrow> take 4 (drop 22 (beacon_payload sha ?bc)) \<noteq> h" using assms(6) by simp
  from market_beacon_roundtrip[OF assms(1,2) this, of now sa rssi] obtain k where
    k: "find_entry_by_bssid ?mk sa = Some k" "me_metric (mk_entries ?mk ! k) = (if cfg_metric cfg = ''bytes'' then 1 else 0)"
       "me_price_per_step (mk_entries ?mk ! k) = of_int (cfg_price_per_step cfg)" "me_step_size (mk_entries ?mk ! k) = of_int step"
    unfolding Let_def ie[symmetric] using assms(12) by (auto simp: beacon_config_of_def)
  have v: "me_valid (mk_entries ?mk ! k)" using k(1) by (auto simp: find_entry_by_bssid_def first_idx_Some_iff)
  have n: "\<exists>b \<in> set (take 20 aps). ar_bssid b = sa" "aps \<noteq> []" using assms(8,9) by auto
  obtain r where "find_entry_by_bssid (sc_market (scan_done_cb t aps sc')) sa = Some k"
      "mk_entries (sc_market (scan_done_cb t aps sc')) ! k = (mk_entries ?mk ! k)\<lparr>me_ssid := c_str (take 32 name), me_rssi := r\<rparr>"
    using scan_names_entry[OF k(1), of "take 20 aps" name] n assms(10) mk by (auto simp: scan_done_cb_def Let_def dest: in_set_takeD)
  then show ?thesis using k(2-4) v assms(11,13) by (simp add: eligible_def)
qed

text \<open>An element with the right prefix and a length below four makes the callback read a payload that is not there.\<close>

theorem short_ie_undefined:
  assumes "unat (vi_length ie) < 4" "vi_oui ie = TOLLGATE_OUI" "vi_oui_type ie = TOLLGATE_IE_TYPE"
  shows "vendor_ie_cb sha i now sa (Some ie) rssi sc = Undef \<and> market_parse_vendor_ie sha i now sa (Some ie) rssi sc = Ok sc"
  using assms by (simp add: vendor_ie_cb_def market_parse_vendor_ie_def)

section \<open>Witnesses\<close>

definition demo_scan :: scan_state where
  "demo_scan = \<lparr>sc_market = market_init, sc_scanning = False, sc_last_scan_ms = 0, sc_failures = 0, sc_initialized = True, sc_handler = True\<rparr>"

definition no_identity :: tollgate_identity where
  "no_identity = \<lparr>id_nsec = [], id_nsec_hex = [], id_npub_hex = [], id_sta_mac = [], id_ap_mac = [], id_ap_ssid = [],
     id_ap_ip = 0, id_ap_ip_str = [], id_locking_privkey = [], id_locking_pubkey = [], id_locking_pubkey_hex = [], id_initialized = False\<rparr>"

theorem neighbour_price_seen_witness:
  "\<exists>ie sc' k e. vendor_ie_cb (\<lambda>s. replicate 32 7) no_identity 5 [1, 2, 3, 4, 5, 6] (Some (received_ie ie)) 0 demo_scan = Ok sc' \<and>
     e = mk_entries (sc_market (scan_done_cb 9 [\<lparr>ar_bssid = [1, 2, 3, 4, 5, 6], ar_ssid = ''gate'', ar_rssi = 0\<rparr>] sc')) ! k \<and>
     eligible e \<and> me_price_per_step e = 21"
proof -
  let ?sha = "\<lambda>s :: string. replicate 32 (7 :: u8)" and ?bs = "\<lparr>bs_active = False, bs_beacon = None, bs_probe = None\<rparr>"
  let ?ap = "\<lparr>ar_bssid = [1, 2, 3, 4, 5, 6], ar_ssid = ''gate'', ar_rssi = 0\<rparr>"
  define ie where "ie = beacon_price_build_ie ?sha config_defaults no_identity"
  obtain bs' where b: "beacon_price_start ?sha config_defaults no_identity True True ?bs = (True, bs')" "bs_beacon bs' = Some ie"
    by (simp add: beacon_price_start_def Let_def ie_def)
  have "length ie = 32" "ie ! 1 = 30" using built_ie[of ?sha] by (simp_all add: ie_def)
  then obtain sc' where c: "vendor_ie_cb ?sha no_identity 5 [1, 2, 3, 4, 5, 6] (Some (received_ie ie)) 0 demo_scan = Ok sc'"
    by (simp add: vendor_ie_cb_def received_ie_def)
  have "\<exists>k e. find_entry_by_bssid (sc_market (scan_done_cb 9 [?ap] sc')) [1, 2, 3, 4, 5, 6] = Some k \<and>
      e = mk_entries (sc_market (scan_done_cb 9 [?ap] sc')) ! k \<and> eligible e \<and> me_ssid e = c_str (take 32 ''gate'') \<and>
      me_price_per_step e = of_int (cfg_price_per_step config_defaults) \<and> me_step_size e = of_int 60000 \<and>
      me_metric e = (if cfg_metric config_defaults = ''bytes'' then 1 else 0)"
    by (rule neighbour_price_seen[OF _ _ b(1) _ b(2) _ c, where a = ?ap])
      (simp_all add: demo_scan_def market_inv_init self_hash_def no_identity_def c_str_def config_defaults_def)
  then show ?thesis using c by (fastforce simp: config_defaults_def)
qed

theorem short_ie_undefined_witness:
  "vendor_ie_cb (\<lambda>s. []) no_identity 5 [] (Some \<lparr>vi_length = 3, vi_oui = TOLLGATE_OUI, vi_oui_type = TOLLGATE_IE_TYPE, vi_payload = []\<rparr>) 0 demo_scan = Undef"
  using short_ie_undefined[of "\<lparr>vi_length = 3, vi_oui = TOLLGATE_OUI, vi_oui_type = TOLLGATE_IE_TYPE, vi_payload = []\<rparr>"] by simp

end
