(* ===== verification/TG_Stratum.thy ===== *)
theory TG_Stratum
  imports TG_Mining TG_HexText
begin

text \<open>
  Stratum: the messages of the pool client
  (\<^verbatim>\<open>components/tollgate_core/src/tollgate_core_stratum_client.c\<close>), the proxy that local miners talk
  to (\<^verbatim>\<open>components/tollgate_core/src/tollgate_core_stratum_proxy.c\<close>) and the pool client of the
  firmware (\<^verbatim>\<open>main/stratum_client.c\<close>), which feeds the jobs of the pool to the proxy. Sockets are
  lists of the messages sent; SHA-256 is a parameter; the messages of the proxy are far shorter than
  their 1024-byte buffer, so \<open>snprintf\<close> cuts none of them.
\<close>

unbundle bit_operations_syntax

section \<open>Jobs and pool messages\<close>

record stratum_job =
  sj_job_id :: u32
  sj_prevhash :: "u8 list"
  sj_merkle_root :: "u8 list"
  sj_ntime :: u32
  sj_nbits :: u32
  sj_version :: u32
  sj_target :: "u8 list"
  sj_target_len :: nat
  sj_valid :: bool
  sj_clean :: bool

definition zero_job :: stratum_job where
  "zero_job = \<lparr>sj_job_id = 0, sj_prevhash = replicate 32 0, sj_merkle_root = replicate 32 0, sj_ntime = 0,
     sj_nbits = 0, sj_version = 0, sj_target = replicate 32 0, sj_target_len = 0, sj_valid = False, sj_clean = False\<rparr>"

fun stratum_hex_to_bytes :: "string \<Rightarrow> u8 list \<Rightarrow> u8 list" where
  "stratum_hex_to_bytes (a # b # hex) (x # out) = ucast (c_strtoul 16 [a, b]) # stratum_hex_to_bytes hex out"
| "stratum_hex_to_bytes hex out = out"

definition arr_item :: "json list \<Rightarrow> nat \<Rightarrow> json option" where
  "arr_item xs i = (if i < length xs then Some (xs ! i) else None)"

definition hex_item :: "json option \<Rightarrow> u32" where
  "hex_item j = (case json_str j of Some s \<Rightarrow> c_strtoul 16 s | None \<Rightarrow> 0)"

text \<open>The job, and the value for \<open>out_nbits\<close>. Items that are not strings have no \<open>valuestring\<close>.\<close>

definition stratum_parse_notify :: "json option \<Rightarrow> (stratum_job \<times> u32) cres" where
  "stratum_parse_notify params =
     (case json_arr params of
        None \<Rightarrow> Fail
      | Some xs \<Rightarrow>
          if length xs < 6 \<or> arr_item xs 6 = None then Fail
          else
            (case (json_str (arr_item xs 0), json_str (arr_item xs 1)) of
               (Some job_id, Some prevhash) \<Rightarrow>
                 (let nbits = hex_item (arr_item xs 6) in
                  Ok (zero_job\<lparr>sj_job_id := of_int (c_atoi job_id), sj_valid := True,
                        sj_prevhash := stratum_hex_to_bytes prevhash (replicate 32 0),
                        sj_version := hex_item (arr_item xs 5), sj_nbits := nbits,
                        sj_ntime := hex_item (arr_item xs 7),
                        sj_target := replicate 32 0xFF, sj_target_len := 32\<rparr>, nbits))
             | _ \<Rightarrow> Undef))"

definition stratum_parse_difficulty :: "json option \<Rightarrow> u64 cres" where
  "stratum_parse_difficulty params =
     (case json_arr params of
        None \<Rightarrow> Fail
      | Some xs \<Rightarrow> if length xs < 1 then Fail
                  else (case json_num (arr_item xs 0) of Some n \<Rightarrow> d2u64 n | None \<Rightarrow> Fail))"

definition stratum_parse_token :: "nat \<Rightarrow> json option \<Rightarrow> string option" where
  "stratum_parse_token token_out_size params =
     (case json_arr params of
        None \<Rightarrow> None
      | Some xs \<Rightarrow> if length xs < 1 then None
                  else (case json_str (arr_item xs 0) of
                          Some token \<Rightarrow> if token = [] \<or> token_out_size \<le> length token then None else Some token
                        | None \<Rightarrow> None))"

definition stratum_build_subscribe :: "u32 \<Rightarrow> string" where
  "stratum_build_subscribe req_id =
     ''{\"id\":'' @ dec_of_nat (unat req_id) @ '',\"method\":\"mining.subscribe\",\"params\":[\"TollGate/1.0\"]}'' @ [CHR 0x0A]"

definition stratum_build_authorize :: "u32 \<Rightarrow> string \<Rightarrow> string \<Rightarrow> string" where
  "stratum_build_authorize req_id user pass =
     ''{\"id\":'' @ dec_of_nat (unat req_id) @ '',\"method\":\"mining.authorize\",\"params\":[\"'' @ user @ ''\",\"'' @ pass
     @ ''\"]}'' @ [CHR 0x0A]"

definition stratum_build_submit :: "u32 \<Rightarrow> string \<Rightarrow> u32 \<Rightarrow> string \<Rightarrow> u32 \<Rightarrow> u32 \<Rightarrow> string" where
  "stratum_build_submit req_id user job_id extranonce2_hex ntime nonce =
     ''{\"id\":'' @ dec_of_nat (unat req_id) @ '',\"method\":\"mining.submit\",\"params\":[\"'' @ user @ ''\",\"''
     @ dec_of_nat (unat job_id) @ ''\",\"'' @ extranonce2_hex @ ''\",\"'' @ hex8 ntime @ ''\",\"'' @ hex8 nonce
     @ ''\"]}'' @ [CHR 0x0A]"

section \<open>The proxy\<close>

record miner_client =
  mi_fd :: int
  mi_ip :: u32
  mi_worker :: string
  mi_authorized :: bool

record stratum_proxy =
  px_running :: bool
  px_port :: u16
  px_mutex :: bool
  px_job :: stratum_job
  px_nbits :: u32
  px_total_shares :: u64
  px_total_accepted :: u64
  px_total_rejected :: u64
  px_hashprice :: rat
  px_active_miners :: int
  px_difficulty :: rat
  px_has_cb :: bool
  px_miners :: "miner_client list"
  px_sent :: "(int \<times> string) list"
  px_shares :: "(u32 \<times> u32 \<times> u32 \<times> u32 \<times> u32) list"

definition PROXY_MAX_MINERS :: nat where
  "PROXY_MAX_MINERS = 8"

definition px_send :: "int \<Rightarrow> string \<Rightarrow> stratum_proxy \<Rightarrow> stratum_proxy" where
  "px_send fd msg px = px\<lparr>px_sent := px_sent px @ [(fd, msg)]\<rparr>"

definition broadcast_to_miners :: "string \<Rightarrow> stratum_proxy \<Rightarrow> stratum_proxy" where
  "broadcast_to_miners msg px =
     (if \<not> px_mutex px then px
      else fold (\<lambda>m. px_send (mi_fd m) msg) (filter (\<lambda>m. 0 \<le> mi_fd m \<and> mi_authorized m) (px_miners px)) px)"

definition register_miner :: "int \<Rightarrow> u32 \<Rightarrow> stratum_proxy \<Rightarrow> nat option \<times> stratum_proxy" where
  "register_miner fd ip px =
     (case first_idx (\<lambda>m. mi_fd m < 0) (px_miners px) of
        Some i \<Rightarrow> (Some i, px\<lparr>px_miners := (px_miners px)[i :=
                     \<lparr>mi_fd = fd, mi_ip = ip, mi_worker = [], mi_authorized = False\<rparr>]\<rparr>)
      | None \<Rightarrow> (None, px))"

definition find_miner :: "int \<Rightarrow> stratum_proxy \<Rightarrow> nat option" where
  "find_miner fd px = first_idx (\<lambda>m. mi_fd m = fd) (px_miners px)"

definition unregister_miner :: "int \<Rightarrow> stratum_proxy \<Rightarrow> stratum_proxy" where
  "unregister_miner fd px =
     (case find_miner fd px of
        Some i \<Rightarrow> px\<lparr>px_miners := (px_miners px)[i := (px_miners px ! i)\<lparr>mi_fd := -1, mi_authorized := False\<rparr>],
                     px_active_miners := px_active_miners px - 1\<rparr>
      | None \<Rightarrow> px)"

subsection \<open>Target, header and proof of work\<close>

definition PDIFF_MAX :: rat where
  "PDIFF_MAX = 4294901760"

fun put_target :: "nat \<Rightarrow> nat \<Rightarrow> u64 \<Rightarrow> u8 list \<Rightarrow> u8 list" where
  "put_target 0 i v t = t"
| "put_target (Suc n) i v t =
     (if v = 0 then t else put_target n (Suc i) (drop_bit 8 v) (t[7 - i := ucast v]))"

definition build_target_from_difficulty :: "rat \<Rightarrow> u8 list cres" where
  "build_target_from_difficulty diff =
     (if diff \<le> 0 \<or> 1000000000000000 < diff then Ok (replicate 32 0xFF)
      else if PDIFF_MAX \<le> diff then Ok ((replicate 32 0)[7 := 0xFF])
      else cbind (d2u64 (Fin (d_div PDIFF_MAX diff))) (\<lambda>target_val.
             Ok (put_target 8 0 (if target_val = 0 then 1 else target_val) (replicate 32 0))))"

fun not_above :: "u8 list \<Rightarrow> u8 list \<Rightarrow> bool" where
  "not_above (h # hs) (t # ts) = (if h < t then True else if t < h then False else not_above hs ts)"
| "not_above hs ts = True"

definition check_pow :: "(u8 list \<Rightarrow> u8 list) \<Rightarrow> u8 list \<Rightarrow> u8 list \<Rightarrow> nat \<Rightarrow> bool" where
  "check_pow sha header tgt target_len = not_above (rev (sha (sha header))) (take (min target_len 32) tgt)"

definition build_header :: "stratum_job option \<Rightarrow> u32 \<Rightarrow> u32 \<Rightarrow> u32 \<Rightarrow> u8 list" where
  "build_header job nonce ntime version =
     be32 version
     @ (case job of Some j \<Rightarrow> sj_prevhash j @ sj_merkle_root j | None \<Rightarrow> replicate 64 0)
     @ be32 ntime @ be32 (case job of Some j \<Rightarrow> sj_nbits j | None \<Rightarrow> 0) @ be32 nonce"

subsection \<open>Messages to miners\<close>

definition send_response :: "int \<Rightarrow> u32 \<Rightarrow> string \<Rightarrow> bool \<Rightarrow> stratum_proxy \<Rightarrow> stratum_proxy" where
  "send_response fd i result err = px_send fd
     (if err then ''{\"id\":'' @ dec_of_nat (unat i) @ '',\"result\":null,\"error\":[20,\"'' @ result @ ''\"]}'' @ [CHR 0x0A]
      else ''{\"id\":'' @ dec_of_nat (unat i) @ '',\"result\":'' @ result @ '',\"error\":null}'' @ [CHR 0x0A])"

definition notify_text :: "stratum_job \<Rightarrow> string" where
  "notify_text job =
     ''{\"id\":null,\"method\":\"mining.notify\",\"params\":[\"'' @ dec_of_nat (unat (sj_job_id job)) @ ''\",\"''
     @ hex_of_bytes (sj_prevhash job) @ ''\",\"\",\"\",\"\",\"'' @ hex8 (sj_version job) @ ''\",\"'' @ hex8 (sj_nbits job)
     @ ''\",\"'' @ hex8 (sj_ntime job) @ ''\",'' @ (if sj_clean job then ''true'' else ''false'') @ '']}'' @ [CHR 0x0A]"

definition handle_subscribe :: "int \<Rightarrow> miner_client \<Rightarrow> u32 \<Rightarrow> stratum_proxy \<Rightarrow> stratum_proxy" where
  "handle_subscribe fd miner i px =
     (let px1 = px_send fd (''{\"id\":'' @ dec_of_nat (unat i) @ '',\"result\":[[[\"mining.notify\",\"'' @ hex8 (mi_ip miner)
                  @ ''\"]],\"'' @ hex8 (mi_ip miner XOR 0x5a5a5a5a) @ ''\",8],\"error\":null}'' @ [CHR 0x0A]) px
      in if sj_valid (px_job px1) then px_send fd (notify_text (px_job px1)) px1 else px1)"

text \<open>\<open>%.1f\<close>: one decimal, the exact value rounded to nearest, ties to even.\<close>

definition fmt_1f :: "rat \<Rightarrow> string" where
  "fmt_1f x =
     (let n = nat \<bar>round_even (x * 10)\<bar>
      in (if x < 0 then ''-'' else []) @ dec_of_nat (n div 10) @ ''.'' @ dec_of_nat (n mod 10))"

definition difficulty_text :: "rat \<Rightarrow> string" where
  "difficulty_text d = ''{\"id\":null,\"method\":\"mining.set_difficulty\",\"params\":['' @ fmt_1f d @ '']}'' @ [CHR 0x0A]"

definition handle_set_difficulty :: "int \<Rightarrow> stratum_proxy \<Rightarrow> stratum_proxy" where
  "handle_set_difficulty fd px = px_send fd (difficulty_text (px_difficulty px)) px"

subsection \<open>Lines from miners\<close>

definition line_method :: "string \<Rightarrow> string option" where
  "line_method line =
     (case c_strstr line ''\"method\"'' of
        None \<Rightarrow> None
      | Some i \<Rightarrow>
          (case c_strstr (drop i line) ''\":\"'' of
             None \<Rightarrow> None
           | Some k \<Rightarrow> Some (take 63 (takeWhile (\<lambda>c. c \<noteq> CHR 0x22) (drop (k + 3) (drop i line))))))"

definition line_id :: "string \<Rightarrow> u32" where
  "line_id line =
     (case c_strstr line ''\"id\"'' of
        None \<Rightarrow> 0
      | Some i \<Rightarrow>
          (case c_strstr (drop i line) '':'' of
             None \<Rightarrow> 0
           | Some k \<Rightarrow> c_strtoul 10 (dropWhile (\<lambda>c. c = CHR '' '') (drop (k + 1) (drop i line)))))"

definition line_params :: "string \<Rightarrow> string option" where
  "line_params line =
     (case c_strstr line ''\"params\"'' of
        None \<Rightarrow> None
      | Some i \<Rightarrow> map_option (\<lambda>k. drop (k + 1) (drop i line)) (c_strchr CHR ''['' (drop i line)))"

definition line_worker :: "string \<Rightarrow> string" where
  "line_worker params = take 63 (takeWhile (\<lambda>c. c \<noteq> CHR 0x22) (dropWhile blank_or_quote params))"

text \<open>All tokens that repeated \<open>strtok(_, d)\<close> returns: the maximal runs without the delimiter.\<close>

function c_tokens :: "char \<Rightarrow> string \<Rightarrow> string list" where
  "c_tokens d s =
     (let r = dropWhile (\<lambda>c. c = d) s in
      if r = [] then [] else takeWhile (\<lambda>c. c \<noteq> d) r # c_tokens d (dropWhile (\<lambda>c. c \<noteq> d) r))"
  by pat_completeness auto

termination c_tokens
proof (relation "measure (\<lambda>(d, s). length s)", goal_cases)
  case (2 d s r)
  then obtain c cs where r: "dropWhile (\<lambda>c. c = d) s = c # cs" by (cases "dropWhile (\<lambda>c. c = d) s") auto
  then have "c \<noteq> d" using hd_dropWhile[of "\<lambda>c. c = d" s] by simp
  then have "length (dropWhile (\<lambda>x. x \<noteq> d) (c # cs)) < length (c # cs)"
    by (simp add: le_imp_less_Suc length_dropWhile_le)
  also have "\<dots> \<le> length s" using length_dropWhile_le[of "\<lambda>c. c = d" s] r by simp
  finally show ?case using 2 r by simp
qed simp

declare c_tokens.simps [simp del]

definition trim_token :: "string \<Rightarrow> string" where
  "trim_token tok = (case dropWhile blank_or_quote tok of
       [] \<Rightarrow> []
     | c # cs \<Rightarrow> c # rev (dropWhile (\<lambda>x. blank_or_quote x \<or> x = CHR '']'') (rev cs)))"

text \<open>Job id, time, nonce and version of a submit line; \<open>version0\<close> is the job's version.\<close>

definition submit_params :: "u32 \<Rightarrow> string \<Rightarrow> u32 \<times> u32 \<times> u32 \<times> u32" where
  "submit_params version0 line =
     (case line_params line of
        None \<Rightarrow> (0, 0, 0, version0)
      | Some p \<Rightarrow>
          (let toks = map trim_token (take 5 (c_tokens CHR '','' p));
               num = \<lambda>base k z. if k < length toks then c_strtoul base (toks ! k) else z
           in (num 10 1 0, num 16 2 0, num 16 3 0, num 16 4 version0)))"

record share_env =
  se_sha :: "u8 list \<Rightarrow> u8 list"
  se_now :: i64

definition handle_submit :: "share_env \<Rightarrow> int \<Rightarrow> u32 \<Rightarrow> u32 \<Rightarrow> string \<Rightarrow> stratum_proxy \<times> mining_state \<Rightarrow>
    (stratum_proxy \<times> mining_state) cres" where
  "handle_submit env fd ip i line pm =
     (let px = (fst pm)\<lparr>px_total_shares := px_total_shares (fst pm) + 1\<rparr>;
          reject = \<lambda>why. send_response fd i why True (px\<lparr>px_total_rejected := px_total_rejected px + 1\<rparr>)
      in if \<not> sj_valid (px_job px) then Ok (reject ''no current job'', snd pm)
         else
           (case submit_params (sj_version (px_job px)) line of
              (submit_job_id, ntime, nonce, version) \<Rightarrow>
                if submit_job_id \<noteq> sj_job_id (px_job px) then Ok (reject ''stale job'', snd pm)
                else
                  cbind (build_target_from_difficulty (px_difficulty px)) (\<lambda>tgt.
                    if check_pow (se_sha env) (build_header (Some (px_job px)) nonce ntime version) tgt 32
                    then
                      (let px1 = send_response fd i ''true'' False (px\<lparr>px_total_accepted := px_total_accepted px + 1\<rparr>)
                       in Ok (if px_has_cb px1
                              then px1\<lparr>px_shares := px_shares px1 @ [(ip, submit_job_id, nonce, ntime, version)]\<rparr>
                              else px1,
                              mining_update_hashrate (se_now env) ip True (snd pm)))
                    else Ok (reject ''low difficulty'', mining_update_hashrate (se_now env) ip False (snd pm)))))"

definition handle_line :: "share_env \<Rightarrow> int \<Rightarrow> nat \<Rightarrow> string \<Rightarrow> stratum_proxy \<times> mining_state \<Rightarrow>
    (stratum_proxy \<times> mining_state) cres" where
  "handle_line env fd idx line pm =
     (let px = fst pm; miner = px_miners px ! idx; i = line_id line; just = \<lambda>px'. Ok (px', snd pm) in
      if line = [] then Ok pm
      else
        (case line_method line of
           None \<Rightarrow> Ok pm
         | Some method \<Rightarrow>
             if method = ''mining.subscribe''
             then just (handle_set_difficulty fd (handle_subscribe fd miner i px))
             else if method = ''mining.authorize''
             then
               (let m1 = (case line_params line of Some p \<Rightarrow> miner\<lparr>mi_worker := line_worker p\<rparr> | None \<Rightarrow> miner)
                in just (send_response fd i ''true'' False
                     (px\<lparr>px_miners := (px_miners px)[idx := m1\<lparr>mi_authorized := True\<rparr>]\<rparr>)))
             else if method = ''mining.submit'' then handle_submit env fd (mi_ip miner) i line pm
             else if method = ''mining.extranonce.subscribe'' then just (send_response fd i ''true'' False px)
             else if method = ''mining.suggest_difficulty'' then just (send_response fd i ''true'' False px)
             else just (send_response fd i ''unknown method'' True px)))"

subsection \<open>Connections\<close>

text \<open>The lines of one received block: cut at line ends, each read as a C string, empty ones skipped.\<close>

fun cut_lines :: "string \<Rightarrow> string \<Rightarrow> string list" where
  "cut_lines acc [] = [acc]"
| "cut_lines acc (c # cs) =
     (if c = CHR 0x0A \<or> c = CHR 0x0D then acc # cut_lines [] cs else cut_lines (acc @ [c]) cs)"

definition block_lines :: "string \<Rightarrow> string list" where
  "block_lines block = filter (\<lambda>l. l \<noteq> []) (map c_str (cut_lines [] block))"

fun handle_lines :: "share_env \<Rightarrow> int \<Rightarrow> nat \<Rightarrow> string list \<Rightarrow> stratum_proxy \<times> mining_state \<Rightarrow>
    (stratum_proxy \<times> mining_state) cres" where
  "handle_lines env fd idx [] pm = Ok pm"
| "handle_lines env fd idx (l # ls) pm = cbind (handle_line env fd idx l pm) (handle_lines env fd idx ls)"

text \<open>
  One accepted connection of the server task, up to the end of its input: the blocks that \<open>recv\<close>
  returns, at most 1023 bytes each.
\<close>

definition serve_connection :: "share_env \<Rightarrow> int \<Rightarrow> u32 \<Rightarrow> string list \<Rightarrow> stratum_proxy \<times> mining_state \<Rightarrow>
    (stratum_proxy \<times> mining_state) cres" where
  "serve_connection env fd ip blocks pm =
     (case register_miner fd ip (fst pm) of
        (None, px) \<Rightarrow> Ok (px, snd pm)
      | (Some idx, px) \<Rightarrow>
          cbind (handle_lines env fd idx (concat (map block_lines blocks))
                  (px\<lparr>px_active_miners := px_active_miners px + 1\<rparr>, snd pm))
            (\<lambda>(px', m'). Ok (unregister_miner fd px', m')))"

definition proxy_boot :: stratum_proxy where
  "proxy_boot = \<lparr>px_running = False, px_port = 3333, px_mutex = False, px_job = zero_job, px_nbits = 0,
     px_total_shares = 0, px_total_accepted = 0, px_total_rejected = 0, px_hashprice = 0, px_active_miners = 0,
     px_difficulty = 1, px_has_cb = False,
     px_miners = replicate PROXY_MAX_MINERS \<lparr>mi_fd = 0, mi_ip = 0, mi_worker = [], mi_authorized = False\<rparr>,
     px_sent = [], px_shares = []\<rparr>"

text \<open>\<open>listening\<close>: socket, bind, listen and task creation succeed.\<close>

definition proxy_init :: "u16 \<Rightarrow> bool \<Rightarrow> stratum_proxy \<Rightarrow> bool \<times> stratum_proxy" where
  "proxy_init port listening px =
     (if px_running px then (True, px)
      else
        (let px1 = px\<lparr>px_port := port, px_job := zero_job, px_nbits := 0, px_total_shares := 0,
                px_total_accepted := 0, px_total_rejected := 0, px_hashprice := 0, px_active_miners := 0,
                px_difficulty := 1, px_miners := map (\<lambda>m. m\<lparr>mi_fd := -1\<rparr>) (px_miners px), px_mutex := True\<rparr>
         in if listening then (True, px1\<lparr>px_running := True\<rparr>) else (False, px1)))"

definition proxy_set_job :: "mining_state \<Rightarrow> stratum_job \<Rightarrow> stratum_proxy \<Rightarrow> stratum_proxy" where
  "proxy_set_job m job px =
     (let px1 = px\<lparr>px_job := job, px_nbits := sj_nbits job, px_hashprice := mining_get_current_hashprice m\<rparr>
      in if \<not> sj_valid job then px1 else broadcast_to_miners (notify_text job) px1)"

definition proxy_set_difficulty :: "rat \<Rightarrow> stratum_proxy \<Rightarrow> stratum_proxy" where
  "proxy_set_difficulty d px = broadcast_to_miners (difficulty_text d) (px\<lparr>px_difficulty := d\<rparr>)"

definition proxy_set_share_callback :: "bool \<Rightarrow> stratum_proxy \<Rightarrow> stratum_proxy" where
  "proxy_set_share_callback cb px = px\<lparr>px_has_cb := cb\<rparr>"

definition proxy_stop :: "stratum_proxy \<Rightarrow> stratum_proxy" where
  "proxy_stop px = px\<lparr>px_running := False\<rparr>"

section \<open>Targets as numbers\<close>

lemma be_val_update:
  "i < length t \<Longrightarrow> t ! i = 0 \<Longrightarrow> be_val (t[i := b]) = be_val t + unat b * 256 ^ (length t - Suc i)"
proof (induction t arbitrary: i)
  case (Cons x t)
  then show ?case by (cases i) auto
qed simp

lemma not_above_iff: "length hs = length ts \<Longrightarrow> not_above hs ts \<longleftrightarrow> be_val hs \<le> be_val ts"
proof (induction hs ts rule: not_above.induct)
  case (1 h hs t ts)
  let ?p = "256 ^ length ts :: nat"
  have b: "be_val hs < ?p" "be_val ts < ?p" using 1 be_val_bound[of hs] be_val_bound[of ts] by simp_all
  have less: "unat x * ?p + u < unat y * ?p + w" if "x < y" "u < ?p" for x y :: u8 and u w :: nat
  proof -
    have "unat x * ?p + u < (unat x + 1) * ?p" using that by simp
    also have "\<dots> \<le> unat y * ?p" using that by (intro mult_right_mono) (simp_all add: word_less_nat_alt)
    finally show ?thesis by simp
  qed
  consider "h < t" | "t < h" | "h = t" by fastforce
  then show ?case
  proof cases
    case a: 1
    then show ?thesis using less[OF a b(1), of "be_val ts"] 1 by simp
  next
    case a: 2
    then show ?thesis using less[OF a b(2), of "be_val hs"] 1 by auto
  next
    case 3
    then show ?thesis using 1 by simp
  qed
qed auto

lemma be_val_put_target:
  "i + n = 8 \<Longrightarrow> length t = 32 \<Longrightarrow> \<forall>j < n. t ! j = 0 \<Longrightarrow>
    be_val (put_target n i v t) = be_val t + (unat v mod 256 ^ n) * 256 ^ (32 - n)"
proof (induction n arbitrary: i v t)
  case (Suc n)
  have i: "7 - i = n" "n < 8" "n < length t" using Suc.prems by simp_all
  show ?case
  proof (cases "v = 0")
    case False
    let ?t = "t[n := ucast v]"
    have u: "unat (ucast v :: u8) = unat v mod 256" "unat (drop_bit 8 v) = unat v div 256"
      by (simp_all add: unsigned_ucast_eq take_bit_eq_mod drop_bit_eq_div unat_div_distrib)
    have e: "(32 :: nat) - n = Suc (31 - n)" "(32 :: nat) - Suc n = 31 - n" using i by simp_all
    have "be_val (put_target (Suc n) i v t) = be_val ?t + (unat v div 256 mod 256 ^ n) * 256 ^ (32 - n)"
      using Suc.prems False i by (simp add: Suc.IH u)
    also have "be_val ?t = be_val t + (unat v mod 256) * 256 ^ (31 - n)"
      using Suc.prems i by (subst be_val_update) (simp_all add: u)
    also have "be_val t + (unat v mod 256) * 256 ^ (31 - n) + (unat v div 256 mod 256 ^ n) * 256 ^ (32 - n) =
        be_val t + (256 * (unat v div 256 mod 256 ^ n) + unat v mod 256) * 256 ^ (31 - n)"
      unfolding e by (simp add: algebra_simps)
    also have "256 * (unat v div 256 mod 256 ^ n) + unat v mod 256 = unat v mod 256 ^ Suc n"
      using mod_mult2_eq[of "unat v" 256 "256 ^ n"] by simp
    finally show ?thesis unfolding e .
  qed simp
qed simp

section \<open>Which shares count\<close>

text \<open>The largest hash value that a share of difficulty \<open>d\<close> may have.\<close>

definition share_threshold :: "rat \<Rightarrow> nat" where
  "share_threshold d =
     (if d < PDIFF_MAX then nat (max 1 \<lfloor>fl (PDIFF_MAX / d)\<rfloor>) * 2 ^ 192
      else if d \<le> 1000000000000000 then 255 * 2 ^ 192 else 2 ^ 256 - 1)"

lemma length_put_target [simp]: "length (put_target n i v t) = length t"
  by (induction n i v t rule: put_target.induct) simp_all

lemma target_value:
  assumes "1 \<le> d"
  obtains t where "build_target_from_difficulty d = Ok t" "length t = 32" "be_val t = share_threshold d"
proof -
  have "\<exists>t. build_target_from_difficulty d = Ok t \<and> length t = 32 \<and> be_val t = share_threshold d"
  proof (cases "d < PDIFF_MAX")
    case True
    let ?y = "PDIFF_MAX / d" and ?x = "fl (PDIFF_MAX / d)"
    have y: "0 < ?y" "?y \<le> PDIFF_MAX" using assms by (simp_all add: PDIFF_MAX_def field_simps)
    have "\<bar>?x - ?y\<bar> \<le> ?y / 2 ^ 53" using fl_error[of ?y] y by simp
    also have "\<dots> \<le> ?y" using y by (simp add: field_simps)
    finally have x: "0 < ?x" "?x < 2 ^ 64" using y by (simp_all add: PDIFF_MAX_def)
    define n where "n = \<lfloor>?x\<rfloor>"
    have "0 \<le> ?x" using x(1) by (rule less_imp_le)
    then have n: "0 \<le> n" "n < 2 ^ 64" and tr: "trunc_rat ?x = n"
      using x(2) by (simp_all add: n_def floor_less_iff trunc_rat_def)
    define w :: u64 where "w = (if of_int n = (0 :: u64) then 1 else of_int n)"
    have u: "unat (of_int n :: u64) = nat n"
      using n by (simp add: unsigned_of_int take_bit_int_eq_self)
    then have "of_int n = (0 :: u64) \<longleftrightarrow> n = 0" using n by (auto simp: unat_eq_0 [symmetric] simp del: unat_eq_0)
    then have w: "unat w = nat (max 1 n)" using u n by (auto simp: w_def max_def)
    have b: "build_target_from_difficulty d = Ok (put_target 8 0 w (replicate 32 0))"
    proof -
      have "d2u64 (Fin (d_div PDIFF_MAX d)) = Ok (of_int n)" using n tr by (simp add: d2u64_def d_div_def)
      moreover have "\<not> (d \<le> 0 \<or> 1000000000000000 < d)" using True assms by (simp add: PDIFF_MAX_def)
      ultimately show ?thesis using True by (simp add: build_target_from_difficulty_def w_def)
    qed
    have "be_val (put_target 8 0 w (replicate 32 0)) = (unat w mod 256 ^ 8) * 256 ^ 24"
      using be_val_put_target[of 0 8 "replicate 32 0" w] by simp
    also have "unat w mod 256 ^ 8 = nat (max 1 n)" using n by (subst mod_less) (auto simp: w max_def)
    finally have "be_val (put_target 8 0 w (replicate 32 0)) = share_threshold d"
      using True by (simp add: share_threshold_def n_def)
    with b show ?thesis by auto
  next
    case False
    have "be_val ((replicate 32 0)[7 := 0xFF]) = 255 * 2 ^ 192" by (subst be_val_update) simp_all
    moreover have "be_val (replicate 32 0xFF) = 2 ^ 256 - 1" using be_val_ones[of 32] by simp
    ultimately show ?thesis using False assms
      by (simp add: build_target_from_difficulty_def share_threshold_def)
  qed
  then show thesis using that by blast
qed

lemma length_build_header: "length (sj_prevhash j) = 32 \<Longrightarrow> length (sj_merkle_root j) = 32 \<Longrightarrow>
    length (build_header (Some j) nonce ntime version) = 80"
  by (simp add: build_header_def)

text \<open>
  (C17) The proxy counts exactly the shares that have enough work: a submitted line with the id of the
  valid current job, at a difficulty of at least 1, is accepted if and only if the double SHA-256 of
  its block header, read as a little-endian number, is at most the threshold of the difficulty; it is
  then reported to the callback and credited to the miner, otherwise answered with an error and booked
  as rejected. Below \<open>0xFFFF0000\<close> the threshold is the Stratum one, \<open>0xFFFF0000 / difficulty\<close> in the upper
  64 bits; from there on it is 255 times larger than just below, and above 1e15 every hash passes.
\<close>

theorem proxy_share_accepted_iff:
  assumes "1 \<le> px_difficulty px" "\<And>x. length (se_sha env x) = 32" "sj_valid (px_job px)"
    and "submit_params (sj_version (px_job px)) line = (sj_job_id (px_job px), ntime, nonce, version)"
  shows "\<exists>px' m'. handle_submit env fd ip i line (px, m) = Ok (px', m') \<and>
    px_total_shares px' = px_total_shares px + 1 \<and>
    (if be_val (rev (se_sha env (se_sha env (build_header (Some (px_job px)) nonce ntime version))))
          \<le> share_threshold (px_difficulty px)
     then px_total_accepted px' = px_total_accepted px + 1 \<and> px_total_rejected px' = px_total_rejected px \<and>
       m' = mining_update_hashrate (se_now env) ip True m \<and>
       (px_has_cb px \<longrightarrow> px_shares px' = px_shares px @ [(ip, sj_job_id (px_job px), nonce, ntime, version)])
     else px_total_accepted px' = px_total_accepted px \<and> px_total_rejected px' = px_total_rejected px + 1 \<and>
       m' = mining_update_hashrate (se_now env) ip False m \<and> px_shares px' = px_shares px)"
proof -
  obtain t where t: "build_target_from_difficulty (px_difficulty px) = Ok t" "length t = 32"
    "be_val t = share_threshold (px_difficulty px)" using target_value[OF assms(1)] .
  have "check_pow (se_sha env) h t 32 \<longleftrightarrow> be_val (rev (se_sha env (se_sha env h))) \<le> share_threshold (px_difficulty px)" for h
    using assms(2) t by (simp add: check_pow_def not_above_iff)
  then show ?thesis
    using assms(3,4) t(1) by (simp add: handle_submit_def Let_def send_response_def px_send_def)
qed

lemma line_params_from:
  "line_params line = (case from_strstr line ''\"params\"'' of
     None \<Rightarrow> None | Some r \<Rightarrow> (case dropWhile (\<lambda>d. d \<noteq> CHR ''['') r of [] \<Rightarrow> None | _ # q \<Rightarrow> Some q))"
  unfolding from_strstr[symmetric] line_params_def c_strchr_drop[symmetric] by (simp split: option.split)

lemma c_tokens_cons:
  assumes "t \<noteq> []" "d \<notin> set t"
  shows "c_tokens d (t @ d # s) = t # c_tokens d s" "c_tokens d t = [t]"
proof -
  have dw: "dropWhile (\<lambda>c. c = d) (t @ r) = t @ r" for r using assms by (cases t) auto
  have "c_tokens d (d # s) = c_tokens d s" by (subst (1 2) c_tokens.simps) simp
  moreover have "takeWhile (\<lambda>c. c \<noteq> d) (t @ d # s) = t" "dropWhile (\<lambda>c. c \<noteq> d) (t @ d # s) = d # s"
    using assms by (auto simp: takeWhile_append dropWhile_append)
  ultimately show "c_tokens d (t @ d # s) = t # c_tokens d s"
    using dw[of "d # s"] assms by (subst c_tokens.simps) simp
  have "takeWhile (\<lambda>c. c \<noteq> d) t = t" "dropWhile (\<lambda>c. c \<noteq> d) t = []" using assms by auto
  moreover have "c_tokens d [] = []" by (subst c_tokens.simps) simp
  ultimately show "c_tokens d t = [t]"
    using dw[of "[]"] assms by (subst c_tokens.simps) (simp only: Let_def append_Nil2 if_False)
qed

text \<open>A submit line as the pool client of the firmware writes it, without its line end.\<close>

definition submit_text :: "u32 \<Rightarrow> string \<Rightarrow> u32 \<Rightarrow> string \<Rightarrow> u32 \<Rightarrow> u32 \<Rightarrow> string" where
  "submit_text req_id user job_id en2 ntime nonce =
     ''{\"id\":'' @ dec_of_nat (unat req_id) @ '',\"method\":\"mining.submit\",\"params\":[\"'' @ user @ ''\",\"''
     @ dec_of_nat (unat job_id) @ ''\",\"'' @ en2 @ ''\",\"'' @ hex8 ntime @ ''\",\"'' @ hex8 nonce @ ''\"]}''"

lemma trim_token_hex:
  assumes "s \<noteq> []" "\<forall>c \<in> set s. hex_val c \<noteq> None"
  shows "trim_token (CHR 0x22 # s @ [CHR 0x22]) = s" "trim_token (CHR 0x22 # s @ ''\"]}'') = s @ ''\"]}''"
proof -
  obtain a as where s: "s = a # as" using assms(1) by (cases s) auto
  have a: "\<not> blank_or_quote a" using assms(2) s hex_char_props(7) by auto
  have "dropWhile (\<lambda>x. blank_or_quote x \<or> x = CHR '']'') (rev as) = rev as"
  proof (cases "rev as")
    case (Cons b bs)
    then have "b \<in> set s" using s by (metis list.set_intros(1) list.set_intros(2) set_rev)
    then show ?thesis using Cons assms(2) hex_char_props(7,8)[of b] by simp
  qed simp
  then show "trim_token (CHR 0x22 # s @ [CHR 0x22]) = s" "trim_token (CHR 0x22 # s @ ''\"]}'') = s @ ''\"]}''"
    using a by (simp_all add: trim_token_def s blank_or_quote_def)
qed

lemma line_method_from:
  "line_method line = (case from_strstr line ''\"method\"'' of
     None \<Rightarrow> None
   | Some r \<Rightarrow> (case from_strstr r ''\":\"'' of
       None \<Rightarrow> None | Some q \<Rightarrow> Some (take 63 (takeWhile (\<lambda>c. c \<noteq> CHR 0x22) (drop 3 q)))))"
  unfolding from_strstr[symmetric] line_method_def
  by (simp add: ac_simps split: option.split)

lemma submit_text_method: "line_method (submit_text req_id user job_id en2 ntime nonce) = Some ''mining.submit''"
  unfolding line_method_from by (simp add: submit_text_def from_strstr_dec starts_with_def)

lemma submit_text_params:
  "line_params (submit_text req_id user job_id en2 ntime nonce) = Some (''\"'' @ user @ ''\",\"''
     @ dec_of_nat (unat job_id) @ ''\",\"'' @ en2 @ ''\",\"'' @ hex8 ntime @ ''\",\"'' @ hex8 nonce @ ''\"]}'')"
  unfolding line_params_from by (simp add: submit_text_def from_strstr_dec starts_with_def)

lemma submit_text_tokens:
  assumes "CHR '','' \<notin> set user" "\<forall>c \<in> set en2. hex_val c \<noteq> None"
  shows "c_tokens CHR '','' (''\"'' @ user @ ''\",\"'' @ dec_of_nat (unat job_id) @ ''\",\"'' @ en2 @ ''\",\"''
      @ hex8 ntime @ ''\",\"'' @ hex8 nonce @ ''\"]}'') =
    [''\"'' @ user @ ''\"'', ''\"'' @ dec_of_nat (unat job_id) @ ''\"'', ''\"'' @ en2 @ ''\"'', ''\"'' @ hex8 ntime @ ''\"'',
     ''\"'' @ hex8 nonce @ ''\"]}'']"
proof -
  have q: "CHR '','' \<notin> set (''\"'' @ s @ ''\"'')" if "\<forall>c \<in> set s. hex_val c \<noteq> None" for s
    using that hex_char_props(6) by auto
  have h: "\<forall>c \<in> set (hex8 v). hex_val c \<noteq> None" for v using hex_of_bytes_hex by (auto simp: hex8_def)
  have d: "\<forall>c \<in> set (dec_of_nat n). hex_val c \<noteq> None" for n using dec_chars by blast
  have t: "c_tokens CHR '','' ((''\"'' @ s @ ''\"'') @ CHR '','' # r) = (''\"'' @ s @ ''\"'') # c_tokens CHR '','' r"
    if "CHR '','' \<notin> set (''\"'' @ s @ ''\"'')" for s r using that by (intro c_tokens_cons(1)) auto
  have "CHR '','' \<notin> set (''\"'' @ hex8 nonce @ ''\"]}'')" using h[of nonce] hex_char_props(6) by auto
  then have e: "c_tokens CHR '','' (''\"'' @ hex8 nonce @ ''\"]}'') = [''\"'' @ hex8 nonce @ ''\"]}'']"
    by (intro c_tokens_cons(2)) auto
  show ?thesis
    using t[of user] t[OF q[OF d]] t[OF q[OF assms(2)]] t[OF q[OF h]] e assms(1) by simp
qed

text \<open>A text that can stand between quotes in one line.\<close>

definition plain_text :: "string \<Rightarrow> bool" where
  "plain_text s \<longleftrightarrow> (\<forall>c \<in> set s. c \<notin> {CHR 0x00, CHR 0x0A, CHR 0x0D, CHR '',''})"

lemma cut_lines_line:
  "\<forall>c \<in> set s. c \<noteq> CHR 0x0A \<and> c \<noteq> CHR 0x0D \<Longrightarrow> cut_lines acc (s @ [CHR 0x0A]) = [acc @ s, []]"
  by (induction s arbitrary: acc) auto

definition one_line :: "string \<Rightarrow> bool" where
  "one_line s \<longleftrightarrow> (\<forall>c \<in> set s. c \<notin> {CHR 0x00, CHR 0x0A, CHR 0x0D})"

lemma one_line_simps:
  "one_line []" "one_line (s @ t) \<longleftrightarrow> one_line s \<and> one_line t"
  "one_line (c # s) \<longleftrightarrow> c \<noteq> CHR 0x00 \<and> c \<noteq> CHR 0x0A \<and> c \<noteq> CHR 0x0D \<and> one_line s"
  by (auto simp: one_line_def)

lemma one_line_hex: "\<forall>c \<in> set s. hex_val c \<noteq> None \<Longrightarrow> one_line s"
  unfolding one_line_def by (intro ballI, drule (1) bspec) (simp add: hex_char_props(9-11))

lemma block_lines_line:
  assumes "one_line s" "s \<noteq> []"
  shows "block_lines (s @ [CHR 0x0A]) = [s]"
proof -
  have "c_str s = s"
    unfolding c_str_def using assms(1) by (intro takeWhile_eq_all_conv[THEN iffD2]) (auto simp: one_line_def)
  moreover have "c_str [] = []" by (simp add: c_str_def)
  ultimately show ?thesis using cut_lines_line[of s "[]"] assms by (simp add: block_lines_def one_line_def)
qed

lemma hex8_chars: "\<forall>c \<in> set (hex8 v). hex_val c \<noteq> None" "hex8 v \<noteq> []"
  using hex_of_bytes_hex length_hex_of_bytes[of "be32 v"] by (auto simp: hex8_def simp del: length_hex_of_bytes)

lemma submit_params_text:
  assumes "CHR '','' \<notin> set user" "en2 \<noteq> []" "\<forall>c \<in> set en2. hex_val c \<noteq> None"
  shows "submit_params version0 (submit_text req_id user job_id en2 ntime nonce) = (job_id, c_strtoul 16 en2, ntime, nonce)"
proof -
  have d: "\<forall>c \<in> set (dec_of_nat n). hex_val c \<noteq> None" for n using dec_chars by blast
  note tk = submit_text_tokens[OF assms(1,3), of job_id ntime nonce]
  show ?thesis
    using trim_token_hex[OF dec_of_nat_nonempty d] trim_token_hex[OF assms(2,3)] trim_token_hex[OF hex8_chars(2,1)]
      strtoul_hex8[of "[]"] strtoul_hex8[of "''\"]}''" nonce]
    unfolding submit_params_def submit_text_params option.case tk Let_def by (simp add: strtoul_dec)
qed

text \<open>
  The proxy misreads standard submits: the line that the firmware's own pool client writes for a
  share (user, job, second extranonce, time, nonce, the order of Stratum V1) reaches the submit handler
  of another gate's proxy with the right job, but the extranonce is taken for the time, the time for
  the nonce and the nonce for the version, so the header that is hashed is not the miner's.
\<close>

theorem stratum_submit_shifted:
  assumes "plain_text user" "en2 \<noteq> []" "\<forall>c \<in> set en2. hex_val c \<noteq> None"
  shows "\<exists>line. block_lines (stratum_build_submit req_id user job_id en2 ntime nonce) = [line] \<and>
    line_method line = Some ''mining.submit'' \<and>
    submit_params version0 line = (job_id, c_strtoul 16 en2, ntime, nonce)"
proof -
  let ?l = "submit_text req_id user job_id en2 ntime nonce"
  have d: "\<forall>c \<in> set (dec_of_nat n). hex_val c \<noteq> None" for n using dec_chars by blast
  have "one_line user" "CHR '','' \<notin> set user" using assms(1) by (auto simp: plain_text_def one_line_def)
  then have "one_line ?l"
    unfolding submit_text_def using one_line_hex[OF d] one_line_hex[OF hex8_chars(1)] one_line_hex[OF assms(3)]
    by (simp add: one_line_simps)
  then have "block_lines (?l @ [CHR 0x0A]) = [?l]" by (rule block_lines_line) (simp add: submit_text_def)
  moreover have "stratum_build_submit req_id user job_id en2 ntime nonce = ?l @ [CHR 0x0A]"
    by (simp add: stratum_build_submit_def submit_text_def)
  ultimately show ?thesis
    using submit_text_method submit_params_text[OF \<open>CHR '','' \<notin> set user\<close> assms(2,3)] by metis
qed

theorem stratum_submit_shifted_witness:
  "\<exists>line. block_lines (stratum_build_submit 7 ''u'' 5 ''0a'' 11 12) = [line] \<and>
    line_method line = Some ''mining.submit'' \<and> submit_params 9 line = (5, c_strtoul 16 ''0a'', 11, 12)"
  by (rule stratum_submit_shifted) (simp_all add: plain_text_def hex_val_def)

text \<open>The instance: a job of difficulty 1 and a hash function that is always zero.\<close>

definition demo_proxy :: stratum_proxy where
  "demo_proxy = proxy_boot\<lparr>px_job := zero_job\<lparr>sj_valid := True, sj_job_id := 5, sj_version := 9\<rparr>, px_has_cb := True\<rparr>"

definition demo_line :: string where
  "demo_line = submit_text 7 ''u'' 5 ''0a'' 11 12"

lemma demo_submit_params: "submit_params version0 demo_line = (5, c_strtoul 16 ''0a'', 11, 12)"
  unfolding demo_line_def by (rule submit_params_text) (simp_all add: hex_val_def)

theorem proxy_share_accepted_iff_witness:
  "\<exists>px' m'. handle_submit \<lparr>se_sha = \<lambda>x. replicate 32 0, se_now = 1\<rparr> 3 42 7 demo_line (demo_proxy, mining_init) = Ok (px', m') \<and>
     px_total_accepted px' = 1 \<and> px_shares px' = [(42, 5, 11, c_strtoul 16 ''0a'', 12)]"
  using proxy_share_accepted_iff[of demo_proxy "\<lparr>se_sha = \<lambda>x. replicate 32 0, se_now = 1\<rparr>" demo_line
      "c_strtoul 16 ''0a''" 11 12 3 42 7 mining_init]
  by (auto simp: demo_proxy_def proxy_boot_def demo_submit_params)

section \<open>Accounting of connections\<close>

text \<open>What handling a line never changes, and the balance of the counters.\<close>

definition line_keeps :: "stratum_proxy \<Rightarrow> stratum_proxy \<Rightarrow> bool" where
  "line_keeps px px' \<longleftrightarrow> map mi_fd (px_miners px') = map mi_fd (px_miners px) \<and>
     px_active_miners px' = px_active_miners px \<and> px_job px' = px_job px \<and> px_difficulty px' = px_difficulty px \<and>
     px_total_shares px' - px_total_accepted px' - px_total_rejected px' =
       px_total_shares px - px_total_accepted px - px_total_rejected px"

lemma line_keeps_refl [simp]: "line_keeps px px"
  by (simp add: line_keeps_def)

lemma line_keeps_trans: "line_keeps px px1 \<Longrightarrow> line_keeps px1 px2 \<Longrightarrow> line_keeps px px2"
  by (simp add: line_keeps_def)

lemma line_keeps_send [simp]: "line_keeps px (px_send fd msg px') \<longleftrightarrow> line_keeps px px'"
  "line_keeps px (send_response fd i r e px') \<longleftrightarrow> line_keeps px px'"
  by (simp_all add: line_keeps_def px_send_def send_response_def)

lemma handle_submit_keeps:
  assumes "handle_submit env fd ip i line (px, m) = Ok (px', m')"
  shows "line_keeps px px'"
proof -
  let ?px = "px\<lparr>px_total_shares := px_total_shares px + 1\<rparr>"
  have r: "line_keeps px (?px\<lparr>px_total_rejected := px_total_rejected px + 1\<rparr>)"
    and a: "line_keeps px (?px\<lparr>px_total_accepted := px_total_accepted px + 1\<rparr>)"
    and c: "line_keeps px (p\<lparr>px_shares := x\<rparr>) \<longleftrightarrow> line_keeps px p" for p x
    by (simp_all add: line_keeps_def)
  show ?thesis
    using assms r a
    by (auto simp: handle_submit_def Let_def cbind_Ok_iff c split: if_splits prod.splits)
qed

lemma handle_line_keeps:
  assumes "handle_line env fd idx line (px, m) = Ok (px', m')"
  shows "line_keeps px px'"
proof -
  have auth: "line_keeps px (px\<lparr>px_miners := (px_miners px)[idx := x]\<rparr>)" if "mi_fd x = mi_fd (px_miners px ! idx)" for x
    using that by (cases "idx < length (px_miners px)") (auto simp: line_keeps_def nth_list_update intro!: nth_equalityI)
  show ?thesis
    using assms handle_submit_keeps[of env fd _ "line_id line" line px m px' m']
    by (auto simp: handle_line_def handle_subscribe_def handle_set_difficulty_def Let_def
      split: if_splits option.splits intro!: auth)
qed

lemma handle_lines_keeps: "handle_lines env fd idx ls (px, m) = Ok (px', m') \<Longrightarrow> line_keeps px px'"
proof (induction ls arbitrary: px m)
  case (Cons l ls)
  then obtain px1 m1 where "handle_line env fd idx l (px, m) = Ok (px1, m1)" "handle_lines env fd idx ls (px1, m1) = Ok (px', m')"
    by (auto simp: cbind_Ok_iff)
  then show ?case using Cons.IH handle_line_keeps line_keeps_trans by blast
qed simp

text \<open>
  The proxy keeps its books: a connection with a fresh descriptor, whatever its miner sends, ends
  with the table of descriptors and the number of active miners as before, the job and the difficulty
  untouched, and with as many shares counted as were accepted or rejected.
\<close>

theorem proxy_connection_accounting:
  assumes "serve_connection env fd ip blocks (px, m) = Ok (px', m')" "0 \<le> fd"
    and "\<forall>x \<in> set (px_miners px). mi_fd x < 0 \<longrightarrow> mi_fd x = -1" "\<forall>x \<in> set (px_miners px). mi_fd x \<noteq> fd"
    and "px_total_shares px = px_total_accepted px + px_total_rejected px"
  shows "map mi_fd (px_miners px') = map mi_fd (px_miners px) \<and> px_active_miners px' = px_active_miners px \<and>
    px_job px' = px_job px \<and> px_difficulty px' = px_difficulty px \<and>
    px_total_shares px' = px_total_accepted px' + px_total_rejected px'"
proof (cases "first_idx (\<lambda>x. mi_fd x < 0) (px_miners px)")
  case None
  then show ?thesis using assms(1,5) by (simp add: serve_connection_def register_miner_def)
next
  case (Some i)
  note i = first_idx_SomeD[OF Some]
  let ?ms = "(px_miners px)[i := \<lparr>mi_fd = fd, mi_ip = ip, mi_worker = [], mi_authorized = False\<rparr>]"
  let ?px = "px\<lparr>px_miners := ?ms, px_active_miners := px_active_miners px + 1\<rparr>"
  obtain px1 where l: "handle_lines env fd i (concat (map block_lines blocks)) (?px, m) = Ok (px1, m')"
    and px': "px' = unregister_miner fd px1"
    using assms(1) Some by (auto simp: serve_connection_def register_miner_def cbind_Ok_iff)
  have h: "line_keeps ?px px1" using l by (rule handle_lines_keeps)
  have fds: "map mi_fd (px_miners px1) = (map mi_fd (px_miners px))[i := fd]"
    using h by (simp add: line_keeps_def map_update)
  then have len: "length (px_miners px1) = length (px_miners px)" by (metis length_list_update length_map)
  have "find_miner fd px1 = first_idx (\<lambda>d. d = fd) (map mi_fd (px_miners px1))"
    by (simp add: find_miner_def first_idx_cong_map comp_def)
  also have "\<dots> = Some i"
    unfolding fds first_idx_Some_iff using i assms(4) by (auto simp: nth_list_update)
  finally have "px' = px1\<lparr>px_miners := (px_miners px1)[i := (px_miners px1 ! i)\<lparr>mi_fd := -1, mi_authorized := False\<rparr>],
      px_active_miners := px_active_miners px1 - 1\<rparr>" by (simp add: px' unregister_miner_def)
  moreover have "mi_fd (px_miners px ! i) = -1" using assms(3) i by auto
  then have "(map mi_fd (px_miners px))[i := fd, i := -1] = map mi_fd (px_miners px)"
    using i by (auto intro!: nth_equalityI simp: nth_list_update)
  ultimately show ?thesis using h fds assms(5) by (auto simp: line_keeps_def map_update algebra_simps)
qed

theorem proxy_connection_accounting_witness:
  "\<exists>px' m'. serve_connection \<lparr>se_sha = \<lambda>x. replicate 32 0, se_now = 1\<rparr> 3 42 [''x''] (snd (proxy_init 3333 True proxy_boot), mining_init)
      = Ok (px', m') \<and> px_active_miners px' = 0"
proof -
  let ?px = "snd (proxy_init 3333 True proxy_boot)"
  obtain px' m' where r: "serve_connection \<lparr>se_sha = \<lambda>x. replicate 32 0, se_now = 1\<rparr> 3 42 [''x''] (?px, mining_init) = Ok (px', m')"
    by (simp add: serve_connection_def register_miner_def proxy_init_def proxy_boot_def Let_def PROXY_MAX_MINERS_def
      numeral_eq_Suc block_lines_def c_str_def handle_line_def line_method_def starts_with_def)
  have "px_active_miners px' = 0"
    using proxy_connection_accounting[OF r] by (simp add: proxy_init_def proxy_boot_def Let_def)
  with r show ?thesis by blast
qed

section \<open>Jobs travel through gates\<close>

lemma strtoul_two: "c_strtoul 16 [hex_digit (unat b div 16), hex_digit (unat b mod 16)] = of_nat (unat (b :: u8))"
proof -
  have "hex_of_bytes [b] = [hex_digit (unat b div 16), hex_digit (unat b mod 16)]" by (simp add: hex_of_bytes_def hex2_def)
  then have "number_prefix 16 [hex_digit (unat b div 16), hex_digit (unat b mod 16)] = (False, unat b)"
    using number_prefix_hex[of "hex_of_bytes [b]" "[]"] hex_of_bytes_hex[of _ "[b]"] digits_value_hex[of "[b]"] by simp
  then show ?thesis using unat_u8_lt[of b] by (simp add: c_strtoul_def)
qed

lemma hex_bytes_roundtrip: "length out = length bs \<Longrightarrow> stratum_hex_to_bytes (hex_of_bytes bs) out = bs"
proof (induction bs arbitrary: out)
  case (Cons b bs)
  then obtain x xs where "out = x # xs" "length xs = length bs" by (cases out) auto
  moreover have "ucast (ucast b :: u32) = b" by (rule bit_eqI) (auto simp: bit_simps)
  ultimately show ?case using Cons.IH[of xs] by (simp add: hex_of_bytes_def hex2_def strtoul_two)
qed (simp add: hex_of_bytes_def)

text \<open>The parameters of \<open>notify_text\<close> as cJSON reads them.\<close>

definition notify_params :: "stratum_job \<Rightarrow> json" where
  "notify_params job = JArr [JStr (dec_of_nat (unat (sj_job_id job))), JStr (hex_of_bytes (sj_prevhash job)), JStr [], JStr [],
     JStr [], JStr (hex8 (sj_version job)), JStr (hex8 (sj_nbits job)), JStr (hex8 (sj_ntime job)), JBool (sj_clean job)]"

text \<open>
  A job that a proxy announces is read back by the pool client of a gate behind it: from the
  parameters of the announcement the client gets the same id (below 2^31), previous hash, version,
  bits and time; the merkle root of the job is lost, it becomes zero.
\<close>

theorem stratum_job_roundtrip:
  assumes "unat (sj_job_id job) < 2 ^ 31" "length (sj_prevhash job) = 32"
  shows "\<exists>job'. stratum_parse_notify (Some (notify_params job)) = Ok (job', sj_nbits job) \<and> sj_valid job' \<and>
    sj_job_id job' = sj_job_id job \<and> sj_prevhash job' = sj_prevhash job \<and> sj_version job' = sj_version job \<and>
    sj_nbits job' = sj_nbits job \<and> sj_ntime job' = sj_ntime job \<and> sj_merkle_root job' = replicate 32 0"
proof -
  have "c_atoi (dec_of_nat (unat (sj_job_id job))) = int (unat (sj_job_id job))"
    using assms(1) number_prefix_dec[of "[]" "unat (sj_job_id job)"] by (simp add: c_atoi_def clamp_signed_def)
  moreover have "c_strtoul 16 (hex8 v) = v" for v using strtoul_hex8[of "[]" v] by simp
  ultimately show ?thesis using assms(2) hex_bytes_roundtrip[of "replicate 32 0" "sj_prevhash job"]
    by (simp add: stratum_parse_notify_def notify_params_def json_arr_def json_str_def arr_item_def hex_item_def Let_def
      zero_job_def)
qed

theorem stratum_job_roundtrip_witness:
  "\<exists>job'. stratum_parse_notify (Some (notify_params (zero_job\<lparr>sj_job_id := 5, sj_nbits := 7\<rparr>))) = Ok (job', 7) \<and> sj_job_id job' = 5"
  using stratum_job_roundtrip[of "zero_job\<lparr>sj_job_id := 5, sj_nbits := 7\<rparr>"] by (auto simp: zero_job_def)

end
