(* ===== verification/TG_MintHealth.thy ===== *)
theory TG_MintHealth
  imports TG_CString
begin

text \<open>
  Mint health (\<^verbatim>\<open>tollgate_core_mint_health.c\<close> and \<^verbatim>\<open>main/mint_health.c\<close>): up to eight mints, each
  with a reachable flag that drops with the first failed probe and returns after three successful
  ones. The HTTP exchange of a probe and the outcome of taking the mutex are parameters; the
  registered callbacks are counted, as is how often they were fired.
\<close>

section \<open>Data\<close>

record mint_status =
  ms_url :: string
  ms_reachable :: bool
  ms_successes :: u8
  ms_last_probe_ms :: i64
  ms_last_http_status :: int
  ms_last_err :: int

record mint_health =
  mh_mints :: "mint_status list"
  mh_count :: nat

record mint_monitor =
  mm_health :: mint_health
  mm_callback_count :: nat
  mm_fired :: nat
  mm_last_probe_err :: int

definition MINT_HEALTH_MAX :: nat where
  "MINT_HEALTH_MAX = 8"

definition MINT_HEALTH_RECOVERY_THRESHOLD :: u8 where
  "MINT_HEALTH_RECOVERY_THRESHOLD = 3"

section \<open>Updates\<close>

definition mh_record :: "bool \<Rightarrow> int \<Rightarrow> int \<Rightarrow> i64 \<Rightarrow> mint_status \<Rightarrow> mint_status" where
  "mh_record ok http_status err_code t m =
     m\<lparr>ms_last_probe_ms := t, ms_last_http_status := (if ok then http_status else 0),
       ms_last_err := (if ok then 0 else err_code)\<rparr>"

definition mh_apply :: "bool \<Rightarrow> int \<Rightarrow> int \<Rightarrow> i64 \<Rightarrow> mint_status \<Rightarrow> mint_status" where
  "mh_apply ok http_status err_code t m0 =
     (let m = mh_record ok http_status err_code t m0 in
      if ok then
        (let n = ms_successes m + 1 in
         m\<lparr>ms_successes := n,
           ms_reachable := (if MINT_HEALTH_RECOVERY_THRESHOLD \<le> n then True else ms_reachable m)\<rparr>)
      else m\<lparr>ms_reachable := False, ms_successes := 0\<rparr>)"

definition mh_apply_initial :: "bool \<Rightarrow> int \<Rightarrow> int \<Rightarrow> i64 \<Rightarrow> mint_status \<Rightarrow> mint_status" where
  "mh_apply_initial ok http_status err_code t m0 =
     (let m = mh_record ok http_status err_code t m0 in
      if ok then m\<lparr>ms_successes := MINT_HEALTH_RECOVERY_THRESHOLD, ms_reachable := True\<rparr>
      else m\<lparr>ms_successes := 0, ms_reachable := False\<rparr>)"

definition mh_at :: "(mint_status \<Rightarrow> mint_status) \<Rightarrow> int \<Rightarrow> mint_health \<Rightarrow> mint_health" where
  "mh_at f i h =
     (if i < 0 \<or> int (mh_count h) \<le> i then h
      else h\<lparr>mh_mints := (mh_mints h)[nat i := f (mh_mints h ! nat i)]\<rparr>)"

definition mint_health_update :: "int \<Rightarrow> bool \<Rightarrow> int \<Rightarrow> int \<Rightarrow> i64 \<Rightarrow> mint_health \<Rightarrow> mint_health" where
  "mint_health_update i ok http_status err_code t h = mh_at (mh_apply ok http_status err_code t) i h"

definition mint_health_update_initial :: "int \<Rightarrow> bool \<Rightarrow> int \<Rightarrow> int \<Rightarrow> i64 \<Rightarrow> mint_health \<Rightarrow> mint_health" where
  "mint_health_update_initial i ok http_status err_code t h = mh_at (mh_apply_initial ok http_status err_code t) i h"

definition mh_matches :: "string \<Rightarrow> mint_status \<Rightarrow> bool" where
  "mh_matches url m \<longleftrightarrow> ms_url m = url \<or> c_strstr url (ms_url m) \<noteq> None"

definition mh_find :: "mint_health \<Rightarrow> string \<Rightarrow> nat option" where
  "mh_find h url = first_idx (mh_matches url) (take (mh_count h) (mh_mints h))"

definition mint_health_is_reachable :: "mint_health \<Rightarrow> string \<Rightarrow> bool" where
  "mint_health_is_reachable h url =
     (case mh_find h url of Some i \<Rightarrow> ms_reachable (mh_mints h ! i) | None \<Rightarrow> False)"

definition mint_health_mark_unreachable :: "string \<Rightarrow> mint_health \<Rightarrow> mint_health" where
  "mint_health_mark_unreachable url h =
     (case mh_find h url of
        Some i \<Rightarrow>
          if ms_reachable (mh_mints h ! i)
          then h\<lparr>mh_mints := (mh_mints h)[i := (mh_mints h ! i)\<lparr>ms_reachable := False, ms_successes := 0\<rparr>]\<rparr>
          else h
      | None \<Rightarrow> h)"

definition mint_health_count_reachable :: "mint_health \<Rightarrow> nat" where
  "mint_health_count_reachable h = count_if ms_reachable (take (mh_count h) (mh_mints h))"

section \<open>The probing task\<close>

datatype probe_result = No_Client | Open_Failed int | Got_Status int

definition zero_mint :: mint_status where
  "zero_mint = \<lparr>ms_url = [], ms_reachable = False, ms_successes = 0, ms_last_probe_ms = 0,
     ms_last_http_status = 0, ms_last_err = 0\<rparr>"

definition monitor_init :: "string list \<Rightarrow> mint_monitor \<Rightarrow> mint_monitor" where
  "monitor_init urls mm =
     (let us = take MINT_HEALTH_MAX urls in
      mm\<lparr>mm_health := \<lparr>mh_mints = map (\<lambda>u. zero_mint\<lparr>ms_url := c_strncpy 256 u\<rparr>) us
                          @ replicate (MINT_HEALTH_MAX - length us) zero_mint,
                       mh_count = length us\<rparr>,
         mm_callback_count := 0\<rparr>)"

text \<open>\<open>probe_mint\<close>: success and the value left in \<open>s_last_probe_err\<close>.\<close>

definition probe_mint :: "(string \<Rightarrow> probe_result) \<Rightarrow> string \<Rightarrow> bool \<times> int" where
  "probe_mint http url =
     (case http (take 511 (url @ ''/v1/info'')) of
        No_Client \<Rightarrow> (False, -1)
      | Open_Failed e \<Rightarrow> (False, e)
      | Got_Status s \<Rightarrow> (200 \<le> s \<and> s < 300, 0))"

definition fire_callbacks :: "mint_monitor \<Rightarrow> mint_monitor" where
  "fire_callbacks mm = mm\<lparr>mm_fired := mm_fired mm + 1\<rparr>"

definition probe_with :: "(int \<Rightarrow> bool \<Rightarrow> int \<Rightarrow> int \<Rightarrow> i64 \<Rightarrow> mint_health \<Rightarrow> mint_health) \<Rightarrow>
    (string \<Rightarrow> probe_result) \<Rightarrow> i64 \<Rightarrow> nat \<Rightarrow> mint_monitor \<Rightarrow> mint_monitor" where
  "probe_with update http now i mm =
     (case probe_mint http (ms_url (mh_mints (mm_health mm) ! i)) of
        (ok, e) \<Rightarrow> mm\<lparr>mm_last_probe_err := e,
          mm_health := update (int i) ok (if ok then 200 else 0) (if ok then 0 else e) now (mm_health mm)\<rparr>)"

definition run_probes :: "(string \<Rightarrow> probe_result) \<Rightarrow> i64 \<Rightarrow> bool \<Rightarrow> mint_monitor \<Rightarrow> mint_monitor" where
  "run_probes http now locked mm =
     (if \<not> locked then mm
      else
        (let old_reachable = mint_health_count_reachable (mm_health mm);
             mm1 = fold (probe_with mint_health_update http now) [0..<mh_count (mm_health mm)] mm;
             new_reachable = mint_health_count_reachable (mm_health mm1)
         in if old_reachable \<noteq> new_reachable then fire_callbacks mm1 else mm1))"

definition run_initial_probes :: "(string \<Rightarrow> probe_result) \<Rightarrow> i64 \<Rightarrow> bool \<Rightarrow> mint_monitor \<Rightarrow> mint_monitor" where
  "run_initial_probes http now locked mm =
     (if \<not> locked then mm
      else fire_callbacks
        (fold (probe_with mint_health_update_initial http now) [0..<mh_count (mm_health mm)] mm))"

definition monitor_is_reachable :: "bool \<Rightarrow> mint_monitor \<Rightarrow> string \<Rightarrow> bool" where
  "monitor_is_reachable locked mm url = (locked \<and> mint_health_is_reachable (mm_health mm) url)"

definition monitor_mark_unreachable :: "bool \<Rightarrow> string \<Rightarrow> mint_monitor \<Rightarrow> mint_monitor" where
  "monitor_mark_unreachable locked url mm =
     (if locked then mm\<lparr>mm_health := mint_health_mark_unreachable url (mm_health mm)\<rparr> else mm)"

definition monitor_register_callback :: "bool \<Rightarrow> mint_monitor \<Rightarrow> mint_monitor" where
  "monitor_register_callback cb mm =
     (if mm_callback_count mm < 4 \<and> cb then mm\<lparr>mm_callback_count := mm_callback_count mm + 1\<rparr> else mm)"

section \<open>Recovery needs three successes\<close>

lemma mh_at_simps:
  assumes "i < mh_count h" "mh_count h \<le> length (mh_mints h)"
  shows "mh_mints (mh_at f (int i) h) ! i = f (mh_mints h ! i)" "mh_count (mh_at f (int i) h) = mh_count h"
    "length (mh_mints (mh_at f (int i) h)) = length (mh_mints h)"
    "j \<noteq> i \<Longrightarrow> mh_mints (mh_at f (int i) h) ! j = mh_mints h ! j"
  using assms by (simp_all add: mh_at_def)

lemma successes_fold:
  assumes "\<not> ms_reachable m" "ms_successes m = 0"
  shows "ms_reachable (fold (\<lambda>t. mh_apply True 200 0 t) ts m) = (3 \<le> length ts) \<and>
    (length ts < 256 \<longrightarrow> unat (ms_successes (fold (\<lambda>t. mh_apply True 200 0 t) ts m)) = length ts)"
proof (induction ts rule: rev_induct)
  case Nil
  then show ?case using assms by simp
next
  case (snoc t ts)
  let ?m = "fold (\<lambda>t. mh_apply True 200 0 t) ts m"
  have r: "ms_reachable (mh_apply True 200 0 t ?m) \<longleftrightarrow> 3 \<le> ms_successes ?m + 1 \<or> ms_reachable ?m"
    "ms_successes (mh_apply True 200 0 t ?m) = ms_successes ?m + 1"
    by (simp_all add: mh_apply_def mh_record_def Let_def MINT_HEALTH_RECOVERY_THRESHOLD_def)
  show ?case
  proof (cases "length ts < 255")
    case True
    then have u: "unat (ms_successes ?m) = length ts" using snoc by simp
    then have "unat (ms_successes ?m + 1) = length ts + 1"
      using True by (simp add: unat_word_ariths)
    then have "3 \<le> ms_successes ?m + 1 \<longleftrightarrow> 3 \<le> length ts + 1"
      by (simp add: word_le_nat_alt)
    then show ?thesis using r u snoc True \<open>unat (ms_successes ?m + 1) = length ts + 1\<close> by auto
  next
    case False
    then show ?thesis using r snoc by auto
  qed
qed

lemma fold_mh_at:
  assumes "i < mh_count h" "mh_count h \<le> length (mh_mints h)"
  shows "mh_mints (fold (\<lambda>t. mint_health_update (int i) True 200 0 t) ts h) ! i
      = fold (\<lambda>t. mh_apply True 200 0 t) ts (mh_mints h ! i)"
  using assms
proof (induction ts arbitrary: h)
  case (Cons t ts)
  then show ?case by (simp add: mint_health_update_def mh_at_simps)
qed simp

text \<open>
  A mint that failed a probe is trusted again after exactly three successful probes in a row:
  after a failed update and any number of successful ones, the mint is reachable if and only if
  there were at least three (also when the 8-bit success counter has wrapped around).
\<close>

theorem mint_recovery_threshold:
  assumes "i < mh_count h" "mh_count h \<le> length (mh_mints h)"
  shows "ms_reachable (mh_mints (fold (\<lambda>t. mint_health_update (int i) True 200 0 t) ts
      (mint_health_update (int i) False st e t0 h)) ! i) \<longleftrightarrow> 3 \<le> length ts"
proof -
  let ?h = "mint_health_update (int i) False st e t0 h"
  have "\<not> ms_reachable (mh_mints ?h ! i)" "ms_successes (mh_mints ?h ! i) = 0"
    using mh_at_simps[OF assms] by (simp_all add: mint_health_update_def mh_apply_def Let_def)
  moreover have "i < mh_count ?h" "mh_count ?h \<le> length (mh_mints ?h)"
    using assms mh_at_simps[OF assms] by (simp_all add: mint_health_update_def)
  ultimately show ?thesis using successes_fold[of "mh_mints ?h ! i" ts] fold_mh_at by metis
qed

definition demo_health :: mint_health where
  "demo_health = \<lparr>mh_mints = [zero_mint\<lparr>ms_url := ''https://a'', ms_reachable := True, ms_successes := 3\<rparr>,
     zero_mint\<lparr>ms_url := ''https://b'', ms_successes := 2\<rparr>] @ replicate 6 zero_mint, mh_count = 2\<rparr>"

theorem mint_recovery_threshold_witness:
  "\<not> ms_reachable (mh_mints (fold (\<lambda>t. mint_health_update (int 0) True 200 0 t) [1, 2]
      (mint_health_update (int 0) False 0 7 0 demo_health)) ! 0)"
  using mint_recovery_threshold[of 0 demo_health "[1, 2]" 0 7 0] by (simp add: demo_health_def)

section \<open>A probing round\<close>

lemma probe_fold:
  fixes http :: "string \<Rightarrow> probe_result" and now :: i64
  assumes "n \<le> mh_count (mm_health mm)" "mh_count (mm_health mm) \<le> length (mh_mints (mm_health mm))"
  defines "mm' \<equiv> fold (probe_with mint_health_update http now) [0..<n] mm"
  shows "mh_count (mm_health mm') = mh_count (mm_health mm) \<and>
    length (mh_mints (mm_health mm')) = length (mh_mints (mm_health mm)) \<and> mm_fired mm' = mm_fired mm \<and>
    (\<forall>i < length (mh_mints (mm_health mm)). mh_mints (mm_health mm') ! i =
       (if i < n then (let m = mh_mints (mm_health mm) ! i; p = probe_mint http (ms_url m) in
          mh_apply (fst p) (if fst p then 200 else 0) (if fst p then 0 else snd p) now m)
        else mh_mints (mm_health mm) ! i))"
  using assms(1) unfolding mm'_def
proof (induction n)
  case 0
  then show ?case by simp
next
  case (Suc n)
  let ?mm = "fold (probe_with mint_health_update http now) [0..<n] mm"
  have IH: "mh_count (mm_health ?mm) = mh_count (mm_health mm)"
    "length (mh_mints (mm_health ?mm)) = length (mh_mints (mm_health mm))" "mm_fired ?mm = mm_fired mm"
    "mh_mints (mm_health ?mm) ! n = mh_mints (mm_health mm) ! n"
    using Suc assms(2) by simp_all
  obtain ok e where p: "probe_mint http (ms_url (mh_mints (mm_health mm) ! n)) = (ok, e)" by fastforce
  have n: "n < mh_count (mm_health ?mm)" "mh_count (mm_health ?mm) \<le> length (mh_mints (mm_health ?mm))"
    using Suc.prems IH assms(2) by simp_all
  have s: "fold (probe_with mint_health_update http now) [0..<Suc n] mm = ?mm\<lparr>mm_last_probe_err := e, mm_health :=
      mh_at (mh_apply ok (if ok then 200 else 0) (if ok then 0 else e) now) (int n) (mm_health ?mm)\<rparr>"
    using IH p by (simp add: probe_with_def mint_health_update_def)
  show ?case
    unfolding s using Suc IH mh_at_simps[OF n] p by (auto simp: Let_def less_Suc_eq)
qed

text \<open>
  A probing round keeps the count of changes, not the changes: after \<open>run_probes\<close> every mint
  carries the verdict of its own probe, and the callbacks are fired if and only if the number of
  reachable mints has changed. A round in which one mint fails and another recovers leaves the
  number equal, so nobody is told that the set of reachable mints is a different one.
\<close>

theorem mint_round_notifies_on_count:
  assumes "mh_count (mm_health mm) \<le> length (mh_mints (mm_health mm))"
  shows "(\<forall>i < mh_count (mm_health mm). let m = mh_mints (mm_health mm) ! i; p = probe_mint http (ms_url m) in
       mh_mints (mm_health (run_probes http now True mm)) ! i =
         mh_apply (fst p) (if fst p then 200 else 0) (if fst p then 0 else snd p) now m) \<and>
    (mm_fired (run_probes http now True mm) = mm_fired mm + 1 \<longleftrightarrow>
       mint_health_count_reachable (mm_health mm) \<noteq> mint_health_count_reachable (mm_health (run_probes http now True mm)))"
proof -
  let ?mm = "fold (probe_with mint_health_update http now) [0..<mh_count (mm_health mm)] mm"
  note f = probe_fold[OF order_refl assms, of http now]
  have r: "mm_health (run_probes http now True mm) = mm_health ?mm"
    "mm_fired (run_probes http now True mm) = (if mint_health_count_reachable (mm_health mm) \<noteq>
       mint_health_count_reachable (mm_health ?mm) then mm_fired ?mm + 1 else mm_fired ?mm)"
    by (simp_all add: run_probes_def fire_callbacks_def Let_def)
  show ?thesis using f assms by (auto simp: r Let_def)
qed

text \<open>Mint a fails while mint b succeeds for the third time: nobody is notified.\<close>

definition swap_http :: "string \<Rightarrow> probe_result" where
  "swap_http u = (if u = ''https://b/v1/info'' then Got_Status 200 else No_Client)"

theorem mint_round_notifies_on_count_witness:
  "let mm = \<lparr>mm_health = demo_health, mm_callback_count = 1, mm_fired = 0, mm_last_probe_err = 0\<rparr>;
       mm' = run_probes swap_http 9 True mm
   in map ms_reachable (take 2 (mh_mints (mm_health mm))) = [True, False] \<and>
      map ms_reachable (take 2 (mh_mints (mm_health mm'))) = [False, True] \<and> mm_fired mm' \<noteq> mm_fired mm + 1"
proof -
  let ?mm = "\<lparr>mm_health = demo_health, mm_callback_count = 1, mm_fired = 0, mm_last_probe_err = 0\<rparr>"
  let ?mm' = "run_probes swap_http 9 True ?mm"
  have l: "mh_count (mm_health ?mm) \<le> length (mh_mints (mm_health ?mm))" by (simp add: demo_health_def)
  note t = mint_round_notifies_on_count[OF l, of swap_http 9]
  have m: "map ms_reachable (take 2 (mh_mints (mm_health ?mm'))) = [False, True]" "mh_count (mm_health ?mm') = 2"
    by (simp_all add: run_probes_def demo_health_def probe_with_def probe_mint_def swap_http_def mint_health_update_def
      mh_at_def mh_apply_def mh_record_def Let_def MINT_HEALTH_RECOVERY_THRESHOLD_def fire_callbacks_def upt_rec zero_mint_def
      numeral_2_eq_2)
  have c: "count_if ms_reachable xs = count_if id (map ms_reachable xs)" for xs by (induction xs) auto
  have "mint_health_count_reachable (mm_health ?mm') = 1" "mint_health_count_reachable (mm_health ?mm) = 1"
    unfolding mint_health_count_reachable_def c using m by (simp_all add: demo_health_def zero_mint_def)
  then show ?thesis using t m(1) by (simp add: Let_def demo_health_def zero_mint_def)
qed

end
