(* ===== verification/TG_Api.thy ===== *)
theory TG_Api
  imports TG_Core TG_Portal TG_MintHealth
begin

text \<open>
  The HTTP API on port 2121 (\<^verbatim>\<open>main/tollgate_api.c\<close>) and the platform table of the firmware
  (\<^verbatim>\<open>components/tollgate_esp/src/tollgate_esp_platform.c\<close>). A handler is a function from the request
  and the state to a response and the new state; running out of memory is not modelled. A request
  body is the list of its bytes, \<open>None\<close> when receiving it fails. A JSON response is the value that
  cJSON prints.
\<close>

section \<open>Configuration, platform and responses\<close>

record api_config =
  cfg_price_per_step :: int
  cfg_step_size_ms :: int
  cfg_step_size_bytes :: int
  cfg_metric :: string
  cfg_mint_url :: string
  cfg_accepted_mints :: "string list"
  cfg_mining_enabled :: bool
  cfg_mining_port :: u16
  cfg_hashprice :: u64
  cfg_npub_hex :: string

definition esp_platform :: "i64 \<Rightarrow> api_config option \<Rightarrow> tollgate_platform" where
  "esp_platform ticks cfg = \<lparr>
     get_price_sats = Some (case cfg of Some c \<Rightarrow> of_int (cfg_price_per_step c) | None \<Rightarrow> 21),
     get_step_ms = Some (case cfg of Some c \<Rightarrow> of_int (cfg_step_size_ms c) | None \<Rightarrow> 60000),
     get_mint_url = Some (case cfg of Some c \<Rightarrow> Some (cfg_mint_url c) | None \<Rightarrow> None),
     get_metric = Some (Some (case cfg of Some c \<Rightarrow> cfg_metric c | None \<Rightarrow> ''milliseconds'')),
     get_step_bytes = Some (case cfg of Some c \<Rightarrow> of_int (cfg_step_size_bytes c) | None \<Rightarrow> 22020096),
     get_time_ms = Some ticks,
     spend_proofs = Some (\<lambda>token. True),
     get_hashprice_sats_per_ghs_day = Some (case cfg of Some c \<Rightarrow> cfg_hashprice c | None \<Rightarrow> 0),
     has_on_share_accepted = True\<rparr>"

datatype http_body = B_Json json | B_Text string

record http_resp =
  resp_status :: string
  resp_type :: string
  resp_body :: http_body

definition json_resp :: "string \<Rightarrow> json \<Rightarrow> http_resp" where
  "json_resp status j = \<lparr>resp_status = status, resp_type = ''application/json'', resp_body = B_Json j\<rparr>"

definition text_resp :: "string \<Rightarrow> string \<Rightarrow> string \<Rightarrow> http_resp" where
  "text_resp status ty s = \<lparr>resp_status = status, resp_type = ty, resp_body = B_Text s\<rparr>"

definition S200 :: string where "S200 = ''200 OK''"

definition S400 :: string where "S400 = ''400 Bad Request''"

definition S402 :: string where "S402 = ''402 Payment Required''"

definition S503 :: string where "S503 = ''503 Service Unavailable''"

definition str_tag :: "string list \<Rightarrow> json" where
  "str_tag xs = JArr (map JStr xs)"

definition create_notice :: "api_config \<Rightarrow> string \<Rightarrow> string \<Rightarrow> string \<Rightarrow> json" where
  "create_notice cfg level code content = JObj
     [(''kind'', json_int 21023), (''pubkey'', JStr (cfg_npub_hex cfg)),
      (''tags'', JArr [str_tag [''level'', level], str_tag [''code'', code]]), (''content'', JStr content)]"

text \<open>\<open>IPSTR\<close>: the address bytes in memory order.\<close>

definition ip_str :: "u32 \<Rightarrow> string" where
  "ip_str ip = (let b = rev (be32 ip) in
     dec_of_nat (unat (b ! 0)) @ ''.'' @ dec_of_nat (unat (b ! 1)) @ ''.'' @
     dec_of_nat (unat (b ! 2)) @ ''.'' @ dec_of_nat (unat (b ! 3)))"

definition metric_name :: "api_config \<Rightarrow> string" where
  "metric_name cfg = (if cfg_metric cfg = [] then ''milliseconds'' else cfg_metric cfg)"

definition create_session_event :: "api_config \<Rightarrow> u32 \<Rightarrow> u64 \<Rightarrow> json" where
  "create_session_event cfg ip allotment = JObj
     [(''kind'', json_int 1022), (''pubkey'', JStr (cfg_npub_hex cfg)),
      (''tags'', JArr [str_tag [''p'', ''unknown''], str_tag [''device-identifier'', ''mac'', ip_str ip],
         str_tag [''allotment'', dec_of_nat (unat allotment)], str_tag [''metric'', metric_name cfg]]),
      (''content'', JStr [])]"

section \<open>Discovery\<close>

definition price_tag :: "api_config \<Rightarrow> string \<Rightarrow> string \<Rightarrow> json" where
  "price_tag cfg wallet_unit url =
     str_tag [''price_per_step'', ''cashu'', dec_of_int (cfg_price_per_step cfg), wallet_unit, url, ''1'']"

definition discovery_step :: "api_config \<Rightarrow> int" where
  "discovery_step cfg = (if cfg_metric cfg = ''bytes'' then cfg_step_size_bytes cfg else cfg_step_size_ms cfg)"

definition api_get_discovery :: "api_config \<Rightarrow> string \<Rightarrow> mint_health \<Rightarrow> json" where
  "api_get_discovery cfg wallet_unit mints =
     (let reachable = filter ms_reachable (take (mh_count mints) (mh_mints mints)) in
      JObj [(''kind'', json_int 10021), (''pubkey'', JStr (cfg_npub_hex cfg)),
        (''tags'', JArr (
           [str_tag [''metric'', metric_name cfg], str_tag [''step_size'', dec_of_int (discovery_step cfg)]]
           @ map (\<lambda>m. price_tag cfg wallet_unit (ms_url m)) reachable
           @ (if reachable = [] then [price_tag cfg wallet_unit (cfg_mint_url cfg)] else [])
           @ [str_tag [''tips'', ''1'', ''2'', ''5'']]
           @ (if cfg_mining_enabled cfg
              then [str_tag [''price_per_step'', ''mining'', dec_of_nat (unat (cfg_mining_port cfg)), ''GH/s'', ''sv1'']]
              else []))),
        (''content'', JStr [])])"

section \<open>Payment\<close>

definition payment_mint :: "api_config \<Rightarrow> tg_cashu_token \<Rightarrow> string" where
  "payment_mint cfg token = (if tok_mint_url token = [] then cfg_mint_url cfg else tok_mint_url token)"

definition payment_allotment :: "api_config \<Rightarrow> tg_cashu_token \<Rightarrow> u64" where
  "payment_allotment cfg token =
     cashu_calculate_allotment (tok_total_amount token) (of_int (cfg_price_per_step cfg)) (of_int (discovery_step cfg))"

text \<open>
  The checks up to the session: an error response, or the body and the decoded token. When the mint
  cannot be asked, the code goes on without the spent check.
\<close>

definition api_check_token :: "cashu_ext \<Rightarrow> api_config \<Rightarrow> nat \<Rightarrow> string option \<Rightarrow>
    (http_resp + string \<times> tg_cashu_token) cres" where
  "api_check_token ext cfg content_len recvd =
     (if content_len = 0 \<or> 16384 < content_len
      then Ok (Inl (json_resp S400 (create_notice cfg ''error'' ''payment-error-invalid'' ''Invalid request body'')))
      else (case recvd of
          None \<Rightarrow> Ok (Inl (text_resp S400 ''text/plain'' ''bad request''))
        | Some bytes \<Rightarrow>
            (case cashu_decode_token ext (c_str bytes) of
               Undef \<Rightarrow> Undef
             | Fail \<Rightarrow> Ok (Inl (json_resp S400
                 (create_notice cfg ''error'' ''payment-error-invalid'' ''Failed to decode Cashu token'')))
             | Ok token \<Rightarrow>
                 if \<not> list_ex (cashu_is_mint_accepted (payment_mint cfg token)) (cfg_accepted_mints cfg)
                 then Ok (Inl (json_resp S402
                   (create_notice cfg ''error'' ''payment-error-mint-not-accepted'' ''Mint not accepted'')))
                 else if (case cashu_check_proof_states ext (payment_mint cfg token) token of
                            Some states \<Rightarrow> list_ex spent states | None \<Rightarrow> False)
                 then Ok (Inl (json_resp S402
                   (create_notice cfg ''error'' ''payment-error-token-spent'' ''Token already spent'')))
                 else if payment_allotment cfg token = 0
                 then Ok (Inl (json_resp S402
                   (create_notice cfg ''error'' ''payment-error-insufficient'' ''Token value too low'')))
                 else Ok (Inr (c_str bytes, token)))))"

text \<open>The response, the new state and the token handed to the wallet worker (which redeems it later).\<close>

definition api_post_payment :: "cashu_ext \<Rightarrow> op_env \<Rightarrow> api_config \<Rightarrow> u32 \<Rightarrow> nat \<Rightarrow> string option \<Rightarrow> core_state \<Rightarrow>
    (http_resp \<times> core_state \<times> string list) cres" where
  "api_post_payment ext env cfg ip content_len recvd st =
     cbind (api_check_token ext cfg content_len recvd) (\<lambda>r. case r of
         Inl resp \<Rightarrow> Ok (resp, st, [])
       | Inr (body, token) \<Rightarrow>
           (case create_metered env (cfg_metric cfg) ip (payment_allotment cfg token) (core_sess st) of
              (None, g) \<Rightarrow> Ok (json_resp S503 (create_notice cfg ''error'' ''session-error'' ''Failed to create session''),
                              st\<lparr>core_sess := g\<rparr>, [])
            | (Some i, g) \<Rightarrow> Ok (json_resp S200 (create_session_event cfg ip (payment_allotment cfg token)),
                              st\<lparr>core_sess := g\<rparr>, [body])))"

section \<open>Other handlers\<close>

definition api_get_usage :: "op_env \<Rightarrow> api_config \<Rightarrow> u32 \<Rightarrow> core_state \<Rightarrow> string cres" where
  "api_get_usage env cfg ip st =
     (case session_find_by_ip (core_sess st) ip of
        None \<Rightarrow> Ok ''-1/-1''
      | Some i \<Rightarrow>
          (let s = s_sessions (core_sess st) ! i in
           if cfg_metric cfg = ''bytes'' then
             cbind (cint64 (sint (allotment_bytes s) - sint (bytes_consumed s))) (\<lambda>r.
               Ok (take 63 (dec_of_int (if r < 0 then 0 else r) @ ''/'' @ dec_of_nat (unat (allotment_bytes s)))))
           else
             cbind (cint64 (sint (env_ticks_ms env) - sint (start_time_ms s))) (\<lambda>elapsed.
               (let r = sint (allotment_ms s - of_int elapsed) in
                Ok (take 63 (dec_of_int (if r < 0 then 0 else r) @ ''/'' @ dec_of_nat (unat (allotment_ms s))))))))"

definition api_get_whoami :: "op_env \<Rightarrow> u32 option \<Rightarrow> string" where
  "api_get_whoami env ip = take 95 (case ip of
       None \<Rightarrow> ''ip=unknown mac=unknown''
     | Some a \<Rightarrow> ''ip='' @ ip_str a @ '' mac='' @ (case env_mac_of env a of Some m \<Rightarrow> m | None \<Rightarrow> ''unknown''))"

definition hex_int :: "int \<Rightarrow> string" where
  "hex_int i = (let h = dropWhile (\<lambda>c. c = CHR ''0'') (hex8 (of_int i)) in if h = [] then ''0'' else h)"

definition api_get_mints :: "mint_health \<Rightarrow> json" where
  "api_get_mints h = JArr (map (\<lambda>m. JObj (
       [(''url'', JStr (ms_url m)), (''reachable'', JBool (ms_reachable m)),
        (''status'', json_int (ms_last_http_status m))] @
       (if ms_last_err m \<noteq> 0 then [(''last_err'', JStr (take 15 (''0x'' @ hex_int (ms_last_err m))))] else [])))
     (take (mh_count h) (mh_mints h)))"

definition upper_hex :: "char \<Rightarrow> char" where
  "upper_hex c = (let n = of_char c :: nat in if 97 \<le> n \<and> n \<le> 102 then char_of (n - 32) else c)"

definition market_entry_json :: "market_entry \<Rightarrow> json" where
  "market_entry_json e = JObj (
     [(''bssid'', JStr (map upper_hex (format_mac (me_bssid e)))),
      (''ssid'', JStr (if me_ssid e = [] then ''unknown'' else me_ssid e)),
      (''rssi'', json_int (sint (me_rssi e))), (''price_per_step'', json_int (uint (me_price_per_step e))),
      (''step_size'', json_int (uint (me_step_size e))),
      (''metric'', JStr (if me_metric e \<noteq> 0 then ''bytes'' else ''milliseconds''))] @
     (let gh = c_str (map (\<lambda>b. char_of (unat b)) (me_geohash e)) in if gh = [] then [] else [(''geohash'', JStr gh)]))"

definition api_get_market :: "int \<Rightarrow> market \<Rightarrow> json" where
  "api_get_market last_scan_ms mk = JObj
     [(''count'', json_int (int (mk_count mk))), (''last_scan_s'', json_int (c_div last_scan_ms 1000)),
      (''entries'', JArr (map market_entry_json (filter me_valid (mk_entries mk))))]"

text \<open>
  A share posted over HTTP. The body buffer has 512 bytes and the terminator is written behind the
  body, so a body of exactly 512 bytes overruns it; an accepted share of a client that finds no slot
  in the mining table dereferences a null pointer. \<open>job\<close> is the current job, if there is a valid one,
  \<open>submit\<close> what the pool says.
\<close>

definition d2u32 :: "jnumber \<Rightarrow> u32 cres" where
  "d2u32 n = (case n of
       Fin x \<Rightarrow> if 0 \<le> trunc_rat x \<and> trunc_rat x < 2 ^ 32 then Ok (of_int (trunc_rat x)) else Undef
     | _ \<Rightarrow> Undef)"

definition err_resp :: "string \<Rightarrow> nat \<Rightarrow> http_resp" where
  "err_resp what n = text_resp S400 ''application/json'' (take n (''{\"error\":\"'' @ what @ ''\"}''))"

definition credit_http_share :: "op_env \<Rightarrow> u32 \<Rightarrow> u64 \<Rightarrow> sess_state \<Rightarrow> sess_state" where
  "credit_http_share env ip allot g =
     (let fresh = (case session_create env ip allot g of
             (Some i, g1) \<Rightarrow> g1\<lparr>s_sessions := (s_sessions g1)[i := (s_sessions g1 ! i)\<lparr>payment_method := TG_PAYMENT_MINING\<rparr>]\<rparr>
           | (None, g1) \<Rightarrow> g1)
      in case session_find_by_ip g ip of
           None \<Rightarrow> fresh
         | Some i \<Rightarrow> if payment_method (s_sessions g ! i) \<noteq> TG_PAYMENT_MINING then fresh
                     else session_extend i allot g)"

definition api_post_mining_share :: "(string \<Rightarrow> json option) \<Rightarrow> (u32 \<Rightarrow> u32 \<Rightarrow> u32 \<Rightarrow> bool) \<Rightarrow> u32 option \<Rightarrow>
    op_env \<Rightarrow> api_config \<Rightarrow> u32 \<Rightarrow> nat \<Rightarrow> string option \<Rightarrow> core_state \<Rightarrow> (http_resp \<times> core_state) cres" where
  "api_post_mining_share parse submit job env cfg ip content_len recvd st =
     (if content_len = 0 \<or> 512 < content_len then Ok (err_resp ''invalid body'' 21, st)
      else (case recvd of
          None \<Rightarrow> Ok (text_resp S400 ''text/plain'' ''bad request'', st)
        | Some bytes \<Rightarrow>
            if content_len = 512 then Undef
            else (case parse (c_str bytes) of
                None \<Rightarrow> Ok (err_resp ''invalid json'' 21, st)
              | Some j \<Rightarrow>
                  (case (json_get_ci j ''job_id'', json_get_ci j ''nonce'', json_get_ci j ''ntime'', json_get_ci j ''version'') of
                     (Some j_job, Some j_nonce, Some j_ntime, Some j_version) \<Rightarrow>
                       cbind (d2u32 (valuedouble j_job)) (\<lambda>job_id.
                       cbind (d2u32 (valuedouble j_nonce)) (\<lambda>nonce.
                       cbind (d2u32 (valuedouble j_ntime)) (\<lambda>ntime.
                         if job \<noteq> Some job_id then Ok (err_resp ''stale job'' 19, st)
                         else
                           (let accepted = submit job_id nonce ntime;
                                m1 = mining_update_hashrate (env_ticks_ms env) ip accepted (core_mining st)
                            in case mining_get_or_create_client (env_ticks_ms env) ip m1 of
                                 (None, m2) \<Rightarrow> if accepted then Undef
                                   else Ok (json_resp S200 (JObj [(''accepted'', JBool False), (''hashrate_ghs'', JNum (Fin 0))]),
                                            st\<lparr>core_mining := m2\<rparr>)
                               | (Some i, m2) \<Rightarrow>
                                   (let ghs = hashrate_ghs (m_clients m2 ! i);
                                        resp = json_resp S200 (JObj [(''accepted'', JBool accepted), (''hashrate_ghs'', JNum (Fin ghs))])
                                    in if \<not> accepted then Ok (resp, st\<lparr>core_mining := m2\<rparr>)
                                       else cbind (mining_shares_to_allotment_ms ghs (mining_get_current_hashprice m2)
                                                     (cfg_price_per_step cfg) (cfg_step_size_ms cfg)) (\<lambda>allotment.
                                              Ok (resp, st\<lparr>core_mining := m2,
                                                core_sess := credit_http_share env ip allotment (core_sess st)\<rparr>)))))))
                   | _ \<Rightarrow> Ok (err_resp ''missing fields'' 22, st)))))"

section \<open>Reading back what the API says\<close>

lemma number_prefix_minus:
  assumes "r = [] \<or> digit_in 10 (hd r) = None"
  shows "number_prefix 10 (CHR ''-'' # dec_of_nat n @ r) = (True, n)"
proof -
  have dg: "\<exists>d < 10. c = hex_digit d" if "c \<in> set (dec_of_nat n)" for c
    using dec_of_nat_digits that by blast
  have "\<forall>c \<in> set (dec_of_nat n). digit_in 10 c \<noteq> None" using dg by fastforce
  then have "takeWhile (\<lambda>c. digit_in 10 c \<noteq> None) (dec_of_nat n @ r) = dec_of_nat n"
    using assms by (cases r) (auto simp: takeWhile_append2)
  then show ?thesis
    by (simp add: number_prefix_def is_space_def skip_sign_def skip_0x_def digits_value_dec)
qed

lemma c_atoi_dec_of_int:
  assumes "- (2 ^ 31) \<le> i" "i < 2 ^ 31"
  shows "c_atoi (dec_of_int i) = i"
proof (cases "i < 0")
  case True
  then have "nat (- i) \<le> 2147483648" using assms by simp
  then show ?thesis using True assms number_prefix_minus[of "[]" "nat (- i)"]
    by (simp add: c_atoi_def dec_of_int_def clamp_signed_def)
next
  case False
  then have "nat i < 2147483648" using assms by simp
  then show ?thesis using False assms number_prefix_dec[of "[]" "nat i"]
    by (simp add: c_atoi_def dec_of_int_def clamp_signed_def)
qed

lemma c_atoi_dec: "n < 2 ^ 31 \<Longrightarrow> c_atoi (dec_of_nat n) = int n"
  using number_prefix_dec[of "[]" n] by (simp add: c_atoi_def clamp_signed_def)

lemma has_kind_int:
  assumes "- (2 ^ 31) \<le> k" "k < 2 ^ 31"
  shows "has_kind (JObj ((''kind'', json_int k) # ms)) k"
  using assms by (simp add: has_kind_def json_get_def json_num_def json_int_def valueint_def clamp_signed_def)

lemma session_tag_str:
  "session_tag (str_tag (n # v # vs)) a = (if n = ''allotment'' then c_atoll v else a)"
  by (simp add: session_tag_def str_tag_def json_arr_def item_str_def json_str_def)

text \<open>
  The client reads the allotment the gate granted: from the text of the session event that
  answers a payment, with a parser that inverts the printer on it, the client gets the exact
  allotment, for every allotment below 2^63.
\<close>

theorem api_session_event_roundtrip:
  assumes "parse txt = Some (create_session_event cfg ip allotment)" "uint allotment < 2 ^ 63"
  shows "client_parse_session parse txt prev = Some (uint allotment)"
proof -
  have "unat allotment < 2 ^ 63" using assms(2) by (simp add: nat_less_iff flip: nat_uint_eq)
  then have "c_atoll (dec_of_nat (unat allotment)) = uint allotment" by (simp add: c_atoll_dec)
  then show ?thesis
    using assms(1) has_kind_int[of 1022]
    by (simp add: client_parse_session_def create_session_event_def json_get_def json_arr_def session_tag_str)
qed

definition demo_cfg_api :: api_config where
  "demo_cfg_api = \<lparr>cfg_price_per_step = 21, cfg_step_size_ms = 60000, cfg_step_size_bytes = 1048576,
     cfg_metric = ''milliseconds'', cfg_mint_url = ''https://mint'', cfg_accepted_mints = [''https://mint''],
     cfg_mining_enabled = True, cfg_mining_port = 3334, cfg_hashprice = 0, cfg_npub_hex = ''ab''\<rparr>"

theorem api_session_event_roundtrip_witness:
  "client_parse_session (\<lambda>t. Some (create_session_event demo_cfg_api 5 120000)) ''x'' 0 = Some 120000"
  using api_session_event_roundtrip[of "\<lambda>t. Some (create_session_event demo_cfg_api 5 120000)" "''x''"] by simp

lemma discovery_tag_str:
  "discovery_tag (str_tag [''metric'', v]) d = d\<lparr>di_metric := c_strncpy 32 v\<rparr>"
  "discovery_tag (str_tag [''step_size'', v]) d = d\<lparr>di_step_size_ms := c_atoi v\<rparr>"
  "discovery_tag (str_tag [''tips'', ''1'', ''2'', ''5'']) d = d"
  "discovery_tag (str_tag [''price_per_step'', ''mining'', v, w, x]) d =
     d\<lparr>di_mining_available := True, di_mining_port := of_int (c_atoi v)\<rparr>"
  "discovery_tag (price_tag cfg u m) d =
     d\<lparr>di_price_per_step := c_atoi (dec_of_int (cfg_price_per_step cfg)), di_unit := c_strncpy 16 u,
       di_mint_url := c_strncpy 256 m\<rparr>"
  by (simp_all add: discovery_tag_def discovery_price_def str_tag_def price_tag_def json_arr_def item_str_def
    json_str_def Let_def)

lemma fold_price_tags:
  assumes "ms \<noteq> []"
  shows "fold discovery_tag (map (\<lambda>m. price_tag cfg u (ms_url m)) ms) d =
    d\<lparr>di_price_per_step := c_atoi (dec_of_int (cfg_price_per_step cfg)), di_unit := c_strncpy 16 u,
      di_mint_url := c_strncpy 256 (ms_url (last ms))\<rparr>"
  using assms
proof (induction ms arbitrary: d)
  case (Cons m ms)
  then show ?case by (cases "ms = []") (simp_all add: discovery_tag_str)
qed simp

text \<open>
  The discovery document is understood by the client: with a parser that inverts the printer on
  it, the client learns the metric, the step, the price, the wallet unit and, if mining is on, the
  mining port. Of several reachable mints it keeps the last one listed; with none reachable, the
  configured mint.
\<close>

theorem api_discovery_roundtrip:
  assumes "parse txt = Some (api_get_discovery cfg u h)"
    and "- (2 ^ 31) \<le> cfg_price_per_step cfg" "cfg_price_per_step cfg < 2 ^ 31"
    and "- (2 ^ 31) \<le> discovery_step cfg" "discovery_step cfg < 2 ^ 31"
    and "length (metric_name cfg) < 32" "length u < 16"
    and "length (cfg_mint_url cfg) < 256" "\<forall>m \<in> set (mh_mints h). length (ms_url m) < 256"
  shows "let reachable = filter ms_reachable (take (mh_count h) (mh_mints h)) in
    client_parse_discovery parse txt = Some \<lparr>is_tollgate = True, di_price_per_step = cfg_price_per_step cfg,
      di_step_size_ms = discovery_step cfg,
      di_mint_url = (if reachable = [] then cfg_mint_url cfg else ms_url (last reachable)),
      di_metric = metric_name cfg, di_unit = u, di_mining_available = cfg_mining_enabled cfg,
      di_mining_port = (if cfg_mining_enabled cfg then cfg_mining_port cfg else 0)\<rparr>"
proof -
  let ?r = "filter ms_reachable (take (mh_count h) (mh_mints h))"
  have port: "of_int (c_atoi (dec_of_nat (unat (cfg_mining_port cfg)))) = cfg_mining_port cfg"
  proof -
    have "unat (cfg_mining_port cfg) < 2 ^ 31"
      using unsigned_less[of "cfg_mining_port cfg", where 'a = nat] by simp
    then show ?thesis by (simp add: c_atoi_dec)
  qed
  have nums: "c_atoi (dec_of_int (cfg_price_per_step cfg)) = cfg_price_per_step cfg"
    "c_atoi (dec_of_int (discovery_step cfg)) = discovery_step cfg"
    using assms(2-5) by (simp_all add: c_atoi_dec_of_int)
  have strs: "c_strncpy 32 (metric_name cfg) = metric_name cfg" "c_strncpy 16 u = u"
    "c_strncpy 256 (cfg_mint_url cfg) = cfg_mint_url cfg"
    using assms(6-8) by (simp_all add: c_strncpy_def)
  have url: "c_strncpy 256 (ms_url (last ?r)) = ms_url (last ?r)" if "?r \<noteq> []"
  proof -
    have "last ?r \<in> set (mh_mints h)" using last_in_set[OF that] by (auto dest: in_set_takeD)
    then show ?thesis using assms(9) by (auto simp: c_strncpy_def)
  qed
  show ?thesis
  proof (cases "?r = []")
    case True
    then show ?thesis using assms(1) has_kind_int[of 10021] port nums strs
      by (simp add: client_parse_discovery_def api_get_discovery_def Let_def json_get_def json_arr_def discovery_tag_str
        zero_discovery_def)
  next
    case False
    then show ?thesis using assms(1) has_kind_int[of 10021] port nums strs url[OF False]
      by (simp add: client_parse_discovery_def api_get_discovery_def Let_def json_get_def json_arr_def discovery_tag_str
        zero_discovery_def fold_price_tags)
  qed
qed

theorem api_discovery_roundtrip_witness:
  "client_parse_discovery (\<lambda>t. Some (api_get_discovery demo_cfg_api ''sat'' demo_health)) ''x'' =
    Some \<lparr>is_tollgate = True, di_price_per_step = 21, di_step_size_ms = 60000, di_mint_url = ''https://a'',
      di_metric = ''milliseconds'', di_unit = ''sat'', di_mining_available = True, di_mining_port = 3334\<rparr>"
proof -
  have r: "filter ms_reachable (take (mh_count demo_health) (mh_mints demo_health)) =
      [zero_mint\<lparr>ms_url := ''https://a'', ms_reachable := True, ms_successes := 3\<rparr>]"
    by (simp add: demo_health_def zero_mint_def)
  have "\<forall>m \<in> set (mh_mints demo_health). length (ms_url m) < 256" by (simp add: demo_health_def zero_mint_def)
  from api_discovery_roundtrip[of "\<lambda>t. Some (api_get_discovery demo_cfg_api ''sat'' demo_health)" "''x''" demo_cfg_api
      "''sat''" demo_health, OF _ _ _ _ _ _ _ _ this]
  show ?thesis by (simp add: r Let_def demo_cfg_api_def discovery_step_def metric_name_def)
qed

section \<open>What a posted token does\<close>

text \<open>The checks of the handler, as one condition on a decoded token.\<close>

definition api_token_passes :: "cashu_ext \<Rightarrow> api_config \<Rightarrow> tg_cashu_token \<Rightarrow> bool" where
  "api_token_passes ext cfg token \<longleftrightarrow>
     list_ex (cashu_is_mint_accepted (payment_mint cfg token)) (cfg_accepted_mints cfg) \<and>
     (case cashu_check_proof_states ext (payment_mint cfg token) token of
        Some states \<Rightarrow> \<not> list_ex spent states | None \<Rightarrow> True) \<and>
     payment_allotment cfg token \<noteq> 0"

lemma status_distinct [simp]: "S200 \<noteq> S400" "S200 \<noteq> S402" "S200 \<noteq> S503" "S400 \<noteq> S200" "S402 \<noteq> S200" "S503 \<noteq> S200"
  by (simp_all add: S200_def S400_def S402_def S503_def)

lemma resp_status_simps [simp]: "resp_status (json_resp s j) = s" "resp_status (text_resp s t b) = s"
  by (simp_all add: json_resp_def text_resp_def)

lemma check_token_pass:
  "api_check_token ext cfg n recvd = Ok (Inr (body, token)) \<longleftrightarrow>
     0 < n \<and> n \<le> 16384 \<and> (\<exists>bytes. recvd = Some bytes \<and> body = c_str bytes \<and>
       cashu_decode_token ext (c_str bytes) = Ok token) \<and> api_token_passes ext cfg token"
  by (auto simp: api_check_token_def api_token_passes_def split: option.splits cres.splits)

lemma check_token_error:
  "api_check_token ext cfg n recvd = Ok (Inl resp) \<Longrightarrow> resp_status resp \<noteq> S200"
  by (auto simp: api_check_token_def split: option.splits cres.splits if_splits)

text \<open>
  (C9) The payment endpoint keeps its word: a response \<open>200 OK\<close> means that the posted body is a
  token that decodes, is from an accepted mint, is not listed as spent and is worth at least a step;
  the client is then allowed, and the body is handed to the wallet. Every other response leaves the
  gate as it was and hands nothing to the wallet; for a token that passes the checks this happens
  only when all ten slots are held by other live sessions.
\<close>

theorem api_payment_outcome:
  assumes "core_reach rext st" "api_post_payment ext env cfg ip n recvd st = Ok (resp, st', toks)"
  shows "(resp_status resp = S200 \<longrightarrow> core_is_client_allowed st' ip \<and>
      (\<exists>bytes token. recvd = Some bytes \<and> cashu_decode_token ext (c_str bytes) = Ok token \<and>
         api_token_passes ext cfg token \<and> toks = [c_str bytes])) \<and>
    (resp_status resp \<noteq> S200 \<longrightarrow> st' = st \<and> toks = [] \<and>
      (\<forall>body token. api_check_token ext cfg n recvd = Ok (Inr (body, token)) \<longrightarrow> \<not> core_is_client_allowed st ip \<and>
        (\<forall>x \<in> set (s_sessions (core_sess st)). active x \<and> \<not> session_is_expired env (core_sess st) x)))"
proof -
  have inv: "core_inv st" using assms(1) by (rule core_reach_inv)
  note si = core_invD(1)[OF inv]
  obtain r where r: "api_check_token ext cfg n recvd = Ok r"
    using assms(2) by (auto simp: api_post_payment_def cbind_Ok_iff)
  show ?thesis
  proof (cases r)
    case (Inl e)
    then show ?thesis using r assms(2) check_token_error[of ext cfg n recvd e] by (simp add: api_post_payment_def)
  next
    case (Inr bt)
    obtain body token where bt: "bt = (body, token)" by fastforce
    obtain q g where c: "create_metered env (cfg_metric cfg) ip (payment_allotment cfg token) (core_sess st) = (q, g)"
      by fastforce
    note sp = create_metered_spec[OF si c] and nc = create_metered_None[OF si, of env "cfg_metric cfg" ip "payment_allotment cfg token"]
    have pass: "\<exists>bytes. recvd = Some bytes \<and> body = c_str bytes \<and> cashu_decode_token ext (c_str bytes) = Ok token"
      "api_token_passes ext cfg token"
      using r Inr bt check_token_pass[of ext cfg n recvd body token] by auto
    show ?thesis
    proof (cases q)
      case None
      have "g = core_sess st" using nc(2) c None by simp
      then have st': "resp_status resp = S503" "st' = st" "toks = []"
        using assms(2) r Inr bt c None by (auto simp: api_post_payment_def)
      have "ip \<notin> active_ips (core_sess st)" "\<forall>s \<in> set (s_sessions (core_sess st)). active s \<and> \<not> session_is_expired env (core_sess st) s"
        using nc(1) c None by auto
      then show ?thesis using st' allowed_iff_paid(1)[OF inv, of ip] by (simp add: paid_def)
    next
      case (Some i)
      have st': "resp_status resp = S200" "st' = st\<lparr>core_sess := g\<rparr>" "toks = [body]"
        using assms(2) r Inr bt c Some by (auto simp: api_post_payment_def)
      have "core_inv st'" using sp inv st'(2) by (simp add: core_inv_def)
      moreover have "ip \<in> paid st'"
        using sp(4)[OF Some] st'(2) by (auto simp: paid_def active_ips_def in_used_iff)
      ultimately show ?thesis using st' pass allowed_iff_paid(1) by auto
    qed
  qed
qed

theorem api_payment_outcome_witness:
  "\<exists>resp st' toks. api_post_payment demo_ext demo_env demo_cfg_api 5 9 (Some ''cashuAabc'') demo_core0 = Ok (resp, st', toks) \<and>
     resp_status resp = S200 \<and> core_is_client_allowed st' 5 \<and> toks = [''cashuAabc'']"
proof -
  have a: "payment_allotment demo_cfg_api demo_token = 120000"
    by (simp add: payment_allotment_def cashu_calculate_allotment_def demo_token_def demo_cfg_api_def discovery_step_def)
  have m: "payment_mint demo_cfg_api demo_token = ''https://mint''" by (simp add: payment_mint_def demo_token_def)
  have "set (map spent demo_sts) = {False}" unfolding demo_states(2) by simp
  then have "api_token_passes demo_ext demo_cfg_api demo_token"
    unfolding api_token_passes_def m a demo_states(1)
    by (auto simp: list_ex_iff demo_cfg_api_def cashu_is_mint_accepted_def)
  moreover have b: "c_str ''cashuAabc'' = ''cashuAabc''" by (simp add: c_str_def)
  ultimately have ck: "api_check_token demo_ext demo_cfg_api 9 (Some ''cashuAabc'') = Ok (Inr (''cashuAabc'', demo_token))"
    unfolding check_token_pass using demo_token_decodes by auto
  obtain g where c: "create_metered demo_env (cfg_metric demo_cfg_api) 5 120000 (core_sess demo_core0) = (Some 0, g)"
    using session_create_fresh[OF demo_core0_fresh, of demo_env] by (simp add: create_metered_def demo_cfg_api_def)
  let ?resp = "json_resp S200 (create_session_event demo_cfg_api 5 120000)"
  have p: "api_post_payment demo_ext demo_env demo_cfg_api 5 9 (Some ''cashuAabc'') demo_core0 =
      Ok (?resp, demo_core0\<lparr>core_sess := g\<rparr>, [''cashuAabc''])"
    by (simp add: api_post_payment_def ck a c)
  have "core_is_client_allowed (demo_core0\<lparr>core_sess := g\<rparr>) 5"
    using api_payment_outcome[OF demo_core0_reach p] by simp
  moreover have "resp_status ?resp = S200" by simp
  ultimately show ?thesis using p by blast
qed

text \<open>The same token posted again and again, by a client with a session.\<close>

fun post_again :: "cashu_ext \<Rightarrow> op_env \<Rightarrow> api_config \<Rightarrow> u32 \<Rightarrow> string \<Rightarrow> nat \<Rightarrow> core_state \<Rightarrow> core_state cres" where
  "post_again ext env cfg ip body 0 st = Ok st"
| "post_again ext env cfg ip body (Suc k) st =
     cbind (api_post_payment ext env cfg ip (length body) (Some body) st) (\<lambda>(resp, st', toks).
       if resp_status resp = S200 then post_again ext env cfg ip body k st' else Fail)"

text \<open>
  (C13) One token buys any amount of time while the mint does not answer: a token that decodes, names
  an accepted mint and is worth a step is accepted every time it is posted, as long as asking the mint
  fails, and each time adds its full allotment to the client's session.
\<close>

theorem api_token_replay:
  assumes "session_find_by_ip (core_sess st) ip = Some i" "sess_inv (core_sess st)" "cfg_metric cfg \<noteq> ''bytes''"
    and "0 < length body" "length body \<le> 16384" "cashu_decode_token ext (c_str body) = Ok token"
    and "cashu_check_proof_states ext (payment_mint cfg token) token = None"
    and "list_ex (cashu_is_mint_accepted (payment_mint cfg token)) (cfg_accepted_mints cfg)"
    and "payment_allotment cfg token \<noteq> 0"
  shows "\<exists>st'. post_again ext env cfg ip body k st = Ok st' \<and>
    allotment_ms (s_sessions (core_sess st') ! i) =
      allotment_ms (s_sessions (core_sess st) ! i) + of_nat k * payment_allotment cfg token"
  using assms(1,2)
proof (induction k arbitrary: st)
  case (Suc k)
  let ?a = "payment_allotment cfg token" and ?g = "session_extend i (payment_allotment cfg token) (core_sess st)"
  note f = find_by_ip_Some[OF Suc.prems(1)]
  have "api_check_token ext cfg (length body) (Some body) = Ok (Inr (c_str body, token))"
    unfolding check_token_pass using assms(4-9) by (auto simp: api_token_passes_def)
  moreover have "create_metered env (cfg_metric cfg) ip ?a (core_sess st) = (Some i, ?g)"
    using assms(3) Suc.prems(1) by (simp add: create_metered_def session_create_def)
  ultimately have p: "api_post_payment ext env cfg ip (length body) (Some body) st =
      Ok (json_resp S200 (create_session_event cfg ip ?a), st\<lparr>core_sess := ?g\<rparr>, [c_str body])"
    by (simp add: api_post_payment_def)
  have x: "s_sessions ?g = (s_sessions (core_sess st))[i := (s_sessions (core_sess st) ! i)\<lparr>
      allotment_ms := allotment_ms (s_sessions (core_sess st) ! i) + ?a\<rparr>]"
    using f(2) by (simp add: session_extend_def Let_def)
  have "session_find_by_ip ?g ip = Some i"
    using Suc.prems(1) f(1) unfolding session_find_by_ip_def x first_idx_Some_iff by (auto simp: nth_list_update)
  moreover have "sess_inv ?g" using session_extend_spec(1)[OF Suc.prems(2) f(1)] .
  ultimately obtain st' where "post_again ext env cfg ip body k (st\<lparr>core_sess := ?g\<rparr>) = Ok st'"
    "allotment_ms (s_sessions (core_sess st') ! i) = allotment_ms (s_sessions ?g ! i) + of_nat k * ?a"
    using Suc.IH[of "st\<lparr>core_sess := ?g\<rparr>"] by auto
  moreover have "allotment_ms (s_sessions ?g ! i) = allotment_ms (s_sessions (core_sess st) ! i) + ?a"
    using f(1) by (simp add: x)
  ultimately show ?case using p by (auto simp: algebra_simps)
qed simp

text \<open>The instance: the demo client with its session, and a mint that is down.\<close>

definition demo_offline :: cashu_ext where
  "demo_offline = demo_ext\<lparr>http_post := \<lambda>url body. None\<rparr>"

lemma decode_token_http: "cashu_decode_token (ext\<lparr>http_post := h\<rparr>) t = cashu_decode_token ext t"
  by (simp add: cashu_decode_token_def b64url_decode_def cong: option.case_cong if_cong)

theorem api_token_replay_witness:
  "\<exists>st'. post_again demo_offline demo_env demo_cfg_api 5 ''cashuAabc'' 1000
      (demo_core0\<lparr>core_sess := snd (session_create demo_env 5 120000 (core_sess demo_core0))\<rparr>) = Ok st' \<and>
    allotment_ms (s_sessions (core_sess st') ! 0) = 120120000"
proof -
  let ?g = "snd (session_create demo_env 5 120000 (core_sess demo_core0))"
  let ?st = "demo_core0\<lparr>core_sess := ?g\<rparr>"
  have c: "session_create demo_env 5 120000 (core_sess demo_core0) = (Some 0, ?g)"
    using session_create_fresh[OF demo_core0_fresh, of demo_env] by simp
  have si: "sess_inv (core_sess demo_core0)" using core_invD(1)[OF core_reach_inv[OF demo_core0_reach]] .
  have "create_metered demo_env [] 5 120000 (core_sess demo_core0) = (Some 0, ?g)"
    using c by (simp add: create_metered_def)
  note sp = create_metered_spec[OF si this]
  have l: "0 < length (s_sessions (core_sess demo_core0))"
    using si by (simp add: sess_inv_def TG_SESSION_MAX_CLIENTS_def)
  have g: "s_sessions ?g ! 0 = (s_sessions (core_sess demo_core0) ! 0)\<lparr>
        client_ip := 5, allotment_ms := 120000, start_time_ms := time_ms demo_env (core_sess demo_core0), active := True,
        payment_method := TG_PAYMENT_CASHU,
        mac := (case env_mac_of demo_env 5 of Some m \<Rightarrow> m | None \<Rightarrow> [])\<rparr>" 
    using session_create_fresh[OF demo_core0_fresh, of demo_env] l by simp
  have "length (s_sessions ?g) = 10" using sp(1) by (simp add: sess_inv_def TG_SESSION_MAX_CLIENTS_def)
  then have f: "session_find_by_ip (core_sess ?st) 5 = Some 0"
    using g by (simp add: session_find_by_ip_def first_idx_Some_iff)
  have d: "cashu_decode_token demo_offline (c_str ''cashuAabc'') = Ok demo_token"
    by (simp add: demo_offline_def decode_token_http c_str_def demo_token_decodes)
  have n: "cashu_check_proof_states demo_offline (payment_mint demo_cfg_api demo_token) demo_token = None"
    by (simp add: cashu_check_proof_states_def demo_offline_def)
  have m: "list_ex (cashu_is_mint_accepted (payment_mint demo_cfg_api demo_token)) (cfg_accepted_mints demo_cfg_api)"
    by (simp add: payment_mint_def demo_token_def demo_cfg_api_def cashu_is_mint_accepted_def)
  have a: "payment_allotment demo_cfg_api demo_token = 120000"
    by (simp add: payment_allotment_def cashu_calculate_allotment_def demo_token_def demo_cfg_api_def discovery_step_def)
  have nz: "payment_allotment demo_cfg_api demo_token \<noteq> 0" by (simp add: a)
  have q: "cfg_metric demo_cfg_api \<noteq> ''bytes''" by (simp add: demo_cfg_api_def)
  have i: "sess_inv (core_sess ?st)" using sp(1) by simp
  show ?thesis
    using api_token_replay[OF f i q _ _ d n m nz, of demo_env 1000] by (simp add: a g)
qed

end
