(* ===== verification/TG_Pool.thy ===== *)
theory TG_Pool
  imports TG_Stratum TG_Api
begin

text \<open>
  Mining for access: the pool client of the firmware (\<^verbatim>\<open>main/stratum_client.c\<close>), which feeds the
  proxy with the jobs of the pool, the job, statistics and wallet endpoints of the HTTP API
  (\<^verbatim>\<open>main/tollgate_api.c\<close>), and the miner that a gate runs against its upstream gate
  (\<^verbatim>\<open>main/remote_miner.c\<close>). The transport is the list of the texts written to it and the characters it
  delivers; cJSON, HTTP, SHA-256 and the wallet are parameters.
\<close>

unbundle bit_operations_syntax

section \<open>The pool client\<close>

record pool_client =
  pc_connected :: bool
  pc_pool_host :: string
  pc_pool_port :: u16
  pc_nbits :: u32
  pc_difficulty :: u64
  pc_shares_accepted :: u64
  pc_shares_rejected :: u64
  pc_extranonce2_size :: int
  pc_subscribe_req_id :: u32
  pc_req_id :: u32
  pc_written :: "string list"
  pc_tokens :: "string list"

record pool_config =
  pcfg_host :: string
  pcfg_port :: u16
  pcfg_user :: string
  pcfg_pass :: string
  pcfg_locking_pubkey :: "string option"

record pool_sys =
  ps_client :: pool_client
  ps_proxy :: stratum_proxy
  ps_mining :: mining_state

fun read_line :: "nat \<Rightarrow> string \<Rightarrow> string \<Rightarrow> (string \<times> string) option" where
  "read_line 0 acc s = Some (acc, s)"
| "read_line (Suc n) acc [] = None"
| "read_line (Suc n) acc (c # s) = (if c = CHR 0x0A then Some (acc @ [c], s) else read_line n (acc @ [c]) s)"

definition pool_init :: "pool_client \<Rightarrow> pool_client" where
  "pool_init pc = pc\<lparr>pc_connected := False, pc_pool_host := [], pc_pool_port := 0, pc_nbits := 0, pc_difficulty := 0,
     pc_shares_accepted := 0, pc_shares_rejected := 0, pc_extranonce2_size := 0, pc_subscribe_req_id := 0, pc_req_id := 1\<rparr>"

definition pool_boot :: pool_client where
  "pool_boot = \<lparr>pc_connected = False, pc_pool_host = [], pc_pool_port = 0, pc_nbits = 0, pc_difficulty = 0,
     pc_shares_accepted = 0, pc_shares_rejected = 0, pc_extranonce2_size = 0, pc_subscribe_req_id = 0, pc_req_id = 1,
     pc_written = [], pc_tokens = []\<rparr>"

definition stratum_connect :: "bool \<Rightarrow> string \<Rightarrow> u16 \<Rightarrow> pool_client \<Rightarrow> bool \<times> pool_client" where
  "stratum_connect up host port pc =
     (if up then (True, pc\<lparr>pc_pool_host := c_strncpy 128 host, pc_pool_port := port, pc_connected := True\<rparr>)
      else (False, pc))"

definition send_subscribe :: "pool_client \<Rightarrow> pool_client" where
  "send_subscribe pc = pc\<lparr>pc_subscribe_req_id := pc_req_id pc, pc_req_id := pc_req_id pc + 1,
     pc_written := pc_written pc @ [stratum_build_subscribe (pc_req_id pc)]\<rparr>"

text \<open>User and password of the configuration are short enough for the 512-byte buffer.\<close>

definition send_authorize :: "pool_config \<Rightarrow> pool_client \<Rightarrow> pool_client" where
  "send_authorize cfg pc =
     (let password = take 255 (case pcfg_locking_pubkey cfg of
            Some k \<Rightarrow> if k \<noteq> [] then pcfg_pass cfg @ ''.'' @ k else pcfg_pass cfg
          | None \<Rightarrow> pcfg_pass cfg)
      in pc\<lparr>pc_req_id := pc_req_id pc + 1,
            pc_written := pc_written pc @ [stratum_build_authorize (pc_req_id pc) (pcfg_user cfg) password]\<rparr>)"

definition proxy_job_of :: "stratum_job \<Rightarrow> stratum_job" where
  "proxy_job_of job = zero_job\<lparr>sj_job_id := sj_job_id job, sj_prevhash := sj_prevhash job, sj_version := sj_version job,
     sj_nbits := sj_nbits job, sj_ntime := sj_ntime job, sj_target := sj_target job, sj_target_len := sj_target_len job,
     sj_valid := sj_valid job\<rparr>"

definition handle_mining_notify :: "json option \<Rightarrow> pool_sys \<Rightarrow> pool_sys cres" where
  "handle_mining_notify params ps =
     (case stratum_parse_notify params of
        Undef \<Rightarrow> Undef
      | Fail \<Rightarrow> Ok ps
      | Ok (job, nbits) \<Rightarrow>
          cbind (mining_set_current_nbits (sj_nbits job) (ps_mining ps)) (\<lambda>m.
            Ok (ps\<lparr>ps_mining := m, ps_proxy := proxy_set_job m (proxy_job_of job) (ps_proxy ps),
                  ps_client := (if nbits \<noteq> 0 then (ps_client ps)\<lparr>pc_nbits := nbits\<rparr> else ps_client ps)\<rparr>)))"

definition handle_mining_set_difficulty :: "json option \<Rightarrow> pool_sys \<Rightarrow> pool_sys cres" where
  "handle_mining_set_difficulty params ps =
     (case stratum_parse_difficulty params of
        Undef \<Rightarrow> Undef
      | Fail \<Rightarrow> Ok ps
      | Ok diff \<Rightarrow> Ok (ps\<lparr>ps_client := (ps_client ps)\<lparr>pc_difficulty := diff\<rparr>\<rparr>))"

text \<open>The token goes to the callback, if one is set, or to the wallet worker: both receive it.\<close>

definition handle_mining_token :: "json option \<Rightarrow> pool_sys \<Rightarrow> pool_sys" where
  "handle_mining_token params ps =
     (case stratum_parse_token 2048 params of
        None \<Rightarrow> ps
      | Some token \<Rightarrow> ps\<lparr>ps_client := (ps_client ps)\<lparr>pc_tokens := pc_tokens (ps_client ps) @ [token]\<rparr>\<rparr>)"

definition handle_subscribe_response :: "json list \<Rightarrow> u32 \<Rightarrow> pool_client \<Rightarrow> pool_client" where
  "handle_subscribe_response result req_id pc =
     (if req_id \<noteq> pc_subscribe_req_id pc then pc
      else if length result < 3 then pc
      else (case result ! 2 of
              JNum n \<Rightarrow> pc\<lparr>pc_extranonce2_size := valueint n\<rparr>
            | _ \<Rightarrow> pc))"

text \<open>One message of the pool: the request part, then the response part.\<close>

definition pool_request :: "json \<Rightarrow> pool_sys \<Rightarrow> pool_sys cres" where
  "pool_request jroot ps =
     (case json_str (json_get jroot ''method'') of
        None \<Rightarrow> Ok ps
      | Some method \<Rightarrow>
          (let params = json_get jroot ''params'' in
           if method = ''mining.notify'' then handle_mining_notify params ps
           else if method = ''mining.set_difficulty'' then handle_mining_set_difficulty params ps
           else if method = ''mining.token'' then Ok (handle_mining_token params ps)
           else Ok ps))"

definition pool_response :: "json \<Rightarrow> pool_client \<Rightarrow> pool_client" where
  "pool_response jroot pc =
     (case (json_get jroot ''id'', json_get jroot ''result'') of
        (Some i, Some result) \<Rightarrow>
          if result = JBool False \<or> (case json_get jroot ''error'' of Some e \<Rightarrow> e \<noteq> JNull | None \<Rightarrow> False) then pc
          else (case result of
                  JArr xs \<Rightarrow> handle_subscribe_response xs (of_int (json_valueint i)) pc
                | _ \<Rightarrow> pc)
      | _ \<Rightarrow> pc)"

text \<open>
  One pass of the client task with what the pool has sent so far; \<open>up\<close> tells whether connecting
  succeeds. The rest of the input is returned; when the input ends inside a line the connection is
  lost.
\<close>

definition pool_iteration :: "(string \<Rightarrow> json option) \<Rightarrow> pool_config \<Rightarrow> bool \<Rightarrow> string \<Rightarrow> pool_sys \<Rightarrow> (pool_sys \<times> string) cres" where
  "pool_iteration parse cfg up input ps =
     (case (if pc_connected (ps_client ps) then (True, ps_client ps)
            else (case stratum_connect up (pcfg_host cfg) (pcfg_port cfg) (ps_client ps) of
                    (True, pc) \<Rightarrow> (True, send_authorize cfg (send_subscribe pc))
                  | (False, pc) \<Rightarrow> (False, pc))) of
        (False, pc) \<Rightarrow> Ok (ps\<lparr>ps_client := pc\<rparr>, input)
      | (True, pc) \<Rightarrow>
          (case read_line 2047 [] input of
             None \<Rightarrow> Ok (ps\<lparr>ps_client := pc\<lparr>pc_connected := False\<rparr>\<rparr>, [])
           | Some (buf, rest) \<Rightarrow>
               (case parse (c_str buf) of
                  None \<Rightarrow> Ok (ps\<lparr>ps_client := pc\<rparr>, rest)
                | Some jroot \<Rightarrow>
                    cbind (pool_request jroot (ps\<lparr>ps_client := pc\<rparr>)) (\<lambda>ps1.
                      Ok (ps1\<lparr>ps_client := pool_response jroot (ps_client ps1)\<rparr>, rest)))))"

text \<open>
  Submitting a share: \<open>wrote\<close> tells whether writing to the socket succeeds. The buffer for the second
  extranonce has room for 32 bytes; the size is the pool's.
\<close>

definition stratum_client_submit_share :: "pool_config \<Rightarrow> bool \<Rightarrow> u32 \<Rightarrow> u32 \<Rightarrow> u32 \<Rightarrow> pool_client \<Rightarrow> (bool \<times> pool_client) cres" where
  "stratum_client_submit_share cfg wrote job_id nonce ntime pc =
     (if \<not> pc_connected pc then Ok (False, pc)
      else
        (let en2_size = (if 0 < pc_extranonce2_size pc then pc_extranonce2_size pc else 8) in
         if 32 < en2_size then Undef
         else
           (let pc1 = pc\<lparr>pc_req_id := pc_req_id pc + 1\<rparr>;
                msg = stratum_build_submit (pc_req_id pc) (pcfg_user cfg) job_id
                          (replicate (2 * nat en2_size) CHR ''0'') ntime nonce
            in if wrote then Ok (True, pc1\<lparr>pc_shares_accepted := pc_shares_accepted pc1 + 1,
                                         pc_written := pc_written pc1 @ [msg]\<rparr>)
               else Ok (False, pc1\<lparr>pc_shares_rejected := pc_shares_rejected pc1 + 1\<rparr>))))"

section \<open>Mining and wallet endpoints\<close>

definition api_get_mining_job :: "stratum_proxy \<Rightarrow> mining_state \<Rightarrow> http_resp" where
  "api_get_mining_job px m =
     (let job = px_job px in
      if \<not> sj_valid job then text_resp S503 ''application/json'' (take 15 ''{\"error\":\"no job\"}'')
      else json_resp S200 (JObj [(''job_id'', json_int (uint (sj_job_id job))),
             (''prevhash'', JStr (hex_of_bytes (sj_prevhash job))),
             (''merkle_root'', JStr (hex_of_bytes (sj_merkle_root job))),
             (''version'', json_int (uint (sj_version job))), (''nbits'', json_int (uint (sj_nbits job))),
             (''ntime'', json_int (uint (sj_ntime job))),
             (''hashprice'', JNum (Fin (mining_get_current_hashprice m)))]))"

definition api_get_mining_stats :: "stratum_proxy \<Rightarrow> mining_state \<Rightarrow> pool_client \<Rightarrow> http_resp" where
  "api_get_mining_stats px m pc = json_resp S200 (JObj
     [(''proxy'', JObj [(''hashrate_ghs'', JNum (Fin 0)), (''total_shares'', JNum (Fin (u2d (px_total_shares px)))),
        (''total_accepted'', JNum (Fin (u2d (px_total_accepted px)))),
        (''total_rejected'', JNum (Fin (u2d (px_total_rejected px)))),
        (''hashprice'', JNum (Fin (mining_get_current_hashprice m))), (''active_miners'', json_int (px_active_miners px))]),
      (''upstream'', JObj [(''connected'', JBool (pc_connected pc)), (''pool_host'', JStr (pc_pool_host pc)),
        (''pool_port'', json_int (uint (pc_pool_port pc))), (''difficulty'', JNum (Fin (u2d (pc_difficulty pc)))),
        (''shares_accepted'', JNum (Fin (u2d (pc_shares_accepted pc)))),
        (''shares_rejected'', JNum (Fin (u2d (pc_shares_rejected pc))))])])"

definition api_get_mining_pubkey :: "string option \<Rightarrow> http_resp" where
  "api_get_mining_pubkey key =
     (case key of
        None \<Rightarrow> text_resp ''500 Internal Server Error'' ''text/html'' ''identity not initialized''
      | Some k \<Rightarrow> if k = [] then text_resp ''500 Internal Server Error'' ''text/html'' ''locking pubkey not derived''
                  else json_resp S200 (JObj [(''locking_pubkey'', JStr k)]))"

text \<open>The wallet as the handlers use it: state \<open>'w\<close>, balance, number of proofs, their JSON, swap and send.\<close>

record 'w wallet_ops =
  w_balance :: "'w \<Rightarrow> u64"
  w_proof_count :: "'w \<Rightarrow> int"
  w_proofs_json :: "'w \<Rightarrow> string option"
  w_swap_all :: "'w \<Rightarrow> bool \<times> 'w"
  w_send :: "u64 \<Rightarrow> 'w \<Rightarrow> string option \<times> 'w"

definition api_get_wallet :: "(string \<Rightarrow> json option) \<Rightarrow> 'w wallet_ops \<Rightarrow> 'w \<Rightarrow> http_resp" where
  "api_get_wallet parse ops w = json_resp S200 (JObj (
     [(''balance'', JNum (Fin (u2d (w_balance ops w)))), (''proof_count'', json_int (w_proof_count ops w))] @
     (case w_proofs_json ops w of
        Some t \<Rightarrow> (case parse t of Some j \<Rightarrow> [(''proofs'', j)] | None \<Rightarrow> [])
      | None \<Rightarrow> [(''proofs'', JArr [])])))"

definition api_post_wallet_swap :: "'w wallet_ops \<Rightarrow> 'w \<Rightarrow> http_resp \<times> 'w" where
  "api_post_wallet_swap ops w =
     (if w_balance ops w = 0 then (err_resp ''no proofs to swap'' 27, w)
      else (case w_swap_all ops w of
              (False, w1) \<Rightarrow> (text_resp ''502 Bad Gateway'' ''application/json'' (take 21 ''{\"error\":\"swap failed\"}''), w1)
            | (True, w1) \<Rightarrow> (json_resp S200 (JObj [(''balance'', JNum (Fin (u2d (w_balance ops w1)))),
                              (''proof_count'', json_int (w_proof_count ops w1))]), w1)))"

text \<open>The body buffer has 32 bytes, so the terminator of a 32-byte body is written behind it.\<close>

definition api_post_wallet_send :: "'w wallet_ops \<Rightarrow> nat \<Rightarrow> string option \<Rightarrow> 'w \<Rightarrow> (http_resp \<times> 'w) cres" where
  "api_post_wallet_send ops content_len recvd w =
     (if content_len = 0 \<or> 32 < content_len then Ok (text_resp S400 ''text/html'' ''invalid amount'', w)
      else (case recvd of
          None \<Rightarrow> Ok (text_resp ''500 Internal Server Error'' ''text/html'' [], w)
        | Some bytes \<Rightarrow>
            if content_len = 32 then Undef
            else
              (let amount = c_strtoull 10 (c_str bytes) in
               if amount = 0 then Ok (text_resp S400 ''text/html'' ''invalid amount'', w)
               else (case w_send ops amount w of
                       (None, w1) \<Rightarrow> Ok (text_resp S402 ''text/plain'' ''insufficient balance'', w1)
                     | (Some token, w1) \<Rightarrow> Ok (text_resp S200 ''text/plain'' token, w1)))))"

section \<open>The remote miner\<close>

record remote_job =
  rj_job_id :: u32
  rj_prevhash :: "u8 list"
  rj_merkle_root :: "u8 list"
  rj_version :: u32
  rj_nbits :: u32
  rj_ntime :: u32
  rj_target :: "u8 list"
  rj_target_len :: nat

definition nbits_to_target :: "u32 \<Rightarrow> u8 list" where
  "nbits_to_target nbits =
     (let ex = nbits_exponent nbits; mantissa = nbits_mantissa nbits;
          pos = (if 32 < ex then 0 else 32 - ex)
      in foldl (\<lambda>t i. if pos + i < 32 then t[pos + i := ucast (drop_bit (8 * (2 - i)) mantissa)] else t)
           (replicate 32 0) [0, 1, 2])"

definition remote_header :: "remote_job \<Rightarrow> u32 \<Rightarrow> u8 list" where
  "remote_header job nonce = le32 (rj_version job) @ rj_prevhash job @ rj_merkle_root job @ le32 (rj_ntime job)
     @ le32 (rj_nbits job) @ le32 nonce"

text \<open>
  The bytes written so far are kept when a pair is not hexadecimal; the caller ignores the result code.
\<close>

fun remote_hex_to_bytes :: "string \<Rightarrow> u8 list \<Rightarrow> u8 list" where
  "remote_hex_to_bytes (a # b # hex) (x # out) =
     (case scan_2x (a # b # hex) of
        None \<Rightarrow> x # out
      | Some v \<Rightarrow> ucast v # remote_hex_to_bytes hex out)"
| "remote_hex_to_bytes hex out = out"

definition read_job :: "json \<Rightarrow> remote_job cres" where
  "read_job jroot =
     (case (json_get_ci jroot ''job_id'', json_get_ci jroot ''prevhash'', json_get_ci jroot ''merkle_root'',
            json_get_ci jroot ''version'', json_get_ci jroot ''nbits'', json_get_ci jroot ''ntime'') of
        (Some j_job_id, Some j_prevhash, Some j_merkle, Some j_version, Some j_nbits, Some j_ntime) \<Rightarrow>
          (case (j_prevhash, j_merkle) of
             (JStr prevhash, JStr merkle) \<Rightarrow>
               cbind (d2u32 (valuedouble j_job_id)) (\<lambda>job_id.
               cbind (d2u32 (valuedouble j_version)) (\<lambda>version.
               cbind (d2u32 (valuedouble j_nbits)) (\<lambda>nbits.
               cbind (d2u32 (valuedouble j_ntime)) (\<lambda>ntime.
                 Ok \<lparr>rj_job_id = job_id, rj_prevhash = remote_hex_to_bytes prevhash (replicate 32 0),
                     rj_merkle_root = remote_hex_to_bytes merkle (replicate 32 0), rj_version = version,
                     rj_nbits = nbits, rj_ntime = ntime, rj_target = nbits_to_target nbits, rj_target_len = 32\<rparr>))))
           | _ \<Rightarrow> Undef)
      | _ \<Rightarrow> Fail)"

definition fetch_job :: "(string \<Rightarrow> (int \<times> string) option) \<Rightarrow> (string \<Rightarrow> json option) \<Rightarrow> string \<Rightarrow> remote_job cres" where
  "fetch_job get parse gw =
     (case get (take 63 (''http://'' @ gw @ '':2121/mining/job'')) of
        None \<Rightarrow> Fail
      | Some (status, body) \<Rightarrow>
          if status \<noteq> 200 then Fail
          else (case parse (c_str (take 2047 body)) of None \<Rightarrow> Fail | Some jroot \<Rightarrow> read_job jroot))"

definition share_body :: "u32 \<Rightarrow> u32 \<Rightarrow> u32 \<Rightarrow> u32 \<Rightarrow> string" where
  "share_body job_id nonce ntime version =
     ''{\"job_id\":'' @ dec_of_nat (unat job_id) @ '',\"nonce\":'' @ dec_of_nat (unat nonce) @ '',\"ntime\":''
     @ dec_of_nat (unat ntime) @ '',\"version\":'' @ dec_of_nat (unat version) @ ''}''"

definition remote_submit_share :: "(string \<Rightarrow> string \<Rightarrow> int option) \<Rightarrow> string \<Rightarrow> remote_job \<Rightarrow> u32 \<Rightarrow> bool" where
  "remote_submit_share post gw job nonce =
     (post (take 63 (''http://'' @ gw @ '':2121/mining/share''))
        (share_body (rj_job_id job) nonce (rj_ntime job) (rj_version job)) = Some 200)"

text \<open>The search: the nonces from \<open>nonce\<close> up to \<open>end_nonce\<close>, the first with enough work.\<close>

function mine_from :: "(u8 list \<Rightarrow> u8 list) \<Rightarrow> remote_job \<Rightarrow> u32 \<Rightarrow> u32 \<Rightarrow> u32 option" where
  "mine_from sha job end_nonce nonce =
     (if nonce < end_nonce then
        (if check_pow sha (remote_header job nonce) (rj_target job) (rj_target_len job) then Some nonce
         else mine_from sha job end_nonce (nonce + 1))
      else None)"
  by pat_completeness auto

termination mine_from
proof (relation "measure (\<lambda>(sha, job, end_nonce, nonce). unat end_nonce - unat nonce)", goal_cases)
  case (2 sha job end_nonce nonce)
  then have "unat (nonce + 1) = unat nonce + 1" "unat nonce < unat end_nonce"
    using unat_Suc_less[of nonce end_nonce] by (simp_all add: word_less_nat_alt)
  then show ?case by simp
qed simp

declare mine_from.simps [simp del]

definition remote_mine :: "(u8 list \<Rightarrow> u8 list) \<Rightarrow> remote_job \<Rightarrow> u32 \<Rightarrow> u32 option" where
  "remote_mine sha job start_nonce = mine_from sha job (start_nonce + 1000) start_nonce"

section \<open>The search of the remote miner\<close>

lemma mine_from_spec:
  assumes "nonce \<le> e"
  shows "(case mine_from sha job e nonce of
      Some n \<Rightarrow> nonce \<le> n \<and> n < e \<and> check_pow sha (remote_header job n) (rj_target job) (rj_target_len job) \<and>
        (\<forall>k. nonce \<le> k \<and> k < n \<longrightarrow> \<not> check_pow sha (remote_header job k) (rj_target job) (rj_target_len job))
    | None \<Rightarrow> \<forall>k. nonce \<le> k \<and> k < e \<longrightarrow> \<not> check_pow sha (remote_header job k) (rj_target job) (rj_target_len job))"
  using assms
proof (induction sha job e nonce rule: mine_from.induct)
  case (1 sha job e nonce)
  let ?ok = "\<lambda>k. check_pow sha (remote_header job k) (rj_target job) (rj_target_len job)"
  show ?case
  proof (cases "nonce < e \<and> \<not> ?ok nonce")
    case True
    have s: "nonce + 1 \<le> k \<longleftrightarrow> nonce < k" for k
      using True unat_Suc_less[of nonce e] by (auto simp: word_less_nat_alt word_le_nat_alt)
    have r: "mine_from sha job e nonce = mine_from sha job e (nonce + 1)" using True by (subst mine_from.simps) simp
    have ih: "nonce + 1 \<le> e \<Longrightarrow> case mine_from sha job e (nonce + 1) of
        Some n \<Rightarrow> nonce + 1 \<le> n \<and> n < e \<and> ?ok n \<and> (\<forall>k. nonce + 1 \<le> k \<and> k < n \<longrightarrow> \<not> ?ok k)
      | None \<Rightarrow> \<forall>k. nonce + 1 \<le> k \<and> k < e \<longrightarrow> \<not> ?ok k" using 1(1) True by blast
    have "?ok k \<Longrightarrow> nonce \<le> k \<Longrightarrow> nonce < k" for k using True by (cases "k = nonce") (auto simp: order.strict_iff_order)
    then show ?thesis using ih True unfolding r s by (auto split: option.splits simp: less_imp_le)
  next
    case False
    then show ?thesis using 1(2) by (subst mine_from.simps) auto
  qed
qed

lemma nbits_target_value:
  assumes "3 \<le> nbits_exponent nbits" "nbits_exponent nbits \<le> 32"
  shows "be_val (nbits_to_target nbits) = unat (nbits_mantissa nbits) * 256 ^ (nbits_exponent nbits - 3)"
    "length (nbits_to_target nbits) = 32"
proof -
  let ?e = "nbits_exponent nbits" and ?m = "nbits_mantissa nbits"
  define p where "p = 32 - ?e"
  have p: "p + 2 < 32" "29 - p = ?e - 3" "30 - p = Suc (?e - 3)" "31 - p = Suc (Suc (?e - 3))"
    using assms by (simp_all add: p_def)
  have t: "nbits_to_target nbits = (replicate 32 0)[p := ucast (drop_bit 16 ?m), p + 1 := ucast (drop_bit 8 ?m), p + 2 := ucast ?m]"
    using assms p by (simp add: nbits_to_target_def p_def Let_def)
  show "length (nbits_to_target nbits) = 32" unfolding t by simp
  have "uint (ucast ?m :: u64) < 2 ^ 23" by (rule nbits_mantissa_small)
  moreover have "take_bit 64 (uint ?m) = uint ?m" using uint_lt2p[of ?m] by (intro take_bit_int_eq_self) auto
  ultimately have "uint ?m < 2 ^ 23" by (simp add: unsigned_ucast_eq)
  then have "int (unat ?m) < int (2 ^ 23)" unfolding uint_nat by simp
  then have "unat ?m < 2 ^ 23" by (simp only: of_nat_less_iff)
  then have m: "unat ?m div 65536 mod 256 = unat ?m div 65536" by simp
  have "unat ?m = (unat ?m div 65536) * 65536 + (unat ?m div 256 mod 256) * 256 + unat ?m mod 256"
  proof -
    have "unat ?m div 65536 = unat ?m div 256 div 256" by (simp add: div_mult2_eq[symmetric])
    moreover have "unat ?m div 256 = unat ?m div 256 div 256 * 256 + unat ?m div 256 mod 256"
      "unat ?m = unat ?m div 256 * 256 + unat ?m mod 256" by simp_all
    ultimately show ?thesis by linarith
  qed
  then have s: "((unat ?m div 65536) * 65536 + (unat ?m div 256 mod 256) * 256 + unat ?m mod 256) * q = unat ?m * q" for q
    by simp
  have "be_val (nbits_to_target nbits) = (unat ?m div 65536) * 256 ^ (31 - p) +
      (unat ?m div 256 mod 256) * 256 ^ (30 - p) + (unat ?m mod 256) * 256 ^ (29 - p)"
    unfolding t using p(1) unat_byte[of 16 ?m] unat_byte[of 8 ?m] unat_byte[of 0 ?m] m
    by (simp add: be_val_update nth_list_update)
  then show "be_val (nbits_to_target nbits) = unat ?m * 256 ^ (?e - 3)"
    unfolding p(2-4) using s[of "256 ^ (?e - 3)"] by (simp only: power_Suc add_mult_distrib mult.assoc)
qed

text \<open>
  The miner for an upstream gate searches correctly: the target it derives from the bits of a job
  is \<open>mantissa * 256 ^ (exponent - 3)\<close>, and the search over a window of 1000 nonces that does not wrap
  returns the first nonce whose double hash, as a little-endian number, is at most that target, and
  nothing only if no nonce of the window is good.
\<close>

theorem remote_mine_exact:
  assumes "\<And>x. length (sha x) = 32" "rj_target job = nbits_to_target nbits" "rj_target_len job = 32"
    and "3 \<le> nbits_exponent nbits" "nbits_exponent nbits \<le> 32" "unat start + 1000 < 2 ^ 32"
  defines "good \<equiv> \<lambda>k. be_val (rev (sha (sha (remote_header job k))))
      \<le> unat (nbits_mantissa nbits) * 256 ^ (nbits_exponent nbits - 3)"
  shows "case remote_mine sha job start of
      Some n \<Rightarrow> start \<le> n \<and> n < start + 1000 \<and> good n \<and> (\<forall>k. start \<le> k \<and> k < n \<longrightarrow> \<not> good k)
    | None \<Rightarrow> \<forall>k. start \<le> k \<and> k < start + 1000 \<longrightarrow> \<not> good k"
proof -
  have g: "check_pow sha (remote_header job k) (rj_target job) (rj_target_len job) \<longleftrightarrow> good k" for k
    using assms(1-3) nbits_target_value[OF assms(4,5)] by (simp add: check_pow_def not_above_iff good_def)
  have "unat (start + 1000) = unat start + 1000" using assms(6) by (simp add: unat_word_ariths)
  then have "start \<le> start + 1000" by (simp add: word_le_nat_alt)
  from mine_from_spec[OF this, of sha job] show ?thesis unfolding g remote_mine_def .
qed

definition demo_remote_job :: remote_job where
  "demo_remote_job = \<lparr>rj_job_id = 1, rj_prevhash = replicate 32 0, rj_merkle_root = replicate 32 0, rj_version = 2,
     rj_nbits = 0x1d00ffff, rj_ntime = 3, rj_target = nbits_to_target 0x1d00ffff, rj_target_len = 32\<rparr>"

theorem remote_mine_exact_witness: "remote_mine (\<lambda>x. replicate 32 0) demo_remote_job 7 = Some 7"
proof -
  have e: "nbits_exponent 0x1d00ffff = 29" by (simp add: nbits_exponent_def drop_bit_eq_div)
  have d: "rj_target demo_remote_job = nbits_to_target 0x1d00ffff" "rj_target_len demo_remote_job = 32"
    by (simp_all add: demo_remote_job_def)
  note r = remote_mine_exact[of "\<lambda>x. replicate 32 0" demo_remote_job "0x1d00ffff" 7, OF _ d]
  show ?thesis
  proof (cases "remote_mine (\<lambda>x. replicate 32 0) demo_remote_job 7")
    case None
    then show ?thesis using r e by (auto dest: spec[of _ "7 :: u32"])
  next
    case (Some n)
    then have "7 \<le> n" "\<not> 7 < n" using r e by (auto dest: spec[of _ "7 :: u32"])
    then show ?thesis using Some by simp
  qed
qed

section \<open>Shares over HTTP\<close>

lemma credit_http_share_spec:
  fixes env :: op_env and ip :: u32 and a :: u64
  assumes inv: "sess_inv g"
  defines "h \<equiv> credit_http_share env ip a g"
  shows "sess_inv h" "in_sync g \<Longrightarrow> in_sync h" "sess_platform h = sess_platform g"
    "ip \<in> active_ips h \<or> (\<forall>x \<in> set (s_sessions g). active x \<and> \<not> session_is_expired env g x)"
proof -
  let ?full = "\<forall>x \<in> set (s_sessions g). active x \<and> \<not> session_is_expired env g x"
  let ?ok = "\<lambda>h. sess_inv h \<and> (in_sync g \<longrightarrow> in_sync h) \<and> sess_platform h = sess_platform g \<and> (ip \<in> active_ips h \<or> ?full)"
  let ?fresh = "case session_create env ip a g of
      (Some i, g1) \<Rightarrow> g1\<lparr>s_sessions := (s_sessions g1)[i := (s_sessions g1 ! i)\<lparr>payment_method := TG_PAYMENT_MINING\<rparr>]\<rparr>
    | (None, g1) \<Rightarrow> g1"
  obtain r g1 where c: "session_create env ip a g = (r, g1)" by fastforce
  have "create_metered env [] ip a g = (r, g1)" using c by (simp add: create_metered_def)
  note cs = create_metered_spec[OF inv this] and cn = create_metered_None[OF inv, of env "[]" ip a]
  have fresh: "?ok ?fresh"
  proof (cases r)
    case None
    then show ?thesis using cs c cn by (auto simp: create_metered_def)
  next
    case (Some i)
    have i: "i < length (s_sessions g1)" "active (s_sessions g1 ! i)" "client_ip (s_sessions g1 ! i) = ip"
      using cs(4) Some by blast+
    let ?s = "(s_sessions g1 ! i)\<lparr>payment_method := TG_PAYMENT_MINING\<rparr>"
    have "sess_inv (g1\<lparr>s_sessions := (s_sessions g1)[i := ?s]\<rparr>)"
      "active_ips (g1\<lparr>s_sessions := (s_sessions g1)[i := ?s]\<rparr>) = active_ips g1"
      by (rule edit_slot[OF cs(1) i(1)]; simp)+
    moreover have "ip \<in> active_ips g1" using i by (auto simp: active_ips_def in_used_iff)
    ultimately show ?thesis using cs c Some by (simp add: in_sync_def)
  qed
  have "?ok h"
  proof (cases "session_find_by_ip g ip")
    case (Some i)
    note f = find_by_ip_Some[OF Some]
    have "ip \<in> active_ips g" using find_by_ip_None[of g ip] Some by auto
    then have "?ok (session_extend i a g)"
      using session_extend_spec[OF inv f(1), of a] by (auto simp: in_sync_def)
    then show ?thesis using fresh Some by (simp add: h_def credit_http_share_def Let_def)
  qed (use fresh in \<open>simp add: h_def credit_http_share_def Let_def\<close>)
  then show "sess_inv h" "in_sync g \<Longrightarrow> in_sync h" "sess_platform h = sess_platform g" "ip \<in> active_ips h \<or> ?full" by blast+
qed

text \<open>A share as the body of the request describes it.\<close>

definition share_json :: "u32 \<Rightarrow> u32 \<Rightarrow> u32 \<Rightarrow> u32 \<Rightarrow> json" where
  "share_json job_id nonce ntime version = JObj [(''job_id'', json_int (uint job_id)), (''nonce'', json_int (uint nonce)),
     (''ntime'', json_int (uint ntime)), (''version'', json_int (uint version))]"

lemma d2u32_uint: "d2u32 (valuedouble (json_int (uint w))) = Ok w"
proof -
  have "trunc_rat (of_int (uint w)) = uint w" by (rule trunc_rat_of_int)
  then show ?thesis using uint_lt2p[of w] by (simp add: d2u32_def valuedouble_def json_int_def)
qed

lemma share_json_fields:
  "json_get_ci (share_json j n t v) ''job_id'' = Some (json_int (uint j))"
  "json_get_ci (share_json j n t v) ''nonce'' = Some (json_int (uint n))"
  "json_get_ci (share_json j n t v) ''ntime'' = Some (json_int (uint t))"
  "json_get_ci (share_json j n t v) ''version'' = Some (json_int (uint v))"
  by (simp_all add: json_get_ci_def share_json_def to_lower_def)

text \<open>What the pool client tells the share handler.\<close>

definition pool_takes :: "pool_config \<Rightarrow> bool \<Rightarrow> pool_client \<Rightarrow> u32 \<Rightarrow> u32 \<Rightarrow> u32 \<Rightarrow> bool" where
  "pool_takes cfg wrote pc job_id nonce ntime =
     (case stratum_client_submit_share cfg wrote job_id nonce ntime pc of Ok (ok, pc') \<Rightarrow> ok | _ \<Rightarrow> False)"

lemma pool_takes_iff:
  "pc_extranonce2_size pc \<le> 32 \<Longrightarrow> pool_takes cfg wrote pc job_id nonce ntime \<longleftrightarrow> pc_connected pc \<and> wrote"
  by (simp add: pool_takes_def stratum_client_submit_share_def Let_def)

lemma mining_share_taken:
  assumes "n \<noteq> 0" "n < 512" "parse (c_str bytes) = Some (share_json job_id nonce ntime version)"
    and "submit job_id nonce ntime"
    and "mining_get_or_create_client (env_ticks_ms env) ip (mining_update_hashrate (env_ticks_ms env) ip True (core_mining st)) = (r, m2)"
  shows "api_post_mining_share parse submit (Some job_id) env cfg ip n (Some bytes) st =
    (case r of None \<Rightarrow> Undef
     | Some i \<Rightarrow> cbind (mining_shares_to_allotment_ms (hashrate_ghs (m_clients m2 ! i)) (mining_get_current_hashprice m2)
           (cfg_price_per_step cfg) (cfg_step_size_ms cfg))
         (\<lambda>a. Ok (json_resp S200 (JObj [(''accepted'', JBool True), (''hashrate_ghs'', JNum (Fin (hashrate_ghs (m_clients m2 ! i))))]),
            st\<lparr>core_mining := m2, core_sess := credit_http_share env ip a (core_sess st)\<rparr>)))"
  using assms by (simp add: api_post_mining_share_def share_json_fields d2u32_uint Let_def split: option.split)

text \<open>
  Mining over HTTP needs no mining: while the pool connection is up, a share with the current job
  id and any nonce and time whatsoever is taken as accepted and the sender is let through the gate,
  unless all ten slots hold other live sessions. The nonce is never hashed; that the bytes could be
  written to the pool's socket counts as the pool's approval.
\<close>

theorem http_share_unverified:
  assumes "core_reach ext st" "pc_connected pc" "pc_extranonce2_size pc \<le> 32" "n \<noteq> 0" "n < 512"
    and "parse (c_str bytes) = Some (share_json job_id nonce ntime version)"
    and "api_post_mining_share parse (pool_takes pcfg True pc) (Some job_id) env cfg ip n (Some bytes) st = Ok (resp, st')"
  shows "resp_status resp = S200 \<and> (core_is_client_allowed st' ip \<or>
    (\<forall>x \<in> set (s_sessions (core_sess st)). active x \<and> \<not> session_is_expired env (core_sess st) x))"
proof -
  have inv: "core_inv st" using assms(1) by (rule core_reach_inv)
  have t: "pool_takes pcfg True pc job_id nonce ntime" using assms(2,3) by (simp add: pool_takes_iff)
  let ?m1 = "mining_update_hashrate (env_ticks_ms env) ip True (core_mining st)"
  obtain r m2 where g: "mining_get_or_create_client (env_ticks_ms env) ip ?m1 = (r, m2)" by fastforce
  have mi: "mining_inv m2"
    using get_or_create_spec(1)[OF mining_update_inv[OF core_invD(3)[OF inv]] g] .
  obtain a where st': "st' = st\<lparr>core_mining := m2, core_sess := credit_http_share env ip a (core_sess st)\<rparr>"
    and "resp_status resp = S200"
    using assms(7) mining_share_taken[of n parse bytes job_id nonce ntime version "pool_takes pcfg True pc", OF assms(4-6) t g]
    by (auto simp: cbind_Ok_iff split: option.splits)
  note sp = credit_http_share_spec[OF core_invD(1)[OF inv], where env = env and ip = ip and a = a]
  have "core_inv st'" using sp(1-3) inv mi st' by (simp add: core_inv_def)
  then show ?thesis using sp(4) st' \<open>resp_status resp = S200\<close> allowed_iff_paid(1)[of st' ip] by (auto simp: paid_def)
qed

definition demo_pool_cfg :: pool_config where
  "demo_pool_cfg = \<lparr>pcfg_host = ''pool'', pcfg_port = 3333, pcfg_user = ''u'', pcfg_pass = ''x'', pcfg_locking_pubkey = None\<rparr>"

lemma demo_mining:
  "core_mining demo_core0 = mining_init"
  "\<exists>c. mc_ip c = 5 \<and> mining_update_hashrate now 5 True mining_init =
     mining_init\<lparr>m_clients := (m_clients mining_init)[0 := c], m_client_count := 1\<rparr>"
proof -
  show "core_mining demo_core0 = mining_init" by (simp add: demo_core0_def core_init_def core_boot_def Let_def)
  have g: "mining_get_or_create_client now 5 mining_init =
      (Some 0, mining_init\<lparr>m_clients := (m_clients mining_init)[0 := fresh_stats now 5], m_client_count := 1\<rparr>)"
    by (simp add: mining_get_or_create_client_def mining_find_def mining_init_def MINING_MAX_CLIENTS_def fresh_stats_def)
  show "\<exists>c. mc_ip c = 5 \<and> mining_update_hashrate now 5 True mining_init =
     mining_init\<lparr>m_clients := (m_clients mining_init)[0 := c], m_client_count := 1\<rparr>"
    unfolding mining_update_hashrate_def g
    by (rule exI, rule conjI[rotated]) (auto simp: Let_def mining_init_def MINING_MAX_CLIENTS_def)
qed

theorem http_share_unverified_witness:
  "\<exists>resp st'. api_post_mining_share (\<lambda>t. Some (share_json 5 77 78 2)) (pool_takes demo_pool_cfg True (pool_boot\<lparr>pc_connected := True\<rparr>))
      (Some 5) demo_env demo_cfg_api 5 9 (Some ''x'') demo_core0 = Ok (resp, st') \<and> core_is_client_allowed st' 5"
proof -
  let ?pc = "pool_boot\<lparr>pc_connected := True\<rparr>" and ?now = "env_ticks_ms demo_env"
  obtain c where c: "mc_ip c = 5" "mining_update_hashrate ?now 5 True mining_init =
      mining_init\<lparr>m_clients := (m_clients mining_init)[0 := c], m_client_count := 1\<rparr>" using demo_mining(2) by blast
  define m where "m = mining_init\<lparr>m_clients := (m_clients mining_init)[0 := c], m_client_count := 1\<rparr>"
  have g: "mining_get_or_create_client ?now 5 m = (Some 0, m)"
    using c(1) by (simp add: mining_get_or_create_client_def mining_find_def m_def mining_init_def MINING_MAX_CLIENTS_def numeral_eq_Suc)
  have h: "mining_get_current_hashprice m = 0" by (simp add: mining_get_current_hashprice_def m_def mining_init_def)
  have t: "pool_takes demo_pool_cfg True ?pc 5 77 78" by (subst pool_takes_iff) (simp_all add: pool_boot_def)
  obtain resp st' where r: "api_post_mining_share (\<lambda>t. Some (share_json 5 77 78 2)) (pool_takes demo_pool_cfg True ?pc)
      (Some 5) demo_env demo_cfg_api 5 9 (Some ''x'') demo_core0 = Ok (resp, st')"
    using mining_share_taken[of 9 "\<lambda>t. Some (share_json 5 77 78 2)" "''x''" 5 77 78 2 "pool_takes demo_pool_cfg True ?pc"
        demo_env 5 demo_core0 "Some 0" m, OF _ _ refl t, of demo_cfg_api] g
    by (simp add: demo_mining(1) c(2)[folded m_def] h mining_shares_to_allotment_ms_def)
  have "\<not> (\<forall>x \<in> set (s_sessions (core_sess demo_core0)). active x)"
    using first_idx_SomeD[OF demo_core0_fresh(3)] by auto
  then have "core_is_client_allowed st' 5"
    using http_share_unverified[OF demo_core0_reach _ _ _ _ _ r] by (auto simp: pool_boot_def)
  with r show ?thesis by blast
qed

section \<open>Jobs over HTTP\<close>

lemma remote_hex_roundtrip: "length out = length bs \<Longrightarrow> remote_hex_to_bytes (hex_of_bytes bs) out = bs"
proof (induction bs arbitrary: out)
  case (Cons b bs)
  then obtain x xs where "out = x # xs" "length xs = length bs" by (cases out) auto
  moreover have "ucast (ucast b :: u32) = b" by (rule bit_eqI) (auto simp: bit_simps)
  ultimately show ?case
    using Cons.IH[of xs] scan_2x_hex2[of b "hex_of_bytes bs"] by (simp add: hex_of_bytes_def hex2_def)
qed (simp add: hex_of_bytes_def)

text \<open>
  The miner works on the gate's job: from the answer of \<open>GET /mining/job\<close>, printed and parsed
  faithfully, \<open>fetch_job\<close> gets the id, hashes, version, bits and time of the proxy's current job, for
  all 32-bit values; without a valid job the answer is not a success and the miner gets nothing.
\<close>

theorem mining_job_roundtrip:
  assumes "length (sj_prevhash (px_job px)) = 32" "length (sj_merkle_root (px_job px)) = 32"
    and "get (take 63 (''http://'' @ gw @ '':2121/mining/job'')) =
      Some (if resp_status (api_get_mining_job px m) = S200 then 200 else 503, body)"
    and "\<And>j. resp_body (api_get_mining_job px m) = B_Json j \<Longrightarrow> parse (c_str (take 2047 body)) = Some j"
  shows "if sj_valid (px_job px)
    then \<exists>job. fetch_job get parse gw = Ok job \<and> rj_job_id job = sj_job_id (px_job px) \<and>
      rj_prevhash job = sj_prevhash (px_job px) \<and> rj_merkle_root job = sj_merkle_root (px_job px) \<and>
      rj_version job = sj_version (px_job px) \<and> rj_nbits job = sj_nbits (px_job px) \<and> rj_ntime job = sj_ntime (px_job px) \<and>
      rj_target job = nbits_to_target (sj_nbits (px_job px))
    else fetch_job get parse gw = Fail"
proof (cases "sj_valid (px_job px)")
  case True
  let ?j = "px_job px"
  let ?o = "JObj [(''job_id'', json_int (uint (sj_job_id ?j))), (''prevhash'', JStr (hex_of_bytes (sj_prevhash ?j))),
    (''merkle_root'', JStr (hex_of_bytes (sj_merkle_root ?j))), (''version'', json_int (uint (sj_version ?j))),
    (''nbits'', json_int (uint (sj_nbits ?j))), (''ntime'', json_int (uint (sj_ntime ?j))),
    (''hashprice'', JNum (Fin (mining_get_current_hashprice m)))]"
  have r: "api_get_mining_job px m = json_resp S200 ?o" using True by (simp add: api_get_mining_job_def Let_def)
  have g: "json_get_ci ?o ''job_id'' = Some (json_int (uint (sj_job_id ?j)))"
    "json_get_ci ?o ''prevhash'' = Some (JStr (hex_of_bytes (sj_prevhash ?j)))"
    "json_get_ci ?o ''merkle_root'' = Some (JStr (hex_of_bytes (sj_merkle_root ?j)))"
    "json_get_ci ?o ''version'' = Some (json_int (uint (sj_version ?j)))"
    "json_get_ci ?o ''nbits'' = Some (json_int (uint (sj_nbits ?j)))"
    "json_get_ci ?o ''ntime'' = Some (json_int (uint (sj_ntime ?j)))"
    by (simp_all add: json_get_ci_def to_lower_def)
  have "parse (c_str (take 2047 body)) = Some ?o" using assms(4)[of ?o] r by (simp add: json_resp_def)
  then have "fetch_job get parse gw = read_job ?o" using assms(3) r by (simp add: fetch_job_def)
  also have "\<dots> = Ok \<lparr>rj_job_id = sj_job_id ?j, rj_prevhash = sj_prevhash ?j, rj_merkle_root = sj_merkle_root ?j,
      rj_version = sj_version ?j, rj_nbits = sj_nbits ?j, rj_ntime = sj_ntime ?j, rj_target = nbits_to_target (sj_nbits ?j),
      rj_target_len = 32\<rparr>"
    unfolding read_job_def g using assms(1,2) by (simp add: d2u32_uint remote_hex_roundtrip)
  finally show ?thesis using True by simp
next
  case False
  then have "resp_status (api_get_mining_job px m) \<noteq> S200" by (simp add: api_get_mining_job_def)
  then show ?thesis using False assms(3) by (simp add: fetch_job_def)
qed

theorem mining_job_roundtrip_witness:
  "\<exists>job. fetch_job (\<lambda>u. Some (200, ''b'')) (\<lambda>t. case resp_body (api_get_mining_job demo_proxy mining_init) of B_Json j \<Rightarrow> Some j | _ \<Rightarrow> None)
      ''10.0.0.1'' = Ok job \<and> rj_job_id job = 5"
proof -
  have j: "px_job demo_proxy = zero_job\<lparr>sj_valid := True, sj_job_id := 5, sj_version := 9\<rparr>" by (simp add: demo_proxy_def)
  then have "resp_status (api_get_mining_job demo_proxy mining_init) = S200" by (simp add: api_get_mining_job_def Let_def)
  then show ?thesis
    using mining_job_roundtrip[of demo_proxy "\<lambda>u. Some (200, ''b'')" "''10.0.0.1''" mining_init "''b''"
        "\<lambda>t. case resp_body (api_get_mining_job demo_proxy mining_init) of B_Json j \<Rightarrow> Some j | _ \<Rightarrow> None"] j
    by (auto simp: zero_job_def)
qed

section \<open>The difficulty of the proxy\<close>

text \<open>The mining side of the gate after start-up: the pool client runs and miners connect.\<close>

inductive pool_reach :: "(string \<Rightarrow> json option) \<Rightarrow> pool_config \<Rightarrow> pool_sys \<Rightarrow> bool" for parse cfg where
  start: "pool_reach parse cfg \<lparr>ps_client = pool_init pc, ps_proxy = snd (proxy_init port True proxy_boot), ps_mining = m\<rparr>"
| pool: "pool_reach parse cfg ps \<Longrightarrow> pool_iteration parse cfg up input ps = Ok (ps', rest) \<Longrightarrow> pool_reach parse cfg ps'"
| miner: "pool_reach parse cfg ps \<Longrightarrow> serve_connection env fd ip blocks (ps_proxy ps, ps_mining ps) = Ok (px, m) \<Longrightarrow>
    pool_reach parse cfg (ps\<lparr>ps_proxy := px, ps_mining := m\<rparr>)"

lemma broadcast_keeps [simp]: "px_difficulty (broadcast_to_miners msg px) = px_difficulty px"
proof -
  have "px_difficulty (fold (\<lambda>m. px_send (mi_fd m) msg) ms px) = px_difficulty px" for ms :: "miner_client list"
    by (induction ms arbitrary: px) (simp_all add: px_send_def)
  then show ?thesis by (simp add: broadcast_to_miners_def)
qed

lemma pool_request_difficulty:
  "pool_request jroot ps = Ok ps' \<Longrightarrow> px_difficulty (ps_proxy ps') = px_difficulty (ps_proxy ps)"
  by (auto simp: pool_request_def Let_def handle_mining_notify_def handle_mining_set_difficulty_def handle_mining_token_def
    proxy_set_job_def cbind_Ok_iff split: option.splits if_splits cres.splits)

lemma serve_difficulty:
  assumes "serve_connection env fd ip blocks (px, m) = Ok (px', m')"
  shows "px_difficulty px' = px_difficulty px"
proof -
  have u: "px_difficulty (unregister_miner fd p) = px_difficulty p" for p by (simp add: unregister_miner_def split: option.split)
  show ?thesis using assms
    by (auto simp: serve_connection_def register_miner_def cbind_Ok_iff u line_keeps_def dest!: handle_lines_keeps split: option.splits)
qed

text \<open>
  The pool's difficulty never reaches the miners: whatever the pool sends and whatever the miners
  do, the proxy checks every share against difficulty 1, since the handler of \<open>mining.set_difficulty\<close>
  only stores the value for the statistics.
\<close>

theorem pool_difficulty_unused:
  assumes "pool_reach parse cfg ps"
  shows "px_difficulty (ps_proxy ps) = 1"
  using assms
proof (induction rule: pool_reach.induct)
  case (start pc port m)
  then show ?case by (simp add: proxy_init_def proxy_boot_def Let_def)
next
  case (pool ps up input ps' rest)
  then show ?case
    by (auto simp: pool_iteration_def cbind_Ok_iff dest!: pool_request_difficulty split: prod.splits bool.splits option.splits if_splits)
next
  case (miner ps env fd ip blocks px m)
  then show ?case using serve_difficulty by simp
qed

theorem pool_difficulty_unused_witness:
  "px_difficulty (ps_proxy \<lparr>ps_client = pool_init pool_boot, ps_proxy = snd (proxy_init 3333 True proxy_boot), ps_mining = mining_init\<rparr>) = 1"
  by (rule pool_difficulty_unused[OF pool_reach.start[of "\<lambda>t. None" demo_pool_cfg]])

end
