(* ===== verification/TG_Miner.thy ===== *)
theory TG_Miner
  imports TG_Pool
begin

text \<open>
  Mining on the device itself (\<^verbatim>\<open>main/sw_miner.c\<close>, \<^verbatim>\<open>main/asic_miner.c\<close>): one round of the software miner on the
  current job of the proxy, and start and stop of both miners. SHA-256, the random start and the tasks of FreeRTOS
  are parameters.
\<close>

section \<open>A round\<close>

definition sha256d :: "(u8 list \<Rightarrow> u8 list) \<Rightarrow> u8 list \<Rightarrow> u8 list" where
  "sha256d sha data = sha (sha data)"

text \<open>The bytes 64 to 75 of the header are never written; \<open>junk\<close> is what the stack held there.\<close>

definition sw_header :: "u8 list \<Rightarrow> stratum_job \<Rightarrow> u32 \<Rightarrow> u8 list" where
  "sw_header junk job nonce = sj_prevhash job @ sj_merkle_root job @ junk @ le32 nonce"

text \<open>\<open>memcmp(a, b, n) <= 0\<close> on bytes.\<close>

fun memcmp_le :: "u8 list \<Rightarrow> u8 list \<Rightarrow> nat \<Rightarrow> bool" where
  "memcmp_le (a # as) (b # bs) (Suc n) = (a < b \<or> a = b \<and> memcmp_le as bs n)"
| "memcmp_le as bs n = True"

definition sw_hit :: "(u8 list \<Rightarrow> u8 list) \<Rightarrow> u8 list \<Rightarrow> stratum_job \<Rightarrow> u32 \<Rightarrow> bool" where
  "sw_hit sha junk job nonce = memcmp_le (sha256d sha (sw_header junk job nonce)) (sj_target job) (sj_target_len job)"

text \<open>The nonces from \<open>nonce\<close> up to \<open>end_nonce\<close>: the number of hashes and the first hit.\<close>

function sw_search :: "(u32 \<Rightarrow> bool) \<Rightarrow> u32 \<Rightarrow> u32 \<Rightarrow> nat \<times> u32 option" where
  "sw_search hit end_nonce nonce =
     (if nonce < end_nonce then
        (if hit nonce then (1, Some nonce)
         else case sw_search hit end_nonce (nonce + 1) of (n, r) \<Rightarrow> (Suc n, r))
      else (0, None))"
  by pat_completeness auto

termination sw_search
proof (relation "measure (\<lambda>(hit, end_nonce, nonce). unat end_nonce - unat nonce)", goal_cases)
  case (2 hit end_nonce nonce)
  then have "unat (nonce + 1) = unat nonce + 1" "unat nonce < unat end_nonce"
    using unat_Suc_less[of nonce end_nonce] by (simp_all add: word_less_nat_alt)
  then show ?case by simp
qed simp

declare sw_search.simps [simp del]

text \<open>
  One pass of the task. The state is that of the pool client and of the mining table; the miner counts as the client
  with address 0. The result of the submission is not looked at.
\<close>

definition sw_miner_round ::
    "(u8 list \<Rightarrow> u8 list) \<Rightarrow> u8 list \<Rightarrow> pool_config \<Rightarrow> bool \<Rightarrow> i64 \<Rightarrow> u32 \<Rightarrow> stratum_job \<Rightarrow> pool_client \<times> mining_state \<Rightarrow>
     (nat \<times> pool_client \<times> mining_state) cres" where
  "sw_miner_round sha junk cfg wrote now start_nonce job st = (case st of (pc, m) \<Rightarrow>
     if \<not> sj_valid job then Ok (0, pc, m)
     else (case sw_search (sw_hit sha junk job) (start_nonce + 1000) start_nonce of
        (n, None) \<Rightarrow> Ok (n, pc, m)
      | (n, Some nonce) \<Rightarrow> cbind (stratum_client_submit_share cfg wrote (sj_job_id job) nonce (sj_ntime job) pc) (\<lambda>(_, pc').
          Ok (n, pc', mining_update_hashrate now 0 True m))))"

text \<open>Millions of hashes per second, once a second has passed.\<close>

definition sw_hashrate :: "nat \<Rightarrow> int \<Rightarrow> rat \<Rightarrow> rat" where
  "sw_hashrate hashes elapsed_s old = (if 0 < elapsed_s then fl (fl (fl (of_nat hashes) / of_int elapsed_s) / 1000000) else old)"

section \<open>Start and stop\<close>

record miner_task =
  mt_running :: bool
  mt_task :: bool
  mt_hashrate :: rat

definition sw_miner_start :: "bool \<Rightarrow> bool \<Rightarrow> miner_task \<Rightarrow> bool \<times> miner_task" where
  "sw_miner_start stack_ok task_ok t =
     (if mt_running t then (True, t)
      else let t = t\<lparr>mt_running := True, mt_hashrate := 0\<rparr> in
        if \<not> stack_ok then (False, t\<lparr>mt_running := False\<rparr>)
        else if \<not> task_ok then (False, t\<lparr>mt_running := False, mt_task := False\<rparr>)
        else (True, t\<lparr>mt_task := True\<rparr>))"

definition sw_miner_stop :: "miner_task \<Rightarrow> miner_task" where
  "sw_miner_stop t = t\<lparr>mt_running := False, mt_task := False\<rparr>"

record asic =
  as_present :: bool
  as_running :: bool
  as_task :: bool

definition asic_miner_init :: "asic \<Rightarrow> asic" where
  "asic_miner_init a = a\<lparr>as_present := False\<rparr>"

definition asic_miner_start :: "bool \<Rightarrow> asic \<Rightarrow> bool \<times> asic" where
  "asic_miner_start task_ok a =
     (if \<not> as_present a then (False, a)
      else if task_ok then (True, a\<lparr>as_running := True, as_task := True\<rparr>) else (False, a\<lparr>as_running := False\<rparr>))"

definition asic_miner_stop :: "asic \<Rightarrow> asic" where
  "asic_miner_stop a = a\<lparr>as_running := False, as_task := False\<rparr>"

section \<open>What the search finds\<close>

lemma sw_search_spec:
  assumes "nonce \<le> e" "sw_search hit e nonce = (n, r)"
  shows "case r of
      Some k \<Rightarrow> nonce \<le> k \<and> k < e \<and> hit k \<and> (\<forall>j. nonce \<le> j \<and> j < k \<longrightarrow> \<not> hit j) \<and> n = unat k - unat nonce + 1
    | None \<Rightarrow> (\<forall>j. nonce \<le> j \<and> j < e \<longrightarrow> \<not> hit j) \<and> n = unat e - unat nonce"
  using assms
proof (induction hit e nonce arbitrary: n r rule: sw_search.induct)
  case (1 hit e nonce)
  show ?case
  proof (cases "nonce < e \<and> \<not> hit nonce")
    case True
    have u: "unat (nonce + 1) = unat nonce + 1" using True unat_Suc_less[of nonce e] by auto
    have s: "nonce + 1 \<le> k \<longleftrightarrow> nonce < k" for k using u by (auto simp: word_less_nat_alt word_le_nat_alt)
    obtain n1 where n1: "sw_search hit e (nonce + 1) = (n1, r)" "n = Suc n1"
      using 1(3) True by (subst (asm) sw_search.simps) (auto split: prod.splits)
    have ih: "case r of
        Some k \<Rightarrow> nonce + 1 \<le> k \<and> k < e \<and> hit k \<and> (\<forall>j. nonce + 1 \<le> j \<and> j < k \<longrightarrow> \<not> hit j) \<and> n1 = unat k - unat (nonce + 1) + 1
      | None \<Rightarrow> (\<forall>j. nonce + 1 \<le> j \<and> j < e \<longrightarrow> \<not> hit j) \<and> n1 = unat e - unat (nonce + 1)"
      using 1(1)[OF _ _ _ n1(1)] True s by auto
    have h: "hit k \<Longrightarrow> nonce \<le> k \<Longrightarrow> nonce < k" for k using True by (cases "k = nonce") (auto simp: order.strict_iff_order)
    show ?thesis using ih n1(2) True h unfolding s u by (auto simp: word_less_nat_alt word_le_nat_alt split: option.splits)
  next
    case False
    then show ?thesis using 1(2,3) by (subst (asm) sw_search.simps) (auto split: if_splits)
  qed
qed

text \<open>
  The pool client gives every job a target of 32 bytes \<open>0xFF\<close>, which no hash is above. The software miner therefore
  reports its very first hash as a share, whatever it is, and counts it as accepted.
\<close>

lemma unat_top: "unat (a :: 'a :: len word) < 2 ^ LENGTH('a)"
  by (rule unsigned_less)

lemma memcmp_le_top: "length as = n \<Longrightarrow> memcmp_le as (replicate n 0xFF) n"
proof (induction as arbitrary: n)
  case (Cons a as)
  then obtain k where k: "n = Suc k" "length as = k" by auto
  have "unat a \<le> 255" using unat_top[of a] by simp
  then have "a < 0xFF \<or> a = 0xFF" by (auto simp: word_less_nat_alt word_unat_eq_iff)
  then show ?case using Cons.IH[OF k(2)] k(1) by auto
qed simp

theorem sw_miner_reports_anything:
  assumes "stratum_parse_notify params = Ok (job, nbits)" "\<And>d. length (sha d) = 32" "unat start_nonce + 1000 < 2 ^ 32"
    and "stratum_client_submit_share cfg wrote (sj_job_id job) start_nonce (sj_ntime job) pc = Ok (ok, pc')"
  shows "sw_miner_round sha junk cfg wrote now start_nonce job (pc, m) = Ok (1, pc', mining_update_hashrate now 0 True m)"
proof -
  have j: "sj_valid job" "sj_target job = replicate 32 0xFF" "sj_target_len job = 32"
    using assms(1) by (auto simp: stratum_parse_notify_def Let_def split: option.splits if_splits)
  have "sw_hit sha junk job start_nonce" 
    using memcmp_le_top[of "sha256d sha (sw_header junk job start_nonce)" 32] assms(2) j by (simp add: sw_hit_def sha256d_def)
  moreover have "start_nonce < start_nonce + 1000"
    using assms(3) by (simp add: word_less_nat_alt unat_word_ariths)
  ultimately have "sw_search (sw_hit sha junk job) (start_nonce + 1000) start_nonce = (1, Some start_nonce)"
    by (subst sw_search.simps) simp
  then show ?thesis using j(1) assms(4) by (simp add: sw_miner_round_def)
qed

text \<open>A start in the last thousand nonces makes the end wrap; then no hash is computed.\<close>

theorem sw_search_wraps:
  assumes "2 ^ 32 \<le> unat start_nonce + 1000"
  shows "sw_search hit (start_nonce + 1000) start_nonce = (0, None)"
proof -
  have "unat (start_nonce + 1000) = unat start_nonce + 1000 - 2 ^ 32"
    using assms unat_top[of start_nonce] by (simp add: unat_word_ariths mod_if)
  then have "\<not> start_nonce < start_nonce + 1000" using unat_top[of start_nonce] by (simp add: word_less_nat_alt)
  then show ?thesis by (subst sw_search.simps) simp
qed

section \<open>Witnesses\<close>

definition demo_notify :: json where
  "demo_notify = JArr [JStr ''7'', JStr ''00'', JStr [], JStr [], JStr [], JStr ''2'', JStr ''1d00ffff'', JStr ''5'']"

theorem sw_miner_reports_anything_witness:
  "\<exists>job nbits pc' m'. stratum_parse_notify (Some demo_notify) = Ok (job, nbits) \<and>
     sw_miner_round (\<lambda>d. replicate 32 200) [] demo_pool_cfg True 0 5 job (pool_boot\<lparr>pc_connected := True\<rparr>, mining_init) = Ok (1, pc', m') \<and>
     pc_shares_accepted pc' = 1"
proof -
  let ?pc = "pool_boot\<lparr>pc_connected := True\<rparr>"
  obtain job nbits where j: "stratum_parse_notify (Some demo_notify) = Ok (job, nbits)"
    by (auto simp: stratum_parse_notify_def demo_notify_def json_arr_def arr_item_def json_str_def Let_def)
  obtain pc' where p: "stratum_client_submit_share demo_pool_cfg True (sj_job_id job) 5 (sj_ntime job) ?pc = Ok (True, pc')"
      "pc_shares_accepted pc' = 1"
    by (auto simp: stratum_client_submit_share_def pool_boot_def Let_def)
  show ?thesis using j p(2) sw_miner_reports_anything[OF j _ _ p(1), of "\<lambda>d. replicate 32 200"] by auto
qed

theorem sw_search_wraps_witness: "sw_search (\<lambda>n. True) (4294967000 + 1000) 4294967000 = (0, None)"
  by (rule sw_search_wraps) simp

end
