(* ===== verification/TG_Input.thy ===== *)
theory TG_Input
  imports TG_CString
begin

text \<open>
  Input on the touch screen: the on-screen keyboard (\<^verbatim>\<open>main/keyboard.c\<close>), the dialogue that chooses an upstream
  network (\<^verbatim>\<open>main/wifi_setup.c\<close>) and the readings of the touch controller (\<^verbatim>\<open>main/touch.c\<close>). The bus of the
  controller is a parameter. Coordinates are \<open>int\<close>s; the ones that occur are far from the bounds of the type.
\<close>

unbundle bit_operations_syntax

section \<open>Keyboard\<close>

definition KB_INPUT_MAX :: int where
  "KB_INPUT_MAX = 64"

datatype kb_layer = KB_ALPHA_LOWER | KB_ALPHA_UPPER | KB_NUMSYM

datatype kb_action =
    KB_ACTION_NONE | KB_ACTION_CHAR | KB_ACTION_SHIFT | KB_ACTION_BACKSPACE | KB_ACTION_DONE | KB_ACTION_LAYER | KB_ACTION_SPACE

record kb_state =
  kb_input :: string
  kb_cursor :: int
  kb_reveal :: bool
  kb_layer_of :: kb_layer

record kb_layout =
  kl_key_w :: int
  kl_key_h :: int
  kl_key_gap :: int
  kl_start_y :: int
  kl_screen_w :: int
  kl_row_count :: int

definition s_layout :: kb_layout where
  "s_layout = \<lparr>kl_key_w = 28, kl_key_h = 36, kl_key_gap = 2, kl_start_y = 70, kl_screen_w = 320, kl_row_count = 4\<rparr>"

definition CTRL_SHIFT :: char where
  "CTRL_SHIFT = CHR 0x01"

definition CTRL_LAYER :: char where
  "CTRL_LAYER = CHR 0x02"

definition CTRL_SPACE :: char where
  "CTRL_SPACE = CHR 0x03"

definition CTRL_DONE :: char where
  "CTRL_DONE = CHR 0x04"

definition CTRL_BS :: char where
  "CTRL_BS = CHR 0x08"

definition s_alpha_lower :: "string list" where
  "s_alpha_lower = [''qwertyuiop'', ''asdfghjkl'', [CTRL_SHIFT] @ ''zxcvbnm'' @ [CTRL_BS], [CTRL_LAYER, CTRL_SPACE, CTRL_DONE]]"

definition s_alpha_upper :: "string list" where
  "s_alpha_upper = [''QWERTYUIOP'', ''ASDFGHJKL'', [CTRL_SHIFT] @ ''ZXCVBNM'' @ [CTRL_BS], [CTRL_LAYER, CTRL_SPACE, CTRL_DONE]]"

text \<open>The third row ends in a backslash and the letter \<open>b\<close>: the source escapes the backslash.\<close>

definition s_numsym :: "string list" where
  "s_numsym = [''1234567890'', ''-/:;()$&@'' @ [CHR 0x22], [CTRL_SHIFT] @ ''.,?!'' @ [CHR 0x27, CHR 0x5C, CHR ''b''],
     [CTRL_LAYER, CTRL_SPACE, CTRL_DONE]]"

definition kb_state_init :: kb_state where
  "kb_state_init = \<lparr>kb_input = replicate 65 (CHR 0x00), kb_cursor = 0, kb_reveal = False, kb_layer_of = KB_ALPHA_LOWER\<rparr>"

definition kb_set_layout :: "kb_layout option \<Rightarrow> kb_layout \<Rightarrow> kb_layout" where
  "kb_set_layout layout old = (case layout of Some l \<Rightarrow> l | None \<Rightarrow> old)"

definition get_layer :: "kb_layer \<Rightarrow> string list" where
  "get_layer layer = (case layer of KB_ALPHA_UPPER \<Rightarrow> s_alpha_upper | KB_NUMSYM \<Rightarrow> s_numsym | KB_ALPHA_LOWER \<Rightarrow> s_alpha_lower)"

text \<open>A layer has four rows; a layout with more reads behind the array.\<close>

definition kb_get_row_keys :: "kb_layout \<Rightarrow> int \<Rightarrow> kb_layer \<Rightarrow> string option cres" where
  "kb_get_row_keys l row layer =
     (if row < 0 \<or> kl_row_count l \<le> row then Ok None
      else if 4 \<le> row then Undef
      else Ok (Some (get_layer layer ! nat row)))"

text \<open>Division of \<open>int\<close>s rounds towards zero.\<close>

definition kb_div :: "int \<Rightarrow> int \<Rightarrow> int" where
  "kb_div a b = sgn a * sgn b * (\<bar>a\<bar> div \<bar>b\<bar>)"

definition row_x_offset :: "kb_layout \<Rightarrow> int \<Rightarrow> int \<Rightarrow> int" where
  "row_x_offset l row total_keys =
     (let kw = kl_key_w l;
          total_w = total_keys * kw + (total_keys - 1) * kl_key_gap l;
          margin = max 2 (kb_div (kl_screen_w l - total_w) 2) in
      if row = 1 then margin + kb_div kw 2 else if row = 2 then margin + kw else margin)"

definition key_width_at :: "kb_layout \<Rightarrow> int \<Rightarrow> int \<Rightarrow> int \<Rightarrow> int" where
  "key_width_at l row col total_keys =
     (if row = 3 then
        let gap = kl_key_gap l;
            available = kl_screen_w l - row_x_offset l 3 total_keys * 2;
            side_w = kb_div (available - gap) 4 in
        if col = 0 \<or> col = total_keys - 1 then side_w else available - side_w * 2 - gap * 2
      else kl_key_w l)"

definition key_result :: "char \<Rightarrow> kb_action \<times> char" where
  "key_result c =
     (if c = CTRL_SHIFT then (KB_ACTION_SHIFT, CHR 0x00)
      else if c = CTRL_LAYER then (KB_ACTION_LAYER, CHR 0x00)
      else if c = CTRL_SPACE then (KB_ACTION_SPACE, CHR '' '')
      else if c = CTRL_DONE then (KB_ACTION_DONE, CHR 0x00)
      else if c = CTRL_BS then (KB_ACTION_BACKSPACE, CHR 0x00)
      else (KB_ACTION_CHAR, c))"

fun scan_keys :: "kb_layout \<Rightarrow> int \<Rightarrow> int \<Rightarrow> int \<Rightarrow> int \<Rightarrow> int \<Rightarrow> string \<Rightarrow> kb_action \<times> char" where
  "scan_keys l row total_keys tx cx col [] = (KB_ACTION_NONE, CHR 0x00)"
| "scan_keys l row total_keys tx cx col (c # cs) =
     (let key_w = key_width_at l row col total_keys in
      if cx \<le> tx \<and> tx < cx + key_w then key_result c
      else scan_keys l row total_keys tx (cx + (key_w + kl_key_gap l)) (col + 1) cs)"

definition kb_hit_test :: "kb_layout \<Rightarrow> int \<Rightarrow> int \<Rightarrow> kb_layer \<Rightarrow> (kb_action \<times> char) cres" where
  "kb_hit_test l tx ty layer =
     (let none = (KB_ACTION_NONE, CHR 0x00); pitch = kl_key_h l + kl_key_gap l in
      if ty < kl_start_y l \<or> kl_start_y l + kl_row_count l * pitch \<le> ty then Ok none
      else if pitch = 0 then Undef
      else
        let row = kb_div (ty - kl_start_y l) pitch in
        if row < 0 \<or> kl_row_count l \<le> row then Ok none
        else cbind (kb_get_row_keys l row layer) (\<lambda>keys. case keys of
            None \<Rightarrow> Ok none
          | Some ks \<Rightarrow> Ok (scan_keys l row (int (length ks)) tx (row_x_offset l row (int (length ks))) 0 ks)))"

definition kb_put :: "char \<Rightarrow> kb_state \<Rightarrow> kb_state" where
  "kb_put c st =
     (if kb_cursor st < KB_INPUT_MAX
      then st\<lparr>kb_input := (kb_input st)[nat (kb_cursor st) := c, nat (kb_cursor st + 1) := CHR 0x00], kb_cursor := kb_cursor st + 1\<rparr>
      else st)"

definition kb_apply :: "kb_state \<Rightarrow> kb_action \<times> char \<Rightarrow> kb_state" where
  "kb_apply st result = (case fst result of
       KB_ACTION_NONE \<Rightarrow> st
     | KB_ACTION_CHAR \<Rightarrow> kb_put (snd result) st
     | KB_ACTION_BACKSPACE \<Rightarrow>
         if 0 < kb_cursor st
         then st\<lparr>kb_input := (kb_input st)[nat (kb_cursor st - 1) := CHR 0x00], kb_cursor := kb_cursor st - 1\<rparr>
         else st
     | KB_ACTION_SHIFT \<Rightarrow>
         st\<lparr>kb_layer_of := (case kb_layer_of st of KB_ALPHA_LOWER \<Rightarrow> KB_ALPHA_UPPER | KB_ALPHA_UPPER \<Rightarrow> KB_ALPHA_LOWER | KB_NUMSYM \<Rightarrow> KB_NUMSYM)\<rparr>
     | KB_ACTION_LAYER \<Rightarrow> st\<lparr>kb_layer_of := (if kb_layer_of st = KB_NUMSYM then KB_ALPHA_LOWER else KB_NUMSYM)\<rparr>
     | KB_ACTION_SPACE \<Rightarrow> kb_put CHR '' '' st
     | KB_ACTION_DONE \<Rightarrow> st)"

section \<open>Choosing a network\<close>

definition WIFI_SETUP_MAX_APS :: int where
  "WIFI_SETUP_MAX_APS = 20"

definition WIFI_SETUP_MAX_VISIBLE :: int where
  "WIFI_SETUP_MAX_VISIBLE = 8"

datatype setup_state =
    SETUP_SCAN | SETUP_LIST | SETUP_PASSWORD | SETUP_CONNECTING | SETUP_SUCCESS | SETUP_FAILED | SETUP_CANCELLED

record wifi_ap_info =
  wa_ssid :: string
  wa_rssi :: int
  wa_secured :: bool

record wifi_setup =
  wz_state :: setup_state
  wz_aps :: "wifi_ap_info list"
  wz_ap_count :: int
  wz_list_scroll :: int
  wz_selected_ap :: int
  wz_selected_ssid :: string
  wz_connect_ip :: string
  wz_failed_auth :: bool

definition wifi_setup_init :: wifi_setup where
  "wifi_setup_init = \<lparr>wz_state = SETUP_SCAN, wz_aps = replicate 20 \<lparr>wa_ssid = [], wa_rssi = 0, wa_secured = False\<rparr>, wz_ap_count = 0,
     wz_list_scroll = 0, wz_selected_ap = - 1, wz_selected_ssid = [], wz_connect_ip = [], wz_failed_auth = False\<rparr>"

text \<open>A negative count becomes a huge size of the copy.\<close>

definition wifi_setup_set_aps :: "wifi_ap_info list \<Rightarrow> int \<Rightarrow> wifi_setup \<Rightarrow> wifi_setup cres" where
  "wifi_setup_set_aps aps cnt s =
     (let n = min cnt WIFI_SETUP_MAX_APS in
      if n < 0 \<or> int (length aps) < n then Undef
      else Ok (s\<lparr>wz_aps := take (nat n) aps @ drop (nat n) (wz_aps s), wz_ap_count := n, wz_list_scroll := 0, wz_state := SETUP_LIST\<rparr>))"

definition wifi_setup_visible_count :: "wifi_setup \<Rightarrow> int" where
  "wifi_setup_visible_count s = max 0 (min (wz_ap_count s - wz_list_scroll s) WIFI_SETUP_MAX_VISIBLE)"

definition wifi_setup_get_visible :: "wifi_setup \<Rightarrow> int \<Rightarrow> wifi_ap_info option" where
  "wifi_setup_get_visible s idx =
     (if idx < 0 \<or> wifi_setup_visible_count s \<le> idx then None else Some (wz_aps s ! nat (wz_list_scroll s + idx)))"

definition wifi_setup_handle_select :: "int \<Rightarrow> wifi_setup \<Rightarrow> wifi_setup" where
  "wifi_setup_handle_select list_idx s =
     (if wz_state s \<noteq> SETUP_LIST \<or> list_idx < 0 \<or> wifi_setup_visible_count s \<le> list_idx then s
      else
        let real_idx = wz_list_scroll s + list_idx in
        s\<lparr>wz_selected_ap := real_idx, wz_selected_ssid := c_strncpy 33 (wa_ssid (wz_aps s ! nat real_idx)), wz_state := SETUP_PASSWORD\<rparr>)"

definition wifi_setup_handle_connect :: "wifi_setup \<Rightarrow> wifi_setup" where
  "wifi_setup_handle_connect s = (if wz_state s \<noteq> SETUP_PASSWORD then s else s\<lparr>wz_state := SETUP_CONNECTING\<rparr>)"

definition wifi_setup_handle_connect_result :: "bool \<Rightarrow> string option \<Rightarrow> wifi_setup \<Rightarrow> wifi_setup" where
  "wifi_setup_handle_connect_result success ip s =
     (if wz_state s \<noteq> SETUP_CONNECTING then s
      else if success then
        s\<lparr>wz_state := SETUP_SUCCESS, wz_connect_ip := (case ip of Some t \<Rightarrow> c_strncpy 16 t | None \<Rightarrow> wz_connect_ip s), wz_failed_auth := False\<rparr>
      else s\<lparr>wz_state := SETUP_FAILED, wz_failed_auth := True, wz_connect_ip := []\<rparr>)"

definition wifi_setup_handle_cancel :: "wifi_setup \<Rightarrow> wifi_setup" where
  "wifi_setup_handle_cancel s = s\<lparr>wz_state := SETUP_CANCELLED\<rparr>"

definition wifi_setup_handle_retry :: "wifi_setup \<Rightarrow> wifi_setup" where
  "wifi_setup_handle_retry s = (if wz_state s \<noteq> SETUP_FAILED then s else s\<lparr>wz_state := SETUP_PASSWORD, wz_failed_auth := False\<rparr>)"

definition wifi_setup_handle_change_network :: "wifi_setup \<Rightarrow> wifi_setup" where
  "wifi_setup_handle_change_network s = (if wz_state s \<noteq> SETUP_FAILED then s else s\<lparr>wz_state := SETUP_LIST, wz_failed_auth := False\<rparr>)"

section \<open>Touch\<close>

definition TOUCH_MAX_X :: u16 where
  "TOUCH_MAX_X = 319"

definition TOUCH_MAX_Y :: u16 where
  "TOUCH_MAX_Y = 479"

record touch_point =
  tp_x :: u16
  tp_y :: u16
  tp_touched :: bool

definition touch_parse_raw :: "u8 list \<Rightarrow> touch_point" where
  "touch_parse_raw data =
     (if data ! 0 \<noteq> 0 \<or> data ! 1 = 0 \<or> 1 < data ! 1 then \<lparr>tp_x = 0, tp_y = 0, tp_touched = False\<rparr>
      else
        let raw_x = push_bit 8 (ucast (data ! 2 AND 0x0F)) OR ucast (data ! 3);
            raw_y = push_bit 8 (ucast (data ! 4 AND 0x0F)) OR ucast (data ! 5) in
        \<lparr>tp_x = min raw_x TOUCH_MAX_X, tp_y = min raw_y TOUCH_MAX_Y, tp_touched = True\<rparr>)"

record touch_state =
  to_initialized :: bool
  to_rotation :: int

text \<open>The bus: whether bus and device can be created, and the answer to a reading, eight bytes, if both transfers succeed.\<close>

definition touch_init :: "bool \<Rightarrow> touch_state \<Rightarrow> bool \<times> touch_state" where
  "touch_init bus_ok s = (if to_initialized s then (True, s) else if bus_ok then (True, s\<lparr>to_initialized := True\<rparr>) else (False, s))"

definition touch_rotate :: "int \<Rightarrow> touch_point \<Rightarrow> touch_point" where
  "touch_rotate rotation pt =
     (if rotation = 1 then pt\<lparr>tp_x := tp_y pt, tp_y := TOUCH_MAX_X - tp_x pt\<rparr>
      else if rotation = 2 then pt\<lparr>tp_x := TOUCH_MAX_X - tp_x pt, tp_y := TOUCH_MAX_Y - tp_y pt\<rparr>
      else if rotation = 3 then pt\<lparr>tp_x := TOUCH_MAX_Y - tp_y pt, tp_y := tp_x pt\<rparr>
      else pt)"

definition touch_read :: "u8 list option \<Rightarrow> touch_state \<Rightarrow> touch_point \<Rightarrow> touch_point" where
  "touch_read answer s pt =
     (if \<not> to_initialized s then pt\<lparr>tp_touched := False\<rparr>
      else (case answer of
         None \<Rightarrow> pt\<lparr>tp_touched := False\<rparr>
       | Some data \<Rightarrow> let p = touch_parse_raw data in if tp_touched p then touch_rotate (to_rotation s) p else p))"

definition touch_set_rotation :: "int \<Rightarrow> touch_state \<Rightarrow> touch_state" where
  "touch_set_rotation rotation s = s\<lparr>to_rotation := rotation\<rparr>"

definition touch_deinit :: "touch_state \<Rightarrow> touch_state" where
  "touch_deinit s = s\<lparr>to_initialized := False\<rparr>"

section \<open>What is typed\<close>

definition kb_text :: "kb_state \<Rightarrow> string" where
  "kb_text st = take (nat (kb_cursor st)) (kb_input st)"

definition kb_wf :: "kb_state \<Rightarrow> bool" where
  "kb_wf st \<longleftrightarrow> 0 \<le> kb_cursor st \<and> kb_cursor st \<le> KB_INPUT_MAX \<and> CHR 0x00 \<notin> set (kb_text st) \<and>
     kb_input st = kb_text st @ replicate (65 - nat (kb_cursor st)) (CHR 0x00)"

text \<open>The abstract text field: at most 64 characters, added and removed at the end.\<close>

definition edit_text :: "kb_action \<times> char \<Rightarrow> string \<Rightarrow> string" where
  "edit_text r t =
     (if fst r = KB_ACTION_BACKSPACE then butlast t
      else if fst r = KB_ACTION_CHAR \<and> length t < 64 then t @ [snd r]
      else if fst r = KB_ACTION_SPACE \<and> length t < 64 then t @ '' ''
      else t)"

lemma kb_text_length: "kb_wf st \<Longrightarrow> length (kb_text st) = nat (kb_cursor st) \<and> length (kb_input st) = 65"
proof -
  assume w: "kb_wf st"
  then have "length (kb_input st) = length (kb_text st) + (65 - nat (kb_cursor st))"
    unfolding kb_wf_def by (metis length_append length_replicate)
  moreover have "length (kb_text st) \<le> nat (kb_cursor st)" by (simp add: kb_text_def)
  moreover have "nat (kb_cursor st) \<le> 64" using w unfolding kb_wf_def KB_INPUT_MAX_def by linarith
  moreover have "length (kb_text st) = min (nat (kb_cursor st)) (length (kb_input st))" by (simp add: kb_text_def min.commute)
  ultimately show ?thesis by linarith
qed

lemma kb_wf_text:
  assumes "length t \<le> 64" "CHR 0x00 \<notin> set t" "kb_input st = t @ replicate (65 - length t) (CHR 0x00)" "kb_cursor st = int (length t)"
  shows "kb_wf st \<and> kb_text st = t"
  using assms by (simp add: kb_wf_def kb_text_def KB_INPUT_MAX_def)

lemma kb_put_text:
  assumes "kb_wf st" "c \<noteq> CHR 0x00" "length (kb_text st) < 64"
  shows "kb_wf (kb_put c st) \<and> kb_text (kb_put c st) = kb_text st @ [c]"
proof (rule kb_wf_text)
  let ?t = "kb_text st"
  have l: "length ?t = nat (kb_cursor st)" "0 \<le> kb_cursor st" "kb_cursor st < 64" "CHR 0x00 \<notin> set ?t"
    using kb_text_length[OF assms(1)] assms(1,3) by (simp_all add: kb_wf_def)
  have i: "kb_input st = ?t @ CHR 0x00 # CHR 0x00 # replicate (63 - length ?t) (CHR 0x00)"
    using assms(1) l by (simp add: kb_wf_def Suc_diff_Suc flip: replicate_Suc)
  show "length (?t @ [c]) \<le> 64" "CHR 0x00 \<notin> set (?t @ [c])" using assms(2,3) l by auto
  have k: "nat (kb_cursor st + 1) = Suc (length ?t)" using l by simp
  show "kb_cursor (kb_put c st) = int (length (?t @ [c]))" using l by (simp add: kb_put_def KB_INPUT_MAX_def)
  have "(kb_input st)[length ?t := c, Suc (length ?t) := CHR 0x00] = ?t @ c # CHR 0x00 # replicate (63 - length ?t) (CHR 0x00)"
    by (subst i) (simp add: list_update_append)
  then show "kb_input (kb_put c st) = (?t @ [c]) @ replicate (65 - length (?t @ [c])) (CHR 0x00)"
    using l k assms(3) by (simp add: kb_put_def KB_INPUT_MAX_def Suc_diff_Suc flip: replicate_Suc)
qed

lemma kb_backspace_text:
  assumes "kb_wf st" "kb_apply st (KB_ACTION_BACKSPACE, c) = st'"
  shows "kb_wf st' \<and> kb_text st' = butlast (kb_text st)"
proof (cases "kb_text st = []")
  case True
  then have "kb_cursor st = 0" using kb_text_length[OF assms(1)] assms(1) by (simp add: kb_wf_def)
  then show ?thesis using assms True by (simp add: kb_apply_def)
next
  case False
  let ?t = "kb_text st"
  obtain b x where t: "?t = b @ [x]" using False by (metis append_butlast_last_id)
  have l: "length ?t = nat (kb_cursor st)" "0 \<le> kb_cursor st" "kb_cursor st \<le> 64" "CHR 0x00 \<notin> set ?t"
    using kb_text_length[OF assms(1)] assms(1) by (simp_all add: kb_wf_def KB_INPUT_MAX_def)
  have n: "nat (kb_cursor st - 1) = length b" "kb_cursor st = int (length b) + 1" using l t by auto
  have "kb_input st = b @ x # replicate (64 - length b) (CHR 0x00)" using assms(1) n t by (simp add: kb_wf_def)
  then have "(kb_input st)[length b := CHR 0x00] = b @ CHR 0x00 # replicate (64 - length b) (CHR 0x00)" by simp
  then have "kb_input st' = b @ replicate (65 - length b) (CHR 0x00)" "kb_cursor st' = int (length b)"
    using assms(2) n l by (auto simp: kb_apply_def Suc_diff_le simp flip: replicate_Suc)
  then show ?thesis using kb_wf_text[of b st'] l n t by auto
qed

text \<open>
  The array with its cursor implements the text field: every action changes the text as the abstract field does,
  and the array stays terminated inside its 65 bytes.
\<close>

theorem kb_apply_refines:
  assumes "kb_wf st" "fst r = KB_ACTION_CHAR \<Longrightarrow> snd r \<noteq> CHR 0x00"
  shows "kb_wf (kb_apply st r) \<and> kb_text (kb_apply st r) = edit_text r (kb_text st)"
proof -
  obtain a c where r: "r = (a, c)" by force
  have full: "kb_put x st = st" if "\<not> length (kb_text st) < 64" for x
    using that kb_text_length[OF assms(1)] by (simp add: kb_put_def KB_INPUT_MAX_def)
  have lay: "kb_wf (st\<lparr>kb_layer_of := x\<rparr>) \<and> kb_text (st\<lparr>kb_layer_of := x\<rparr>) = kb_text st" for x
    using assms(1) by (simp add: kb_wf_def kb_text_def)
  show ?thesis
  proof (cases a)
    case KB_ACTION_CHAR
    then show ?thesis using r assms kb_put_text full by (cases "length (kb_text st) < 64") (simp_all add: kb_apply_def edit_text_def)
  next
    case KB_ACTION_SPACE
    then show ?thesis using r assms kb_put_text[OF assms(1), of "CHR '' ''"] full
      by (cases "length (kb_text st) < 64") (simp_all add: kb_apply_def edit_text_def)
  next
    case KB_ACTION_BACKSPACE
    then show ?thesis using r kb_backspace_text[OF assms(1) refl] by (simp add: edit_text_def)
  qed (use r assms(1) lay in \<open>simp_all add: kb_apply_def edit_text_def\<close>)
qed

inductive kb_reach :: "kb_state \<Rightarrow> bool" where
  init: "kb_reach kb_state_init"
| press: "kb_reach st \<Longrightarrow> kb_hit_test l tx ty (kb_layer_of st) = Ok r \<Longrightarrow> kb_reach (kb_apply st r)"

lemma scan_keys_result: "scan_keys l row n tx cx col cs = (KB_ACTION_NONE, CHR 0x00) \<or> scan_keys l row n tx cx col cs \<in> key_result ` set cs"
  by (induction l row n tx cx col cs rule: scan_keys.induct) (auto simp: Let_def)

lemma hit_test_result:
  assumes "kb_hit_test l tx ty layer = Ok r"
  shows "r = (KB_ACTION_NONE, CHR 0x00) \<or> r \<in> key_result ` set (concat (get_layer layer))"
proof -
  have four: "length (get_layer layer) = 4" by (simp add: get_layer_def s_alpha_lower_def s_alpha_upper_def s_numsym_def split: kb_layer.split)
  let ?row = "kb_div (ty - kl_start_y l) (kl_key_h l + kl_key_gap l)"
  let ?ks = "get_layer layer ! nat ?row"
  have "r = (KB_ACTION_NONE, CHR 0x00) \<or>
      0 \<le> ?row \<and> ?row < 4 \<and> r = scan_keys l ?row (int (length ?ks)) tx (row_x_offset l ?row (int (length ?ks))) 0 ?ks"
    using assms by (auto simp: kb_hit_test_def kb_get_row_keys_def Let_def cbind_Ok_iff split: if_splits option.splits)
  then consider "r = (KB_ACTION_NONE, CHR 0x00)" | "nat ?row < 4" "r \<in> key_result ` set ?ks"
    using scan_keys_result[of l ?row "int (length ?ks)" tx "row_x_offset l ?row (int (length ?ks))" 0 ?ks] by auto
  then show ?thesis
  proof cases
    case 2
    then have "?ks \<in> set (get_layer layer)" using four by simp
    then show ?thesis using 2(2) by auto
  qed simp
qed

lemma layer_keys_nonzero: "CHR 0x00 \<notin> set (concat (get_layer layer))"
  by (cases layer) (simp_all add: get_layer_def s_alpha_lower_def s_alpha_upper_def s_numsym_def CTRL_SHIFT_def CTRL_LAYER_def
    CTRL_SPACE_def CTRL_DONE_def CTRL_BS_def)

text \<open>(C37) Whatever is pressed, under any layout, the typed text stays a terminated string of at most 64 characters.\<close>

theorem kb_reach_wf: "kb_reach st \<Longrightarrow> kb_wf st \<and> c_str (kb_input st) = kb_text st"
proof -
  have "kb_reach st \<Longrightarrow> kb_wf st"
  proof (induction rule: kb_reach.induct)
    case init
    then show ?case by (simp add: kb_wf_def kb_text_def kb_state_init_def KB_INPUT_MAX_def)
  next
    case (press st l tx ty r)
    have "fst r = KB_ACTION_CHAR \<Longrightarrow> snd r \<noteq> CHR 0x00"
      using hit_test_result[OF press(2)] layer_keys_nonzero[of "kb_layer_of st"] by (auto simp: key_result_def split: if_splits)
    then show ?case using kb_apply_refines[OF press(3)] by blast
  qed
  moreover have "kb_wf st \<Longrightarrow> c_str (kb_input st) = kb_text st"
  proof -
    assume w: "kb_wf st"
    have "takeWhile (\<lambda>c. c \<noteq> CHR 0x00) (kb_text st @ replicate (65 - nat (kb_cursor st)) (CHR 0x00)) = kb_text st"
      using w by (subst takeWhile_append2) (auto simp: kb_wf_def)
    then show ?thesis using w unfolding c_str_def kb_wf_def by metis
  qed
  ultimately show "kb_reach st \<Longrightarrow> kb_wf st \<and> c_str (kb_input st) = kb_text st" by blast
qed

text \<open>No place of the number layer deletes a character.\<close>

theorem kb_numsym_no_backspace: "kb_hit_test l tx ty KB_NUMSYM \<noteq> Ok (KB_ACTION_BACKSPACE, c)"
  using hit_test_result[of l tx ty KB_NUMSYM]
  by (auto simp: key_result_def get_layer_def s_numsym_def CTRL_SHIFT_def CTRL_LAYER_def CTRL_SPACE_def CTRL_DONE_def CTRL_BS_def split: if_splits)

section \<open>Every key can be pressed\<close>

lemma scan_keys_at:
  assumes "j < length cs" "\<And>k. 0 < key_width_at l row k n" "0 \<le> kl_key_gap l"
  shows "scan_keys l row n (cx + (\<Sum>k<j. key_width_at l row (col + int k) n + kl_key_gap l)) cx col cs = key_result (cs ! j)"
  using assms(1)
proof (induction j arbitrary: cx col cs)
  case 0
  then show ?case using assms(2)[of col] by (cases cs) simp_all
next
  case (Suc j)
  obtain c cs' where c: "cs = c # cs'" "j < length cs'" using Suc.prems by (cases cs) auto
  let ?w = "\<lambda>k. key_width_at l row k n"
  let ?s = "\<Sum>k<j. ?w (col + 1 + int k) + kl_key_gap l"
  have "0 \<le> ?s" using assms(2,3) by (intro sum_nonneg add_nonneg_nonneg) (auto simp: less_imp_le)
  then have n: "\<not> cx + ((?w col + kl_key_gap l) + ?s) < cx + ?w col" using assms(3) by simp
  have e: "(\<Sum>k<Suc j. ?w (col + int k) + kl_key_gap l) = (?w col + kl_key_gap l) + ?s"
    by (subst sum.lessThan_Suc_shift) (simp add: add_ac)
  show ?case unfolding e c(1) using n Suc.IH[OF c(2), of "cx + (?w col + kl_key_gap l)" "col + 1"] by (simp add: Let_def add_ac)
qed

lemma default_widths: "0 < key_width_at s_layout row k 3" "row \<noteq> 3 \<Longrightarrow> key_width_at s_layout row k n = 28"
  by (simp_all add: key_width_at_def row_x_offset_def s_layout_def kb_div_def Let_def)

lemma default_row_lengths:
  "length (get_layer layer ! 3) = 3" "row < 4 \<Longrightarrow> length (get_layer layer ! row) \<le> 10"
  by (cases layer; auto simp: get_layer_def s_alpha_lower_def s_alpha_upper_def s_numsym_def less_Suc_eq numeral_eq_Suc)+

text \<open>On the default layout every key of every layer has a place on the screen of 320 pixels.\<close>

theorem kb_every_key:
  assumes "row < 4" "j < length (get_layer layer ! row)"
  shows "\<exists>tx ty. 0 \<le> tx \<and> tx < 320 \<and> kb_hit_test s_layout tx ty layer = Ok (key_result (get_layer layer ! row ! j))"
proof -
  let ?ks = "get_layer layer ! row" and ?r = "int row"
  let ?n = "int (length ?ks)"
  define tx where "tx = row_x_offset s_layout ?r ?n + (\<Sum>k<j. key_width_at s_layout ?r (0 + int k) ?n + kl_key_gap s_layout)"
  have w: "0 < key_width_at s_layout ?r k ?n" for k
    using default_widths default_row_lengths(1)[of layer] by (cases "row = 3") auto
  have "scan_keys s_layout ?r ?n tx (row_x_offset s_layout ?r ?n) 0 ?ks = key_result (?ks ! j)"
    unfolding tx_def by (rule scan_keys_at[OF assms(2) w]) (simp add: s_layout_def)
  moreover have "kb_div (38 * ?r) 38 = ?r" by (simp add: kb_div_def abs_mult sgn_mult) (cases "row = 0"; simp)
  ultimately have "kb_hit_test s_layout tx (70 + 38 * ?r) layer = Ok (key_result (?ks ! j))"
    using assms(1) by (simp add: kb_hit_test_def kb_get_row_keys_def s_layout_def Let_def)
  moreover have "0 \<le> tx \<and> tx < 320"
  proof (cases "row = 3")
    case True
    then have "j = 0 \<or> j = 1 \<or> j = 2" using assms(2) default_row_lengths(1)[of layer] by auto
    then show ?thesis using True default_row_lengths(1)[of layer]
      by (auto simp: tx_def key_width_at_def row_x_offset_def s_layout_def kb_div_def Let_def numeral_2_eq_2)
  next
    case False
    have l: "length ?ks \<le> 10" by (rule default_row_lengths(2)[OF assms(1)])
    have s: "tx = row_x_offset s_layout ?r ?n + 30 * int j"
      using False default_widths(2)[of ?r] by (simp add: tx_def s_layout_def)
    have "row = 0 \<or> row = 1 \<or> row = 2" using False assms(1) by auto
    moreover have "kb_div (320 - (?n * 28 + (?n - 1) * 2)) 2 = 161 - 15 * ?n"
    proof -
      have "320 - (?n * 28 + (?n - 1) * 2) = 2 * (161 - 15 * ?n)" by simp
      then show ?thesis using l by (simp add: kb_div_def abs_mult sgn_mult)
    qed
    ultimately have "0 \<le> row_x_offset s_layout ?r ?n" "row_x_offset s_layout ?r ?n \<le> 189 - 15 * ?n"
      using l by (auto simp: row_x_offset_def s_layout_def Let_def kb_div_def[of 28])
    moreover have "int j + 1 \<le> ?n" "?n \<le> 10" using assms(2) l by simp_all
    ultimately show ?thesis using s by linarith
  qed
  ultimately show ?thesis by blast
qed

section \<open>The dialogue\<close>

inductive setup_reach :: "wifi_setup \<Rightarrow> bool" where
  init: "setup_reach wifi_setup_init"
| set_aps: "setup_reach s \<Longrightarrow> wifi_setup_set_aps aps n s = Ok s' \<Longrightarrow> setup_reach s'"
| select: "setup_reach s \<Longrightarrow> setup_reach (wifi_setup_handle_select i s)"
| connect: "setup_reach s \<Longrightarrow> setup_reach (wifi_setup_handle_connect s)"
| connect_result: "setup_reach s \<Longrightarrow> setup_reach (wifi_setup_handle_connect_result ok ip s)"
| cancel: "setup_reach s \<Longrightarrow> setup_reach (wifi_setup_handle_cancel s)"
| retry: "setup_reach s \<Longrightarrow> setup_reach (wifi_setup_handle_retry s)"
| change: "setup_reach s \<Longrightarrow> setup_reach (wifi_setup_handle_change_network s)"

definition setup_chosen :: "setup_state \<Rightarrow> bool" where
  "setup_chosen st \<longleftrightarrow> st \<in> {SETUP_PASSWORD, SETUP_CONNECTING, SETUP_SUCCESS, SETUP_FAILED}"

lemma setup_chosen_simps [simp]:
  "setup_chosen SETUP_PASSWORD" "setup_chosen SETUP_CONNECTING" "setup_chosen SETUP_SUCCESS" "setup_chosen SETUP_FAILED"
  "\<not> setup_chosen SETUP_SCAN" "\<not> setup_chosen SETUP_LIST" "\<not> setup_chosen SETUP_CANCELLED"
  by (simp_all add: setup_chosen_def)

definition setup_wf :: "wifi_setup \<Rightarrow> bool" where
  "setup_wf s \<longleftrightarrow> length (wz_aps s) = 20 \<and> 0 \<le> wz_ap_count s \<and> wz_ap_count s \<le> 20 \<and> wz_list_scroll s = 0 \<and>
     (setup_chosen (wz_state s) \<longrightarrow> 0 \<le> wz_selected_ap s \<and> wz_selected_ap s < min 8 (wz_ap_count s) \<and>
        wz_selected_ssid s = c_strncpy 33 (wa_ssid (wz_aps s ! nat (wz_selected_ap s))))"

text \<open>
  In every reachable state of the dialogue that asks for a password, connects or reports a result, the name shown is
  that of a network in the list, and one of the first eight: nothing scrolls the list.
\<close>

theorem setup_reach_wf: "setup_reach s \<Longrightarrow> setup_wf s"
proof (induction rule: setup_reach.induct)
  case (set_aps s aps n s')
  then have "wz_state s' = SETUP_LIST" "wz_ap_count s' = min n 20" "0 \<le> wz_ap_count s'" "wz_list_scroll s' = 0"
      "wz_aps s' = take (nat (min n 20)) aps @ drop (nat (min n 20)) (wz_aps s)" "min n 20 \<le> int (length aps)" "length (wz_aps s) = 20"
    by (auto simp: wifi_setup_set_aps_def WIFI_SETUP_MAX_APS_def Let_def setup_wf_def split: if_splits)
  then show ?case by (simp add: setup_wf_def)
next
  case (select s i)
  show ?case
  proof (cases "wz_state s \<noteq> SETUP_LIST \<or> i < 0 \<or> wifi_setup_visible_count s \<le> i")
    case False
    then have "0 \<le> i" "i < min 8 (wz_ap_count s)"
      using select by (auto simp: wifi_setup_visible_count_def WIFI_SETUP_MAX_VISIBLE_def setup_wf_def)
    then show ?thesis using False select by (simp add: wifi_setup_handle_select_def setup_wf_def)
  qed (use select in \<open>simp add: wifi_setup_handle_select_def\<close>)
next
  case init
  show ?case by (simp add: setup_wf_def wifi_setup_init_def)
next
  case (connect s)
  then show ?case by (simp add: wifi_setup_handle_connect_def setup_wf_def)
next
  case (connect_result s ok ip)
  then show ?case by (simp add: wifi_setup_handle_connect_result_def setup_wf_def)
next
  case (cancel s)
  then show ?case by (simp add: wifi_setup_handle_cancel_def setup_wf_def)
next
  case (retry s)
  then show ?case by (simp add: wifi_setup_handle_retry_def setup_wf_def)
next
  case (change s)
  then show ?case by (simp add: wifi_setup_handle_change_network_def setup_wf_def)
qed

section \<open>Touch points\<close>

lemma u16_flip: "a \<le> m \<Longrightarrow> m - a \<le> m" for a m :: u16
  by (simp add: word_sub_le)

text \<open>A reported touch lies on the screen as it is turned.\<close>

theorem touch_read_on_screen:
  assumes "tp_touched (touch_read answer s pt)" "0 \<le> to_rotation s" "to_rotation s \<le> 3"
  shows "if to_rotation s = 1 \<or> to_rotation s = 3
     then tp_x (touch_read answer s pt) \<le> TOUCH_MAX_Y \<and> tp_y (touch_read answer s pt) \<le> TOUCH_MAX_X
     else tp_x (touch_read answer s pt) \<le> TOUCH_MAX_X \<and> tp_y (touch_read answer s pt) \<le> TOUCH_MAX_Y"
proof -
  obtain data where d: "to_initialized s" "answer = Some data" "tp_touched (touch_parse_raw data)"
    using assms(1) by (auto simp: touch_read_def Let_def split: if_splits option.splits)
  have "tp_x (touch_parse_raw data) \<le> TOUCH_MAX_X" "tp_y (touch_parse_raw data) \<le> TOUCH_MAX_Y"
    using d(3) by (auto simp: touch_parse_raw_def Let_def split: if_splits)
  then show ?thesis using d by (auto simp: touch_read_def touch_rotate_def u16_flip Let_def)
qed

section \<open>Witnesses\<close>

theorem kb_apply_refines_witness:
  "kb_text (kb_apply kb_state_init (KB_ACTION_CHAR, CHR ''a'')) = ''a''"
proof -
  have "kb_wf kb_state_init" by (simp add: kb_wf_def kb_text_def kb_state_init_def KB_INPUT_MAX_def)
  then show ?thesis using kb_apply_refines[of kb_state_init "(KB_ACTION_CHAR, CHR ''a'')"]
    by (simp add: edit_text_def) (simp add: kb_text_def kb_state_init_def)
qed

lemma demo_press: "kb_hit_test s_layout 11 70 KB_ALPHA_LOWER = Ok (KB_ACTION_CHAR, CHR ''q'')"
  by (simp add: kb_hit_test_def s_layout_def kb_get_row_keys_def get_layer_def s_alpha_lower_def row_x_offset_def key_width_at_def kb_div_def
    key_result_def CTRL_SHIFT_def CTRL_LAYER_def CTRL_SPACE_def CTRL_DONE_def CTRL_BS_def Let_def)

theorem kb_reach_wf_witness: "kb_wf (kb_apply kb_state_init (KB_ACTION_CHAR, CHR ''q''))"
proof -
  have "kb_reach (kb_apply kb_state_init (KB_ACTION_CHAR, CHR ''q''))"
    by (rule kb_reach.press[OF kb_reach.init, of s_layout 11 70]) (simp add: kb_state_init_def demo_press)
  then show ?thesis using kb_reach_wf by blast
qed

theorem kb_every_key_witness: "\<exists>tx ty. 0 \<le> tx \<and> tx < 320 \<and> kb_hit_test s_layout tx ty KB_ALPHA_LOWER = Ok (key_result CHR ''q'')"
  using kb_every_key[of 0 0 KB_ALPHA_LOWER] by (simp add: get_layer_def s_alpha_lower_def)

theorem setup_reach_wf_witness: "\<exists>s. setup_wf s \<and> wz_state s = SETUP_PASSWORD \<and> wz_selected_ssid s = ''net''"
proof -
  let ?ap = "\<lparr>wa_ssid = ''net'', wa_rssi = - 50, wa_secured = True\<rparr>"
  obtain s1 where s1: "wifi_setup_set_aps [?ap] 1 wifi_setup_init = Ok s1" by (simp add: wifi_setup_set_aps_def WIFI_SETUP_MAX_APS_def)
  then have "setup_reach (wifi_setup_handle_select 0 s1)" by (intro setup_reach.select setup_reach.set_aps[OF setup_reach.init])
  moreover have "wz_state (wifi_setup_handle_select 0 s1) = SETUP_PASSWORD" "wz_selected_ssid (wifi_setup_handle_select 0 s1) = ''net''"
    using s1 by (auto simp: wifi_setup_set_aps_def WIFI_SETUP_MAX_APS_def wifi_setup_handle_select_def wifi_setup_visible_count_def
      WIFI_SETUP_MAX_VISIBLE_def c_strncpy_def)
  ultimately show ?thesis using setup_reach_wf by blast
qed

theorem touch_read_on_screen_witness:
  "tp_x (touch_read (Some [0, 1, 0, 5, 0, 9]) \<lparr>to_initialized = True, to_rotation = 2\<rparr> \<lparr>tp_x = 0, tp_y = 0, tp_touched = False\<rparr>) \<le> TOUCH_MAX_X"
  using touch_read_on_screen[of "Some [0, 1, 0, 5, 0, 9]" "\<lparr>to_initialized = True, to_rotation = 2\<rparr>" "\<lparr>tp_x = 0, tp_y = 0, tp_touched = False\<rparr>"]
  by (simp add: touch_read_def touch_parse_raw_def touch_rotate_def)

end
