(* ===== verification/TG_Display.thy ===== *)
theory TG_Display
  imports TG_Config TG_Wallet
begin

text \<open>
  The screen: the frame buffer of the panel (\<^verbatim>\<open>components/axs15231b/axs15231b.c\<close>), glyphs (\<^verbatim>\<open>main/font.c\<close>), and the
  pages with their texts and QR codes (\<^verbatim>\<open>main/display.c\<close>). The QR code generator is a parameter; the bus takes lists
  of bytes.
\<close>

unbundle bit_operations_syntax

section \<open>The panel\<close>

definition AXS15231B_WIDTH :: int where
  "AXS15231B_WIDTH = 320"

definition AXS15231B_HEIGHT :: int where
  "AXS15231B_HEIGHT = 480"

definition SWAP_BUF_PIXELS :: nat where
  "SWAP_BUF_PIXELS = 2048"

text \<open>The frame buffer holds the rows one after another; \<open>lc_sent\<close> are the transfers of pixels made so far.\<close>

record lcd =
  lc_fb :: "u16 list"
  lc_sent :: "u8 list list"

definition fill_span :: "int \<Rightarrow> int \<Rightarrow> int \<Rightarrow> u16 \<Rightarrow> u16 list \<Rightarrow> u16 list" where
  "fill_span row x1 x2 color = fold (\<lambda>col fb. fb[nat (row * AXS15231B_WIDTH + col) := color]) [x1..x2 - 1]"

definition axs15231b_fill_screen :: "u16 \<Rightarrow> lcd \<Rightarrow> lcd" where
  "axs15231b_fill_screen color d = d\<lparr>lc_fb := fold (\<lambda>row. fill_span row 0 AXS15231B_WIDTH color) [0..AXS15231B_HEIGHT - 1] (lc_fb d)\<rparr>"

definition axs15231b_fill_rect :: "int \<Rightarrow> int \<Rightarrow> int \<Rightarrow> int \<Rightarrow> u16 \<Rightarrow> lcd \<Rightarrow> lcd" where
  "axs15231b_fill_rect x y w h color d =
     (if x < 0 \<or> y < 0 \<or> AXS15231B_WIDTH < x + w \<or> AXS15231B_HEIGHT < y + h then d
      else d\<lparr>lc_fb := fold (\<lambda>row. fill_span row x (x + w) color) [y..y + h - 1] (lc_fb d)\<rparr>)"

text \<open>A pixel in memory has its low byte first, on the bus its high byte.\<close>

definition swapped :: "u16 list \<Rightarrow> u8 list" where
  "swapped ps = concat (map (\<lambda>p. [ucast (drop_bit 8 p), ucast p]) ps)"

function send_row :: "u16 list \<Rightarrow> u8 list list" where
  "send_row pixels =
     (if pixels = [] then []
      else let chunk_pixels = min (length pixels) SWAP_BUF_PIXELS in
        swapped (take chunk_pixels pixels) # send_row (drop chunk_pixels pixels))"
  by pat_completeness auto
termination
  by (relation "measure length") (auto simp: SWAP_BUF_PIXELS_def)

declare send_row.simps [simp del]

definition axs15231b_flush :: "lcd \<Rightarrow> lcd" where
  "axs15231b_flush d = d\<lparr>lc_sent := lc_sent d @
     concat (map (\<lambda>row. send_row (take (nat AXS15231B_WIDTH) (drop (row * nat AXS15231B_WIDTH) (lc_fb d)))) [0..<nat AXS15231B_HEIGHT])\<rparr>"

section \<open>Glyphs\<close>

definition font8x8_basic :: "u8 list list" where
  "font8x8_basic = [
     [0, 0, 0, 0, 0, 0, 0, 0], [0, 0, 0, 0, 0, 0, 0, 0],
     [0, 0, 0, 0, 0, 0, 0, 0], [0, 0, 0, 0, 0, 0, 0, 0],
     [0, 0, 0, 0, 0, 0, 0, 0], [0, 0, 0, 0, 0, 0, 0, 0],
     [0, 0, 0, 0, 0, 0, 0, 0], [0, 0, 0, 0, 0, 0, 0, 0],
     [0, 0, 0, 0, 0, 0, 0, 0], [0, 0, 0, 0, 0, 0, 0, 0],
     [0, 0, 0, 0, 0, 0, 0, 0], [0, 0, 0, 0, 0, 0, 0, 0],
     [0, 0, 0, 0, 0, 0, 0, 0], [0, 0, 0, 0, 0, 0, 0, 0],
     [0, 0, 0, 0, 0, 0, 0, 0], [0, 0, 0, 0, 0, 0, 0, 0],
     [0, 0, 0, 0, 0, 0, 0, 0], [0, 0, 0, 0, 0, 0, 0, 0],
     [0, 0, 0, 0, 0, 0, 0, 0], [0, 0, 0, 0, 0, 0, 0, 0],
     [0, 0, 0, 0, 0, 0, 0, 0], [0, 0, 0, 0, 0, 0, 0, 0],
     [0, 0, 0, 0, 0, 0, 0, 0], [0, 0, 0, 0, 0, 0, 0, 0],
     [0, 0, 0, 0, 0, 0, 0, 0], [0, 0, 0, 0, 0, 0, 0, 0],
     [0, 0, 0, 0, 0, 0, 0, 0], [0, 0, 0, 0, 0, 0, 0, 0],
     [0, 0, 0, 0, 0, 0, 0, 0], [0, 0, 0, 0, 0, 0, 0, 0],
     [0, 0, 0, 0, 0, 0, 0, 0], [0, 0, 0, 0, 0, 0, 0, 0],
     [0, 0, 0, 0, 0, 0, 0, 0], [24, 24, 24, 24, 24, 0, 24, 0],
     [102, 102, 0, 0, 0, 0, 0, 0], [102, 255, 102, 102, 255, 102, 0, 0],
     [24, 62, 88, 60, 26, 124, 24, 0], [98, 102, 12, 24, 48, 102, 70, 0],
     [60, 102, 60, 56, 103, 102, 63, 0], [24, 24, 48, 0, 0, 0, 0, 0],
     [12, 24, 48, 48, 48, 24, 12, 0], [48, 24, 12, 12, 12, 24, 48, 0],
     [0, 102, 60, 255, 60, 102, 0, 0], [0, 24, 24, 126, 24, 24, 0, 0],
     [0, 0, 0, 0, 0, 24, 24, 48], [0, 0, 0, 126, 0, 0, 0, 0],
     [0, 0, 0, 0, 0, 24, 24, 0], [6, 12, 24, 48, 96, 192, 128, 0],
     [60, 102, 110, 126, 118, 102, 60, 0], [24, 56, 24, 24, 24, 24, 126, 0],
     [60, 102, 6, 28, 48, 96, 126, 0], [60, 102, 6, 28, 6, 102, 60, 0],
     [28, 60, 108, 108, 126, 12, 12, 0], [126, 96, 124, 6, 6, 102, 60, 0],
     [28, 48, 96, 124, 102, 102, 60, 0], [126, 6, 12, 24, 48, 48, 48, 0],
     [60, 102, 102, 60, 102, 102, 60, 0], [60, 102, 102, 62, 6, 12, 56, 0],
     [0, 0, 24, 24, 0, 24, 24, 0], [0, 0, 24, 24, 0, 24, 24, 48],
     [12, 24, 48, 96, 48, 24, 12, 0], [0, 0, 126, 0, 126, 0, 0, 0],
     [48, 24, 12, 6, 12, 24, 48, 0], [60, 102, 12, 24, 24, 0, 24, 0],
     [60, 102, 110, 106, 110, 96, 60, 0], [60, 102, 102, 126, 102, 102, 102, 0],
     [124, 102, 102, 124, 102, 102, 124, 0], [60, 102, 96, 96, 96, 102, 60, 0],
     [120, 108, 102, 102, 102, 108, 120, 0], [126, 96, 96, 124, 96, 96, 126, 0],
     [126, 96, 96, 124, 96, 96, 96, 0], [60, 102, 96, 110, 102, 102, 60, 0],
     [102, 102, 102, 126, 102, 102, 102, 0], [60, 24, 24, 24, 24, 24, 60, 0],
     [30, 12, 12, 12, 12, 108, 56, 0], [102, 108, 120, 112, 120, 108, 102, 0],
     [96, 96, 96, 96, 96, 96, 126, 0], [99, 119, 127, 107, 99, 99, 99, 0],
     [102, 118, 126, 126, 110, 102, 102, 0], [60, 102, 102, 102, 102, 102, 60, 0],
     [124, 102, 102, 124, 96, 96, 96, 0], [60, 102, 102, 102, 106, 108, 54, 0],
     [124, 102, 102, 124, 108, 102, 102, 0], [60, 102, 96, 60, 6, 102, 60, 0],
     [126, 24, 24, 24, 24, 24, 24, 0], [102, 102, 102, 102, 102, 102, 60, 0],
     [102, 102, 102, 102, 102, 60, 24, 0], [99, 99, 99, 107, 127, 119, 99, 0],
     [102, 102, 60, 24, 60, 102, 102, 0], [102, 102, 102, 60, 24, 24, 24, 0],
     [126, 6, 12, 24, 48, 96, 126, 0], [60, 48, 48, 48, 48, 48, 60, 0],
     [192, 96, 48, 24, 12, 6, 3, 0], [60, 12, 12, 12, 12, 12, 60, 0],
     [24, 60, 102, 0, 0, 0, 0, 0], [0, 0, 0, 0, 0, 0, 255, 0],
     [24, 24, 12, 0, 0, 0, 0, 0], [0, 0, 60, 6, 62, 102, 62, 0],
     [96, 96, 124, 102, 102, 102, 124, 0], [0, 0, 60, 102, 96, 102, 60, 0],
     [6, 6, 62, 102, 102, 102, 62, 0], [0, 0, 60, 102, 126, 96, 60, 0],
     [28, 54, 48, 124, 48, 48, 48, 0], [0, 0, 62, 102, 102, 62, 6, 60],
     [96, 96, 124, 102, 102, 102, 102, 0], [24, 0, 56, 24, 24, 24, 60, 0],
     [12, 0, 28, 12, 12, 12, 108, 56], [96, 96, 102, 108, 120, 108, 102, 0],
     [56, 24, 24, 24, 24, 24, 60, 0], [0, 0, 236, 254, 214, 214, 214, 0],
     [0, 0, 124, 102, 102, 102, 102, 0], [0, 0, 60, 102, 102, 102, 60, 0],
     [0, 0, 124, 102, 102, 124, 96, 96], [0, 0, 62, 102, 102, 62, 6, 6],
     [0, 0, 124, 102, 96, 96, 96, 0], [0, 0, 62, 96, 60, 6, 124, 0],
     [48, 48, 124, 48, 48, 54, 28, 0], [0, 0, 102, 102, 102, 102, 62, 0],
     [0, 0, 102, 102, 102, 60, 24, 0], [0, 0, 214, 214, 214, 254, 108, 0],
     [0, 0, 102, 60, 24, 60, 102, 0], [0, 0, 102, 102, 102, 62, 6, 60],
     [0, 0, 126, 12, 24, 48, 126, 0], [12, 24, 24, 112, 24, 24, 12, 0],
     [24, 24, 24, 24, 24, 24, 24, 0], [48, 24, 24, 14, 24, 24, 48, 0],
     [0, 0, 49, 107, 70, 0, 0, 0], [0, 0, 0, 0, 0, 0, 0, 0]]"

definition FONT_GLYPH :: int where
  "FONT_GLYPH = 8"

definition render_glyph :: "int \<Rightarrow> int \<Rightarrow> u8 list \<Rightarrow> u16 \<Rightarrow> u16 \<Rightarrow> int \<Rightarrow> lcd \<Rightarrow> lcd" where
  "render_glyph cx cy glyph fg bg scale = fold (\<lambda>row. fold (\<lambda>col d.
       let color = (if bit (glyph ! row) (7 - col) then fg else bg);
           px = cx + int col * scale; py = cy + int row * scale in
       if px < AXS15231B_WIDTH \<and> py < AXS15231B_HEIGHT then axs15231b_fill_rect px py scale scale color d else d) [0..<8]) [0..<8]"

text \<open>The place of the next glyph: a line that is full is continued below; \<open>None\<close> when the screen is full.\<close>

definition glyph_place :: "int \<Rightarrow> int \<Rightarrow> int \<Rightarrow> int \<Rightarrow> (int \<times> int) option" where
  "glyph_place x cx cy scale =
     (let (cx, cy) = (if AXS15231B_WIDTH < cx + FONT_GLYPH * scale then (x, cy + FONT_GLYPH * scale) else (cx, cy)) in
      if AXS15231B_HEIGHT < cy + FONT_GLYPH * scale then None else Some (cx, cy))"

fun render_from :: "int \<Rightarrow> int \<Rightarrow> int \<Rightarrow> string \<Rightarrow> u16 \<Rightarrow> u16 \<Rightarrow> int \<Rightarrow> lcd \<Rightarrow> lcd" where
  "render_from x cx cy [] fg bg scale d = d"
| "render_from x cx cy (c # text) fg bg scale d =
     (case glyph_place x cx cy scale of
        None \<Rightarrow> d
      | Some (cx, cy) \<Rightarrow>
          let ch = (if 128 \<le> (of_char c :: nat) then 63 else of_char c) in
          render_from x (cx + FONT_GLYPH * scale) cy text fg bg scale (render_glyph cx cy (font8x8_basic ! ch) fg bg scale d))"

definition display_render_text :: "int \<Rightarrow> int \<Rightarrow> string \<Rightarrow> u16 \<Rightarrow> u16 \<Rightarrow> int \<Rightarrow> lcd \<Rightarrow> lcd" where
  "display_render_text x y text fg bg scale d = render_from x x y text fg bg scale d"

section \<open>State\<close>

datatype display_state = DISPLAY_BOOT | DISPLAY_READY | DISPLAY_PAYMENT_RECEIVED | DISPLAY_ERROR | DISPLAY_SETUP_PENDING

datatype display_qr_mode = DISPLAY_QR_WIFI | DISPLAY_QR_PORTAL

record display =
  ds_state :: display_state
  ds_ap_ssid :: string
  ds_portal_url :: string
  ds_mint_url :: string
  ds_wifi_status :: string
  ds_active_clients :: int
  ds_wallet_balance :: u64
  ds_price_per_step :: int
  ds_initialized :: bool
  ds_last_qr_switch :: int
  ds_qr_mode :: display_qr_mode
  ds_last_payment_sats :: int
  ds_last_allotment_ms :: int

definition display_boot :: display where
  "display_boot = \<lparr>ds_state = DISPLAY_BOOT, ds_ap_ssid = [], ds_portal_url = [], ds_mint_url = [], ds_wifi_status = ''starting...'',
     ds_active_clients = 0, ds_wallet_balance = 0, ds_price_per_step = 0, ds_initialized = False, ds_last_qr_switch = 0,
     ds_qr_mode = DISPLAY_QR_WIFI, ds_last_payment_sats = 0, ds_last_allotment_ms = 0\<rparr>"

definition COLOR_BG :: u16 where "COLOR_BG = 0x0000"
definition COLOR_WHITE :: u16 where "COLOR_WHITE = 0xFFFF"
definition COLOR_CYAN :: u16 where "COLOR_CYAN = 0x07FF"
definition COLOR_YELLOW :: u16 where "COLOR_YELLOW = 0xFFE0"
definition COLOR_GREEN :: u16 where "COLOR_GREEN = 0x07E0"
definition COLOR_ORANGE :: u16 where "COLOR_ORANGE = 0xFD20"
definition COLOR_RED :: u16 where "COLOR_RED = 0xF800"
definition COLOR_DIM :: u16 where "COLOR_DIM = 0x8410"

definition wallet_color :: "display \<Rightarrow> u16" where
  "wallet_color s = (if ds_wallet_balance s = 0 then COLOR_RED else if ds_wallet_balance s < 100 then COLOR_YELLOW else COLOR_GREEN)"

section \<open>Texts\<close>

definition qr_version_from_strlen :: "nat \<Rightarrow> nat" where
  "qr_version_from_strlen len =
     (if len \<le> 17 then 1 else if len \<le> 32 then 2 else if len \<le> 53 then 3 else if len \<le> 78 then 4 else if len \<le> 106 then 5
      else if len \<le> 134 then 6 else if len \<le> 154 then 7 else if len \<le> 192 then 8 else if len \<le> 230 then 9
      else if len \<le> 271 then 10 else 11)"

definition qr_pixel_size :: "nat \<Rightarrow> int" where
  "qr_pixel_size len = (if len \<le> 53 then 4 else if len \<le> 134 then 3 else 2)"

definition needs_escape :: "char \<Rightarrow> bool" where
  "needs_escape c \<longleftrightarrow> c \<in> {CHR 0x5C, CHR '';'', CHR '':'', CHR '','', CHR 0x22}"

fun escape_from :: "nat \<Rightarrow> nat \<Rightarrow> string \<Rightarrow> string" where
  "escape_from dst_size di [] = []"
| "escape_from dst_size di (c # src) =
     (if dst_size \<le> di + 2 then []
      else if needs_escape c then CHR 0x5C # c # escape_from dst_size (di + 2) src
      else c # escape_from dst_size (di + 1) src)"

definition escape_wifi_field :: "string \<Rightarrow> nat \<Rightarrow> string" where
  "escape_wifi_field src dst_size = escape_from dst_size 0 src"

definition extract_domain :: "string \<Rightarrow> nat \<Rightarrow> string" where
  "extract_domain url out_size =
     (let start = (if take 8 url = ''https://'' then drop 8 url else if take 7 url = ''http://'' then drop 7 url else url) in
      takeWhile (\<lambda>c. c \<noteq> CHR ''/'') (c_strncpy out_size start))"

definition build_wifi_qr_string :: "tollgate_config \<Rightarrow> string \<Rightarrow> nat \<Rightarrow> string" where
  "build_wifi_qr_string cfg ssid out_size =
     (let escaped_ssid = escape_wifi_field ssid 64 in
      c_strncpy out_size
        (if cfg_ap_password cfg \<noteq> []
         then ''WIFI:S:'' @ escaped_ssid @ '';T:WPA;P:'' @ escape_wifi_field (cfg_ap_password cfg) 128 @ '';;''
         else ''WIFI:S:'' @ escaped_ssid @ '';T:nopass;;''))"

section \<open>Pages\<close>

text \<open>The generator: size and modules of the code of a text at a version; \<open>None\<close> when the text cannot be encoded.\<close>

type_synonym qr_maker = "nat \<Rightarrow> string \<Rightarrow> (nat \<times> (nat \<Rightarrow> nat \<Rightarrow> bool)) option"

definition c_half :: "int \<Rightarrow> int" where
  "c_half a = (if 0 \<le> a then a div 2 else - ((- a) div 2))"

definition draw_modules :: "nat \<Rightarrow> (nat \<Rightarrow> nat \<Rightarrow> bool) \<Rightarrow> int \<Rightarrow> int \<Rightarrow> int \<Rightarrow> lcd \<Rightarrow> lcd" where
  "draw_modules qsize is_dark cx cy px = fold (\<lambda>y. fold (\<lambda>x.
     axs15231b_fill_rect (cx + int x * px) (cy + int y * px) px px (if is_dark x y then COLOR_WHITE else COLOR_BG)) [0..<qsize]) [0..<qsize]"

definition render_qr_at :: "qr_maker \<Rightarrow> string \<Rightarrow> int \<Rightarrow> int \<Rightarrow> int \<Rightarrow> int \<Rightarrow> lcd \<Rightarrow> lcd" where
  "render_qr_at qr text x_off y_off max_w max_h d =
     (let len = length text; px = qr_pixel_size len in
      case qr (qr_version_from_strlen len) text of
        None \<Rightarrow> d
      | Some (qsize, is_dark) \<Rightarrow>
          let cx = max 0 (x_off + c_half (max_w - int qsize * px)); cy = max 0 (y_off + c_half (max_h - int qsize * px)) in
          draw_modules qsize is_dark cx cy px d)"

definition display_render_qr :: "qr_maker \<Rightarrow> string \<Rightarrow> lcd \<Rightarrow> lcd" where
  "display_render_qr qr text d =
     axs15231b_flush (render_qr_at qr text 0 0 AXS15231B_WIDTH AXS15231B_HEIGHT (axs15231b_fill_screen COLOR_BG d))"

definition centered :: "int \<Rightarrow> string \<Rightarrow> u16 \<Rightarrow> u16 \<Rightarrow> int \<Rightarrow> lcd \<Rightarrow> lcd" where
  "centered y text fg bg scale =
     display_render_text (c_half (AXS15231B_WIDTH - int (length text) * 8 * scale)) y text fg bg scale"

definition at_left :: "int \<Rightarrow> string \<Rightarrow> u16 \<Rightarrow> lcd \<Rightarrow> lcd" where
  "at_left y text fg = display_render_text 10 y text fg COLOR_BG 1"

definition draw_page :: "(lcd \<Rightarrow> lcd) list \<Rightarrow> lcd \<Rightarrow> lcd" where
  "draw_page steps d = axs15231b_flush (fold (\<lambda>f. f) steps (axs15231b_fill_screen COLOR_BG d))"

definition ssid_line :: "nat \<Rightarrow> display \<Rightarrow> string" where
  "ssid_line n s = c_strncpy n (''SSID: '' @ ds_ap_ssid s)"

definition wallet_line :: "display \<Rightarrow> string" where
  "wallet_line s = c_strncpy 48 (''Wallet: '' @ dec_of_nat (unat (ds_wallet_balance s)) @ '' sats'')"

definition setup_line :: "tollgate_config \<Rightarrow> string" where
  "setup_line cfg = c_strncpy 64 (''http://'' @ cfg_ap_ip_str cfg @ ''/setup'')"

definition wifi_qr :: "qr_maker \<Rightarrow> tollgate_config \<Rightarrow> display \<Rightarrow> int \<Rightarrow> int \<Rightarrow> lcd \<Rightarrow> lcd" where
  "wifi_qr qr cfg s y max_h = render_qr_at qr (build_wifi_qr_string cfg (ds_ap_ssid s) 320) 0 y AXS15231B_WIDTH max_h"

definition render_boot_screen :: "qr_maker \<Rightarrow> tollgate_config \<Rightarrow> display \<Rightarrow> lcd \<Rightarrow> lcd" where
  "render_boot_screen qr cfg s = draw_page
     [wifi_qr qr cfg s 10 220, centered 240 ''TollGate'' COLOR_CYAN COLOR_BG 2,
      centered 268 (ds_wifi_status s) COLOR_YELLOW COLOR_BG 1, centered 295 (ssid_line 320 s) COLOR_DIM COLOR_BG 1,
      centered 315 ''Scan QR to connect'' COLOR_DIM COLOR_BG 1]"

definition render_ready_screen :: "qr_maker \<Rightarrow> tollgate_config \<Rightarrow> display \<Rightarrow> lcd \<Rightarrow> lcd" where
  "render_ready_screen qr cfg s = draw_page
     ((if ds_qr_mode s = DISPLAY_QR_WIFI
       then [wifi_qr qr cfg s 5 320, at_left 330 ''Scan to connect'' COLOR_CYAN, at_left 346 (ssid_line 48 s) COLOR_WHITE]
       else [render_qr_at qr (c_strncpy 320 (ds_portal_url s)) 0 5 AXS15231B_WIDTH 320, at_left 330 ''Portal URL'' COLOR_CYAN,
         at_left 346 (c_strncpy 48 (''Mint: '' @ take 30 (extract_domain (ds_mint_url s) 48))) COLOR_ORANGE]) @
      [at_left 362 (c_strncpy 48 (dec_of_int (ds_price_per_step s) @ '' sats/min'')) COLOR_ORANGE,
       at_left 378 (wallet_line s) (wallet_color s)] @
      (if 0 < ds_active_clients s then [at_left 394 (c_strncpy 48 (''Clients: '' @ dec_of_int (ds_active_clients s))) COLOR_GREEN] else []))"

definition render_setup_pending_screen :: "qr_maker \<Rightarrow> tollgate_config \<Rightarrow> display \<Rightarrow> lcd \<Rightarrow> lcd" where
  "render_setup_pending_screen qr cfg s = draw_page
     [wifi_qr qr cfg s 5 280, centered 290 ''WiFi Setup'' COLOR_CYAN COLOR_BG 1, at_left 310 (ssid_line 64 s) COLOR_WHITE,
      at_left 328 ''1. Connect to WiFi above'' COLOR_DIM, at_left 344 ''2. Open browser, go to:'' COLOR_DIM,
      at_left 362 (setup_line cfg) COLOR_YELLOW, at_left 384 ''3. Configure upstream WiFi'' COLOR_DIM]"

definition c_idiv :: "int \<Rightarrow> int \<Rightarrow> int" where
  "c_idiv a b = sgn a * (\<bar>a\<bar> div b)"

definition time_line :: "int \<Rightarrow> string" where
  "time_line allotment_ms =
     (let secs = c_idiv allotment_ms 1000 in
      c_strncpy 48 (if 60 \<le> secs then ''Time: '' @ dec_of_int (c_idiv secs 60) @ '' min'' else ''Time: '' @ dec_of_int secs @ '' sec''))"

definition render_payment_screen :: "display \<Rightarrow> lcd \<Rightarrow> lcd" where
  "render_payment_screen s = draw_page
     [axs15231b_fill_rect 0 190 AXS15231B_WIDTH 50 COLOR_GREEN, centered 202 ''ACCESS GRANTED'' COLOR_WHITE COLOR_GREEN 2,
      centered 270 (c_strncpy 48 (''Paid: '' @ dec_of_int (ds_last_payment_sats s) @ '' sats'')) COLOR_WHITE COLOR_BG 1,
      centered 290 (time_line (ds_last_allotment_ms s)) COLOR_WHITE COLOR_BG 1, centered 320 (wallet_line s) (wallet_color s) COLOR_BG 1]"

definition render_error_screen :: "qr_maker \<Rightarrow> tollgate_config \<Rightarrow> display \<Rightarrow> lcd \<Rightarrow> lcd" where
  "render_error_screen qr cfg s = draw_page
     [wifi_qr qr cfg s 5 150, axs15231b_fill_rect 0 160 AXS15231B_WIDTH 36 COLOR_RED, centered 170 ''NO UPSTREAM'' COLOR_WHITE COLOR_RED 2,
      centered 210 ''Internet unavailable'' COLOR_WHITE COLOR_BG 1, centered 230 ''AP still active'' COLOR_GREEN COLOR_BG 1,
      centered 250 (ssid_line 64 s) COLOR_DIM COLOR_BG 1, centered 270 (setup_line cfg) COLOR_YELLOW COLOR_BG 1,
      centered 286 ''Scan QR to connect'' COLOR_DIM COLOR_BG 1]"

section \<open>The task\<close>

definition display_switch_qr :: "int \<Rightarrow> display \<Rightarrow> display" where
  "display_switch_qr now s =
     (if ds_state s = DISPLAY_READY \<and> 5000 \<le> now - ds_last_qr_switch s
      then s\<lparr>ds_qr_mode := (if ds_qr_mode s = DISPLAY_QR_WIFI then DISPLAY_QR_PORTAL else DISPLAY_QR_WIFI), ds_last_qr_switch := now\<rparr>
      else s)"

text \<open>One turn of the task; \<open>during\<close> is what other tasks do to the state while the payment page is shown.\<close>

definition display_task_turn :: "qr_maker \<Rightarrow> tollgate_config \<Rightarrow> int \<Rightarrow> (display \<Rightarrow> display) \<Rightarrow> display \<times> lcd \<Rightarrow> display \<times> lcd" where
  "display_task_turn qr cfg now during st = (case st of (s, d) \<Rightarrow>
     let s' = display_switch_qr now s in
     case ds_state s of
       DISPLAY_BOOT \<Rightarrow> (s', render_boot_screen qr cfg s' d)
     | DISPLAY_READY \<Rightarrow> (s', render_ready_screen qr cfg s' d)
     | DISPLAY_PAYMENT_RECEIVED \<Rightarrow> ((during s')\<lparr>ds_state := DISPLAY_READY\<rparr>, render_payment_screen s' d)
     | DISPLAY_ERROR \<Rightarrow> (s', render_error_screen qr cfg s' d)
     | DISPLAY_SETUP_PENDING \<Rightarrow> (s', render_setup_pending_screen qr cfg s' d))"

definition display_init :: "bool \<Rightarrow> int \<Rightarrow> display \<Rightarrow> bool \<times> display" where
  "display_init panel_ok now s =
     (if ds_initialized s then (True, s)
      else if panel_ok then (True, s\<lparr>ds_initialized := True, ds_last_qr_switch := now\<rparr>) else (False, s))"

definition display_set_state :: "display_state \<Rightarrow> display \<Rightarrow> display" where
  "display_set_state st s = s\<lparr>ds_state := st\<rparr>"

definition or_keep :: "nat \<Rightarrow> string option \<Rightarrow> string \<Rightarrow> string" where
  "or_keep n t old = (case t of Some x \<Rightarrow> c_strncpy n x | None \<Rightarrow> old)"

definition display_update ::
    "string option \<Rightarrow> int \<Rightarrow> u64 \<Rightarrow> string option \<Rightarrow> string option \<Rightarrow> int \<Rightarrow> string option \<Rightarrow> display \<Rightarrow> display" where
  "display_update ap_ssid active_clients wallet_balance portal_url mint_url price_per_step wifi_status s =
     s\<lparr>ds_ap_ssid := or_keep 32 ap_ssid (ds_ap_ssid s), ds_portal_url := or_keep 256 portal_url (ds_portal_url s),
       ds_mint_url := or_keep 256 mint_url (ds_mint_url s), ds_wifi_status := or_keep 32 wifi_status (ds_wifi_status s),
       ds_price_per_step := (if 0 < price_per_step then price_per_step else ds_price_per_step s),
       ds_active_clients := active_clients, ds_wallet_balance := wallet_balance\<rparr>"

definition display_notify_payment :: "wallet_ext \<Rightarrow> nucula \<Rightarrow> int \<Rightarrow> int \<Rightarrow> display \<Rightarrow> display" where
  "display_notify_payment e w amount_sats allotment_ms s = display_set_state DISPLAY_PAYMENT_RECEIVED
     (s\<lparr>ds_last_payment_sats := amount_sats, ds_last_allotment_ms := allotment_ms, ds_wallet_balance := nucula_wallet_balance e w\<rparr>)"

section \<open>Pixels\<close>

lemma fold_update_nth:
  assumes "k < length fb"
  shows "fold (\<lambda>i fb. fb[f i := c]) is fb ! k = (if k \<in> f ` set is then c else fb ! k) \<and> length (fold (\<lambda>i fb. fb[f i := c]) is fb) = length fb"
  using assms by (induction "is" arbitrary: fb) (auto simp: nth_list_update)

lemma fill_span_nth:
  assumes "k < length fb"
  shows "fill_span row x1 x2 c fb ! k = (if k \<in> (\<lambda>col. nat (row * AXS15231B_WIDTH + col)) ` {x1..<x2} then c else fb ! k)"
    "length (fill_span row x1 x2 c fb) = length fb"
proof -
  have s: "set [x1..x2 - 1] = {x1..<x2}" by auto
  show "fill_span row x1 x2 c fb ! k = (if k \<in> (\<lambda>col. nat (row * AXS15231B_WIDTH + col)) ` {x1..<x2} then c else fb ! k)"
    "length (fill_span row x1 x2 c fb) = length fb"
    using fold_update_nth[OF assms, of "\<lambda>col. nat (row * AXS15231B_WIDTH + col)" c "[x1..x2 - 1]"] unfolding s fill_span_def by auto
qed

lemma fill_rows_nth:
  assumes "k < length fb"
  shows "fold (\<lambda>row. fill_span row x1 x2 c) rows fb ! k =
      (if \<exists>row \<in> set rows. k \<in> (\<lambda>col. nat (row * AXS15231B_WIDTH + col)) ` {x1..<x2} then c else fb ! k) \<and>
    length (fold (\<lambda>row. fill_span row x1 x2 c) rows fb) = length fb"
  using assms by (induction rows arbitrary: fb) (auto simp: fill_span_nth)

definition lcd_wf :: "lcd \<Rightarrow> bool" where
  "lcd_wf d \<longleftrightarrow> length (lc_fb d) = nat (AXS15231B_WIDTH * AXS15231B_HEIGHT)"

definition pixel :: "lcd \<Rightarrow> int \<Rightarrow> int \<Rightarrow> u16" where
  "pixel d col row = lc_fb d ! nat (row * AXS15231B_WIDTH + col)"

lemma pixel_index:
  assumes "0 \<le> col" "col < 320" "0 \<le> row" "0 \<le> col'" "col' < 320" "0 \<le> row'"
  shows "nat (row * 320 + col) = nat (row' * 320 + col') \<longleftrightarrow> row = row' \<and> col = col'"
proof
  assume "nat (row * 320 + col) = nat (row' * 320 + col')"
  then have e: "row * 320 + col = row' * 320 + col'" using assms by simp
  then have "(row * 320 + col) div 320 = (row' * 320 + col') div 320" by simp
  then have "row = row'" using assms by (simp add: div_add1_eq)
  then show "row = row' \<and> col = col'" using e by simp
qed simp

text \<open>A filled rectangle inside the screen changes exactly its own pixels; one that is not inside changes nothing.\<close>

theorem fill_rect_pixels:
  assumes "lcd_wf d" "0 \<le> col" "col < AXS15231B_WIDTH" "0 \<le> row" "row < AXS15231B_HEIGHT"
  shows "pixel (axs15231b_fill_rect x y w h c d) col row =
      (if 0 \<le> x \<and> 0 \<le> y \<and> x + w \<le> AXS15231B_WIDTH \<and> y + h \<le> AXS15231B_HEIGHT \<and> x \<le> col \<and> col < x + w \<and> y \<le> row \<and> row < y + h
       then c else pixel d col row) \<and> lcd_wf (axs15231b_fill_rect x y w h c d)"
proof (cases "x < 0 \<or> y < 0 \<or> AXS15231B_WIDTH < x + w \<or> AXS15231B_HEIGHT < y + h")
  case False
  let ?k = "nat (row * AXS15231B_WIDTH + col)"
  have "row * 320 + col < 320 * 480" using assms(2-5) by (simp add: AXS15231B_WIDTH_def AXS15231B_HEIGHT_def)
  then have k: "?k < length (lc_fb d)" using assms(1-4) by (simp add: lcd_wf_def AXS15231B_WIDTH_def AXS15231B_HEIGHT_def)
  have "(\<exists>r \<in> set [y..y + h - 1]. ?k \<in> (\<lambda>c. nat (r * AXS15231B_WIDTH + c)) ` {x..<x + w}) \<longleftrightarrow> x \<le> col \<and> col < x + w \<and> y \<le> row \<and> row < y + h"
  proof
    assume "x \<le> col \<and> col < x + w \<and> y \<le> row \<and> row < y + h"
    then show "\<exists>r \<in> set [y..y + h - 1]. ?k \<in> (\<lambda>c. nat (r * AXS15231B_WIDTH + c)) ` {x..<x + w}"
      by (intro bexI[of _ row] image_eqI[of _ _ col]) auto
  next
    assume "\<exists>r \<in> set [y..y + h - 1]. ?k \<in> (\<lambda>c. nat (r * AXS15231B_WIDTH + c)) ` {x..<x + w}"
    then obtain r q where q: "y \<le> r" "r < y + h" "x \<le> q" "q < x + w" "nat (row * 320 + col) = nat (r * 320 + q)"
      by (auto simp: AXS15231B_WIDTH_def)
    then have "0 \<le> r" "0 \<le> q" "q < 320" using False by (auto simp: AXS15231B_WIDTH_def)
    then have "row = r \<and> col = q" using pixel_index[of col row q r] q(5) assms(2-4) by (simp add: AXS15231B_WIDTH_def)
    then show "x \<le> col \<and> col < x + w \<and> y \<le> row \<and> row < y + h" using q by simp
  qed
  then show ?thesis using fill_rows_nth[OF k, of x "x + w" c "[y..y + h - 1]"] False assms(1)
    by (simp add: axs15231b_fill_rect_def pixel_def lcd_wf_def not_less)
qed (use assms(1) in \<open>auto simp: axs15231b_fill_rect_def\<close>)

section \<open>What reaches the panel\<close>

lemma swapped_append: "swapped (xs @ ys) = swapped xs @ swapped ys"
  by (simp add: swapped_def)

lemma concat_send_row: "concat (send_row ps) = swapped ps"
proof (induction ps rule: send_row.induct)
  case (1 ps)
  show ?case
  proof (cases "ps = []")
    case True
    then show ?thesis by (simp add: send_row.simps swapped_def)
  next
    case False
    let ?n = "min (length ps) SWAP_BUF_PIXELS"
    have "concat (send_row ps) = swapped (take ?n ps) @ swapped (drop ?n ps)"
      using False 1[OF False refl] by (subst send_row.simps) (simp add: Let_def)
    then show ?thesis by (simp only: swapped_append[symmetric] append_take_drop_id)
  qed
qed

lemma concat_rows: "concat (map (\<lambda>r. take n (drop (r * n) xs)) [0..<m]) = take (m * n) xs"
  by (induction m) (simp_all add: take_add flip: mult_Suc_right, simp add: take_add[symmetric] add.commute)


section \<open>The code that a phone scans\<close>

text \<open>A reader of the text in the code, after the format phones use: a backslash takes the next character as it is.\<close>

fun read_field :: "string \<Rightarrow> string \<times> string" where
  "read_field [] = ([], [])"
| "read_field (c # cs) =
     (if c = CHR '';'' then ([], cs)
      else if c = CHR 0x5C then (case cs of [] \<Rightarrow> ([], []) | d # ds \<Rightarrow> (d # fst (read_field ds), snd (read_field ds)))
      else (c # fst (read_field cs), snd (read_field cs)))"

definition read_wifi_code :: "string \<Rightarrow> (string \<times> string option) option" where
  "read_wifi_code t =
     (if take 7 t \<noteq> ''WIFI:S:'' then None
      else case read_field (drop 7 t) of (ssid, r) \<Rightarrow>
        if r = ''T:nopass;;'' then Some (ssid, None)
        else if take 8 r = ''T:WPA;P:'' then (case read_field (drop 8 r) of (p, r') \<Rightarrow> if r' = '';'' then Some (ssid, Some p) else None)
        else None)"

lemma escape_complete: "di + 2 * length s + 2 \<le> n \<Longrightarrow> escape_from n di s = concat (map (\<lambda>c. if needs_escape c then [CHR 0x5C, c] else [c]) s)"
  by (induction n di s rule: escape_from.induct) auto

lemma escape_length: "di \<le> n \<Longrightarrow> length (escape_from n di s) \<le> 2 * length s"
  by (induction n di s rule: escape_from.induct) auto

lemma read_escaped: "read_field (concat (map (\<lambda>c. if needs_escape c then [CHR 0x5C, c] else [c]) s) @ CHR '';'' # r) = (s, r)"
  by (induction s) (auto simp: needs_escape_def)

text \<open>
  (C35) The text of the code carries the name of the access point and its password exactly, whatever characters they have;
  it is never cut.
\<close>

theorem wifi_code_roundtrip:
  assumes "length ssid \<le> 31" "length (cfg_ap_password cfg) \<le> 63"
  shows "read_wifi_code (build_wifi_qr_string cfg ssid 320) = Some (ssid, if cfg_ap_password cfg = [] then None else Some (cfg_ap_password cfg))"
proof -
  let ?e = "\<lambda>s. concat (map (\<lambda>c. if needs_escape c then [CHR 0x5C, c] else [c]) s)" and ?p = "cfg_ap_password cfg"
  have e: "escape_wifi_field ssid 64 = ?e ssid" "escape_wifi_field ?p 128 = ?e ?p"
    using assms by (simp_all add: escape_wifi_field_def escape_complete)
  have l: "length (?e ssid) \<le> 62" "length (?e ?p) \<le> 126"
    using escape_length[of 0 64 ssid] escape_length[of 0 128 ?p] assms e by (simp_all add: escape_wifi_field_def)
  show ?thesis
  proof (cases "?p = []")
    case True
    have "build_wifi_qr_string cfg ssid 320 = ''WIFI:S:'' @ ?e ssid @ CHR '';'' # ''T:nopass;;''"
      using True e(1) l(1) by (simp add: build_wifi_qr_string_def c_strncpy_def Let_def)
    then show ?thesis using True read_escaped[of ssid] by (simp add: read_wifi_code_def)
  next
    case False
    have "build_wifi_qr_string cfg ssid 320 = ''WIFI:S:'' @ ?e ssid @ CHR '';'' # ''T:WPA;P:'' @ ?e ?p @ CHR '';'' # '';''"
      using False e l by (simp add: build_wifi_qr_string_def c_strncpy_def Let_def)
    then show ?thesis using False read_escaped[of ssid] read_escaped[of ?p] by (simp add: read_wifi_code_def)
  qed
qed

section \<open>The code on the screen\<close>

text \<open>The number of bytes a code of a version holds at the lowest level of correction, after the standard.\<close>

definition qr_byte_capacity :: "nat \<Rightarrow> nat" where
  "qr_byte_capacity v = [0, 17, 32, 53, 78, 106, 134, 154, 192, 230, 271, 321] ! v"

text \<open>
  Every text of a page fits into the version chosen for it, and the code drawn in an area of at least 150 pixels lies
  inside that area, so that no module is dropped.
\<close>

theorem qr_fits:
  assumes "len < 320" "150 \<le> max_h" "qsize = 4 * qr_version_from_strlen len + 17" "x < qsize" "y < qsize"
    and "px = qr_pixel_size len" "cx = max 0 (c_half (AXS15231B_WIDTH - int qsize * px))" "cy = max 0 (y_off + c_half (max_h - int qsize * px))"
    and "0 \<le> y_off" "y_off + max_h \<le> AXS15231B_HEIGHT"
  shows "len \<le> qr_byte_capacity (qr_version_from_strlen len) \<and> 0 \<le> cx + int x * px \<and> cx + int x * px + px \<le> AXS15231B_WIDTH \<and>
    y_off \<le> cy + int y * px \<and> cy + int y * px + px \<le> y_off + max_h"
proof -
  have cap: "len \<le> qr_byte_capacity (qr_version_from_strlen len)"
    using assms(1) by (simp add: qr_version_from_strlen_def qr_byte_capacity_def)
  have px: "1 \<le> px" using assms(6) by (simp add: qr_pixel_size_def)
  have total: "int qsize * px \<le> 128" using assms(1,3,6) by (simp add: qr_version_from_strlen_def qr_pixel_size_def)
  have xy: "int x * px + px \<le> int qsize * px" "int y * px + px \<le> int qsize * px"
  proof -
    have "(int x + 1) * px \<le> int qsize * px" "(int y + 1) * px \<le> int qsize * px" using assms(4,5) px by (intro mult_right_mono; simp)+
    then show "int x * px + px \<le> int qsize * px" "int y * px + px \<le> int qsize * px" by (simp_all add: distrib_right)
  qed
  have n: "0 \<le> int x * px" "0 \<le> int y * px" using px by simp_all
  have h: "0 \<le> c_half a" "2 * c_half a \<le> a" if "0 \<le> a" for a using that by (simp_all add: c_half_def)
  have c: "cx = c_half (320 - int qsize * px)" "cy = y_off + c_half (max_h - int qsize * px)"
    using h[of "320 - int qsize * px"] h[of "max_h - int qsize * px"] total assms(2,7,8,9) by (simp_all add: AXS15231B_WIDTH_def)
  show ?thesis using cap xy n c h[of "320 - int qsize * px"] h[of "max_h - int qsize * px"] total assms(2)
    by (simp add: AXS15231B_WIDTH_def)
qed

text \<open>A state that another task sets while the page of a payment is shown is lost.\<close>

theorem payment_page_overrides:
  assumes "ds_state s = DISPLAY_PAYMENT_RECEIVED"
  shows "ds_state (fst (display_task_turn qr cfg now (display_set_state DISPLAY_ERROR) (s, d))) = DISPLAY_READY"
  using assms by (simp add: display_task_turn_def Let_def)

section \<open>Witnesses\<close>

definition blank_lcd :: lcd where
  "blank_lcd = \<lparr>lc_fb = replicate (nat (AXS15231B_WIDTH * AXS15231B_HEIGHT)) 0, lc_sent = []\<rparr>"

lemma blank_lcd_wf: "lcd_wf blank_lcd"
  by (simp add: lcd_wf_def blank_lcd_def)

theorem fill_rect_pixels_witness:
  "pixel (axs15231b_fill_rect 10 20 5 5 COLOR_RED blank_lcd) 12 22 = COLOR_RED"
  using fill_rect_pixels[OF blank_lcd_wf, of 12 22 10 20 5 5 COLOR_RED] by (simp add: AXS15231B_WIDTH_def AXS15231B_HEIGHT_def)


theorem wifi_code_roundtrip_witness:
  "read_wifi_code (build_wifi_qr_string (config_defaults\<lparr>cfg_ap_password := ''a;b''\<rparr>) ''my:net'' 320) = Some (''my:net'', Some ''a;b'')"
  using wifi_code_roundtrip[of "''my:net''" "config_defaults\<lparr>cfg_ap_password := ''a;b''\<rparr>"] by simp

theorem qr_fits_witness: "40 \<le> qr_byte_capacity (qr_version_from_strlen 40)"
  using qr_fits[of 40 150 29 0 0 4 102 22 5] by (simp add: qr_version_from_strlen_def qr_pixel_size_def c_half_def AXS15231B_WIDTH_def AXS15231B_HEIGHT_def)

theorem payment_page_overrides_witness:
  "ds_state (fst (display_task_turn (\<lambda>v t. None) config_defaults 0 (display_set_state DISPLAY_ERROR)
     (display_boot\<lparr>ds_state := DISPLAY_PAYMENT_RECEIVED\<rparr>, blank_lcd))) = DISPLAY_READY"
  by (rule payment_page_overrides) simp

end
