(* ===== verification/TG_Tasks.thy ===== *)
theory TG_Tasks
  imports TG_Pool TG_Payout
begin

text \<open>
  The tasks behind the services: the probing task of \<^verbatim>\<open>main/mint_health.c\<close>, which also redeems the queued tokens,
  the task of \<^verbatim>\<open>main/remote_miner.c\<close> with its start and stop, and the server of \<^verbatim>\<open>main/tollgate_api.c\<close>: its two
  status pages, its table of handlers, its start and stop.

  A task is a sequence of steps between the points where it waits. Ticks are milliseconds
  (\<open>CONFIG_FREERTOS_HZ=1000\<close>) and wrap at 32 bits.
\<close>

section \<open>The probing task and the wallet queue\<close>

definition WALLET_QUEUE_LEN :: nat where
  "WALLET_QUEUE_LEN = 8"

definition MINT_HEALTH_PROBE_INTERVAL_S :: u32 where
  "MINT_HEALTH_PROBE_INTERVAL_S = 300"

text \<open>Where a task stands: before the first probes, emptying the queue, or waiting since a tick.\<close>

datatype health_phase = First_Probes | Draining | Waiting u32

text \<open>\<open>hs_tasks\<close>: the tasks that have not deleted themselves, one unless the service was stopped and started.\<close>

record health_service =
  hs_running :: bool
  hs_task_handle :: bool
  hs_queue :: "string list option"
  hs_wallet :: nucula
  hs_monitor :: mint_monitor
  hs_tasks :: "health_phase list"

record health_env =
  hv_wallet :: wallet_ext
  hv_http :: "string \<Rightarrow> probe_result"
  hv_now :: i64
  hv_locked :: bool
  hv_tick :: u32

text \<open>One token for the wallet: the result of \<open>nucula_wallet_receive\<close> is only logged and the token is freed.\<close>

definition take_token :: "wallet_ext \<Rightarrow> string \<Rightarrow> nucula \<Rightarrow> nucula cres" where
  "take_token e token w = cbind (nucula_wallet_receive e (Some token) w) (\<lambda>(_, w'). Ok w')"

fun process_wallet_queue :: "wallet_ext \<Rightarrow> string list \<Rightarrow> nucula \<Rightarrow> nucula cres" where
  "process_wallet_queue e [] w = Ok w"
| "process_wallet_queue e (token # q) w = cbind (take_token e token w) (process_wallet_queue e q)"

text \<open>
  One step of the task: the next phase (\<open>None\<close> when it deletes itself), the token it handed to the wallet and the
  service afterwards. The outer loop is entered, and the waiting loop left, on the value of \<open>s_running\<close> at that
  step.
\<close>

definition offer_token :: "health_env \<Rightarrow> health_phase \<Rightarrow> string \<Rightarrow> string list \<Rightarrow> health_service \<Rightarrow>
    (health_phase option \<times> string list \<times> health_service) cres" where
  "offer_token v next token q s =
     cbind (take_token (hv_wallet v) token (hs_wallet s)) (\<lambda>w. Ok (Some next, [token], s\<lparr>hs_queue := Some q, hs_wallet := w\<rparr>))"

definition health_task :: "health_env \<Rightarrow> health_phase \<Rightarrow> health_service \<Rightarrow>
    (health_phase option \<times> string list \<times> health_service) cres" where
  "health_task v phase s =
     (case phase of
        First_Probes \<Rightarrow>
          Ok (Some Draining, [], s\<lparr>hs_monitor := run_initial_probes (hv_http v) (hv_now v) (hv_locked v) (hs_monitor s)\<rparr>)
      | Draining \<Rightarrow>
          (case hs_queue s of
             Some (token # q) \<Rightarrow> offer_token v Draining token q s
           | _ \<Rightarrow> if hs_running s then Ok (Some (Waiting (hv_tick v)), [], s)
                  else Ok (None, [], s\<lparr>hs_task_handle := False\<rparr>))
      | Waiting start \<Rightarrow>
          if \<not> hs_running s then Ok (None, [], s\<lparr>hs_task_handle := False\<rparr>)
          else if MINT_HEALTH_PROBE_INTERVAL_S * 1000 \<le> hv_tick v - start then
            Ok (Some Draining, [], s\<lparr>hs_monitor := run_probes (hv_http v) (hv_now v) (hv_locked v) (hs_monitor s)\<rparr>)
          else (case hs_queue s of
             Some (token # q) \<Rightarrow> offer_token v (Waiting start) token q s
           | _ \<Rightarrow> Ok (Some (Waiting start), [], s)))"

text \<open>Neither result is checked: without memory for the queue tokens are redeemed where they are submitted.\<close>

definition mint_health_start :: "bool \<Rightarrow> bool \<Rightarrow> health_service \<Rightarrow> health_service" where
  "mint_health_start queue_ok task_ok s =
     (if hs_running s then s
      else
        (let s1 = s\<lparr>hs_running := True, hs_queue := (if queue_ok then Some [] else None)\<rparr>
         in if task_ok then s1\<lparr>hs_task_handle := True, hs_tasks := hs_tasks s1 @ [First_Probes]\<rparr> else s1))"

definition mint_health_stop :: "health_service \<Rightarrow> health_service" where
  "mint_health_stop s = s\<lparr>hs_running := False\<rparr>"

text \<open>A submission by another task: the queue has room, or a whole second passes with the queue full.\<close>

definition submit_token :: "wallet_ext \<Rightarrow> string \<Rightarrow> health_service \<Rightarrow> (string list \<times> health_service) cres" where
  "submit_token e token s =
     (let room = (case hs_queue s of Some q \<Rightarrow> length q < WALLET_QUEUE_LEN | None \<Rightarrow> False) in
      cbind (tls_worker_submit e room token (hs_queue s, hs_wallet s)) (\<lambda>(q, w).
        Ok (if room then [] else [token], s\<lparr>hs_queue := q, hs_wallet := w\<rparr>)))"

text \<open>
  The service as it is used: started once, never stopped, with submissions at any time. The second and third
  component record the tokens submitted and the tokens handed to the wallet.
\<close>

inductive health_reach :: "health_service \<Rightarrow> string list \<Rightarrow> string list \<Rightarrow> bool" where
  boot: "hs_tasks s = [] \<Longrightarrow> \<not> hs_running s \<Longrightarrow> hs_queue s = None \<Longrightarrow> health_reach s [] []"
| start: "health_reach s sub off \<Longrightarrow> health_reach (mint_health_start qok tok s) sub off"
| submit: "health_reach s sub off \<Longrightarrow> submit_token e token s = Ok (now, s') \<Longrightarrow> health_reach s' (sub @ [token]) (off @ now)"
| task: "health_reach s sub off \<Longrightarrow> i < length (hs_tasks s) \<Longrightarrow> health_task v (hs_tasks s ! i) s = Ok (Some p, now, s') \<Longrightarrow>
    health_reach (s'\<lparr>hs_tasks := (hs_tasks s)[i := p]\<rparr>) sub (off @ now)"

section \<open>No token is lost on the way to the wallet\<close>

definition queued :: "health_service \<Rightarrow> string list" where
  "queued s = (case hs_queue s of Some q \<Rightarrow> q | None \<Rightarrow> [])"

lemma offer_token_Ok:
  "offer_token v p token q s = Ok (p', now, s') \<longleftrightarrow>
    p' = Some p \<and> now = [token] \<and> (\<exists>w. take_token (hv_wallet v) token (hs_wallet s) = Ok w \<and> s' = s\<lparr>hs_queue := Some q, hs_wallet := w\<rparr>)"
  by (auto simp: offer_token_def cbind_Ok_iff)

lemma health_task_queue:
  assumes "health_task v p s = Ok (p', now, s')"
  shows "queued s = now @ queued s'" "hs_running s' = hs_running s" "hs_tasks s' = hs_tasks s"
    "hs_queue s' = None \<longleftrightarrow> hs_queue s = None"
  using assms
  by (auto simp: health_task_def queued_def offer_token_Ok split: health_phase.splits option.splits list.splits if_splits)

lemma submit_token_queue:
  assumes "submit_token e token s = Ok (now, s')"
  shows "queued s' @ now = queued s @ [token] \<or> queued s' = queued s \<and> now = [token]" "hs_running s' = hs_running s"
    "hs_tasks s' = hs_tasks s" "length (queued s) \<le> WALLET_QUEUE_LEN \<Longrightarrow> length (queued s') \<le> WALLET_QUEUE_LEN"
    "hs_queue s' = None \<longleftrightarrow> hs_queue s = None"
  using assms
  by (auto simp: submit_token_def tls_worker_submit_def queued_def Let_def cbind_Ok_iff split: option.splits if_splits)

lemma mset_submit:
  assumes "submit_token e token s = Ok (now, s')"
  shows "mset (queued s') + mset now = add_mset token (mset (queued s))"
  using submit_token_queue(1)[OF assms] by (metis add_mset_add_single mset_append mset_single_iff_right union_commute)


lemma health_reach_inv:
  assumes "health_reach s sub off"
  shows "mset sub = mset off + mset (queued s) \<and> length (queued s) \<le> WALLET_QUEUE_LEN \<and>
    length (hs_tasks s) \<le> 1 \<and> (hs_running s \<or> hs_tasks s = [] \<and> hs_queue s = None)"
  using assms
proof (induction rule: health_reach.induct)
  case (boot s)
  then show ?case by (simp add: queued_def)
next
  case (start s sub off qok tok)
  then show ?case by (auto simp: mint_health_start_def queued_def Let_def)
next
  case (submit s sub off e token now s')
  then show ?case using submit_token_queue[OF submit(2)] mset_submit[OF submit(2)]
    by (auto simp: ac_simps)
next
  case (task s sub off i v p now s')
  have q: "queued (s'\<lparr>hs_tasks := l\<rparr>) = queued s'" for l by (simp add: queued_def)
  show ?case using task.IH task.hyps(2) health_task_queue[OF task.hyps(3)] unfolding q by (auto simp: ac_simps)
qed

text \<open>
  (C12) Whatever is submitted, and in whatever order the submitters and the task take their turns, every token
  has been handed to the wallet exactly once or still waits in the queue, which never holds more than eight, and
  only one task works on it.
\<close>

theorem wallet_queue_accounts:
  assumes "health_reach s sub off"
  shows "mset sub = mset off + mset (queued s) \<and> length (queued s) \<le> 8 \<and> length (hs_tasks s) \<le> 1"
  using health_reach_inv[OF assms] by (simp add: WALLET_QUEUE_LEN_def)

text \<open>A run of consecutive steps of one task.\<close>

fun task_run :: "health_env list \<Rightarrow> health_phase \<Rightarrow> health_service \<Rightarrow> (health_phase option \<times> string list \<times> health_service) cres" where
  "task_run [] p s = Ok (Some p, [], s)"
| "task_run (v # vs) p s = cbind (health_task v p s) (\<lambda>(p', now, s').
     case p' of None \<Rightarrow> Ok (None, now, s')
     | Some p'' \<Rightarrow> cbind (task_run vs p'' s') (\<lambda>(r, later, s''). Ok (r, now @ later, s'')))"

text \<open>
  A task that empties the queue hands its tokens to the wallet in the order of their submission, one per step,
  and leaves the wallet in the state that \<open>process_wallet_queue\<close> computes.
\<close>

theorem drain_in_order:
  assumes "hs_queue s = Some q" "length vs = length q" "\<And>v. v \<in> set vs \<Longrightarrow> hv_wallet v = e"
    and "process_wallet_queue e q (hs_wallet s) = Ok w"
  shows "task_run vs Draining s = Ok (Some Draining, q, s\<lparr>hs_queue := Some [], hs_wallet := w\<rparr>)"
  using assms
proof (induction q arbitrary: vs s)
  case Nil
  then have "s\<lparr>hs_queue := Some [], hs_wallet := w\<rparr> = s" by simp
  then show ?case using Nil by simp
next
  case (Cons token q)
  obtain v vs' where vs: "vs = v # vs'" using Cons.prems(2) by (cases vs) auto
  obtain w1 where w1: "take_token e token (hs_wallet s) = Ok w1" "process_wallet_queue e q w1 = Ok w"
    using Cons.prems(4) by (auto simp: cbind_Ok_iff)
  have "health_task v Draining s = Ok (Some Draining, [token], s\<lparr>hs_queue := Some q, hs_wallet := w1\<rparr>)"
    using w1(1) Cons.prems(1,3) vs by (simp add: health_task_def offer_token_def)
  moreover have "task_run vs' Draining (s\<lparr>hs_queue := Some q, hs_wallet := w1\<rparr>) =
      Ok (Some Draining, q, s\<lparr>hs_queue := Some [], hs_wallet := w\<rparr>)"
    using Cons.IH[of "s\<lparr>hs_queue := Some q, hs_wallet := w1\<rparr>" vs'] Cons.prems(2,3) vs w1(2) by simp
  ultimately show ?case using vs by simp
qed

definition demo_service :: health_service where
  "demo_service = \<lparr>hs_running = False, hs_task_handle = False, hs_queue = None, hs_wallet = demo_nucula,
     hs_monitor = \<lparr>mm_health = demo_health, mm_callback_count = 0, mm_fired = 0, mm_last_probe_err = 0\<rparr>, hs_tasks = []\<rparr>"

definition demo_queued :: health_service where
  "demo_queued = (mint_health_start True True demo_service)\<lparr>hs_queue := Some [''cashuA'']\<rparr>"

theorem wallet_queue_accounts_witness:
  "health_reach demo_queued [''cashuA''] [] \<and> mset [''cashuA''] = mset [] + mset (queued demo_queued) \<and>
    length (queued demo_queued) \<le> 8 \<and> length (hs_tasks demo_queued) \<le> 1"
proof -
  have "health_reach (mint_health_start True True demo_service) [] []"
    by (intro health_reach.start health_reach.boot) (simp_all add: demo_service_def)
  moreover have "submit_token (demo_wallet_ext 0) ''cashuA'' (mint_health_start True True demo_service) = Ok ([], demo_queued)"
    by (simp add: submit_token_def demo_queued_def mint_health_start_def demo_service_def tls_worker_submit_def WALLET_QUEUE_LEN_def Let_def)
  ultimately have r: "health_reach demo_queued [''cashuA''] []" using health_reach.submit by fastforce
  then show ?thesis using wallet_queue_accounts[OF r] by blast
qed

section \<open>Tokens that cannot be redeemed\<close>

text \<open>
  A token whose mint does not answer with its keysets leaves the queue like any other: it has been handed over,
  it is in no queue and the wallet is worth what it was.
\<close>

theorem unredeemed_token_lost:
  assumes "hs_queue s = Some (token # q)" "nucula_wf (hs_wallet s)"
    and "wx_deserialize (hv_wallet v) token = Some tok" "find_wallet_for_token tok (hs_wallet s) = Some i" "i < nu_count (hs_wallet s)"
    and "starts_with ''cashuA'' token" "ensure_keysets (hv_wallet v) i (hs_wallet s) = Ok (False, w)"
    and "\<And>x b y. wx_load_keysets (hv_wallet v) x = (b, y) \<Longrightarrow> mw_proofs y = mw_proofs x \<and> mw_url y = mw_url x"
  shows "health_task v Draining s = Ok (Some Draining, [token], s\<lparr>hs_queue := Some q, hs_wallet := w\<rparr>) \<and> worth w = worth (hs_wallet s)"
proof
  show "worth w = worth (hs_wallet s)" using ensure_keysets_keeps[OF assms(7,2,5,8)] by simp
  show "health_task v Draining s = Ok (Some Draining, [token], s\<lparr>hs_queue := Some q, hs_wallet := w\<rparr>)"
    using assms(1,3-7) by (simp add: health_task_def offer_token_def take_token_def nucula_wallet_receive_def)
qed

text \<open>
  The function to stop the service returns before the task has noticed. A start that follows creates a second task
  and a new queue, and the tokens of the old one are in neither.
\<close>

lemma health_restart_doubles:
  assumes "hs_running s" "hs_tasks s = [p]"
  shows "let s' = mint_health_start True True (mint_health_stop s) in hs_tasks s' = [p, First_Probes] \<and> hs_queue s' = Some []"
  using assms by (simp add: mint_health_start_def mint_health_stop_def Let_def)

section \<open>The task of the remote miner\<close>

text \<open>
  \<open>rm_heap\<close>: the stack buffers that are allocated; \<open>rm_live\<close>: the buffers on which tasks run that have not deleted
  themselves.
\<close>

record remote_miner =
  rm_running :: bool
  rm_task_handle :: bool
  rm_stack_buffer :: "nat option"
  rm_gw_ip :: string
  rm_hashrate :: rat
  rm_heap :: "nat list"
  rm_live :: "nat list"

record remote_env =
  rme_get :: "string \<Rightarrow> (int \<times> string) option"
  rme_post :: "string \<Rightarrow> string \<Rightarrow> int option"
  rme_parse :: "string \<Rightarrow> json option"
  rme_sha256d :: "u8 list \<Rightarrow> u8 list"

record miner_locals =
  ml_hashes :: u64
  ml_start_time :: int
  ml_last_job_id :: u32

definition miner_locals_init :: "u32 \<Rightarrow> miner_locals" where
  "miner_locals_init tick = \<lparr>ml_hashes = 0, ml_start_time = uint tick, ml_last_job_id = 0\<rparr>"

text \<open>The number of headers hashed in the window that starts at \<open>start_nonce\<close>.\<close>

definition hashes_tried :: "u32 \<Rightarrow> u32 option \<Rightarrow> u64" where
  "hashes_tried start_nonce found =
     (case found of Some n \<Rightarrow> ucast (n - start_nonce) + 1
      | None \<Rightarrow> if start_nonce < start_nonce + 1000 then 1000 else 0)"

text \<open>
  One pass of the loop, between two readings of \<open>s_running\<close>: the nonce submitted, whether the gateway took it (which
  the code ignores), the local variables and the service.
\<close>

definition remote_miner_task :: "remote_env \<Rightarrow> u32 \<Rightarrow> u32 \<Rightarrow> miner_locals \<Rightarrow> remote_miner \<Rightarrow>
    ((u32 \<times> bool) option \<times> miner_locals \<times> remote_miner) cres" where
  "remote_miner_task e start_nonce tick l st =
     (case fetch_job (rme_get e) (rme_parse e) (rm_gw_ip st) of
        Undef \<Rightarrow> Undef
      | Fail \<Rightarrow> Ok (None, l, st)
      | Ok job \<Rightarrow>
          (let found = remote_mine (rme_sha256d e) job start_nonce;
               hashes = ml_hashes l + hashes_tried start_nonce found;
               elapsed_s = (uint tick - ml_start_time l) div 1000
           in Ok (map_option (\<lambda>n. (n, remote_submit_share (rme_post e) (rm_gw_ip st) job n)) found,
                  l\<lparr>ml_hashes := hashes, ml_last_job_id := rj_job_id job\<rparr>,
                  if 0 < elapsed_s then st\<lparr>rm_hashrate := d_div (d_div (u2d hashes) (i2d elapsed_s)) 1000000\<rparr> else st)))"

definition free_stack :: "remote_miner \<Rightarrow> remote_miner" where
  "free_stack st = (case rm_stack_buffer st of
       None \<Rightarrow> st
     | Some a \<Rightarrow> st\<lparr>rm_heap := remove1 a (rm_heap st), rm_stack_buffer := None\<rparr>)"

text \<open>The half second for the task to notice is not enough for it to end in every case: it may be in a request.\<close>

definition remote_miner_stop :: "remote_miner \<Rightarrow> remote_miner" where
  "remote_miner_stop st = (free_stack (st\<lparr>rm_running := False, rm_task_handle := False\<rparr>))\<lparr>rm_gw_ip := []\<rparr>"

text \<open>\<open>buffer\<close>: the block that the allocator returns; \<open>task_ok\<close>: whether the task is created.\<close>

definition remote_miner_start :: "nat option \<Rightarrow> bool \<Rightarrow> string \<Rightarrow> remote_miner \<Rightarrow> bool \<times> remote_miner" where
  "remote_miner_start buffer task_ok gw_ip st =
     (if rm_running st \<and> rm_gw_ip st = gw_ip then (True, st)
      else
        (let st1 = (if rm_running st then remote_miner_stop st else st);
             st2 = free_stack (st1\<lparr>rm_gw_ip := c_strncpy 16 gw_ip, rm_running := True, rm_hashrate := 0\<rparr>)
         in case buffer of
              None \<Rightarrow> (False, st2\<lparr>rm_running := False\<rparr>)
            | Some a \<Rightarrow>
                if task_ok then (True, st2\<lparr>rm_heap := a # rm_heap st2, rm_stack_buffer := Some a,
                                          rm_task_handle := True, rm_live := rm_live st2 @ [a]\<rparr>)
                else (False, st2\<lparr>rm_task_handle := False, rm_running := False\<rparr>)))"

definition remote_miner_is_running :: "remote_miner \<Rightarrow> bool" where
  "remote_miner_is_running st = rm_running st"

definition remote_miner_get_hashrate :: "remote_miner \<Rightarrow> rat" where
  "remote_miner_get_hashrate st = rm_hashrate st"

text \<open>The task ends: only when it finds the service stopped, and its stack is not touched.\<close>

definition remote_task_exits :: "nat \<Rightarrow> remote_miner \<Rightarrow> remote_miner option" where
  "remote_task_exits a st = (if rm_running st then None else Some (st\<lparr>rm_live := remove1 a (rm_live st)\<rparr>))"

definition remote_miner_boot :: remote_miner where
  "remote_miner_boot = \<lparr>rm_running = False, rm_task_handle = False, rm_stack_buffer = None, rm_gw_ip = [], rm_hashrate = 0,
     rm_heap = [], rm_live = []\<rparr>"

section \<open>What the remote miner submits\<close>

text \<open>
  Every share that the remote miner posts has the work its job asks for, is the first such nonce of the
  window and is counted: the number of hashes grows by at most a thousand and at least by one.
\<close>

theorem remote_share_has_work:
  assumes "remote_miner_task e start tick l st = Ok (Some (n, taken), l', st')" "unat start + 1000 < 2 ^ 32"
  shows "\<exists>job. fetch_job (rme_get e) (rme_parse e) (rm_gw_ip st) = Ok job \<and>
    check_pow (rme_sha256d e) (remote_header job n) (rj_target job) (rj_target_len job) \<and>
    (\<forall>k. start \<le> k \<and> k < n \<longrightarrow> \<not> check_pow (rme_sha256d e) (remote_header job k) (rj_target job) (rj_target_len job)) \<and>
    taken = (rme_post e (take 63 (''http://'' @ rm_gw_ip st @ '':2121/mining/share'')) (share_body (rj_job_id job) n (rj_ntime job) (rj_version job)) = Some 200) \<and>
    ml_hashes l' = ml_hashes l + (ucast (n - start) + 1) \<and> unat (n - start) < 1000"
proof -
  obtain job where job: "fetch_job (rme_get e) (rme_parse e) (rm_gw_ip st) = Ok job"
    using assms(1) by (auto simp: remote_miner_task_def split: cres.splits)
  have r: "remote_mine (rme_sha256d e) job start = Some n" "taken = remote_submit_share (rme_post e) (rm_gw_ip st) job n"
    "ml_hashes l' = ml_hashes l + (ucast (n - start) + 1)"
    using assms(1) job by (auto simp: remote_miner_task_def Let_def hashes_tried_def split: option.splits)
  have u: "unat (start + 1000) = unat start + 1000" using assms(2) by (simp add: unat_word_ariths)
  then have "start \<le> start + 1000" by (simp add: word_le_nat_alt)
  from mine_from_spec[OF this, of "rme_sha256d e" job] r(1)
  have m: "start \<le> n" "n < start + 1000" "check_pow (rme_sha256d e) (remote_header job n) (rj_target job) (rj_target_len job)"
    "\<forall>k. start \<le> k \<and> k < n \<longrightarrow> \<not> check_pow (rme_sha256d e) (remote_header job k) (rj_target job) (rj_target_len job)"
    by (auto simp: remote_mine_def)
  have "unat (n - start) = unat n - unat start" using m(1) by (simp add: unat_sub)
  then have "unat (n - start) < 1000" using m(1,2) u by (simp add: word_le_nat_alt word_less_nat_alt)
  then show ?thesis using job m r(2,3) by (simp add: remote_submit_share_def)
qed

text \<open>Starting again for the same gateway changes nothing, as long as its address fits the buffer.\<close>

theorem remote_start_idempotent:
  assumes "remote_miner_start buffer task_ok gw st = (True, st')" "length gw \<le> 15" "CHR 0x00 \<notin> set gw"
  shows "remote_miner_start b ok gw st' = (True, st')"
proof -
  have "rm_running st' \<and> rm_gw_ip st' = gw"
    using assms by (auto simp: remote_miner_start_def free_stack_def c_strncpy_def Let_def split: if_splits option.splits)
  then show ?thesis by (simp add: remote_miner_start_def)
qed

text \<open>
  Stopping frees the stack of the task without waiting for its end: after a stop, the task that the start has
  created still runs, on memory that is free; and a start that gets this block again lets two tasks run on
  one stack.
\<close>

theorem remote_stop_frees_live_stack:
  assumes "remote_miner_start (Some a) True gw remote_miner_boot = (True, st)"
  defines "st1 \<equiv> remote_miner_stop st"
  shows "a \<in> set (rm_live st1) \<and> a \<notin> set (rm_heap st1) \<and>
    (\<exists>st2. remote_miner_start (Some a) True gw2 st1 = (True, st2) \<and> rm_live st2 = [a, a])"
  using assms by (auto simp: remote_miner_start_def remote_miner_stop_def free_stack_def remote_miner_boot_def Let_def)

section \<open>The server of the API\<close>

text \<open>The variables of other files that the status page reads, and what the system says of its memory.\<close>

record debug_status =
  db_portal_running :: bool
  db_portal_start_called :: bool
  db_portal_start_result :: int
  db_start_services_called :: bool
  db_start_ap_services_called :: bool
  db_sta_got_ip :: bool
  db_ap_started :: bool
  db_free_heap :: u32
  db_min_free_heap :: u32
  db_free_internal :: u32
  db_largest_internal :: u32
  db_free_spiram :: u32
  db_dns :: "u32 list"
  db_sta_ip :: u32
  db_sta_gw :: u32

definition api_get_debug :: "bool \<Rightarrow> bool \<Rightarrow> debug_status \<Rightarrow> http_resp" where
  "api_get_debug identity_initialized server_running d = json_resp S200 (JObj (
     [(''portal_running'', JBool (db_portal_running d)), (''portal_start_called'', JBool (db_portal_start_called d)),
      (''portal_start_result'', json_int (db_portal_start_result d)),
      (''start_services_called'', JBool (db_start_services_called d)),
      (''start_ap_services_called'', JBool (db_start_ap_services_called d)),
      (''sta_got_ip'', JBool (db_sta_got_ip d)), (''ap_started'', JBool (db_ap_started d)),
      (''free_heap'', json_int (uint (db_free_heap d))), (''min_free_heap'', json_int (uint (db_min_free_heap d))),
      (''free_internal'', json_int (uint (db_free_internal d))), (''largest_internal'', json_int (uint (db_largest_internal d))),
      (''free_spiram'', json_int (uint (db_free_spiram d))),
      (''dns0'', JStr (ip_str (db_dns d ! 0))), (''dns1'', JStr (ip_str (db_dns d ! 1))), (''dns2'', JStr (ip_str (db_dns d ! 2))),
      (''sta_ip'', JStr (ip_str (db_sta_ip d))), (''sta_gw'', JStr (ip_str (db_sta_gw d))),
      (''identity_initialized'', JBool identity_initialized), (''api_server_running'', JBool server_running)]))"

definition api_get_identity_debug :: "tollgate_identity option \<Rightarrow> http_resp" where
  "api_get_identity_debug ident = json_resp S200 (JObj (
     case ident of
       Some i \<Rightarrow> (''initialized'', JBool (id_initialized i)) #
         (if id_initialized i then
            [(''locking_pubkey'', JStr (if id_locking_pubkey_hex i \<noteq> [] then id_locking_pubkey_hex i else ''(empty)'')),
             (''npub'', JStr (id_npub_hex i)), (''ssid'', JStr (id_ap_ssid i))]
          else [])
     | None \<Rightarrow> [(''initialized'', JBool False)]))"

datatype api_method = Api_GET | Api_POST

datatype api_handler = Api_Discovery | Api_Payment | Api_Mints | Api_Usage | Api_Whoami | Api_Wallet | Api_Wallet_Swap
  | Api_Wallet_Send | Api_Mining_Job | Api_Mining_Share | Api_Mining_Stats | Api_Mining_Pubkey | Api_Market | Api_Debug | Api_Identity

type_synonym uri = "string \<times> api_method \<times> api_handler"

definition api_uris :: "uri list" where
  "api_uris = [(''/mining/pubkey'', Api_GET, Api_Mining_Pubkey), (''/identity'', Api_GET, Api_Identity),
     (''/'', Api_GET, Api_Discovery), (''/debug'', Api_GET, Api_Debug), (''/'', Api_POST, Api_Payment),
     (''/mints'', Api_GET, Api_Mints), (''/usage'', Api_GET, Api_Usage), (''/whoami'', Api_GET, Api_Whoami),
     (''/wallet'', Api_GET, Api_Wallet), (''/wallet/swap'', Api_POST, Api_Wallet_Swap),
     (''/wallet/send'', Api_POST, Api_Wallet_Send), (''/market'', Api_GET, Api_Market)]"

definition api_mining_uris :: "uri list" where
  "api_mining_uris = [(''/mining/job'', Api_GET, Api_Mining_Job), (''/mining/share'', Api_POST, Api_Mining_Share),
     (''/mining/stats'', Api_GET, Api_Mining_Stats)]"

text \<open>
  The web server of the platform is given by \<open>httpd_start\<close>, which takes the size of the table of handlers, and
  \<open>register\<close>, whose result the code does not look at.
\<close>

definition tollgate_api_start :: "(nat \<Rightarrow> 's option) \<Rightarrow> (uri \<Rightarrow> 's \<Rightarrow> 's) \<Rightarrow> bool \<Rightarrow> 's option \<Rightarrow> bool \<times> 's option" where
  "tollgate_api_start httpd_start register mining_enabled server =
     (case server of
        Some srv \<Rightarrow> (True, Some srv)
      | None \<Rightarrow>
          (case httpd_start 16 of
             None \<Rightarrow> (False, None)
           | Some srv \<Rightarrow>
               (let srv1 = fold register api_uris srv
                in (True, Some (if mining_enabled then fold register api_mining_uris srv1 else srv1)))))"

definition tollgate_api_stop :: "'s option \<Rightarrow> 's option" where
  "tollgate_api_stop server = None"

text \<open>
  A web server that takes a handler while its table of sixteen has room and no other has the path and method
  ends up with every handler of the API: none is refused, and those for miners are there exactly when mining is
  enabled.
\<close>

lemma registered_all:
  assumes "\<And>s u. length (handlers s) < 16 \<Longrightarrow> (fst u, fst (snd u)) \<notin> set (map (\<lambda>(p, m, _). (p, m)) (handlers s)) \<Longrightarrow>
      handlers (register u s) = handlers s @ [u]"
    and "distinct (map (\<lambda>(p, m, _). (p, m)) (handlers srv @ us))" "length (handlers srv) + length us \<le> 16"
  shows "handlers (fold register us srv) = handlers srv @ us"
  using assms(2,3)
proof (induction us arbitrary: srv)
  case (Cons u us)
  obtain p m h where u: "u = (p, m, h)" by (cases u)
  have "handlers (register u srv) = handlers srv @ [u]"
    using Cons.prems u by (intro assms(1)) auto
  then show ?case using Cons.IH[of "register u srv"] Cons.prems by simp
qed simp

theorem api_handlers_registered:
  assumes "httpd_start 16 = Some srv0" "handlers srv0 = []"
    and law: "\<And>s u. length (handlers s) < 16 \<Longrightarrow> (fst u, fst (snd u)) \<notin> set (map (\<lambda>(p, m, _). (p, m)) (handlers s)) \<Longrightarrow>
      handlers (register u s) = handlers s @ [u]"
  shows "\<exists>srv. tollgate_api_start httpd_start register mining None = (True, Some srv) \<and>
    handlers srv = api_uris @ (if mining then api_mining_uris else [])"
proof -
  have d: "distinct (map (\<lambda>(p, m, _). (p, m)) (api_uris @ api_mining_uris))" by (simp add: api_uris_def api_mining_uris_def)
  have n: "length api_uris + length api_mining_uris \<le> 16" by (simp add: api_uris_def api_mining_uris_def)
  have b: "handlers (fold register api_uris srv0) = api_uris"
    using registered_all[of handlers register srv0 api_uris, OF law] assms(2) d n by simp
  have "handlers (fold register api_mining_uris (fold register api_uris srv0)) = api_uris @ api_mining_uris"
    using registered_all[of handlers register "fold register api_uris srv0" api_mining_uris, OF law] d n unfolding b by simp
  then show ?thesis using b assms(1) by (simp add: tollgate_api_start_def Let_def)
qed

end
