(* ===== verification/Spec2Isabelle.thy ===== *)
theory Spec2Isabelle
  imports TG_Main TG_SignedEvent TG_Sync TG_Nip04 TG_Ehash TG_Payout TG_Scan TG_Miner
    TG_Input TG_Display TG_Tasks
begin

text \<open>
  \<^bold>\<open>TollGate: an access point that sells network access.\<close>

  The firmware turns an ESP32 into a WiFi access point whose clients are cut off until they pay with
  Cashu tokens or with mining shares. This development models the program's own C code as HOL functions
  and proves how the parts behave, alone and together.

  \<^bold>\<open>Parts of the program and their theories.\<close> Sources are relative to \<^verbatim>\<open>src/\<close>; \<^verbatim>\<open>core/\<close> stands for
  \<^verbatim>\<open>components/tollgate_core/src/\<close> and \<^verbatim>\<open>relay/\<close> for \<^verbatim>\<open>components/wisp_relay/\<close>.

  \<^item> \<open>TG_Prelude\<close>: machine integers, the outcome type \<open>cres\<close>, search loops over arrays, the two array
    idioms of the code (a counted prefix, slots with an \<open>active\<close> flag), and two interfaces: the locale
    \<open>ip_registry\<close> of a bounded set of client addresses and the locale \<open>codec\<close> of a self-delimiting
    encoding. \<open>TG_Bytes\<close>, \<open>TG_CString\<close>, \<open>TG_HexText\<close>, \<open>TG_Json\<close>, \<open>TG_Double\<close>: byte orders, the C library
    functions on text that the code calls, numerals, JSON trees as cJSON presents them, and doubles as
    rationals rounded to 53 bits.
  \<^item> \<open>TG_Dns\<close> (\<^verbatim>\<open>core/tollgate_core_dns.c\<close>): the captive DNS server. Name parsing may not end and is
    therefore a partial function into option.
  \<^item> \<open>TG_Firewall\<close> (\<^verbatim>\<open>core/tollgate_core_firewall.c\<close>): client table and packet filter. The DNS list and the
    client table both interpret \<open>ip_registry\<close>.
  \<^item> \<open>TG_Session\<close> (\<^verbatim>\<open>core/tollgate_core_session.c\<close>): ten session slots, their expiry, and the agreement
    with firewall and DNS.
  \<^item> \<open>TG_Cashu\<close> (\<^verbatim>\<open>core/tollgate_core_cashu.c\<close>): token decoding, the check for spent proofs, the allotment.
  \<^item> \<open>TG_Mining\<close> (\<^verbatim>\<open>core/tollgate_core_mining.c\<close>): difficulty, hash price, rewards, the table of miners.
  \<^item> \<open>TG_Core\<close> (\<^verbatim>\<open>core/tollgate_core.c\<close>): payments, the owner, the periodic tick, rewards for shares; the
    reachable states of the gate as an inductive predicate.
  \<^item> \<open>TG_Market\<close> (\<^verbatim>\<open>core/tollgate_core_beacon.c\<close>, \<^verbatim>\<open>core/tollgate_core_market.c\<close>): price beacons and the
    table of neighbouring gates. \<open>TG_MintHealth\<close>, \<open>TG_Client\<close>, \<open>TG_Portal\<close>: mint probing, the client that
    pays an upstream gate, the texts of the captive portal.
  \<^item> \<open>TG_Api\<close> (\<^verbatim>\<open>main/tollgate_api.c\<close> and the platform table of \<^verbatim>\<open>components/tollgate_esp/\<close>): the HTTP API,
    over the sessions, tokens and client messages of the theories above.
  \<^item> \<open>TG_Stratum\<close> (\<^verbatim>\<open>core/tollgate_core_stratum_proxy.c\<close>, \<^verbatim>\<open>core/tollgate_core_stratum_client.c\<close>): the proxy
    that local miners talk to. \<open>TG_Pool\<close> (\<^verbatim>\<open>main/stratum_client.c\<close>, \<^verbatim>\<open>main/remote_miner.c\<close>, the mining and
    wallet handlers of \<^verbatim>\<open>main/tollgate_api.c\<close>): the connection to the pool and mining for an upstream gate.
  \<^item> \<open>TG_Ehash\<close> (\<^verbatim>\<open>components/ehash_relay/\<close>): the packet format of the E-Hash relay, an interpretation of
    \<open>codec\<close>.
  \<^item> \<open>TG_RelayTables\<close> (\<^verbatim>\<open>relay/rate_limiter.c\<close>, \<^verbatim>\<open>relay/sub_manager.c\<close>, \<^verbatim>\<open>relay/ws_server.c\<close>), \<open>TG_Storage\<close>
    (\<^verbatim>\<open>relay/storage_engine.c\<close>, \<^verbatim>\<open>relay/relay_types.c\<close>) and \<open>TG_Nostr\<close> (\<^verbatim>\<open>relay/relay_validator.c\<close>,
    \<^verbatim>\<open>relay/deletion.c\<close>, \<^verbatim>\<open>relay/handlers.c\<close>, \<^verbatim>\<open>relay/router.c\<close>, \<^verbatim>\<open>relay/broadcaster.c\<close>,
    \<^verbatim>\<open>main/local_relay.c\<close>): the Nostr relay. The store interprets the locale \<open>event_store\<close>, on which the
    deletion of events rests.
  \<^item> \<open>TG_Identity\<close> (\<^verbatim>\<open>main/identity.c\<close>), \<open>TG_SignedEvent\<close> (\<^verbatim>\<open>main/nostr_event.c\<close>) and \<open>TG_Nip04\<close>
    (\<^verbatim>\<open>main/nip04.c\<close>): the key of the gate and the addresses derived from it, the events it signs, its
    encrypted messages.
  \<^item> \<open>TG_Config\<close> (\<^verbatim>\<open>main/config.c\<close>), \<open>TG_PortalServer\<close> (\<^verbatim>\<open>main/captive_portal.c\<close>) and \<open>TG_Main\<close>
    (\<^verbatim>\<open>main/tollgate_main.c\<close>): the configuration file, the pages of the portal, and the start, the loss and
    the return of the services as events of the firmware.
  \<^item> \<open>TG_Wallet\<close> (\<^verbatim>\<open>components/nucula_lib/nucula_wallet.cpp\<close>) and \<open>TG_Payout\<close> (\<^verbatim>\<open>main/lightning_payout.c\<close>,
    \<^verbatim>\<open>main/lnurl_pay.c\<close>, \<^verbatim>\<open>main/faucet_client.c\<close>, \<^verbatim>\<open>main/tls_worker.c\<close>): the wallets of the gate, one per mint,
    and the money that leaves and enters them by itself. \<open>TG_Tasks\<close> (the tasks of \<^verbatim>\<open>main/mint_health.c\<close> and
    \<^verbatim>\<open>main/remote_miner.c\<close>, the server of \<^verbatim>\<open>main/tollgate_api.c\<close>): the task that probes the mints and redeems
    queued tokens, as steps interleaved with submissions; starting and stopping the remote miner.
  \<^item> \<open>TG_Mcp\<close> (\<^verbatim>\<open>main/mcp_handler.c\<close>) and \<open>TG_Cvm\<close> (\<^verbatim>\<open>main/cvm_server.c\<close>): remote control of the gate over
    Nostr relays, from the frames of the connection to the tools that change configuration and wallet.
  \<^item> \<open>TG_RelaySel\<close> (\<^verbatim>\<open>main/relay_selector.c\<close>): probing, ordering and failover of relays. \<open>TG_Sync\<close>
    (\<^verbatim>\<open>main/sync_manager.c\<close>, \<^verbatim>\<open>main/wifistr.c\<close>, \<^verbatim>\<open>main/negentropy_adapter.c\<close>): the exchange of events with the
    chosen relays and the announcement of the access point.
  \<^item> \<open>TG_Scan\<close> (\<^verbatim>\<open>main/market.c\<close>, \<^verbatim>\<open>main/beacon_price.c\<close>): scans and advertising around the market table.
    \<open>TG_Miner\<close> (\<^verbatim>\<open>main/sw_miner.c\<close>, \<^verbatim>\<open>main/asic_miner.c\<close>): mining on the device.
  \<^item> \<open>TG_Input\<close> (\<^verbatim>\<open>main/keyboard.c\<close>, \<^verbatim>\<open>main/wifi_setup.c\<close>, \<^verbatim>\<open>main/touch.c\<close>) and \<open>TG_Display\<close>
    (\<^verbatim>\<open>main/display.c\<close>, \<^verbatim>\<open>main/font.c\<close>, \<^verbatim>\<open>components/axs15231b/axs15231b.c\<close>): input on the screen, and the pages with
    their glyphs and QR codes down to the bytes sent to the panel.

  \<^bold>\<open>How code becomes definitions.\<close> A struct is a record, an enum a datatype, a function one definition of
  the same name (with a prefix where several files use the name). State is passed explicitly; a static
  variable is a field of the component's state. \<open>Ok v\<close> is a successful return, \<open>Fail\<close> an error return, and
  \<open>Undef\<close> an execution that reaches an operation C leaves undefined: a null or out-of-range access, a
  shift by the width or more, an out-of-range conversion. Unsigned arithmetic is on words and wraps. An
  array in which the code keeps a count is a list with the count beside it, or the list of the entries
  in use where the rest is never read. A loop that ends is structural recursion or comes with a
  termination proof; there is no fuel. Where the code reads memory it has freed, the text found there is
  the parameter \<open>re_stale\<close>.

  \<^bold>\<open>Parameters.\<close> Code that is not in the repository is an argument of the definitions that use it: cJSON
  parsing and printing, Base64, SHA-256 and the signature check, HTTP and TLS transport, the wallet, the
  ARP table of lwIP, the NVS library, the clocks. What a theorem needs of them is a hypothesis of the
  theorem (that parsing inverts printing on the value at hand, that a hash has 32 bytes, that a value
  set in the NVS is read back), and its witness instantiates them.

  \<^bold>\<open>What is shown.\<close>
  \<^item> Access: in all reachable states of the gate the firewall, the DNS server and the session table agree
    on who is let through; only a payment or a share adds a client; a tick removes exactly the expired
    ones; the packet filter and the DNS server decide accordingly.
  \<^item> Money: a token that a wallet writes is read back, its value is the sum of its proofs, an allotment is
    the number of whole paid steps; a payment changes the state only with a valid token.
  \<^item> Protocols: discovery, session, usage, beacon, job, share and packet formats survive the way from
    their writer to their reader; the share check of the proxy is the comparison of numbers it should be.
  \<^item> Relay: only verified events get into the store, which behaves as a set of ids; a stored event is
    found; subscriptions never outlive their connection; quotas and table bounds hold.
  \<^item> Configuration: every reachable configuration fits the arrays of its struct; a network that is added is
    there after a restart; while the upstream is lost, every known network is tried.
  \<^item> Remote control and relays: what the gate signs passes the check of its own relay; a frame written in
    any number of pieces is read back, and the parser stays inside its buffers; an encrypted message is
    read by its addressee; after three failures of a relay another live one takes its place.
  \<^item> Wallet and payouts: a token that is sent takes exactly its amount out of the wallet; a payout costs at
    most the amount and the tolerated fee; a submitted token is handed to the wallet once or waits.
  \<^item> Screen: the typed text stays inside its array; the QR code carries name and password exactly and fits
    the screen; a refresh sends the frame buffer.
  \<^item> Deviations: several theorems state precisely where the code does not do what it means to, among
    them the free \<^verbatim>\<open>/grant_access\<close> page, the replay of tokens while the mint is down, the shifted submit
    parameters, the refusal of present-day events, the deletion of other authors' events, the services
    that never start again, the unsigned request that sends money, the synchronisation that stores no
    event, the miner that submits its first hash, the payout pool that wraps below the reserve, the tokens
    dropped when their mint does not answer, and the miner's stack that is freed under its task.

  \<^bold>\<open>Not modelled.\<close> Allocation failures (unless a definition takes the outcome as an argument), logging,
  task scheduling, delays and mutex time-outs (every
  operation under a lock is one step); sockets beyond the texts they carry; the HTML texts of the pages;
  the cryptographic and wallet libraries behind the parameters; pins and initialisation commands of the
  panel; the vendored QR code generator; the geohash encoder, which nothing calls; the standalone miner,
  which copies code modelled here.
\<close>

end
